(* ===== verification/Prelude.thy ===== *)
theory Prelude
  imports "HOL-Library.Word"
begin

unbundle bit_operations_syntax

text \<open>
  Shared vocabulary of the level-ip development: the fixed-width C types, byte memory and
  its accesses, the byte-order conversions of a little-endian host, the interface of a
  packed C struct as a locale, and the generic lemmas the component theories use.

  C conventions used by every theory:
  \<^item> an unsigned C integer is a word of its width, so that arithmetic wraps;
  \<^item> a signed \<open>int\<close> is an \<open>int\<close>: signed overflow is undefined in C, and both
    agree wherever C is defined;
  \<^item> memory is a list of bytes and a pointer into it an offset; a multi-byte integer is laid
    out least significant byte first (the code assumes little-endian hosts, see the
    bit-field comment in \<open>include/ip.h\<close>).
\<close>

type_synonym u8 = "8 word"
type_synonym u16 = "16 word"
type_synonym u32 = "32 word"
type_synonym u64 = "64 word"
type_synonym bytes = "u8 list"

named_theorems wire_simps "layout of packed structs"
named_theorems net_frame "fields a lower layer leaves alone"

section \<open>Error numbers\<close>

abbreviation (input) EAGAIN :: int where "EAGAIN \<equiv> 11"
abbreviation (input) EBADF :: int where "EBADF \<equiv> 9"
abbreviation (input) EINVAL :: int where "EINVAL \<equiv> 22"
abbreviation (input) EPIPE :: int where "EPIPE \<equiv> 32"
abbreviation (input) EOPNOTSUPP :: int where "EOPNOTSUPP \<equiv> 95"
abbreviation (input) EAFNOSUPPORT :: int where "EAFNOSUPPORT \<equiv> 97"
abbreviation (input) EADDRINUSE :: int where "EADDRINUSE \<equiv> 98"
abbreviation (input) EADDRNOTAVAIL :: int where "EADDRNOTAVAIL \<equiv> 99"
abbreviation (input) ECONNRESET :: int where "ECONNRESET \<equiv> 104"
abbreviation (input) EISCONN :: int where "EISCONN \<equiv> 106"
abbreviation (input) ETIMEDOUT :: int where "ETIMEDOUT \<equiv> 110"
abbreviation (input) ECONNREFUSED :: int where "ECONNREFUSED \<equiv> 111"
abbreviation (input) EALREADY :: int where "EALREADY \<equiv> 114"
abbreviation (input) EINPROGRESS :: int where "EINPROGRESS \<equiv> 115"

abbreviation (input) AF_INET :: u8 where "AF_INET \<equiv> 2"
abbreviation (input) AF_INET6 :: u8 where "AF_INET6 \<equiv> 10"

section \<open>Integers in memory\<close>

definition le16 :: "u16 \<Rightarrow> bytes" where
  "le16 w = [ucast w, ucast (drop_bit 8 w)]"

definition le32 :: "u32 \<Rightarrow> bytes" where
  "le32 w = [ucast w, ucast (drop_bit 8 w), ucast (drop_bit 16 w), ucast (drop_bit 24 w)]"

definition w16 :: "u8 \<Rightarrow> u8 \<Rightarrow> u16" where
  "w16 a b = ucast a OR push_bit 8 (ucast b)"

definition w32 :: "u8 \<Rightarrow> u8 \<Rightarrow> u8 \<Rightarrow> u8 \<Rightarrow> u32" where
  "w32 a b c d = ucast a OR push_bit 8 (ucast b) OR push_bit 16 (ucast c) OR push_bit 24 (ucast d)"

definition get16 :: "bytes \<Rightarrow> nat \<Rightarrow> u16" where
  "get16 b i = w16 (b ! i) (b ! (i + 1))"

definition get32 :: "bytes \<Rightarrow> nat \<Rightarrow> u32" where
  "get32 b i = w32 (b ! i) (b ! (i + 1)) (b ! (i + 2)) (b ! (i + 3))"

lemma length_le16 [simp]: "length (le16 w) = 2"
  by (simp add: le16_def)

lemma length_le32 [simp]: "length (le32 w) = 4"
  by (simp add: le32_def)

lemma w16_le16 [simp]: "w16 (ucast w) (ucast (drop_bit 8 w)) = w"
  by (rule bit_word_eqI) (auto simp: w16_def bit_simps)

lemma ucast_w16 [simp]: "ucast (w16 a b) = a"
  by (rule bit_word_eqI) (auto simp: w16_def bit_simps)

lemma ucast_drop_w16 [simp]: "ucast (drop_bit 8 (w16 a b)) = b"
  by (rule bit_word_eqI) (auto simp: w16_def bit_simps dest: bit_imp_le_length)

lemma w32_le32 [simp]:
  "w32 (ucast w) (ucast (drop_bit 8 w)) (ucast (drop_bit 16 w)) (ucast (drop_bit 24 w)) = w"
proof (rule bit_word_eqI)
  fix n :: nat
  assume "n < LENGTH(32)"
  then consider "n < 8" | "8 \<le> n" "n < 16" | "16 \<le> n" "n < 24" | "24 \<le> n" "n < 32"
    by fastforce
  then show "bit (w32 (ucast w) (ucast (drop_bit 8 w)) (ucast (drop_bit 16 w))
      (ucast (drop_bit 24 w))) n = bit w n"
    by cases (auto simp: w32_def bit_simps)
qed

lemma ucast_w32 [simp]:
  "ucast (w32 a b c d) = a"
  "ucast (drop_bit 8 (w32 a b c d)) = b"
  "ucast (drop_bit 16 (w32 a b c d)) = c"
  "ucast (drop_bit 24 (w32 a b c d)) = d"
  by (rule bit_word_eqI; auto simp: w32_def bit_simps dest: bit_imp_le_length)+

text \<open>Two 4-bit bit-fields of a byte, the first declared in the low half.\<close>

definition nibs :: "4 word \<Rightarrow> 4 word \<Rightarrow> u8" where
  "nibs a b = ucast a OR push_bit 4 (ucast b)"

lemma nibs_sel [simp]:
  "(ucast (nibs a b) :: 4 word) = a" "(ucast (drop_bit 4 (nibs a b)) :: 4 word) = b"
  by (rule bit_word_eqI; auto simp: nibs_def bit_simps dest: bit_imp_le_length)+

lemma u8_less: "unat (x :: u8) < 256"
  and u16_less: "unat (y :: u16) < 65536"
  and u32_less: "unat (z :: u32) < 4294967296"
  using unsigned_less [where 'a = nat, of x] unsigned_less [where 'a = nat, of y]
    unsigned_less [where 'a = nat, of z] by simp_all

lemma uint_pos_iff: "0 < uint (x :: 'a :: len word) \<longleftrightarrow> 0 < unat x"
proof -
  have "int (unat x) = uint x" by simp
  then show ?thesis by linarith
qed

lemma unat_NOT_u16: "unat (NOT x :: u16) = 65535 - unat x"
proof -
  have "NOT x = 65535 - x" by (simp add: not_eq_complement)
  moreover have "x \<le> 65535" using u16_less [of x] by (simp add: word_le_nat_alt)
  ultimately show ?thesis by (simp add: unat_sub)
qed

section \<open>Byte order\<close>

text \<open>\<open>htons\<close>/\<open>ntohs\<close> and \<open>htonl\<close>/\<open>ntohl\<close> swap the bytes of a little-endian host.\<close>

definition htons :: "u16 \<Rightarrow> u16" where
  "htons w = w16 (ucast (drop_bit 8 w)) (ucast w)"

definition htonl :: "u32 \<Rightarrow> u32" where
  "htonl w = w32 (ucast (drop_bit 24 w)) (ucast (drop_bit 16 w)) (ucast (drop_bit 8 w)) (ucast w)"

abbreviation ntohs :: "u16 \<Rightarrow> u16" where "ntohs \<equiv> htons"
abbreviation ntohl :: "u32 \<Rightarrow> u32" where "ntohl \<equiv> htonl"

lemma htons_htons [simp]: "htons (htons w) = w"
  by (simp add: htons_def)

lemma htonl_htonl [simp]: "htonl (htonl w) = w"
  by (simp add: htonl_def)

lemma le16_htons: "le16 (htons w) = rev (le16 w)"
  by (simp add: le16_def htons_def)

lemma le32_htonl: "le32 (htonl w) = rev (le32 w)"
  by (simp add: le32_def htonl_def)

section \<open>Copying into memory\<close>

definition put_bytes :: "nat \<Rightarrow> bytes \<Rightarrow> bytes \<Rightarrow> bytes" where
  "put_bytes off src dst = take off dst @ src @ drop (off + length src) dst"

definition get_bytes :: "nat \<Rightarrow> nat \<Rightarrow> bytes \<Rightarrow> bytes" where
  "get_bytes off n b = take n (drop off b)"

lemma length_put_bytes [simp]:
  "off + length src \<le> length dst \<Longrightarrow> length (put_bytes off src dst) = length dst"
  by (simp add: put_bytes_def)

lemma get_put_bytes:
  "off \<le> length dst \<Longrightarrow> get_bytes off (length src) (put_bytes off src dst) = src"
  by (simp add: put_bytes_def get_bytes_def)

lemma get_put_bytes_after:
  "off + length src \<le> length dst \<Longrightarrow> off + length src \<le> o'
   \<Longrightarrow> get_bytes o' n (put_bytes off src dst) = get_bytes o' n dst"
  by (simp add: put_bytes_def get_bytes_def min_def)

lemma get_put_bytes_before:
  "off \<le> length dst \<Longrightarrow> o' + n \<le> off
   \<Longrightarrow> get_bytes o' n (put_bytes off src dst) = get_bytes o' n dst"
  by (simp add: put_bytes_def get_bytes_def take_drop min_def)

lemma put_bytes_append:
  "i + length a + length b \<le> length m
   \<Longrightarrow> put_bytes (i + length a) b (put_bytes i a m) = put_bytes i (a @ b) m"
  by (simp add: put_bytes_def ac_simps)

lemma drop_put_bytes: "i \<le> length m \<Longrightarrow> drop i (put_bytes i a m) = a @ drop (i + length a) m"
  by (simp add: put_bytes_def)

lemma drop_put_bytes_after:
  "off + length src \<le> length dst \<Longrightarrow> off + length src \<le> o'
   \<Longrightarrow> drop o' (put_bytes off src dst) = drop o' dst"
  by (simp add: put_bytes_def min_def)

section \<open>Filtering maps\<close>

lemma set_map_filter: "y \<in> set (List.map_filter g xs) \<longleftrightarrow> (\<exists>x \<in> set xs. g x = Some y)"
  by (induction xs) (auto simp: map_filter_simps split: option.splits)

lemma distinct_map_filter:
  assumes "distinct (map f xs)" and "\<And>x y. g x = Some y \<Longrightarrow> k y = f x"
  shows "distinct (map k (List.map_filter g xs))"
  using assms(1)
proof (induction xs)
  case (Cons x xs)
  have "k ` set (List.map_filter g xs) \<subseteq> f ` set xs"
    using assms(2) by (fastforce simp: set_map_filter)
  with Cons show ?case
    by (auto simp: map_filter_simps assms(2) split: option.splits)
qed (simp add: map_filter_simps)

section \<open>Packed structs\<close>

text \<open>
  A packed C struct is a record with an encoding into exactly \<open>sz\<close> bytes and a decoding
  that reads them back; \<open>ok\<close> says that its array members have their declared lengths. \<open>ptr->field = v\<close> on a struct at offset \<open>off\<close> is a load, a
  record update and a store.
\<close>

definition load :: "(bytes \<Rightarrow> 's) \<Rightarrow> nat \<Rightarrow> bytes \<Rightarrow> 's" where
  "load dec off b = dec (drop off b)"

definition store :: "('s \<Rightarrow> bytes) \<Rightarrow> nat \<Rightarrow> 's \<Rightarrow> bytes \<Rightarrow> bytes" where
  "store enc off s b = put_bytes off (enc s) b"

locale packed_struct =
  fixes enc :: "'s \<Rightarrow> bytes" and dec :: "bytes \<Rightarrow> 's" and sz :: nat and ok :: "'s \<Rightarrow> bool"
  assumes enc_length: "ok s \<Longrightarrow> length (enc s) = sz"
    and dec_enc: "ok s \<Longrightarrow> dec (enc s @ rest) = s"
begin

lemma length_store: "ok s \<Longrightarrow> off + sz \<le> length b \<Longrightarrow> length (store enc off s b) = length b"
  by (simp add: store_def enc_length)

lemma load_store: "ok s \<Longrightarrow> off \<le> length b \<Longrightarrow> load dec off (store enc off s b) = s"
  by (simp add: load_def store_def put_bytes_def dec_enc)

lemma enc_inj: "ok s \<Longrightarrow> ok s' \<Longrightarrow> enc s = enc s' \<Longrightarrow> s = s'"
  using dec_enc [of s "[]"] dec_enc [of s' "[]"] by simp

lemma load_store_after:
  "ok s \<Longrightarrow> off + sz \<le> length b \<Longrightarrow> off + sz \<le> o'
   \<Longrightarrow> load d o' (store enc off s b) = load d o' b"
  by (simp add: load_def store_def drop_put_bytes_after enc_length)

lemma get_bytes_store:
  "ok s \<Longrightarrow> off \<le> length b \<Longrightarrow> get_bytes off sz (store enc off s b) = enc s"
  using get_put_bytes [of off b "enc s"] by (simp add: store_def enc_length)

lemma get_bytes_store_after:
  "ok s \<Longrightarrow> off + sz \<le> length b \<Longrightarrow> off + sz \<le> o'
   \<Longrightarrow> get_bytes o' n (store enc off s b) = get_bytes o' n b"
  by (simp add: store_def get_put_bytes_after enc_length)

end

end
