(* ===== verification/Net_Types.thy ===== *)
theory Net_Types
  imports Prelude
begin

text \<open>
  Structs the layers share: network devices (\<open>include/netdev.h\<close>), route entries
  (\<open>include/route.h\<close>) and the address helpers of \<open>include/ipv6.h\<close>. An IPv6 address is its
  16 bytes; the unions of an IPv4 and an IPv6 address are 16 bytes of which the IPv4 member
  is the first four. The two devices the program creates are named by \<open>devid\<close>.
\<close>

type_synonym in6_addr = bytes

datatype devid = Dev_loop | Dev_tap

record netdev =
  dev_addr :: u32
  addr6_ll :: in6_addr
  addr6_global :: in6_addr
  dev_prefix_len :: u8
  addr6_global_valid :: bool
  addr6_ll_state :: u8
  addr6_global_state :: u8
  addr6_valid_lifetime :: u32
  addr6_preferred_lifetime :: u32
  addr6_pref_timer :: "nat option"
  addr6_valid_timer :: "nat option"
  dev_addr_len :: u8
  dev_hwaddr :: bytes
  dev_mtu :: u32
  dev_mtu6 :: u32

record rtentry =
  rt_family :: u8
  rt_dst :: bytes
  rt_gateway :: bytes
  rt_netmask :: u32
  rt_prefix_len :: u8
  rt_flags :: u8
  rt_metric :: u32
  rt_pmtu :: u16
  rt_dev :: devid

abbreviation (input) RT_LOOPBACK :: u8 where "RT_LOOPBACK \<equiv> 0x01"
abbreviation (input) RT_GATEWAY :: u8 where "RT_GATEWAY \<equiv> 0x02"
abbreviation (input) RT_HOST :: u8 where "RT_HOST \<equiv> 0x04"

abbreviation (input) ETH_HDR_LEN :: nat where "ETH_HDR_LEN \<equiv> 14"
abbreviation (input) IP_HDR_LEN :: nat where "IP_HDR_LEN \<equiv> 20"
abbreviation (input) IPV6_HDR_LEN :: nat where "IPV6_HDR_LEN \<equiv> 40"
abbreviation (input) ETH_P_IP :: u16 where "ETH_P_IP \<equiv> 0x0800"
abbreviation (input) ETH_P_ARP :: u16 where "ETH_P_ARP \<equiv> 0x0806"
abbreviation (input) ETH_P_IPV6 :: u16 where "ETH_P_IPV6 \<equiv> 0x86dd"
abbreviation (input) IP_TCP :: u8 where "IP_TCP \<equiv> 6"
abbreviation (input) IP_UDP :: u8 where "IP_UDP \<equiv> 17"
abbreviation (input) ICMPV4 :: u8 where "ICMPV4 \<equiv> 1"

section \<open>Address unions\<close>

definition un_v4 :: "bytes \<Rightarrow> u32" where
  "un_v4 u = get32 u 0"

definition set_v4 :: "u32 \<Rightarrow> bytes \<Rightarrow> bytes" where
  "set_v4 a u = put_bytes 0 (le32 a) u"

lemma un_v4_set_v4 [simp]: "un_v4 (set_v4 a u) = a"
  by (simp add: un_v4_def set_v4_def put_bytes_def get32_def le32_def)

section \<open>IPv6 addresses\<close>

definition in6_zero :: in6_addr where
  "in6_zero = replicate 16 0"

definition ipv6_addr_equal :: "in6_addr \<Rightarrow> in6_addr \<Rightarrow> bool" where
  "ipv6_addr_equal a b = (take 16 a = take 16 b)"

definition ipv6_addr_is_unspecified :: "in6_addr \<Rightarrow> bool" where
  "ipv6_addr_is_unspecified a = ipv6_addr_equal a in6_zero"

definition ipv6_addr_is_multicast :: "in6_addr \<Rightarrow> bool" where
  "ipv6_addr_is_multicast a = (a ! 0 = 0xff)"

definition ipv6_addr_is_linklocal :: "in6_addr \<Rightarrow> bool" where
  "ipv6_addr_is_linklocal a = (a ! 0 = 0xfe \<and> a ! 1 AND 0xc0 = 0x80)"

lemma ipv6_addr_equal_iff:
  "length a = 16 \<Longrightarrow> length b = 16 \<Longrightarrow> ipv6_addr_equal a b \<longleftrightarrow> a = b"
  by (simp add: ipv6_addr_equal_def)

end
