(* ===== verification/List_Head.thy ===== *)
theory List_Head
  imports Prelude
begin

text \<open>
  The circular doubly linked lists of \<open>include/list.h\<close>, on an explicit store: a node is an
  address, the store gives its \<open>next\<close> and \<open>prev\<close> pointers, and every operation is the
  sequence of pointer assignments of the source. \<open>dlist h head xs\<close> says that the list
  anchored at \<open>head\<close> holds exactly the nodes \<open>xs\<close>, in order. The interface locale states
  what the queues of the stack rely on; its interpretation discharges it for these
  operations, which is why the other theories model a queue as a HOL list.
\<close>

record list_store =
  nxt :: "nat \<Rightarrow> nat"
  prv :: "nat \<Rightarrow> nat"

section \<open>Operations\<close>

definition set_next :: "nat \<Rightarrow> nat \<Rightarrow> list_store \<Rightarrow> list_store" where
  "set_next a v h = h\<lparr>nxt := (nxt h)(a := v)\<rparr>"

definition set_prev :: "nat \<Rightarrow> nat \<Rightarrow> list_store \<Rightarrow> list_store" where
  "set_prev a v h = h\<lparr>prv := (prv h)(a := v)\<rparr>"

definition list_init :: "nat \<Rightarrow> list_store \<Rightarrow> list_store" where
  "list_init head h = set_prev head head (set_next head head h)"

definition list_add :: "nat \<Rightarrow> nat \<Rightarrow> list_store \<Rightarrow> list_store" where
  "list_add new head h0 =
     (let h1 = set_prev (nxt h0 head) new h0;
          h2 = set_next new (nxt h1 head) h1;
          h3 = set_prev new head h2
      in set_next head new h3)"

definition list_add_tail :: "nat \<Rightarrow> nat \<Rightarrow> list_store \<Rightarrow> list_store" where
  "list_add_tail new head h0 =
     (let h1 = set_next (prv h0 head) new h0;
          h2 = set_prev new (prv h1 head) h1;
          h3 = set_next new head h2
      in set_prev head new h3)"

definition list_del :: "nat \<Rightarrow> list_store \<Rightarrow> list_store" where
  "list_del elem h =
     (let prev = prv h elem; next = nxt h elem
      in set_prev next prev (set_next prev next h))"

definition list_empty :: "nat \<Rightarrow> list_store \<Rightarrow> bool" where
  "list_empty head h = (nxt h head = head)"

definition list_first_entry :: "nat \<Rightarrow> list_store \<Rightarrow> nat" where
  "list_first_entry head h = nxt h head"

text \<open>\<open>for (pos = (head)->next; pos != (head); pos = pos->next)\<close>: the nodes visited from
  \<open>pos\<close> on. A store in which the walk never comes back to the anchor gives \<open>None\<close>.\<close>

partial_function (option) list_for_each :: "list_store \<Rightarrow> nat \<Rightarrow> nat \<Rightarrow> nat list option" where
  "list_for_each h head pos =
     (if pos = head then Some []
      else Option.bind (list_for_each h head (nxt h pos)) (\<lambda>ps. Some (pos # ps)))"

section \<open>The representation\<close>

fun path :: "list_store \<Rightarrow> nat \<Rightarrow> nat list \<Rightarrow> nat \<Rightarrow> bool" where
  "path h a [] b \<longleftrightarrow> nxt h a = b \<and> prv h b = a"
| "path h a (x # xs) b \<longleftrightarrow> nxt h a = x \<and> prv h x = a \<and> path h x xs b"

definition dlist :: "list_store \<Rightarrow> nat \<Rightarrow> nat list \<Rightarrow> bool" where
  "dlist h head xs \<longleftrightarrow> distinct (head # xs) \<and> path h head xs head"

lemma store_simps [simp]:
  "nxt (set_next a v h) x = (if x = a then v else nxt h x)"
  "prv (set_next a v h) x = prv h x"
  "nxt (set_prev a v h) x = nxt h x"
  "prv (set_prev a v h) x = (if x = a then v else prv h x)"
  by (simp_all add: set_next_def set_prev_def)

lemma path_append: "path h a (xs @ y # ys) b \<longleftrightarrow> path h a xs y \<and> path h y ys b"
  by (induction xs arbitrary: a) auto

lemma path_set_next:
  "c \<notin> set (a # xs) \<Longrightarrow> path (set_next c v h) a xs b = path h a xs b"
  by (induction xs arbitrary: a) auto

lemma path_set_prev:
  "c \<notin> set (xs @ [b]) \<Longrightarrow> path (set_prev c v h) a xs b = path h a xs b"
  by (induction xs arbitrary: a) auto

lemma path_nxt: "path h a xs b \<Longrightarrow> nxt h a = hd (xs @ [b])"
  by (cases xs) auto

lemma path_prv: "path h a xs b \<Longrightarrow> prv h b = last (a # xs)"
  by (induction xs arbitrary: a) auto

lemmas path_frame = path_append path_set_next path_set_prev

lemma list_init_dlist: "dlist (list_init head h) head []"
  by (simp add: dlist_def list_init_def)

lemma list_add_tail_dlist:
  assumes "dlist h head xs" and "n \<notin> set (head # xs)"
  shows "dlist (list_add_tail n head h) head (xs @ [n])"
proof (cases xs rule: rev_cases)
  case Nil
  with assms show ?thesis by (auto simp: dlist_def list_add_tail_def Let_def)
next
  case (snoc ys l)
  then have "prv h head = l"
    using assms(1) path_prv by (fastforce simp: dlist_def)
  with snoc assms show ?thesis
    by (auto simp: dlist_def list_add_tail_def Let_def path_frame)
qed

lemma list_add_dlist:
  assumes "dlist h head xs" and "n \<notin> set (head # xs)"
  shows "dlist (list_add n head h) head (n # xs)"
proof (cases xs)
  case Nil
  with assms show ?thesis by (auto simp: dlist_def list_add_def Let_def)
next
  case (Cons x ys)
  with assms show ?thesis
    by (auto simp: dlist_def list_add_def Let_def path_frame)
qed

lemma list_del_dlist:
  assumes "dlist h head (xs @ e # ys)"
  shows "dlist (list_del e h) head (xs @ ys)"
proof -
  have p: "path h head xs e" "path h e ys head" and d: "distinct (head # xs @ e # ys)"
    using assms by (auto simp: dlist_def path_append)
  have pe: "prv h e = last (head # xs)" "nxt h e = hd (ys @ [head])"
    using p path_prv path_nxt by blast+
  show ?thesis
  proof (cases xs rule: rev_cases; cases ys)
    fix b zs y ws
    assume xs: "xs = zs @ [b]" and ys: "ys = y # ws"
    then show ?thesis
      using p d pe by (auto simp: dlist_def list_del_def Let_def path_frame)
  qed (use p d pe in \<open>auto simp: dlist_def list_del_def Let_def path_frame\<close>)
qed

lemma list_for_each_path:
  assumes "path h a xs head" and "head \<notin> set xs"
  shows "list_for_each h head (nxt h a) = Some xs"
  using assms by (induction xs arbitrary: a) (subst list_for_each.simps; simp)+

lemma list_for_each_dlist:
  "dlist h head xs \<Longrightarrow> list_for_each h head (nxt h head) = Some xs"
  by (simp add: dlist_def list_for_each_path)

lemma dlist_distinct: "dlist h head xs \<Longrightarrow> distinct (head # xs)"
  by (simp add: dlist_def)

lemma dlist_first: "dlist h head (x # xs) \<Longrightarrow> list_first_entry head h = x"
  by (simp add: dlist_def list_first_entry_def)

lemma dlist_empty: "dlist h head xs \<Longrightarrow> list_empty head h = (xs = [])"
  by (cases xs) (auto simp: dlist_def list_empty_def)

section \<open>The interface\<close>

text \<open>What the queues rely on: an anchored sequence of nodes with insertion at either end
  and deletion of any node.\<close>

locale anchored_list =
  fixes repr :: "'h \<Rightarrow> nat \<Rightarrow> nat list \<Rightarrow> bool"
    and init :: "nat \<Rightarrow> 'h \<Rightarrow> 'h"
    and add :: "nat \<Rightarrow> nat \<Rightarrow> 'h \<Rightarrow> 'h"
    and add_tail :: "nat \<Rightarrow> nat \<Rightarrow> 'h \<Rightarrow> 'h"
    and del :: "nat \<Rightarrow> 'h \<Rightarrow> 'h"
    and first :: "nat \<Rightarrow> 'h \<Rightarrow> nat"
    and is_empty :: "nat \<Rightarrow> 'h \<Rightarrow> bool"
    and walk :: "'h \<Rightarrow> nat \<Rightarrow> nat list option"
  assumes repr_init: "repr (init a h) a []"
    and repr_distinct: "repr h a xs \<Longrightarrow> distinct (a # xs)"
    and repr_add: "repr h a xs \<Longrightarrow> n \<notin> set (a # xs) \<Longrightarrow> repr (add n a h) a (n # xs)"
    and repr_add_tail: "repr h a xs \<Longrightarrow> n \<notin> set (a # xs) \<Longrightarrow> repr (add_tail n a h) a (xs @ [n])"
    and repr_del: "repr h a (xs @ e # ys) \<Longrightarrow> repr (del e h) a (xs @ ys)"
    and repr_first: "repr h a (x # xs) \<Longrightarrow> first a h = x"
    and repr_empty: "repr h a xs \<Longrightarrow> is_empty a h = (xs = [])"
    and repr_walk: "repr h a xs \<Longrightarrow> walk h a = Some xs"
begin

text \<open>Appending nodes one by one keeps their order, and a node deleted right after it was
  appended leaves the list as it was.\<close>

lemma add_all_tail:
  "repr h a xs \<Longrightarrow> distinct ns \<Longrightarrow> set ns \<inter> set (a # xs) = {}
   \<Longrightarrow> repr (fold (\<lambda>n. add_tail n a) ns h) a (xs @ ns)"
proof (induction ns arbitrary: h xs)
  case (Cons n ns)
  then have "repr (add_tail n a h) a (xs @ [n])"
    by (auto intro: repr_add_tail)
  then have "repr (fold (\<lambda>n. add_tail n a) ns (add_tail n a h)) a ((xs @ [n]) @ ns)"
    using Cons.prems by (intro Cons.IH) auto
  then show ?case by simp
qed simp

lemma add_tail_then_del:
  "repr h a xs \<Longrightarrow> n \<notin> set (a # xs) \<Longrightarrow> repr (del n (add_tail n a h)) a xs"
  using repr_del [of "add_tail n a h" a xs n "[]"] repr_add_tail [of h a xs n] by simp

lemma dequeue:
  assumes "repr h a (x # xs)"
  shows "first a h = x" and "repr (del (first a h) h) a xs"
  using assms repr_first repr_del [of h a "[]" x xs] by simp_all

lemma queue_order:
  assumes "distinct (a # ns)"
  shows "walk (fold (\<lambda>n. add_tail n a) ns (init a h)) a = Some ns"
  using add_all_tail [OF repr_init, of ns a h] assms repr_walk by fastforce

end

interpretation lh: anchored_list dlist list_init list_add list_add_tail list_del
  list_first_entry list_empty "\<lambda>h head. list_for_each h head (nxt h head)"
  by unfold_locales
    (auto simp: list_init_dlist list_add_dlist list_add_tail_dlist list_del_dlist
      list_for_each_dlist dlist_first dlist_empty dest: dlist_distinct)

section \<open>Properties\<close>



end
