(* ===== verification/Skbuff.thy ===== *)
theory Skbuff
  imports Net_Types List_Head
begin

text \<open>
  Socket buffers and their queues (\<open>include/skbuff.h\<close>, \<open>src/skbuff.c\<close>). A buffer carries its
  memory from \<open>head\<close> to \<open>end\<close> as a byte list; \<open>data\<close> and \<open>payload\<close> are offsets from
  \<open>head\<close>, integers because the code moves \<open>data\<close> below \<open>head\<close> when it pushes too much.
  \<open>skb_frees\<close> counts how often \<open>free\<close> ran on the buffer, so that a double free is a
  count above one. \<open>skb_oob\<close> records that a write went outside \<open>head\<close> to \<open>end\<close>: it corrupts memory
  the buffer does not own, and nothing is said about the bytes. A queue is its nodes in order with the counters the code keeps.
\<close>

record sk_buff =
  skb_rt :: "rtentry option"
  skb_dev :: "devid option"
  skb_refcnt :: int
  skb_protocol :: u16
  skb_len :: u32
  skb_dlen :: u32
  skb_seq :: u32
  skb_end_seq :: u32
  skb_data :: int
  skb_payload :: "int option"
  skb_sacked :: u8
  skb_tcpcsum :: u32
  skb_mem :: bytes
  skb_frees :: nat
  skb_oob :: bool

record sk_buff_head =
  skb_list :: "sk_buff list"
  max_q :: u32
  qlen :: u32

abbreviation (input) MAX_QUEUE :: u32 where "MAX_QUEUE \<equiv> 100"

section \<open>Buffers\<close>

definition skb_end :: "sk_buff \<Rightarrow> int" where
  "skb_end skb = int (length (skb_mem skb))"

definition alloc_skb :: "nat \<Rightarrow> sk_buff" where
  "alloc_skb sz =
     \<lparr>skb_rt = None, skb_dev = None, skb_refcnt = 0, skb_protocol = 0, skb_len = 0, skb_dlen = 0,
      skb_seq = 0, skb_end_seq = 0, skb_data = 0, skb_payload = None, skb_sacked = 0,
      skb_tcpcsum = 0, skb_mem = replicate sz 0, skb_frees = 0, skb_oob = False\<rparr>"

definition free_skb :: "sk_buff \<Rightarrow> sk_buff" where
  "free_skb skb = (if skb_refcnt skb < 1 then skb\<lparr>skb_frees := skb_frees skb + 1\<rparr> else skb)"

definition skb_copy :: "sk_buff \<Rightarrow> sk_buff" where
  "skb_copy skb =
     (let nskb = alloc_skb (length (skb_mem skb))
      in nskb\<lparr>skb_mem := skb_mem skb, skb_data := skb_data skb,
              skb_payload := skb_payload skb, skb_protocol := skb_protocol skb,
              skb_len := skb_len skb, skb_dlen := skb_dlen skb, skb_seq := skb_seq skb,
              skb_end_seq := skb_end_seq skb, skb_dev := skb_dev skb, skb_rt := skb_rt skb,
              skb_sacked := skb_sacked skb, skb_tcpcsum := skb_tcpcsum skb\<rparr>)"

definition skb_reserve :: "sk_buff \<Rightarrow> nat \<Rightarrow> sk_buff" where
  "skb_reserve skb len = skb\<lparr>skb_data := skb_data skb + int len\<rparr>"

definition skb_push :: "sk_buff \<Rightarrow> nat \<Rightarrow> sk_buff" where
  "skb_push skb len =
     skb\<lparr>skb_data := skb_data skb - int len, skb_len := skb_len skb + of_nat len\<rparr>"

definition skb_reset_header :: "sk_buff \<Rightarrow> sk_buff" where
  "skb_reset_header skb =
     skb\<lparr>skb_data := skb_end skb - int (unat (skb_dlen skb)), skb_len := skb_dlen skb\<rparr>"

text \<open>Writing \<open>bs\<close> (or a packed struct) at an offset from \<open>head\<close>, and reading a struct.\<close>

definition skb_put :: "int \<Rightarrow> bytes \<Rightarrow> sk_buff \<Rightarrow> sk_buff" where
  "skb_put off bs skb =
     (if 0 \<le> off \<and> off + int (length bs) \<le> skb_end skb
      then skb\<lparr>skb_mem := put_bytes (nat off) bs (skb_mem skb)\<rparr>
      else skb\<lparr>skb_oob := True\<rparr>)"

definition skb_store :: "('s \<Rightarrow> bytes) \<Rightarrow> int \<Rightarrow> 's \<Rightarrow> sk_buff \<Rightarrow> sk_buff" where
  "skb_store enc off s skb = skb_put off (enc s) skb"

definition skb_load :: "(bytes \<Rightarrow> 's) \<Rightarrow> int \<Rightarrow> sk_buff \<Rightarrow> 's" where
  "skb_load dec off skb = load dec (nat off) (skb_mem skb)"

lemma skb_put_sel [simp]:
  "skb_rt (skb_put off bs skb) = skb_rt skb" "skb_dev (skb_put off bs skb) = skb_dev skb"
  "skb_refcnt (skb_put off bs skb) = skb_refcnt skb"
  "skb_protocol (skb_put off bs skb) = skb_protocol skb"
  "skb_len (skb_put off bs skb) = skb_len skb" "skb_dlen (skb_put off bs skb) = skb_dlen skb"
  "skb_seq (skb_put off bs skb) = skb_seq skb" "skb_end_seq (skb_put off bs skb) = skb_end_seq skb"
  "skb_data (skb_put off bs skb) = skb_data skb" "skb_payload (skb_put off bs skb) = skb_payload skb"
  "skb_sacked (skb_put off bs skb) = skb_sacked skb"
  "skb_tcpcsum (skb_put off bs skb) = skb_tcpcsum skb"
  "skb_frees (skb_put off bs skb) = skb_frees skb"
  by (simp_all add: skb_put_def)

lemma length_skb_put [simp]: "length (skb_mem (skb_put off bs skb)) = length (skb_mem skb)"
proof -
  have "nat off + length bs \<le> length (skb_mem skb)"
    if "0 \<le> off" "off + int (length bs) \<le> int (length (skb_mem skb))"
    using that by simp
  then show ?thesis by (auto simp: skb_put_def skb_end_def)
qed

lemma skb_end_put [simp]: "skb_end (skb_put off bs skb) = skb_end skb"
  by (simp add: skb_end_def)

text \<open>Overwriting the middle of a memory given in pieces.\<close>

lemma skb_put_mid:
  assumes "skb_mem skb = pre @ old @ rest" "length pre = i" "length old = length bs"
  shows "skb_put (int i) bs skb = skb\<lparr>skb_mem := pre @ bs @ rest\<rparr>"
  using assms by (simp add: skb_put_def skb_end_def put_bytes_def)

lemma skb_load_mid:
  assumes "skb_mem skb = pre @ rest" "length pre = i"
  shows "skb_load dec (int i) skb = dec rest"
  using assms by (simp add: skb_load_def load_def)

lemma skb_put_append:
  assumes "int i + int (length a) + int (length b) \<le> skb_end skb"
  shows "skb_put (int i + int (length a)) b (skb_put (int i) a skb) = skb_put (int i) (a @ b) skb"
proof -
  have l: "i + length a + length b \<le> length (skb_mem skb)" using assms by (simp add: skb_end_def)
  have n: "nat (int i + int (length a)) = i + length a" by simp
  have "skb_put (int i) a skb = skb\<lparr>skb_mem := put_bytes i a (skb_mem skb)\<rparr>"
    using l by (simp add: skb_put_def skb_end_def)
  with l n put_bytes_append [OF l] show ?thesis by (simp add: skb_put_def skb_end_def)
qed

lemma skb_data_push [simp]: "skb_data (skb_push skb n) = skb_data skb - int n"
  and skb_mem_push [simp]: "skb_mem (skb_push skb n) = skb_mem skb"
  and skb_end_push [simp]: "skb_end (skb_push skb n) = skb_end skb"
  and skb_len_push [simp]: "skb_len (skb_push skb n) = skb_len skb + of_nat n"
  by (simp_all add: skb_push_def skb_end_def)

text \<open>The bytes handed to the device: \<open>len\<close> bytes from \<open>data\<close>.\<close>

definition skb_bytes :: "sk_buff \<Rightarrow> bytes" where
  "skb_bytes skb = get_bytes (nat (skb_data skb)) (unat (skb_len skb)) (skb_mem skb)"

section \<open>Queues\<close>

definition skb_queue_len :: "sk_buff_head \<Rightarrow> u32" where
  "skb_queue_len q = qlen q"

definition skb_queue_init :: sk_buff_head where
  "skb_queue_init = \<lparr>skb_list = [], max_q = MAX_QUEUE, qlen = 0\<rparr>"

text \<open>\<open>skb_queue_add(list, new, next)\<close> inserts in front of the node \<open>next\<close>, given here by
  its position.\<close>

definition skb_queue_add :: "sk_buff_head \<Rightarrow> sk_buff \<Rightarrow> nat \<Rightarrow> sk_buff_head" where
  "skb_queue_add q new i =
     q\<lparr>skb_list := take i (skb_list q) @ new # drop i (skb_list q), qlen := qlen q + 1\<rparr>"

definition skb_queue_tail :: "sk_buff_head \<Rightarrow> sk_buff \<Rightarrow> sk_buff_head" where
  "skb_queue_tail q new = q\<lparr>skb_list := skb_list q @ [new], qlen := qlen q + 1\<rparr>"

text \<open>On an empty list the code reads the anchor as a buffer: no result.\<close>

definition skb_dequeue :: "sk_buff_head \<Rightarrow> (sk_buff \<times> sk_buff_head) option" where
  "skb_dequeue q =
     (case skb_list q of [] \<Rightarrow> None
      | skb # rest \<Rightarrow> Some (skb, q\<lparr>skb_list := rest, qlen := qlen q - 1\<rparr>))"

definition skb_queue_empty :: "sk_buff_head \<Rightarrow> bool" where
  "skb_queue_empty q = (skb_queue_len q < 1)"

definition skb_peek :: "sk_buff_head \<Rightarrow> sk_buff option" where
  "skb_peek q =
     (if skb_queue_empty q then None
      else case skb_list q of [] \<Rightarrow> None | skb # _ \<Rightarrow> Some skb)"

text \<open>\<open>skb_queue_free\<close>: the emptied queue and the buffers it released, in order.\<close>

function skb_queue_free :: "sk_buff_head \<Rightarrow> sk_buff_head \<times> sk_buff list" where
  "skb_queue_free q =
     (case skb_peek q of
        None \<Rightarrow> (q, [])
      | Some _ \<Rightarrow>
          (case skb_dequeue q of
             None \<Rightarrow> (q, [])
           | Some (skb, q') \<Rightarrow>
               (let skb' = free_skb (skb\<lparr>skb_refcnt := skb_refcnt skb - 1\<rparr>);
                    (q'', freed) = skb_queue_free q'
                in (q'', skb' # freed))))"
  by pat_completeness auto
termination
  by (relation "measure (length \<circ> skb_list)") (auto simp: skb_dequeue_def split: list.splits)

declare skb_queue_free.simps [simp del]

text \<open>Assignments through a pointer to the queued node at position \<open>i\<close>.\<close>

definition skb_queue_upd :: "nat \<Rightarrow> (sk_buff \<Rightarrow> sk_buff) \<Rightarrow> sk_buff_head \<Rightarrow> sk_buff_head" where
  "skb_queue_upd i f q =
     (if i < length (skb_list q) then q\<lparr>skb_list := (skb_list q)[i := f (skb_list q ! i)]\<rparr> else q)"

section \<open>Invariant and interface\<close>

definition wf_queue :: "sk_buff_head \<Rightarrow> bool" where
  "wf_queue q \<longleftrightarrow> unat (qlen q) = length (skb_list q)"

text \<open>A queue with a 32-bit length counter: what the protocols rely on. Appending needs room
  for the counter.\<close>

locale counted_queue =
  fixes init :: 'q
    and tail :: "'q \<Rightarrow> 'a \<Rightarrow> 'q"
    and deq :: "'q \<Rightarrow> ('a \<times> 'q) option"
    and empty :: "'q \<Rightarrow> bool"
    and len :: "'q \<Rightarrow> u32"
    and elems :: "'q \<Rightarrow> 'a list"
    and inv :: "'q \<Rightarrow> bool"
  assumes inv_init: "inv init"
    and elems_init: "elems init = []"
    and inv_tail: "inv q \<Longrightarrow> length (elems q) + 1 < 2 ^ 32 \<Longrightarrow> inv (tail q x)"
    and elems_tail: "elems (tail q x) = elems q @ [x]"
    and deq_Nil: "elems q = [] \<Longrightarrow> deq q = None"
    and deq_Cons: "inv q \<Longrightarrow> elems q = x # xs \<Longrightarrow> \<exists>q'. deq q = Some (x, q') \<and> inv q' \<and> elems q' = xs"
    and empty_iff: "inv q \<Longrightarrow> empty q \<longleftrightarrow> elems q = []"
    and len_elems: "inv q \<Longrightarrow> unat (len q) = length (elems q)"
begin

lemma not_empty_deq: "inv q \<Longrightarrow> \<not> empty q \<Longrightarrow> \<exists>x q'. deq q = Some (x, q')"
  using deq_Cons empty_iff by (metis neq_Nil_conv)

lemma fold_tail:
  "inv q \<Longrightarrow> length (elems q) + length xs < 2 ^ 32
   \<Longrightarrow> inv (foldl tail q xs) \<and> elems (foldl tail q xs) = elems q @ xs"
  by (induction xs arbitrary: q) (auto simp: elems_tail inv_tail)

text \<open>First in, first out: after appending \<open>x # xs\<close> to a fresh queue, dequeuing gives \<open>x\<close>.\<close>

lemma fifo:
  assumes "length xs + 1 < 2 ^ 32"
  shows "\<exists>q'. deq (foldl tail init (x # xs)) = Some (x, q') \<and> inv q' \<and> elems q' = xs"
  using fold_tail [OF inv_init, of "x # xs"] assms deq_Cons by (simp add: elems_init)

lemma len_zero: "inv q \<Longrightarrow> elems q = [] \<longleftrightarrow> len q = 0"
  using len_elems by (metis length_0_conv unat_eq_zero)

end

lemma wf_queue_init [simp]: "wf_queue skb_queue_init"
  by (simp add: wf_queue_def skb_queue_init_def)

lemma wf_queue_tail:
  "wf_queue q \<Longrightarrow> length (skb_list q) + 1 < 2 ^ 32 \<Longrightarrow> wf_queue (skb_queue_tail q skb)"
  by (simp add: wf_queue_def skb_queue_tail_def unat_word_ariths)

lemma skb_list_tail [simp]: "skb_list (skb_queue_tail q skb) = skb_list q @ [skb]"
  by (simp add: skb_queue_tail_def)

lemma wf_queue_empty_iff [simp]: "wf_queue q \<Longrightarrow> skb_queue_empty q \<longleftrightarrow> skb_list q = []"
  by (auto simp: wf_queue_def skb_queue_empty_def skb_queue_len_def word_less_nat_alt)

lemma wf_queue_len: "wf_queue q \<Longrightarrow> unat (skb_queue_len q) = length (skb_list q)"
  by (simp add: wf_queue_def skb_queue_len_def)

lemma skb_dequeue_Cons:
  assumes "wf_queue q" and "skb_list q = x # xs"
  shows "\<exists>q'. skb_dequeue q = Some (x, q') \<and> wf_queue q' \<and> skb_list q' = xs"
proof -
  have "1 \<le> qlen q" using assms by (simp add: wf_queue_def word_le_nat_alt)
  then show ?thesis
    using assms by (simp add: skb_dequeue_def wf_queue_def unat_sub)
qed

lemma skb_dequeue_Nil: "skb_list q = [] \<Longrightarrow> skb_dequeue q = None"
  by (simp add: skb_dequeue_def)

lemma skb_list_init [simp]: "skb_list skb_queue_init = []"
  by (simp add: skb_queue_init_def)

interpretation skbq: counted_queue skb_queue_init skb_queue_tail skb_dequeue skb_queue_empty
  skb_queue_len skb_list wf_queue
  by unfold_locales
    (simp_all add: wf_queue_tail wf_queue_len skb_dequeue_Cons skb_dequeue_Nil)

lemma wf_queue_add:
  "wf_queue q \<Longrightarrow> i \<le> length (skb_list q) \<Longrightarrow> length (skb_list q) + 1 < 2 ^ 32
   \<Longrightarrow> wf_queue (skb_queue_add q skb i)"
  by (simp add: wf_queue_def skb_queue_add_def unat_word_ariths)

lemma wf_queue_upd [simp]: "wf_queue (skb_queue_upd i f q) = wf_queue q"
  by (simp add: wf_queue_def skb_queue_upd_def)

lemma skb_peek_wf: "wf_queue q \<Longrightarrow> skb_peek q = (case skb_list q of [] \<Rightarrow> None | x # _ \<Rightarrow> Some x)"
  by (auto simp: skb_peek_def split: list.splits)

text \<open>
  Freeing a well-formed queue empties it and releases every buffer it held exactly
  once and in order, provided the queue held the only reference (reference counts of at most
  one, none freed before).
\<close>
lemma skb_queue_free_releases_all:
  assumes "wf_queue q"
    and "\<forall>skb \<in> set (skb_list q). skb_refcnt skb \<le> 1 \<and> skb_frees skb = 0"
  shows "skb_list (fst (skb_queue_free q)) = [] \<and> wf_queue (fst (skb_queue_free q)) \<and>
         map skb_mem (snd (skb_queue_free q)) = map skb_mem (skb_list q) \<and>
         (\<forall>skb \<in> set (snd (skb_queue_free q)). skb_frees skb = 1)"
  using assms
proof (induction "skb_list q" arbitrary: q)
  case Nil
  then have "skb_queue_free q = (q, [])"
    by (subst skb_queue_free.simps) (simp add: skb_peek_wf)
  with Nil show ?case by simp
next
  case (Cons x xs)
  then have l: "skb_list q = x # xs" by simp
  then obtain q' where q': "skb_dequeue q = Some (x, q')" "wf_queue q'" "skb_list q' = xs"
    using skb_dequeue_Cons Cons.prems(1) by metis
  have free: "skb_queue_free q =
      (fst (skb_queue_free q'),
       free_skb (x\<lparr>skb_refcnt := skb_refcnt x - 1\<rparr>) # snd (skb_queue_free q'))"
    using Cons.prems(1) l q'
    by (subst skb_queue_free.simps) (simp add: skb_peek_wf case_prod_beta)
  have x: "skb_refcnt x \<le> 1" "skb_frees x = 0"
    using Cons.prems(2) l by simp_all
  show ?case
    using Cons.hyps(1) [of q'] Cons.prems(2) q' x
    unfolding free l by (simp add: free_skb_def)
qed

end
