(* ===== verification/Utils.thy ===== *)
theory Utils
  imports Prelude
begin

text \<open>
  The helpers of \<open>src/utils.c\<close>: the Internet checksum (RFC 1071) with its fold loop, the
  32-bit \<open>min\<close>/\<open>max\<close>, the address assembly of \<open>parse_ipv4_string\<close>. The lemmas
  relate the wrapping 32-bit computation to the one's complement sum over the naturals and
  show that a stored checksum makes the covered bytes verify.
\<close>

section \<open>Operations\<close>

definition umin :: "u32 \<Rightarrow> u32 \<Rightarrow> u32" where
  "umin x y = (if x > y then y else x)"

definition umax :: "u32 \<Rightarrow> u32 \<Rightarrow> u32" where
  "umax x y = (if x > y then x else y)"

text \<open>The four bytes are what \<open>sscanf(addr, "%hhu.%hhu.%hhu.%hhu", ...)\<close> stores, in the
  order of the string.\<close>

fun parse_ipv4_string :: "u8 \<times> u8 \<times> u8 \<times> u8 \<Rightarrow> u32" where
  "parse_ipv4_string (b3, b2, b1, b0) =
     ucast b0 OR push_bit 8 (ucast b1) OR push_bit 16 (ucast b2) OR push_bit 24 (ucast b3)"

text \<open>The loop reads 16 bits at a time through a \<open>uint16_t\<close> pointer; a byte left over is
  added as it is. The list holds exactly the \<open>count\<close> bytes at \<open>addr\<close>.\<close>

fun sum_every_16bits_loop :: "u32 \<Rightarrow> bytes \<Rightarrow> u32" where
  "sum_every_16bits_loop s (a # b # ptr) = sum_every_16bits_loop (s + ucast (w16 a b)) ptr"
| "sum_every_16bits_loop s [b] = s + ucast b"
| "sum_every_16bits_loop s [] = s"

definition sum_every_16bits :: "bytes \<Rightarrow> u32" where
  "sum_every_16bits addr = sum_every_16bits_loop 0 addr"

text \<open>\<open>while (sum>>16) sum = (sum & 0xffff) + (sum >> 16);\<close>\<close>

lemma fold16_decreases:
  fixes s :: u32
  assumes "drop_bit 16 s \<noteq> 0"
  shows "unat ((s AND 0xffff) + drop_bit 16 s) = unat s mod 65536 + unat s div 65536"
    and "unat s mod 65536 + unat s div 65536 < unat s"
proof -
  have lo: "unat (s AND 0xffff) = unat s mod 65536"
  proof -
    have "s AND 0xffff = take_bit 16 s"
      by (simp add: take_bit_eq_mask mask_eq_exp_minus_1)
    then show ?thesis by (simp add: take_bit_eq_mod unat_mod_distrib)
  qed
  have hi: "unat (drop_bit 16 s) = unat s div 65536"
    by (simp add: drop_bit_eq_div unat_div_distrib)
  have lt: "unat s < 4294967296" by (rule u32_less)
  then have "unat s div 65536 < 65536" by (simp add: less_mult_imp_div_less)
  then have "unat (s AND 0xffff) + unat (drop_bit 16 s) < 2 ^ LENGTH(32)"
    using lo hi by simp
  then show "unat ((s AND 0xffff) + drop_bit 16 s) = unat s mod 65536 + unat s div 65536"
    using lo hi by (simp add: unat_word_ariths)
  have "unat s div 65536 \<noteq> 0"
    using assms hi by (metis unat_eq_zero)
  then have "0 < unat s div 65536" by simp
  moreover have "unat s = 65536 * (unat s div 65536) + unat s mod 65536" by simp
  ultimately show "unat s mod 65536 + unat s div 65536 < unat s" by linarith
qed

function fold16 :: "u32 \<Rightarrow> u32" where
  "fold16 s = (if drop_bit 16 s \<noteq> 0
               then fold16 ((s AND 0xffff) + drop_bit 16 s) else s)"
  by pat_completeness auto
termination
  by (relation "measure unat") (simp_all add: fold16_decreases)

declare fold16.simps [simp del]

definition checksum :: "bytes \<Rightarrow> u32 \<Rightarrow> u16" where
  "checksum addr start_sum = NOT (ucast (fold16 (start_sum + sum_every_16bits addr)))"

section \<open>Lemmas\<close>

lemma umin_min [simp]: "umin x y = min x y"
  by (auto simp: umin_def min_def)

lemma umax_max [simp]: "umax x y = max x y"
  by (auto simp: umax_def max_def)

text \<open>The sum over the naturals, and the one's complement residue in \<open>1..65535\<close>.\<close>

fun sum16 :: "bytes \<Rightarrow> nat" where
  "sum16 (a # b # r) = unat (w16 a b) + sum16 r"
| "sum16 [b] = unat b"
| "sum16 [] = 0"

definition oc16 :: "nat \<Rightarrow> nat" where
  "oc16 n = (if n = 0 then 0 else (n - 1) mod 65535 + 1)"

lemma oc16_Suc: "oc16 (Suc n) = Suc (n mod 65535)"
  by (simp add: oc16_def)

lemma oc16_le: "oc16 n \<le> 65535"
proof (cases n)
  case (Suc m)
  have "m mod 65535 < 65535" by simp
  then show ?thesis unfolding Suc oc16_Suc by linarith
qed (simp add: oc16_def)

lemma oc16_add: "0 < k \<Longrightarrow> oc16 (k + 65535 * q) = oc16 k"
  by (cases k) (simp_all add: oc16_Suc)

lemma oc16_split: "oc16 (r + q) = oc16 (65536 * q + r)"
proof (cases "r + q = 0")
  case False
  have "65536 * q + r = (r + q) + 65535 * q" by simp
  then show ?thesis using False oc16_add [of "r + q" q] by simp
qed simp

lemma oc16_fold: "oc16 (n mod 65536 + n div 65536) = oc16 n"
  using oc16_split [of "n mod 65536" "n div 65536"] by simp

lemma oc16_complement: "0 < n + (65535 - oc16 n) \<and> (n + (65535 - oc16 n)) mod 65535 = 0"
proof (cases n)
  case (Suc m)
  define q r where "q = m div 65535" and "r = m mod 65535"
  then have m: "m = 65535 * q + r" and r: "r < 65535" by simp_all
  have "Suc m + (65535 - Suc r) = 65535 * (q + 1)"
    using m r by simp
  then show ?thesis unfolding Suc oc16_Suc r_def [symmetric] by simp
qed (simp add: oc16_def)

lemma oc16_full_iff: "oc16 n = 65535 \<longleftrightarrow> 0 < n \<and> n mod 65535 = 0"
  by (cases n) (simp_all add: oc16_Suc mod_Suc, simp add: oc16_def)

lemma fold16_small:
  fixes s :: u32
  assumes "drop_bit 16 s = 0"
  shows "unat s < 65536"
proof -
  have "unat s div 65536 = unat (drop_bit 16 s)"
    by (simp add: drop_bit_eq_div unat_div_distrib)
  with assms have "unat s div 65536 = 0" by simp
  then show ?thesis by (simp add: div_eq_0_iff)
qed

lemma oc16_small: "n < 65536 \<Longrightarrow> oc16 n = n"
  by (auto simp: oc16_def)

lemma fold16_oc: "unat (fold16 s) = oc16 (unat s)"
proof (induction s rule: fold16.induct)
  case (1 s)
  show ?case
  proof (cases "drop_bit 16 s \<noteq> 0")
    case True
    with "1.IH" show ?thesis
      by (subst fold16.simps) (simp add: fold16_decreases oc16_fold)
  next
    case False
    then show ?thesis by (subst fold16.simps) (simp add: fold16_small oc16_small)
  qed
qed

lemma sum_loop_acc: "sum_every_16bits_loop s b = s + sum_every_16bits_loop 0 b"
proof (induction b arbitrary: s rule: sum16.induct)
  case (1 x y r)
  show ?case using "1.IH" [of "s + ucast (w16 x y)"] "1.IH" [of "ucast (w16 x y)"]
    by (simp add: add.assoc)
qed auto

lemma sum_every_16bits_of_nat: "sum_every_16bits b = of_nat (sum16 b)"
proof -
  have "sum_every_16bits_loop 0 b = of_nat (sum16 b)"
  proof (induction b rule: sum16.induct)
    case (1 x y r)
    then show ?case
      by (simp add: sum_loop_acc [of "ucast (w16 x y)"])
  qed auto
  then show ?thesis by (simp add: sum_every_16bits_def)
qed

lemma sum16_bound: "sum16 b \<le> 65535 * ((length b + 1) div 2)"
proof (induction b rule: sum16.induct)
  case (1 x y r)
  have "unat (w16 x y) \<le> 65535" using u16_less [of "w16 x y"] by simp
  then show ?case using 1 by simp
next
  case (2 x)
  have "unat x \<le> 65535" using u8_less [of x] by simp
  then show ?case by simp
qed auto

lemma sum16_append: "even (length a) \<Longrightarrow> sum16 (a @ b) = sum16 a + sum16 b"
  by (induction a rule: sum16.induct) auto

lemma sum_every_16bits_append:
  "even (length a) \<Longrightarrow> sum_every_16bits (a @ b) = sum_every_16bits a + sum_every_16bits b"
  by (simp add: sum_every_16bits_of_nat sum16_append)

lemma checksum_append:
  "even (length a) \<Longrightarrow> checksum (a @ b) s = checksum b (s + sum_every_16bits a)"
  by (simp add: checksum_def sum_every_16bits_append add.assoc)

lemma sum16_put:
  assumes "even i" and "i + 2 \<le> length b" and "get_bytes i 2 b = [0, 0]"
  shows "sum16 (put_bytes i (le16 c) b) = sum16 b + unat c"
proof -
  have b: "b = take i b @ [0, 0] @ drop (i + 2) b"
    using assms(3) by (metis append_take_drop_id drop_drop get_bytes_def add.commute)
  have "sum16 b = sum16 (take i b) + sum16 (drop (i + 2) b)"
    using assms by (subst b) (simp add: sum16_append min_def w16_def)
  then show ?thesis
    using assms by (simp add: put_bytes_def sum16_append min_def le16_def)
qed

lemma unat_checksum:
  assumes "unat s + sum16 b < 4294967296"
  shows "unat (checksum b s) = 65535 - oc16 (unat s + sum16 b)"
proof -
  have u: "unat (s + of_nat (sum16 b)) = unat s + sum16 b"
    using assms by (simp add: unat_word_ariths unat_of_nat)
  have f: "unat (fold16 (s + of_nat (sum16 b))) = oc16 (unat s + sum16 b)"
    by (simp add: fold16_oc u)
  then have "unat (ucast (fold16 (s + of_nat (sum16 b))) :: u16) = oc16 (unat s + sum16 b)"
    using oc16_le [of "unat s + sum16 b"] by (simp add: unsigned_ucast_eq take_bit_nat_eq_self)
  then show ?thesis
    by (simp add: checksum_def sum_every_16bits_of_nat unat_NOT_u16)
qed

lemma checksum_zero_iff:
  assumes "unat s + sum16 b < 4294967296"
  shows "checksum b s = 0 \<longleftrightarrow> 0 < unat s + sum16 b \<and> (unat s + sum16 b) mod 65535 = 0"
proof -
  have "checksum b s = 0 \<longleftrightarrow> oc16 (unat s + sum16 b) = 65535"
    using unat_checksum [OF assms] oc16_le [of "unat s + sum16 b"]
    by (metis diff_is_0_eq' diff_diff_cancel unat_eq_zero diff_zero le_antisym order_refl)
  also have "\<dots> \<longleftrightarrow> 0 < unat s + sum16 b \<and> (unat s + sum16 b) mod 65535 = 0"
    by (rule oc16_full_iff)
  finally show ?thesis .
qed

lemma checksum_store_zero:
  assumes "even i" and "i + 2 \<le> length b" and "get_bytes i 2 b = [0, 0]"
    and "unat s + sum16 b + 65535 < 4294967296"
  shows "checksum (put_bytes i (le16 (checksum b s)) b) s = 0"
proof -
  let ?n = "unat s + sum16 b"
  have c: "unat (checksum b s) = 65535 - oc16 ?n" using assms(4) by (simp add: unat_checksum)
  have p: "unat s + sum16 (put_bytes i (le16 (checksum b s)) b) = ?n + (65535 - oc16 ?n)"
    using assms(1-3) by (simp add: sum16_put c)
  have lt: "unat s + sum16 (put_bytes i (le16 (checksum b s)) b) < 4294967296"
    using p assms(4) by simp
  show ?thesis unfolding checksum_zero_iff [OF lt] p by (rule oc16_complement)
qed

lemma checksum_store_unique:
  assumes "even i" and "i + 2 \<le> length b" and "get_bytes i 2 b = [0, 0]"
    and "unat s + sum16 b + 65535 < 4294967296"
    and "checksum (put_bytes i (le16 c) b) s = 0"
  shows "unat c mod 65535 = unat (checksum b s) mod 65535"
proof -
  let ?n = "unat s + sum16 b"
  have z: "(?n + unat d) mod 65535 = 0" if "checksum (put_bytes i (le16 d) b) s = 0" for d
  proof -
    have p: "unat s + sum16 (put_bytes i (le16 d) b) = ?n + unat d"
      using assms(1-3) by (simp add: sum16_put)
    have lt: "unat s + sum16 (put_bytes i (le16 d) b) < 4294967296"
      using p assms(4) u16_less [of d] by simp
    show ?thesis using that unfolding checksum_zero_iff [OF lt] p by simp
  qed
  have "(?n + unat c) mod 65535 = (?n + unat (checksum b s)) mod 65535"
    using z [OF assms(5)] z [OF checksum_store_zero [OF assms(1-4)]] by simp
  then obtain q1 q2 where "?n + unat c + 65535 * q1 = ?n + unat (checksum b s) + 65535 * q2"
    unfolding nat_mod_eq_iff by blast
  then have "unat c + 65535 * q1 = unat (checksum b s) + 65535 * q2" by linarith
  then show ?thesis unfolding nat_mod_eq_iff by blast
qed

text \<open>
  Property C36. RFC 1071: once the checksum of a buffer (computed with its checksum field,
  at an even offset, holding zero) is stored in that field, the checksum of the buffer is 0,
  which is the test the receive paths make; and any other value in the field fails that test, up to
  the two representations of zero.
\<close>
theorem checksum_verifies:
  assumes "even i" and "i + 2 \<le> length b" and "get_bytes i 2 b = [0, 0]"
    and "unat s + sum16 b + 65535 < 4294967296"
  shows "checksum (put_bytes i (le16 (checksum b s)) b) s = 0 \<and>
    (\<forall>c. checksum (put_bytes i (le16 c) b) s = 0
       \<longrightarrow> unat c mod 65535 = unat (checksum b s) mod 65535)"
  using checksum_store_zero [OF assms] checksum_store_unique [OF assms] by blast

theorem checksum_verifies_witness:
  "checksum (put_bytes 2 (le16 (checksum [0x45, 0, 0, 0, 0x1c] 7)) [0x45, 0, 0, 0, 0x1c]) 7 = 0"
  by (rule checksum_verifies [THEN conjunct1]) (simp_all add: get_bytes_def w16_def)

section \<open>The hex dump\<close>

text \<open>\<open>print_buffer_hexdump\<close>: \<open>snprintf(hexdump_buffer + 3*i, 4, "%02x ", b)\<close> writes three characters and a terminator into 2048
  bytes on the stack. A write outside is left out and recorded in the second component.\<close>

definition dump_char :: "u8 \<Rightarrow> u8" where
  "dump_char n = (if n < 10 then 0x30 + n else 0x57 + n)"

definition dump_byte :: "u8 \<Rightarrow> bytes" where
  "dump_byte b = [dump_char (drop_bit 4 b), dump_char (b AND 0x0f), 0x20]"

fun hexdump_loop :: "nat \<Rightarrow> bytes \<Rightarrow> bytes \<times> bool \<Rightarrow> bytes \<times> bool" where
  "hexdump_loop i [] st = st"
| "hexdump_loop i (b # bs) (buf, oob) =
    hexdump_loop (i + 1) bs
      (if 3 * i + 4 \<le> length buf then (put_bytes (3 * i) (dump_byte b @ [0]) buf, oob) else (buf, True))"

definition print_buffer_hexdump :: "bytes \<Rightarrow> bytes \<times> bool" where
  "print_buffer_hexdump buffer = hexdump_loop 0 buffer (replicate 2048 0, False)"

lemma hexdump_loop_oob:
  "snd (hexdump_loop i bs (buf, oob)) \<longleftrightarrow> oob \<or> bs \<noteq> [] \<and> length buf < 3 * (i + length bs) + 1"
proof (induction bs arbitrary: i buf oob)
  case (Cons b bs)
  show ?case
  proof (cases "3 * i + 4 \<le> length buf")
    case True
    then show ?thesis by (auto simp: Cons.IH put_bytes_def dump_byte_def)
  next
    case False
    then show ?thesis by (simp add: Cons.IH)
  qed
qed simp

lemma hexdump_loop_text:
  assumes "length pre = 3 * i" and "3 * length bs < n"
  shows "hexdump_loop i bs (pre @ replicate n 0, oob) = (pre @ concat (map dump_byte bs) @ replicate (n - 3 * length bs) 0, oob)"
  using assms
proof (induction bs arbitrary: i pre n)
  case (Cons b bs)
  obtain m where n: "n = m + 4" using Cons.prems(2) by (auto intro!: that [of "n - 4"])
  have "replicate n 0 = [0, 0, 0, 0] @ replicate m (0 :: u8)" by (simp add: n numeral_eq_Suc)
  then have "put_bytes (3 * i) (dump_byte b @ [0]) (pre @ replicate n 0) = (pre @ dump_byte b) @ replicate (n - 3) 0"
    using Cons.prems(1) by (simp add: put_bytes_def dump_byte_def n)
  then show ?case using Cons.IH [of "pre @ dump_byte b" "i + 1" "n - 3"] Cons.prems by (simp add: dump_byte_def)
qed simp

lemma print_buffer_hexdump_spec:
  "snd (print_buffer_hexdump bs) \<longleftrightarrow> 682 < length bs"
  "length bs \<le> 682 \<Longrightarrow> fst (print_buffer_hexdump bs) = concat (map dump_byte bs) @ replicate (2048 - 3 * length bs) 0"
  using hexdump_loop_text [of "[]" 0 bs 2048 False]
  by (auto simp: print_buffer_hexdump_def hexdump_loop_oob)

end
