(* ===== verification/Netdev.thy ===== *)
theory Netdev
  imports Skbuff Utils
begin

text \<open>
  The network devices of \<open>src/netdev.c\<close> and the write side of the tap device
  (\<open>src/tuntap_if.c\<close>). The state holds the two devices, the frames written to the tap device,
  and the results the operating system gives to those writes, by position. The theories of the
  upper layers extend this record with their own state; a function of this layer leaves those
  fields alone because it is polymorphic in them.
\<close>

record netstate =
  devs :: "devid \<Rightarrow> netdev"
  tun_tx :: "bytes list"
  tun_ret :: "nat \<Rightarrow> int"

definition netdev_alloc :: "u32 \<Rightarrow> bytes \<Rightarrow> u32 \<Rightarrow> netdev" where
  "netdev_alloc addr hwaddr mtu =
     \<lparr>dev_addr = addr, addr6_ll = in6_zero, addr6_global = in6_zero, dev_prefix_len = 0,
      addr6_global_valid = False, addr6_ll_state = 0, addr6_global_state = 0,
      addr6_valid_lifetime = 0, addr6_preferred_lifetime = 0, addr6_pref_timer = None,
      addr6_valid_timer = None, dev_addr_len = 6, dev_hwaddr = hwaddr, dev_mtu = mtu,
      dev_mtu6 = mtu\<rparr>"

text \<open>\<open>"127.0.0.1"\<close>, \<open>"10.0.0.4"\<close> and the MAC strings are written as their parsed values.\<close>

definition netdev_init :: "devid \<Rightarrow> netdev" where
  "netdev_init d =
     (case d of
        Dev_loop \<Rightarrow> netdev_alloc 0x7f000001 [0, 0, 0, 0, 0, 0] 1500
      | Dev_tap \<Rightarrow> netdev_alloc 0x0a000004 [0x00, 0x0c, 0x29, 0x6d, 0x50, 0x25] 1500)"

definition tun_write :: "bytes \<Rightarrow> ('x) netstate_scheme \<Rightarrow> int \<times> ('x) netstate_scheme" where
  "tun_write buf s = (tun_ret s (length (tun_tx s)), s\<lparr>tun_tx := tun_tx s @ [buf]\<rparr>)"

text \<open>The Ethernet header: destination at 0, source at 6, type at 12.\<close>

definition netdev_transmit ::
  "sk_buff \<Rightarrow> bytes \<Rightarrow> u16 \<Rightarrow> ('x) netstate_scheme \<Rightarrow> int \<times> sk_buff \<times> ('x) netstate_scheme" where
  "netdev_transmit skb dst_hw ethertype s =
     (case skb_dev skb of
        None \<Rightarrow> (-1, skb\<lparr>skb_oob := True\<rparr>, s)
      | Some d \<Rightarrow>
          (let dev = devs s d;
               n = unat (dev_addr_len dev);
               skb = skb_push skb ETH_HDR_LEN;
               hdr = skb_data skb;
               skb = skb_put hdr (take n dst_hw) skb;
               skb = skb_put (hdr + 6) (take n (dev_hwaddr dev)) skb;
               skb = skb_put (hdr + 12) (le16 (htons ethertype)) skb;
               (ret, s) = tun_write (skb_bytes skb) s
           in (ret, skb, s)))"

definition netdev_get :: "u32 \<Rightarrow> ('x) netstate_scheme \<Rightarrow> devid option" where
  "netdev_get sip s = (if dev_addr (devs s Dev_tap) = sip then Some Dev_tap else None)"

text \<open>\<open>eth_hdr\<close> converts the type of a received frame in place.\<close>

definition eth_hdr_ethertype :: "sk_buff \<Rightarrow> u16 \<times> sk_buff" where
  "eth_hdr_ethertype skb =
     (let t = ntohs (get16 (skb_mem skb) 12) in (t, skb_put 12 (le16 t) skb))"

section \<open>Frames\<close>

definition wf_netdev :: "netdev \<Rightarrow> bool" where
  "wf_netdev dev \<longleftrightarrow> dev_addr_len dev = 6 \<and> length (dev_hwaddr dev) = 6 \<and>
     length (addr6_ll dev) = 16 \<and> length (addr6_global dev) = 16"

lemma wf_netdev_init: "wf_netdev (netdev_init d)"
  by (cases d) (simp_all add: netdev_init_def netdev_alloc_def wf_netdev_def in6_zero_def)

lemma tun_write_frame [net_frame]:
  "tun_write buf s = (r, s') \<Longrightarrow> devs s' = devs s \<and> tun_ret s' = tun_ret s"
  by (auto simp: tun_write_def)

text \<open>Transmission changes nothing of the state but the frames sent, in whatever record the upper
  layers extend it to.\<close>

lemma netdev_transmit_state [net_frame]:
  "snd (snd (netdev_transmit skb dst typ s)) =
     s\<lparr>tun_tx := tun_tx (snd (snd (netdev_transmit skb dst typ s)))\<rparr>"
  by (cases "skb_dev skb") (simp_all add: netdev_transmit_def tun_write_def Let_def)

text \<open>A buffer with at least \<open>room\<close> bytes in front of its \<open>len\<close> bytes of data.\<close>

definition skb_fits :: "nat \<Rightarrow> sk_buff \<Rightarrow> bool" where
  "skb_fits room skb \<longleftrightarrow> int room \<le> skb_data skb \<and>
     nat (skb_data skb) + unat (skb_len skb) \<le> length (skb_mem skb) \<and>
     length (skb_mem skb) < 2 ^ 31"

text \<open>What is sent: the header in front of the bytes that were at \<open>data\<close>.\<close>

lemma netdev_transmit_eq:
  assumes "skb_dev skb = Some d" and "wf_netdev (devs s d)" and "length dst = 6"
  shows "netdev_transmit skb dst typ s =
    (let skb = skb_push skb 14; i = skb_data skb;
         skb = skb_put (i + 12) (le16 (htons typ)) (skb_put (i + 6) (dev_hwaddr (devs s d))
           (skb_put i dst skb))
     in (tun_ret s (length (tun_tx s)), skb, s\<lparr>tun_tx := tun_tx s @ [skb_bytes skb]\<rparr>))"
  using assms by (simp add: netdev_transmit_def tun_write_def Let_def wf_netdev_def)

lemma skb_put_header:
  assumes "length a = 6" "length b = 6" "length c = 2" "i + 14 \<le> length (skb_mem skb)"
  shows "skb_put (int i + 12) c (skb_put (int i + 6) b (skb_put (int i) a skb)) =
    skb_put (int i) (a @ b @ c) skb"
  using skb_put_append [of i a b skb] skb_put_append [of i "a @ b" c skb] assms
  by (simp add: skb_end_def)

lemma skb_bytes_header:
  assumes "skb_data skb = int i" "i + length h \<le> length (skb_mem skb)"
    and "unat (skb_len skb) = length h + n"
  shows "skb_bytes (skb_put (int i) h skb) = h @ get_bytes (i + length h) n (skb_mem skb)"
  using assms by (simp add: skb_bytes_def skb_put_def skb_end_def get_bytes_def drop_put_bytes)

lemma netdev_transmit_sends:
  assumes "skb_dev skb = Some d" and "wf_netdev (devs s d)" and "length dst = 6"
    and "skb_fits 14 skb"
  shows "netdev_transmit skb dst typ s =
    (tun_ret s (length (tun_tx s)),
     skb_put (skb_data skb - 14) (dst @ dev_hwaddr (devs s d) @ le16 (htons typ)) (skb_push skb 14),
     s\<lparr>tun_tx := tun_tx s @ [dst @ dev_hwaddr (devs s d) @ le16 (htons typ) @ skb_bytes skb]\<rparr>)"
proof -
  define i where "i = nat (skb_data skb) - 14"
  have d: "skb_data skb = int i + 14"
    using assms(4) unfolding i_def skb_fits_def by linarith
  have l: "i + 14 + unat (skb_len skb) \<le> length (skb_mem skb)"
    and len: "unat (skb_len skb + 14) = 14 + unat (skb_len skb)"
    using assms(4) by (simp_all add: skb_fits_def unat_word_ariths d nat_add_distrib)
  have hw: "length (dev_hwaddr (devs s d)) = 6" using assms(2) by (simp add: wf_netdev_def)
  let ?h = "dst @ dev_hwaddr (devs s d) @ le16 (htons typ)"
  let ?b = "skb_push skb 14"
  have "skb_bytes (skb_put (int i) ?h ?b) = ?h @ skb_bytes skb"
    using skb_bytes_header [of ?b i ?h "unat (skb_len skb)"] l assms(3) hw len d
    by (simp add: skb_bytes_def nat_add_distrib)
  moreover have "skb_put (int i + 12) (le16 (htons typ)) (skb_put (int i + 6) (dev_hwaddr (devs s d))
      (skb_put (int i) dst ?b)) = skb_put (int i) ?h ?b"
    using l assms(3) hw by (intro skb_put_header) simp_all
  ultimately show ?thesis
    unfolding netdev_transmit_eq [OF assms(1-3)] by (simp add: Let_def d)
qed

end
