(* ===== verification/Route.thy ===== *)
theory Route
  imports Netdev
begin

text \<open>
  The routing table of \<open>src/route.c\<close>: a list of IPv4 and IPv6 entries in the order they were
  added. A pointer to an entry is its position, because \<open>route6_update_pmtu\<close> writes through
  it; entries are only appended, so positions stay valid.
\<close>

record routestate = netstate +
  routes :: "rtentry list"

section \<open>Building the table\<close>

text \<open>\<open>malloc\<close> leaves the rest of the address unions undefined; \<open>junk\<close> is that content.\<close>

definition route_alloc ::
  "bytes \<Rightarrow> u32 \<Rightarrow> u32 \<Rightarrow> u32 \<Rightarrow> u8 \<Rightarrow> u32 \<Rightarrow> devid \<Rightarrow> rtentry" where
  "route_alloc junk dst gateway netmask flags metric dev =
     \<lparr>rt_family = AF_INET, rt_dst = set_v4 dst junk, rt_gateway = set_v4 gateway junk,
      rt_netmask = netmask, rt_prefix_len = 0, rt_flags = flags, rt_metric = metric, rt_pmtu = 0,
      rt_dev = dev\<rparr>"

definition route_add ::
  "bytes \<Rightarrow> u32 \<Rightarrow> u32 \<Rightarrow> u32 \<Rightarrow> u8 \<Rightarrow> u32 \<Rightarrow> devid
   \<Rightarrow> ('x) routestate_scheme \<Rightarrow> ('x) routestate_scheme" where
  "route_add junk dst gateway netmask flags metric dev s =
     s\<lparr>routes := routes s @ [route_alloc junk dst gateway netmask flags metric dev]\<rparr>"

definition route6_alloc ::
  "in6_addr option \<Rightarrow> in6_addr option \<Rightarrow> u8 \<Rightarrow> u8 \<Rightarrow> u32 \<Rightarrow> devid \<Rightarrow> rtentry" where
  "route6_alloc dst gateway prefix_len flags metric dev =
     \<lparr>rt_family = AF_INET6,
      rt_dst = (case dst of None \<Rightarrow> in6_zero | Some d \<Rightarrow> d),
      rt_gateway = (case gateway of None \<Rightarrow> in6_zero | Some g \<Rightarrow> g),
      rt_netmask = 0, rt_prefix_len = prefix_len, rt_flags = flags, rt_metric = metric,
      rt_pmtu = 0, rt_dev = dev\<rparr>"

definition route6_add ::
  "in6_addr option \<Rightarrow> in6_addr option \<Rightarrow> u8 \<Rightarrow> u8 \<Rightarrow> u32 \<Rightarrow> devid
   \<Rightarrow> ('x) routestate_scheme \<Rightarrow> ('x) routestate_scheme" where
  "route6_add dst gateway prefix_len flags metric dev s =
     s\<lparr>routes := routes s @ [route6_alloc dst gateway prefix_len flags metric dev]\<rparr>"

definition route6_add_default ::
  "in6_addr \<Rightarrow> u8 \<Rightarrow> u32 \<Rightarrow> devid \<Rightarrow> ('x) routestate_scheme \<Rightarrow> ('x) routestate_scheme" where
  "route6_add_default gateway flags metric dev s =
     route6_add (Some in6_zero) (Some gateway) 0 flags metric dev s"

text \<open>\<open>tapaddr\<close> is the parsed address of the tap device's peer.\<close>

definition route_init ::
  "bytes \<Rightarrow> u32 \<Rightarrow> ('x) routestate_scheme \<Rightarrow> ('x) routestate_scheme" where
  "route_init junk tapaddr s =
     (let s = route_add junk (dev_addr (devs s Dev_loop)) 0 0xff000000 RT_LOOPBACK 0 Dev_loop s;
          s = route_add junk (dev_addr (devs s Dev_tap)) 0 0xffffff00 RT_HOST 0 Dev_tap s
      in route_add junk 0 tapaddr 0 RT_GATEWAY 0 Dev_tap s)"

definition free_routes :: "('x) routestate_scheme \<Rightarrow> ('x) routestate_scheme" where
  "free_routes s = s\<lparr>routes := []\<rparr>"

section \<open>Lookups\<close>

text \<open>\<open>route_lookup\<close> returns the entry its loop variable points to: the first match, or the last
  entry visited, whatever its family.\<close>

fun route_lookup_loop :: "u32 \<Rightarrow> nat \<Rightarrow> nat option \<Rightarrow> rtentry list \<Rightarrow> nat option" where
  "route_lookup_loop daddr i rt [] = rt"
| "route_lookup_loop daddr i rt (r # rs) =
     (if rt_family r \<noteq> AF_INET then route_lookup_loop daddr (i + 1) (Some i) rs
      else if daddr AND rt_netmask r = un_v4 (rt_dst r) AND rt_netmask r then Some i
      else route_lookup_loop daddr (i + 1) (Some i) rs)"

definition route_lookup :: "u32 \<Rightarrow> ('x) routestate_scheme \<Rightarrow> nat option" where
  "route_lookup daddr s = route_lookup_loop daddr 0 None (routes s)"

definition route6_match :: "in6_addr \<Rightarrow> rtentry \<Rightarrow> bool" where
  "route6_match daddr rt =
     (let nbytes = unat (rt_prefix_len rt) div 8;
          bits = unat (rt_prefix_len rt) mod 8;
          mask = push_bit (8 - bits) 0xFF :: u8
      in list_all (\<lambda>i. daddr ! i = rt_dst rt ! i) [0..<nbytes] \<and>
         (0 < bits \<and> nbytes < 16 \<longrightarrow> daddr ! nbytes AND mask = rt_dst rt ! nbytes AND mask))"

fun route6_lookup_loop ::
  "in6_addr \<Rightarrow> nat \<Rightarrow> nat option \<Rightarrow> u8 \<Rightarrow> rtentry list \<Rightarrow> nat option" where
  "route6_lookup_loop daddr i best best_len [] = best"
| "route6_lookup_loop daddr i best best_len (rt # rts) =
     (if rt_family rt \<noteq> AF_INET6 then route6_lookup_loop daddr (i + 1) best best_len rts
      else if route6_match daddr rt \<and> (best = None \<or> rt_prefix_len rt > best_len)
      then route6_lookup_loop daddr (i + 1) (Some i) (rt_prefix_len rt) rts
      else route6_lookup_loop daddr (i + 1) best best_len rts)"

definition route6_lookup :: "in6_addr \<Rightarrow> ('x) routestate_scheme \<Rightarrow> nat option" where
  "route6_lookup daddr s = route6_lookup_loop daddr 0 None 0 (routes s)"

definition route6_update_pmtu ::
  "in6_addr \<Rightarrow> u16 \<Rightarrow> ('x) routestate_scheme \<Rightarrow> int \<times> ('x) routestate_scheme" where
  "route6_update_pmtu daddr mtu s =
     (let mtu = (if mtu < 1280 then 1280 else mtu)
      in case route6_lookup daddr s of
           None \<Rightarrow> (-1, s)
         | Some i \<Rightarrow> (0, s\<lparr>routes := (routes s)[i := (routes s ! i)\<lparr>rt_pmtu := mtu\<rparr>]\<rparr>))"

section \<open>IPv4 lookup\<close>

definition route4_match :: "u32 \<Rightarrow> rtentry \<Rightarrow> bool" where
  "route4_match daddr r \<longleftrightarrow> rt_family r = AF_INET \<and>
     daddr AND rt_netmask r = un_v4 (rt_dst r) AND rt_netmask r"

lemma route_lookup_loop_spec:
  "route_lookup_loop daddr i rt rs =
     (let n = length (takeWhile (\<lambda>r. \<not> route4_match daddr r) rs)
      in if n < length rs then Some (i + n)
         else if rs = [] then rt else Some (i + length rs - 1))"
proof (induction rs arbitrary: i rt)
  case (Cons r rs)
  have step: "route_lookup_loop daddr i rt (r # rs) =
      (if route4_match daddr r then Some i else route_lookup_loop daddr (i + 1) (Some i) rs)"
    by (simp add: route4_match_def)
  show ?case
    unfolding step Cons.IH by (cases rs) (simp_all add: Let_def)
qed simp

lemma takeWhile_append_found:
  "\<exists>x \<in> set xs. \<not> P x \<Longrightarrow> length (takeWhile P xs) < length xs \<and> takeWhile P (xs @ ys) = takeWhile P xs"
  by (induction xs) auto

lemma route_lookup_append:
  assumes "\<exists>r \<in> set rs. route4_match daddr r" and "routes s = rs @ rest"
  shows "route_lookup daddr s = Some (length (takeWhile (\<lambda>r. \<not> route4_match daddr r) rs))"
  using takeWhile_append_found [of rs "\<lambda>r. \<not> route4_match daddr r" rest] assms
  by (simp add: route_lookup_def route_lookup_loop_spec Let_def)

lemma and_not_mask_eq_iff:
  fixes a b :: "'w :: len word"
  shows "a AND NOT (mask n) = b AND NOT (mask n) \<longleftrightarrow> drop_bit n a = drop_bit n b"
proof
  assume e: "a AND NOT (mask n) = b AND NOT (mask n)"
  have "drop_bit n x = drop_bit n (x AND NOT (mask n))" for x :: "'w word"
    by (rule bit_word_eqI) (auto simp: bit_simps dest: bit_imp_le_length)
  with e show "drop_bit n a = drop_bit n b" by metis
next
  assume d: "drop_bit n a = drop_bit n b"
  have "x AND NOT (mask n) = push_bit n (drop_bit n x)" for x :: "'w word"
    by (rule bit_word_eqI) (auto simp: bit_simps)
  with d show "a AND NOT (mask n) = b AND NOT (mask n)" by simp
qed

lemma netmask_eq: "(0xff000000 :: u32) = NOT (mask 24)" "(0xffffff00 :: u32) = NOT (mask 8)"
  by (simp_all add: mask_eq_exp_minus_1 not_eq_complement)

text \<open>The IPv4 lookup of a table that begins with the three entries of
  \<open>route_init\<close> always finds a route, whatever was appended later: addresses in 127.0.0.0/8 go to the
  loopback device, addresses in 10.0.0.0/24 directly to the tap device, and all others to the tap
  device through the gateway \<open>tapaddr\<close>.\<close>

lemma route_lookup_total:
  assumes "devs s = netdev_init" and "routes s = []"
    and "routes s' = routes (route_init junk tapaddr s) @ rest"
  shows "\<exists>i < length (routes s'). route_lookup daddr s' = Some i \<and>
    (let rt = routes s' ! i
     in if drop_bit 24 daddr = 127 then rt_dev rt = Dev_loop \<and> rt_flags rt = RT_LOOPBACK
        else rt_dev rt = Dev_tap \<and>
             (if drop_bit 8 daddr = 0x0a0000 then rt_flags rt = RT_HOST
              else rt_flags rt = RT_GATEWAY \<and> un_v4 (rt_gateway rt) = tapaddr))"
proof -
  define r0 where "r0 = route_alloc junk 0x7f000001 0 0xff000000 RT_LOOPBACK 0 Dev_loop"
  define r1 where "r1 = route_alloc junk 0x0a000004 0 0xffffff00 RT_HOST 0 Dev_tap"
  define r2 where "r2 = route_alloc junk 0 tapaddr 0 RT_GATEWAY 0 Dev_tap"
  have rs: "routes s' = [r0, r1, r2] @ rest"
    using assms by (simp add: route_init_def route_add_def Let_def netdev_init_def netdev_alloc_def
        r0_def r1_def r2_def)
  have m0: "route4_match daddr r0 \<longleftrightarrow> drop_bit 24 daddr = 127"
    unfolding route4_match_def r0_def route_alloc_def
    by (simp only: rtentry.simps un_v4_set_v4 netmask_eq and_not_mask_eq_iff) simp
  have m1: "route4_match daddr r1 \<longleftrightarrow> drop_bit 8 daddr = 0x0a0000"
    unfolding route4_match_def r1_def route_alloc_def
    by (simp only: rtentry.simps un_v4_set_v4 netmask_eq and_not_mask_eq_iff) simp
  have m2: "route4_match daddr r2"
    by (simp add: route4_match_def r2_def route_alloc_def)
  have l: "route_lookup daddr s' =
      Some (length (takeWhile (\<lambda>r. \<not> route4_match daddr r) [r0, r1, r2]))"
    using m2 rs by (intro route_lookup_append) simp_all
  show ?thesis
    unfolding l using m0 m1 m2
    by (simp add: rs r0_def r1_def r2_def route_alloc_def Let_def)
qed

text \<open>A table right after start-up, for concrete instances.\<close>

definition boot_state :: routestate where
  "boot_state = \<lparr>devs = netdev_init, tun_tx = [], tun_ret = (\<lambda>_. 0), routes = []\<rparr>"

lemma route_lookup_total_example:
  "\<exists>i. route_lookup 0x08080808 (route_init (replicate 16 0) 0x0a000005 boot_state) = Some i"
proof -
  have "devs boot_state = netdev_init" "routes boot_state = []"
    "routes (route_init (replicate 16 0) 0x0a000005 boot_state) =
       routes (route_init (replicate 16 0) 0x0a000005 boot_state) @ []"
    by (simp_all add: boot_state_def)
  from route_lookup_total [OF this, where daddr = "0x08080808"] show ?thesis by blast
qed

section \<open>IPv6 lookup\<close>

text \<open>Bit \<open>k\<close> of an address, counted from the most significant bit of its first byte.\<close>

definition addr_bit :: "in6_addr \<Rightarrow> nat \<Rightarrow> bool" where
  "addr_bit a k = bit (a ! (k div 8)) (7 - k mod 8)"

definition prefix_matches :: "in6_addr \<Rightarrow> rtentry \<Rightarrow> bool" where
  "prefix_matches daddr rt \<longleftrightarrow> rt_family rt = AF_INET6 \<and>
     (\<forall>k < unat (rt_prefix_len rt). addr_bit daddr k = addr_bit (rt_dst rt) k)"

lemma byte_eq_bits: "(x :: u8) = y \<longleftrightarrow> (\<forall>j < 8. bit x (7 - j) = bit y (7 - j))"
proof
  assume h: "\<forall>j < 8. bit x (7 - j) = bit y (7 - j)"
  show "x = y"
  proof (rule bit_word_eqI)
    fix n assume "n < LENGTH(8)"
    with h [rule_format, of "7 - n"] show "bit x n = bit y n" by simp
  qed
qed simp

lemma byte_mask_bits:
  assumes "0 < r" "r < 8"
  shows "(x :: u8) AND push_bit (8 - r) 0xFF = y AND push_bit (8 - r) 0xFF
    \<longleftrightarrow> (\<forall>j < r. bit x (7 - j) = bit y (7 - j))"
proof -
  have ff: "(0xFF :: u8) = mask 8" by (simp add: mask_eq_exp_minus_1)
  have b: "bit (push_bit (8 - r) (0xFF :: u8)) n \<longleftrightarrow> 8 - r \<le> n \<and> n < 8" for n
    unfolding ff by (auto simp: bit_simps)
  have "(x AND push_bit (8 - r) 0xFF = y AND push_bit (8 - r) 0xFF)
      \<longleftrightarrow> (\<forall>n < 8. 8 - r \<le> n \<longrightarrow> bit x n = bit y n)"
    by (auto simp: bit_eq_iff bit_and_iff b)
  also have "\<dots> \<longleftrightarrow> (\<forall>j < r. bit x (7 - j) = bit y (7 - j))"
  proof safe
    fix j assume "\<forall>n < 8. 8 - r \<le> n \<longrightarrow> bit x n = bit y n" "j < r"
    with assms show "bit x (7 - j) \<Longrightarrow> bit y (7 - j)" "bit y (7 - j) \<Longrightarrow> bit x (7 - j)"
      by auto
  next
    fix n assume h: "\<forall>j < r. bit x (7 - j) = bit y (7 - j)" and n: "n < 8" "8 - r \<le> n"
    have "7 - n < r" "7 - (7 - n) = n" using n by linarith+
    with h show "bit x n \<Longrightarrow> bit y n" "bit y n \<Longrightarrow> bit x n" by metis+
  qed
  finally show ?thesis .
qed

lemma all_below_bytes:
  "(\<forall>k < 8 * q + r. P (k div 8) (k mod 8)) \<longleftrightarrow> (\<forall>i < q. \<forall>j < 8. P i j) \<and> (\<forall>j < r. P q j)"
  if "r < 8" for q r :: nat
proof (intro iffI conjI allI impI)
  fix i j :: nat
  assume h: "\<forall>k < 8 * q + r. P (k div 8) (k mod 8)" and "i < q" "j < 8"
  then have "8 * i + j < 8 * q + r" by linarith
  with h [rule_format, of "8 * i + j"] \<open>j < 8\<close> show "P i j" by simp
next
  fix j :: nat
  assume h: "\<forall>k < 8 * q + r. P (k div 8) (k mod 8)" and "j < r"
  with h [rule_format, of "8 * q + j"] that show "P q j" by simp
next
  fix k :: nat
  assume h: "(\<forall>i < q. \<forall>j < 8. P i j) \<and> (\<forall>j < r. P q j)" and k: "k < 8 * q + r"
  have e: "k = 8 * (k div 8) + k mod 8" by simp
  show "P (k div 8) (k mod 8)"
  proof (cases "k div 8 < q")
    case True with h show ?thesis by simp
  next
    case False
    with k that e have "k div 8 = q" by linarith
    moreover from this k e have "k mod 8 < r" by linarith
    ultimately show ?thesis using h by simp
  qed
qed

lemma route6_match_prefix:
  assumes "unat (rt_prefix_len rt) \<le> 128" and "rt_family rt = AF_INET6"
  shows "route6_match daddr rt \<longleftrightarrow> prefix_matches daddr rt"
proof -
  define q r where "q = unat (rt_prefix_len rt) div 8" and "r = unat (rt_prefix_len rt) mod 8"
  have p: "unat (rt_prefix_len rt) = 8 * q + r" and r: "r < 8"
    by (simp_all add: q_def r_def)
  have q16: "0 < r \<Longrightarrow> q < 16" using assms(1) p by linarith
  have "prefix_matches daddr rt \<longleftrightarrow>
      (\<forall>i < q. daddr ! i = rt_dst rt ! i) \<and>
      (\<forall>j < r. bit (daddr ! q) (7 - j) = bit (rt_dst rt ! q) (7 - j))"
    using all_below_bytes [OF r, where q = q and
        P = "\<lambda>i j. bit (daddr ! i) (7 - j) = bit (rt_dst rt ! i) (7 - j)"]
    by (simp add: prefix_matches_def addr_bit_def assms(2) p byte_eq_bits)
  also have "\<dots> \<longleftrightarrow> route6_match daddr rt"
    using byte_mask_bits [of r "daddr ! q" "rt_dst rt ! q"] r q16
    by (cases "r = 0") (auto simp: route6_match_def Let_def list_all_iff simp flip: q_def r_def)
  finally show ?thesis by simp
qed

lemma route6_lookup_loop_None:
  "route6_lookup_loop daddr i best bl rs = None \<longleftrightarrow>
     best = None \<and> (\<forall>r \<in> set rs. \<not> (rt_family r = AF_INET6 \<and> route6_match daddr r))"
  by (induction rs arbitrary: i best bl) auto

text \<open>The loop keeps the first entry of the greatest prefix length among those it has seen.\<close>

definition best_route :: "in6_addr \<Rightarrow> rtentry list \<Rightarrow> nat \<Rightarrow> bool" where
  "best_route daddr rs i \<longleftrightarrow> i < length rs \<and>
     rt_family (rs ! i) = AF_INET6 \<and> route6_match daddr (rs ! i) \<and>
     (\<forall>j < length rs. rt_family (rs ! j) = AF_INET6 \<and> route6_match daddr (rs ! j) \<longrightarrow>
        rt_prefix_len (rs ! j) < rt_prefix_len (rs ! i) \<or>
        rt_prefix_len (rs ! j) = rt_prefix_len (rs ! i) \<and> i \<le> j)"

definition best_so_far :: "in6_addr \<Rightarrow> rtentry list \<Rightarrow> nat option \<Rightarrow> u8 \<Rightarrow> bool" where
  "best_so_far daddr rs best bl \<longleftrightarrow>
     (case best of
        None \<Rightarrow> (\<forall>j < length rs. \<not> (rt_family (rs ! j) = AF_INET6 \<and> route6_match daddr (rs ! j)))
      | Some i \<Rightarrow> best_route daddr rs i \<and> bl = rt_prefix_len (rs ! i))"

lemma best_so_far_skip:
  assumes "best_so_far daddr rs best bl"
    and "\<not> (rt_family r = AF_INET6 \<and> route6_match daddr r) \<or> (best \<noteq> None \<and> rt_prefix_len r \<le> bl)"
  shows "best_so_far daddr (rs @ [r]) best bl"
proof (cases best)
  case None with assms show ?thesis
    by (auto simp: best_so_far_def nth_append less_Suc_eq)
next
  case (Some i)
  with assms show ?thesis
    unfolding best_so_far_def best_route_def
    by (auto simp: nth_append less_Suc_eq)
qed

lemma best_so_far_take:
  assumes "best_so_far daddr rs best bl" "rt_family r = AF_INET6" "route6_match daddr r"
    and "best = None \<or> bl < rt_prefix_len r"
  shows "best_so_far daddr (rs @ [r]) (Some (length rs)) (rt_prefix_len r)"
proof -
  have "rt_prefix_len (rs ! j) < rt_prefix_len r"
    if "j < length rs" "rt_family (rs ! j) = AF_INET6" "route6_match daddr (rs ! j)" for j
  proof (cases best)
    case None with assms(1) that show ?thesis by (simp add: best_so_far_def)
  next
    case (Some i)
    with assms(1) that have "rt_prefix_len (rs ! j) \<le> bl"
      by (auto simp: best_so_far_def best_route_def)
    with Some assms(4) show ?thesis by simp
  qed
  with assms(2,3) show ?thesis
    by (auto simp: best_so_far_def best_route_def nth_append less_Suc_eq)
qed

lemma route6_lookup_loop_best:
  assumes "best_so_far daddr seen best bl"
  shows "\<exists>bl'. best_so_far daddr (seen @ rs) (route6_lookup_loop daddr (length seen) best bl rs) bl'"
  using assms
proof (induction rs arbitrary: seen best bl)
  case (Cons r rs)
  consider (take) "rt_family r = AF_INET6" "route6_match daddr r" "best = None \<or> bl < rt_prefix_len r"
    | (skip) "\<not> (rt_family r = AF_INET6 \<and> route6_match daddr r) \<or> (best \<noteq> None \<and> rt_prefix_len r \<le> bl)"
    by fastforce
  then show ?case
  proof cases
    case take
    then show ?thesis
      using Cons.IH [OF best_so_far_take [OF Cons.prems take]] by simp
  next
    case skip
    have "route6_lookup_loop daddr (length seen) best bl (r # rs) =
        route6_lookup_loop daddr (length seen + 1) best bl rs"
      using skip by auto
    with Cons.IH [OF best_so_far_skip [OF Cons.prems skip]] show ?thesis by simp
  qed
qed auto

text \<open>Property C29. Longest-prefix match: with prefix lengths of at most 128 the IPv6 lookup returns an
  entry whose first \<open>prefix_len\<close> bits agree with the destination and whose prefix no matching
  entry exceeds, the first one on a tie; it fails only when no entry matches.\<close>

theorem route6_lookup_longest_prefix:
  assumes "\<forall>r \<in> set (routes s). unat (rt_prefix_len r) \<le> 128"
  shows "case route6_lookup daddr s of
      None \<Rightarrow> \<forall>r \<in> set (routes s). \<not> prefix_matches daddr r
    | Some i \<Rightarrow> i < length (routes s) \<and> prefix_matches daddr (routes s ! i) \<and>
        (\<forall>j < length (routes s). prefix_matches daddr (routes s ! j) \<longrightarrow>
           rt_prefix_len (routes s ! j) < rt_prefix_len (routes s ! i) \<or>
           rt_prefix_len (routes s ! j) = rt_prefix_len (routes s ! i) \<and> i \<le> j)"
proof -
  let ?rs = "routes s"
  have m: "(rt_family (?rs ! j) = AF_INET6 \<and> route6_match daddr (?rs ! j)) = prefix_matches daddr (?rs ! j)"
    if "j < length ?rs" for j
    using that assms route6_match_prefix [of "?rs ! j" daddr] by (auto simp: prefix_matches_def)
  have "best_so_far daddr [] None 0" by (simp add: best_so_far_def)
  from route6_lookup_loop_best [OF this, of ?rs] obtain bl
    where b: "best_so_far daddr ?rs (route6_lookup daddr s) bl"
    by (auto simp: route6_lookup_def)
  show ?thesis
  proof (cases "route6_lookup daddr s")
    case None
    with b m show ?thesis by (simp add: best_so_far_def all_set_conv_all_nth)
  next
    case (Some i)
    with b have r: "best_route daddr ?rs i" by (simp add: best_so_far_def)
    with m show ?thesis unfolding Some best_route_def option.case by blast
  qed
qed

theorem route6_lookup_longest_prefix_witness:
  "\<exists>i. route6_lookup (0x20 # replicate 15 0)
     (route6_add (Some (0x20 # replicate 15 0)) None 64 0 0 Dev_tap
       (route6_add_default (replicate 16 1) RT_GATEWAY 0 Dev_tap boot_state)) = Some i"
proof -
  let ?s = "route6_add (Some (0x20 # replicate 15 0)) None 64 0 0 Dev_tap
       (route6_add_default (replicate 16 1) RT_GATEWAY 0 Dev_tap boot_state)"
  have len: "\<forall>r \<in> set (routes ?s). unat (rt_prefix_len r) \<le> 128"
    and m: "prefix_matches (0x20 # replicate 15 0) (routes ?s ! 0)" "0 < length (routes ?s)"
    by (simp_all add: route6_add_def route6_add_default_def route6_alloc_def boot_state_def
        prefix_matches_def)
  from route6_lookup_longest_prefix [OF len, of "0x20 # replicate 15 0"] m
  show ?thesis by (cases "route6_lookup (0x20 # replicate 15 0) ?s") auto
qed

text \<open>A path-MTU update keeps every other entry of the table and all fields but
  \<open>pmtu\<close>, never sets a path MTU below the IPv6 minimum of 1280, and reports failure exactly when no
  route matches.\<close>

lemma route6_update_pmtu_effect:
  "case route6_lookup daddr s of
     None \<Rightarrow> route6_update_pmtu daddr mtu s = (-1, s)
   | Some i \<Rightarrow> fst (route6_update_pmtu daddr mtu s) = 0 \<and>
       (let s' = snd (route6_update_pmtu daddr mtu s)
        in routes s' = (routes s)[i := (routes s ! i)\<lparr>rt_pmtu := max 1280 mtu\<rparr>] \<and>
           1280 \<le> rt_pmtu (routes s' ! i) \<and>
           route6_lookup daddr s' = route6_lookup daddr s)"
proof (cases "route6_lookup daddr s")
  case None then show ?thesis by (simp add: route6_update_pmtu_def)
next
  case (Some i)
  have upd: "route6_match daddr (r\<lparr>rt_pmtu := m\<rparr>) = route6_match daddr r" for r m
    by (simp add: route6_match_def)
  have loop: "route6_lookup_loop daddr k best bl (rs[i := (rs ! i)\<lparr>rt_pmtu := m\<rparr>]) =
      route6_lookup_loop daddr k best bl rs" if "i < length rs" for k best bl rs m i
    using that by (induction rs arbitrary: k best bl i) (auto simp: upd split: nat.splits)
  have "route6_lookup_loop daddr 0 None 0 (routes s) = Some i"
    using Some by (simp add: route6_lookup_def)
  moreover have "best_so_far daddr [] None 0" by (simp add: best_so_far_def)
  ultimately have i: "i < length (routes s)"
    using route6_lookup_loop_best [of daddr "[]" None 0 "routes s"]
    by (auto simp: best_so_far_def best_route_def)
  have "(if mtu < 1280 then 1280 else mtu) = max 1280 mtu" by (auto simp: max_def)
  with Some i loop [OF i] show ?thesis
    by (simp add: route6_update_pmtu_def Let_def route6_lookup_def)
qed

end
