(* ===== verification/Arp.thy ===== *)
theory Arp
  imports Route
begin

text \<open>
  Address resolution (\<open>include/arp.h\<close>, \<open>src/arp.c\<close>): the translation table as a list of entries,
  the reception of packets, requests and replies. A received packet is converted to host byte
  order in place, at the offsets the code uses from the head of the buffer.
\<close>

record arp_hdr =
  arp_hwtype :: u16
  arp_protype :: u16
  arp_hwsize :: u8
  arp_prosize :: u8
  arp_opcode :: u16

record arp_ipv4 =
  ad_smac :: bytes
  ad_sip :: u32
  ad_dmac :: bytes
  ad_dip :: u32

record arp_cache_entry =
  ac_hwtype :: u16
  ac_sip :: u32
  ac_smac :: bytes
  ac_state :: u32

record arpstate = routestate +
  arp_cache :: "arp_cache_entry list"

abbreviation (input) ARP_ETHERNET :: u16 where "ARP_ETHERNET \<equiv> 0x0001"
abbreviation (input) ARP_IPV4 :: u16 where "ARP_IPV4 \<equiv> 0x0800"
abbreviation (input) ARP_REQUEST :: u16 where "ARP_REQUEST \<equiv> 0x0001"
abbreviation (input) ARP_REPLY :: u16 where "ARP_REPLY \<equiv> 0x0002"
abbreviation (input) ARP_RESOLVED :: u32 where "ARP_RESOLVED \<equiv> 2"
abbreviation (input) ARP_HDR_LEN :: nat where "ARP_HDR_LEN \<equiv> 8"
abbreviation (input) ARP_DATA_LEN :: nat where "ARP_DATA_LEN \<equiv> 20"

section \<open>Layout\<close>

definition enc_arp_hdr :: "arp_hdr \<Rightarrow> bytes" where
  "enc_arp_hdr h = le16 (arp_hwtype h) @ le16 (arp_protype h) @ [arp_hwsize h, arp_prosize h] @
     le16 (arp_opcode h)"

definition dec_arp_hdr :: "bytes \<Rightarrow> arp_hdr" where
  "dec_arp_hdr b = \<lparr>arp_hwtype = get16 b 0, arp_protype = get16 b 2, arp_hwsize = b ! 4,
     arp_prosize = b ! 5, arp_opcode = get16 b 6\<rparr>"

definition enc_arp_ipv4 :: "arp_ipv4 \<Rightarrow> bytes" where
  "enc_arp_ipv4 d = ad_smac d @ le32 (ad_sip d) @ ad_dmac d @ le32 (ad_dip d)"

definition dec_arp_ipv4 :: "bytes \<Rightarrow> arp_ipv4" where
  "dec_arp_ipv4 b = \<lparr>ad_smac = get_bytes 0 6 b, ad_sip = get32 b 6, ad_dmac = get_bytes 10 6 b,
     ad_dip = get32 b 16\<rparr>"

definition ok_arp_ipv4 :: "arp_ipv4 \<Rightarrow> bool" where
  "ok_arp_ipv4 d \<longleftrightarrow> length (ad_smac d) = 6 \<and> length (ad_dmac d) = 6"

section \<open>The translation table\<close>

definition broadcast_hw :: bytes where
  "broadcast_hw = [0xff, 0xff, 0xff, 0xff, 0xff, 0xff]"

definition arp_alloc_skb :: sk_buff where
  "arp_alloc_skb =
     (skb_reserve (alloc_skb (ETH_HDR_LEN + ARP_HDR_LEN + ARP_DATA_LEN))
        (ETH_HDR_LEN + ARP_HDR_LEN + ARP_DATA_LEN))\<lparr>skb_protocol := htons ETH_P_ARP\<rparr>"

definition arp_entry_alloc :: "arp_hdr \<Rightarrow> arp_ipv4 \<Rightarrow> arp_cache_entry" where
  "arp_entry_alloc hdr d =
     \<lparr>ac_hwtype = arp_hwtype hdr, ac_sip = ad_sip d, ac_smac = ad_smac d, ac_state = ARP_RESOLVED\<rparr>"

definition insert_arp_translation_table ::
  "arp_hdr \<Rightarrow> arp_ipv4 \<Rightarrow> arp_cache_entry list \<Rightarrow> arp_cache_entry list" where
  "insert_arp_translation_table hdr d cache = cache @ [arp_entry_alloc hdr d]"

fun update_arp_translation_table ::
  "arp_hdr \<Rightarrow> arp_ipv4 \<Rightarrow> arp_cache_entry list \<Rightarrow> bool \<times> arp_cache_entry list" where
  "update_arp_translation_table hdr d [] = (False, [])"
| "update_arp_translation_table hdr d (e # es) =
     (if ac_hwtype e = arp_hwtype hdr \<and> ac_sip e = ad_sip d
      then (True, e\<lparr>ac_smac := ad_smac d\<rparr> # es)
      else (let (found, es') = update_arp_translation_table hdr d es in (found, e # es')))"

fun arp_get_hwaddr :: "u32 \<Rightarrow> arp_cache_entry list \<Rightarrow> bytes option" where
  "arp_get_hwaddr sip [] = None"
| "arp_get_hwaddr sip (e # es) =
     (if ac_state e = ARP_RESOLVED \<and> ac_sip e = sip then Some (ac_smac e)
      else arp_get_hwaddr sip es)"

definition free_arp :: "('x) arpstate_scheme \<Rightarrow> ('x) arpstate_scheme" where
  "free_arp s = s\<lparr>arp_cache := []\<rparr>"

section \<open>Packets\<close>

definition arp_request ::
  "u32 \<Rightarrow> u32 \<Rightarrow> devid \<Rightarrow> ('x) arpstate_scheme \<Rightarrow> int \<times> ('x) arpstate_scheme" where
  "arp_request sip dip d s =
     (let dev = devs s d;
          n = unat (dev_addr_len dev);
          skb = arp_alloc_skb\<lparr>skb_dev := Some d\<rparr>;
          skb = skb_push skb ARP_DATA_LEN;
          pay = skb_data skb;
          payload = (skb_load dec_arp_ipv4 pay skb)\<lparr>ad_smac := take n (dev_hwaddr dev), ad_sip := sip,
            ad_dmac := take n broadcast_hw, ad_dip := dip\<rparr>;
          skb = skb_push skb ARP_HDR_LEN;
          arp = \<lparr>arp_hwtype = htons ARP_ETHERNET, arp_protype = htons ETH_P_IP,
            arp_hwsize = dev_addr_len dev, arp_prosize = 4, arp_opcode = htons ARP_REQUEST\<rparr>;
          payload = payload\<lparr>ad_sip := htonl (ad_sip payload), ad_dip := htonl (ad_dip payload)\<rparr>;
          skb = skb_store enc_arp_ipv4 pay payload skb;
          skb = skb_store enc_arp_hdr (skb_data skb) arp skb;
          (rc, skb, s) = netdev_transmit skb broadcast_hw ETH_P_ARP s
      in (rc, s))"

text \<open>What \<open>arp_reply\<close> makes of the header and of the data of the request: sender and target are
  exchanged, and both go back to network byte order.\<close>

definition arp_reply_hdr :: "arp_hdr \<Rightarrow> arp_hdr" where
  "arp_reply_hdr arphdr =
     (let arphdr = arphdr\<lparr>arp_opcode := ARP_REPLY\<rparr>
      in arphdr\<lparr>arp_opcode := htons (arp_opcode arphdr), arp_hwtype := htons (arp_hwtype arphdr),
           arp_protype := htons (arp_protype arphdr)\<rparr>)"

definition arp_reply_data :: "netdev \<Rightarrow> arp_ipv4 \<Rightarrow> arp_ipv4" where
  "arp_reply_data dev arpdata =
     (let arpdata = arpdata\<lparr>ad_dmac := ad_smac arpdata, ad_dip := ad_sip arpdata\<rparr>;
          arpdata = arpdata\<lparr>ad_smac := take 6 (dev_hwaddr dev), ad_sip := dev_addr dev\<rparr>
      in arpdata\<lparr>ad_sip := htonl (ad_sip arpdata), ad_dip := htonl (ad_dip arpdata)\<rparr>)"

definition arp_reply ::
  "sk_buff \<Rightarrow> devid \<Rightarrow> ('x) arpstate_scheme \<Rightarrow> sk_buff \<times> ('x) arpstate_scheme" where
  "arp_reply skb d s =
     (let arphdr = skb_load dec_arp_hdr 14 skb;
          skb = skb_reserve skb (ETH_HDR_LEN + ARP_HDR_LEN + ARP_DATA_LEN);
          skb = skb_push skb (ARP_HDR_LEN + ARP_DATA_LEN);
          arpdata = arp_reply_data (devs s d) (skb_load dec_arp_ipv4 22 skb);
          skb = skb_store enc_arp_hdr 14 (arp_reply_hdr arphdr) skb;
          skb = skb_store enc_arp_ipv4 22 arpdata skb;
          skb = skb\<lparr>skb_dev := Some d\<rparr>;
          (rc, skb, s) = netdev_transmit skb (ad_dmac arpdata) ETH_P_ARP s
      in (free_skb skb, s))"

text \<open>The conversions \<open>arp_rcv\<close> makes on the header and on the data.\<close>

definition arp_ntoh_hdr :: "arp_hdr \<Rightarrow> arp_hdr" where
  "arp_ntoh_hdr h = h\<lparr>arp_hwtype := ntohs (arp_hwtype h), arp_protype := ntohs (arp_protype h),
     arp_opcode := ntohs (arp_opcode h)\<rparr>"

definition arp_ntoh_data :: "arp_ipv4 \<Rightarrow> arp_ipv4" where
  "arp_ntoh_data d = d\<lparr>ad_sip := ntohl (ad_sip d), ad_dip := ntohl (ad_dip d)\<rparr>"

definition arp_rcv ::
  "sk_buff \<Rightarrow> ('x) arpstate_scheme \<Rightarrow> sk_buff \<times> ('x) arpstate_scheme" where
  "arp_rcv skb s =
     (let arphdr = arp_ntoh_hdr (skb_load dec_arp_hdr 14 skb);
          skb = skb_store enc_arp_hdr 14 arphdr skb
      in if arp_hwtype arphdr \<noteq> ARP_ETHERNET then (free_skb skb, s)
         else if arp_protype arphdr \<noteq> ARP_IPV4 then (free_skb skb, s)
         else
           (let arpdata = arp_ntoh_data (skb_load dec_arp_ipv4 22 skb);
                skb = skb_store enc_arp_ipv4 22 arpdata skb;
                (merge, cache) = update_arp_translation_table arphdr arpdata (arp_cache s);
                s = s\<lparr>arp_cache := cache\<rparr>
            in case netdev_get (ad_dip arpdata) s of
                 None \<Rightarrow> (free_skb skb, s)
               | Some netdev \<Rightarrow>
                   (let s = (if merge then s
                             else s\<lparr>arp_cache := insert_arp_translation_table arphdr arpdata (arp_cache s)\<rparr>)
                    in if arp_opcode arphdr = ARP_REQUEST then arp_reply skb netdev s
                       else (free_skb skb, s))))"

section \<open>Interfaces\<close>

lemma length_enc_arp_hdr [simp]: "length (enc_arp_hdr h) = 8"
  by (simp add: enc_arp_hdr_def)

interpretation arph: packed_struct enc_arp_hdr dec_arp_hdr 8 "\<lambda>_. True"
  by unfold_locales
    (simp_all add: enc_arp_hdr_def dec_arp_hdr_def le16_def get16_def)

interpretation arpd: packed_struct enc_arp_ipv4 dec_arp_ipv4 20 ok_arp_ipv4
proof unfold_locales
  fix d :: arp_ipv4 and rest
  assume ok: "ok_arp_ipv4 d"
  then show "length (enc_arp_ipv4 d) = 20" by (simp add: ok_arp_ipv4_def enc_arp_ipv4_def)
  from ok show "dec_arp_ipv4 (enc_arp_ipv4 d @ rest) = d"
    by (simp add: ok_arp_ipv4_def enc_arp_ipv4_def dec_arp_ipv4_def get_bytes_def get32_def
        le32_def nth_append)
qed

text \<open>A neighbour table: what the output path relies on when it asks for a hardware address.\<close>

locale neighbour_table =
  fixes lookup :: "'k \<Rightarrow> 't \<Rightarrow> 'v option" and learn :: "'k \<Rightarrow> 'v \<Rightarrow> 't \<Rightarrow> 't" and empty :: 't
    and inv :: "'t \<Rightarrow> bool"
  assumes inv_empty: "inv empty"
    and inv_learn: "inv t \<Longrightarrow> inv (learn k v t)"
    and lookup_empty: "lookup k empty = None"
    and lookup_learn: "inv t \<Longrightarrow> lookup k' (learn k v t) = (if k' = k then Some v else lookup k' t)"
begin

lemma inv_fold: "inv t \<Longrightarrow> inv (fold (\<lambda>(k, v). learn k v) kvs t)"
  by (induction kvs arbitrary: t) (auto simp: inv_learn)

text \<open>After a history of observations the table answers with the most recent one.\<close>

lemma lookup_fold:
  "inv t \<Longrightarrow> lookup k (fold (\<lambda>(k, v). learn k v) kvs t) =
     (case map_of (rev kvs) k of None \<Rightarrow> lookup k t | Some v \<Rightarrow> Some v)"
proof (induction kvs arbitrary: t)
  case (Cons kv kvs)
  obtain k1 v1 where kv: "kv = (k1, v1)" by force
  show ?case
    using Cons.IH [of "learn k1 v1 t"] Cons.prems
    by (auto simp: kv inv_learn lookup_learn map_add_def split: option.splits)
qed simp

lemma lookup_fold_empty:
  "lookup k (fold (\<lambda>(k, v). learn k v) kvs empty) = map_of (rev kvs) k"
  by (simp add: lookup_fold inv_empty lookup_empty split: option.splits)

end

text \<open>Merge or insert, as \<open>arp_rcv\<close> does for a packet addressed to us.\<close>

definition arp_learn :: "u32 \<Rightarrow> bytes \<Rightarrow> arp_cache_entry list \<Rightarrow> arp_cache_entry list" where
  "arp_learn sip smac cache =
     (let hdr = \<lparr>arp_hwtype = ARP_ETHERNET, arp_protype = ARP_IPV4, arp_hwsize = 6, arp_prosize = 4,
            arp_opcode = ARP_REQUEST\<rparr>;
          d = \<lparr>ad_smac = smac, ad_sip = sip, ad_dmac = [], ad_dip = 0\<rparr>;
          (merge, cache) = update_arp_translation_table hdr d cache
      in if merge then cache else insert_arp_translation_table hdr d cache)"

definition arp_inv :: "arp_cache_entry list \<Rightarrow> bool" where
  "arp_inv cache \<longleftrightarrow> distinct (map ac_sip cache) \<and>
     (\<forall>e \<in> set cache. ac_hwtype e = ARP_ETHERNET \<and> ac_state e = ARP_RESOLVED)"

lemma update_arp_spec:
  assumes "update_arp_translation_table hdr d cache = (found, cache')" and "arp_inv cache"
    and "arp_hwtype hdr = ARP_ETHERNET"
  shows "arp_inv cache' \<and> map ac_sip cache' = map ac_sip cache \<and>
    (found \<longleftrightarrow> ad_sip d \<in> set (map ac_sip cache)) \<and>
    arp_get_hwaddr k cache' = (if k = ad_sip d \<and> found then Some (ad_smac d) else arp_get_hwaddr k cache)"
  using assms(1,2)
proof (induction cache arbitrary: found cache')
  case Nil
  then show ?case by (simp add: arp_inv_def)
next
  case (Cons e es)
  show ?case
  proof (cases "ac_sip e = ad_sip d")
    case True
    with Cons.prems assms(3) show ?thesis by (auto simp: arp_inv_def)
  next
    case False
    obtain f es' where u: "update_arp_translation_table hdr d es = (f, es')" by force
    with False Cons.prems have r: "found = f" "cache' = e # es'" by auto
    have "arp_inv es" using Cons.prems(2) by (simp add: arp_inv_def)
    note ih = Cons.IH [OF u this]
    have m: "map ac_sip es' = map ac_sip es" using ih by blast
    then have "ac_sip ` set es' = ac_sip ` set es" by (metis set_map)
    with ih False Cons.prems(2) show ?thesis by (auto simp: r arp_inv_def)
  qed
qed

lemma arp_get_hwaddr_append:
  "arp_get_hwaddr k (es @ [e]) =
     (case arp_get_hwaddr k es of
        Some m \<Rightarrow> Some m
      | None \<Rightarrow> if ac_state e = ARP_RESOLVED \<and> ac_sip e = k then Some (ac_smac e) else None)"
  by (induction es) auto

lemma arp_get_hwaddr_None: "arp_inv es \<Longrightarrow> arp_get_hwaddr k es = None \<longleftrightarrow> k \<notin> set (map ac_sip es)"
  by (induction es) (auto simp: arp_inv_def)

lemma insert_arp_spec:
  assumes "arp_inv cache" "arp_hwtype hdr = ARP_ETHERNET" "ad_sip d \<notin> set (map ac_sip cache)"
  shows "arp_inv (insert_arp_translation_table hdr d cache) \<and>
    arp_get_hwaddr k (insert_arp_translation_table hdr d cache) =
      (if k = ad_sip d then Some (ad_smac d) else arp_get_hwaddr k cache)"
  using assms arp_get_hwaddr_None [of cache "ad_sip d"]
  by (auto simp: insert_arp_translation_table_def arp_entry_alloc_def arp_get_hwaddr_append arp_inv_def
      split: option.splits)

lemma arp_merge_insert_spec:
  assumes "update_arp_translation_table hdr d cache = (found, cache')" and "arp_inv cache"
    and "arp_hwtype hdr = ARP_ETHERNET"
  shows "arp_inv (if found then cache' else insert_arp_translation_table hdr d cache') \<and>
    arp_get_hwaddr k (if found then cache' else insert_arp_translation_table hdr d cache') =
      (if k = ad_sip d then Some (ad_smac d) else arp_get_hwaddr k cache)"
  using update_arp_spec [OF assms, of k] insert_arp_spec [of cache' hdr d k] assms(3) by auto

interpretation arpt: neighbour_table arp_get_hwaddr arp_learn "[]" arp_inv
proof unfold_locales
  fix t k v k'
  assume inv: "arp_inv t"
  let ?h = "\<lparr>arp_hwtype = ARP_ETHERNET, arp_protype = ARP_IPV4, arp_hwsize = 6, arp_prosize = 4,
    arp_opcode = ARP_REQUEST\<rparr>"
  let ?d = "\<lparr>ad_smac = v, ad_sip = k, ad_dmac = [], ad_dip = 0\<rparr>"
  obtain f c where u: "update_arp_translation_table ?h ?d t = (f, c)" by force
  from arp_merge_insert_spec [OF u inv, of k'] u
  show "arp_inv (arp_learn k v t)"
    and "arp_get_hwaddr k' (arp_learn k v t) = (if k' = k then Some v else arp_get_hwaddr k' t)"
    by (simp_all add: arp_learn_def)
qed (simp_all add: arp_inv_def)

section \<open>Reception\<close>

text \<open>The packet in a received frame, in host byte order.\<close>

definition arp_in_hdr :: "sk_buff \<Rightarrow> arp_hdr" where
  "arp_in_hdr skb = arp_ntoh_hdr (skb_load dec_arp_hdr 14 skb)"

definition arp_in_data :: "sk_buff \<Rightarrow> arp_ipv4" where
  "arp_in_data skb = arp_ntoh_data (skb_load dec_arp_ipv4 22 skb)"

text \<open>The buffer after both conversions.\<close>

definition arp_in_skb :: "sk_buff \<Rightarrow> sk_buff" where
  "arp_in_skb skb =
     skb_store enc_arp_ipv4 22 (arp_in_data skb) (skb_store enc_arp_hdr 14 (arp_in_hdr skb) skb)"

lemma arp_reply_cache [net_frame]: "arp_cache (snd (arp_reply skb d s)) = arp_cache s"
proof -
  have "arp_cache (snd (snd (netdev_transmit b dst ty s))) = arp_cache s" for b dst ty
    by (subst netdev_transmit_state) simp
  then show ?thesis by (simp add: arp_reply_def Let_def case_prod_beta)
qed

lemma skb_load_after_store:
  assumes "length (enc h) = 8" "42 \<le> length (skb_mem skb)"
  shows "skb_load dec 22 (skb_store enc 14 h skb) = skb_load dec 22 skb"
  using assms
  by (simp add: skb_load_def skb_store_def skb_put_def skb_end_def load_def drop_put_bytes_after)

text \<open>\<open>arp_rcv\<close> on the converted packet, with the buffer it frees or answers in.\<close>

lemma arp_rcv_eq:
  assumes "42 \<le> length (skb_mem skb)"
  shows "arp_rcv skb s =
    (if arp_hwtype (arp_in_hdr skb) \<noteq> ARP_ETHERNET \<or> arp_protype (arp_in_hdr skb) \<noteq> ARP_IPV4
     then (free_skb (skb_store enc_arp_hdr 14 (arp_in_hdr skb) skb), s)
     else let (merge, cache) = update_arp_translation_table (arp_in_hdr skb) (arp_in_data skb) (arp_cache s)
          in if dev_addr (devs s Dev_tap) \<noteq> ad_dip (arp_in_data skb)
             then (free_skb (arp_in_skb skb), s\<lparr>arp_cache := cache\<rparr>)
             else (let s = s\<lparr>arp_cache := if merge then cache
                         else insert_arp_translation_table (arp_in_hdr skb) (arp_in_data skb) cache\<rparr>
                   in if arp_opcode (arp_in_hdr skb) = ARP_REQUEST then arp_reply (arp_in_skb skb) Dev_tap s
                      else (free_skb (arp_in_skb skb), s)))"
proof -
  have d: "arp_in_data (skb_store enc_arp_hdr 14 (arp_in_hdr skb) skb) = arp_in_data skb"
    using assms by (simp add: arp_in_data_def skb_load_after_store)
  show ?thesis
    unfolding arp_rcv_def arp_in_hdr_def [symmetric] Let_def arp_in_data_def [symmetric] d
      arp_in_skb_def netdev_get_def
    by (simp add: case_prod_beta)
qed

text \<open>Property C35. Receiving any frame keeps the translation table a map (one resolved entry per
  protocol address). An ARP packet for our address makes its sender's pair the answer of later lookups;
  one for another host only refreshes a sender already known; other addresses keep their answer.\<close>

theorem arp_rcv_learns:
  assumes "arp_inv (arp_cache s)" and "42 \<le> length (skb_mem skb)"
  shows "let s' = snd (arp_rcv skb s); d = arp_in_data skb;
             valid = (arp_hwtype (arp_in_hdr skb) = ARP_ETHERNET \<and> arp_protype (arp_in_hdr skb) = ARP_IPV4)
         in arp_inv (arp_cache s') \<and>
            arp_get_hwaddr k (arp_cache s') =
              (if valid \<and> k = ad_sip d \<and>
                  (ad_dip d = dev_addr (devs s Dev_tap) \<or> arp_get_hwaddr k (arp_cache s) \<noteq> None)
               then Some (ad_smac d) else arp_get_hwaddr k (arp_cache s))"
proof -
  note rcv = arp_rcv_eq [OF assms(2), of s]
  obtain f c where u: "update_arp_translation_table (arp_in_hdr skb) (arp_in_data skb) (arp_cache s) = (f, c)"
    by force
  show ?thesis
  proof (cases "arp_hwtype (arp_in_hdr skb) = ARP_ETHERNET \<and> arp_protype (arp_in_hdr skb) = ARP_IPV4")
    case False
    then have "arp_cache (snd (arp_rcv skb s)) = arp_cache s" unfolding rcv by auto
    with False assms(1) show ?thesis by (simp only: Let_def) simp
  next
    case True
    let ?c = "if f then c else insert_arp_translation_table (arp_in_hdr skb) (arp_in_data skb) c"
    have cache: "arp_cache (snd (arp_rcv skb s)) =
        (if dev_addr (devs s Dev_tap) \<noteq> ad_dip (arp_in_data skb) then c else ?c)"
      unfolding rcv using True by (simp add: u Let_def arp_reply_cache)
    note t = True [THEN conjunct1]
    show ?thesis
      unfolding Let_def cache
      using True update_arp_spec [OF u assms(1) t, of k] arp_merge_insert_spec [OF u assms(1) t, of k]
        arp_get_hwaddr_None [OF assms(1), of k]
      by (cases "dev_addr (devs s Dev_tap) = ad_dip (arp_in_data skb)") auto
  qed
qed

text \<open>A broadcast "who has 10.0.0.4, tell 10.0.0.9" from 02:03:04:05:06:07, and a state after
  start-up.\<close>

definition arp_boot :: arpstate where
  "arp_boot = \<lparr>devs = netdev_init, tun_tx = [], tun_ret = (\<lambda>_. 0), routes = [], arp_cache = []\<rparr>"

definition arp_sample :: sk_buff where
  "arp_sample = (alloc_skb 100)\<lparr>skb_len := 42, skb_mem :=
     [0xff, 0xff, 0xff, 0xff, 0xff, 0xff, 2, 3, 4, 5, 6, 7, 8, 6] @
     [0, 1, 8, 0, 6, 4, 0, 1] @
     [2, 3, 4, 5, 6, 7, 10, 0, 0, 9, 0, 0, 0, 0, 0, 0, 10, 0, 0, 4] @ replicate 58 0\<rparr>"

lemma arp_sample_fields:
  "arp_in_hdr arp_sample = \<lparr>arp_hwtype = 1, arp_protype = 0x800, arp_hwsize = 6, arp_prosize = 4,
     arp_opcode = 1\<rparr>"
  "arp_in_data arp_sample = \<lparr>ad_smac = [2, 3, 4, 5, 6, 7], ad_sip = 0x0a000009,
     ad_dmac = [0, 0, 0, 0, 0, 0], ad_dip = 0x0a000004\<rparr>"
  by (simp_all add: arp_sample_def arp_in_hdr_def arp_in_data_def arp_ntoh_hdr_def arp_ntoh_data_def
      skb_load_def load_def dec_arp_hdr_def dec_arp_ipv4_def get16_def get32_def get_bytes_def
      htons_def htonl_def w16_def w32_def alloc_skb_def)

lemma arp_boot_facts:
  "arp_inv (arp_cache arp_boot)" "42 \<le> length (skb_mem arp_sample)"
  "dev_addr (devs arp_boot Dev_tap) = 0x0a000004" "wf_netdev (devs arp_boot Dev_tap)"
  by (simp_all add: arp_boot_def arp_inv_def arp_sample_def netdev_init_def netdev_alloc_def
      wf_netdev_def in6_zero_def)

theorem arp_rcv_learns_witness:
  "arp_get_hwaddr 0x0a000009 (arp_cache (snd (arp_rcv arp_sample arp_boot))) =
     Some [2, 3, 4, 5, 6, 7]"
  using arp_rcv_learns [of arp_boot arp_sample "0x0a000009"]
    arp_boot_facts by (simp add: arp_sample_fields Let_def)

section \<open>Replies\<close>

lemma arp_pieces:
  assumes "42 \<le> length m"
  obtains pre h d rest where "m = pre @ h @ d @ rest" "length pre = 14" "length h = 8" "length d = 20"
proof
  show "m = take 14 m @ take 8 (drop 14 m) @ take 20 (drop 22 m) @ drop 42 m"
    using append_take_drop_id [of 14 m] append_take_drop_id [of 8 "drop 14 m"]
      append_take_drop_id [of 20 "drop 22 m"] by simp
qed (use assms in simp_all)

lemma skb_store_arp_ipv4:
  assumes "length d = 20" "length (enc_arp_ipv4 D') = 20" "length pre = 14"
  shows "skb_store enc_arp_ipv4 22 D' (b\<lparr>skb_mem := pre @ enc_arp_hdr H' @ d @ rest\<rparr>) =
    b\<lparr>skb_mem := pre @ enc_arp_hdr H' @ enc_arp_ipv4 D' @ rest\<rparr>"
  unfolding skb_store_def
  by (subst skb_put_mid [of _ "pre @ enc_arp_hdr H'" d rest 22 "enc_arp_ipv4 D'", simplified])
    (simp_all add: assms)

lemma arp_reply_stored:
  assumes "skb_mem b = pre @ enc_arp_hdr H @ enc_arp_ipv4 D @ rest" "length pre = 14"
    and "ok_arp_ipv4 D" "ok_arp_ipv4 D'"
  shows "skb_load dec_arp_hdr 14 b = H" and "skb_load dec_arp_ipv4 22 b = D"
    and "skb_store enc_arp_ipv4 22 D' (skb_store enc_arp_hdr 14 H' b) =
      b\<lparr>skb_mem := pre @ enc_arp_hdr H' @ enc_arp_ipv4 D' @ rest\<rparr>"
proof -
  have l: "length (enc_arp_ipv4 D) = 20" "length (enc_arp_ipv4 D') = 20"
    using assms(3,4) by (simp_all add: arpd.enc_length)
  show "skb_load dec_arp_hdr 14 b = H"
    using skb_load_mid [OF assms(1,2), of dec_arp_hdr] arph.dec_enc [of H] by simp
  show "skb_load dec_arp_ipv4 22 b = D"
    using skb_load_mid [of b "pre @ enc_arp_hdr H" "enc_arp_ipv4 D @ rest" 22 dec_arp_ipv4]
      arpd.dec_enc [OF assms(3)] assms(1,2) by simp
  have "skb_store enc_arp_hdr 14 H' b = b\<lparr>skb_mem := pre @ enc_arp_hdr H' @ enc_arp_ipv4 D @ rest\<rparr>"
    (is "_ = ?b")
    using skb_put_mid [OF assms(1,2), of "enc_arp_hdr H'"] by (simp add: skb_store_def)
  moreover have "skb_store enc_arp_ipv4 22 D' ?b =
      b\<lparr>skb_mem := pre @ enc_arp_hdr H' @ enc_arp_ipv4 D' @ rest\<rparr>"
    using l assms(2) by (rule skb_store_arp_ipv4)
  ultimately show "skb_store enc_arp_ipv4 22 D' (skb_store enc_arp_hdr 14 H' b) =
      b\<lparr>skb_mem := pre @ enc_arp_hdr H' @ enc_arp_ipv4 D' @ rest\<rparr>" by simp
qed

lemma ok_arp_reply_data: "wf_netdev dev \<Longrightarrow> ok_arp_ipv4 D \<Longrightarrow> ok_arp_ipv4 (arp_reply_data dev D)"
  by (simp add: ok_arp_ipv4_def arp_reply_data_def wf_netdev_def)

lemma arp_reply_frame:
  assumes wf: "wf_netdev (devs s d)" and m: "skb_mem b = pre @ enc_arp_hdr H @ enc_arp_ipv4 D @ rest"
    and l: "length pre = 14" and ok: "ok_arp_ipv4 D" and data: "skb_data b = 0"
    and len: "unat (skb_len b) \<le> length rest" "length rest < 2 ^ 30"
  shows "tun_tx (snd (arp_reply b d s)) = tun_tx s @
    [ad_smac D @ dev_hwaddr (devs s d) @ le16 (htons ETH_P_ARP) @ enc_arp_hdr (arp_reply_hdr H) @
     enc_arp_ipv4 (arp_reply_data (devs s d) D) @ take (unat (skb_len b)) rest]"
proof -
  let ?b = "skb_push (skb_reserve b 42) 28"
  define H' where "H' = arp_reply_hdr H"
  define D' where "D' = arp_reply_data (devs s d) D"
  have ok': "ok_arp_ipv4 D'" unfolding D'_def using wf ok by (rule ok_arp_reply_data)
  have lD: "length (enc_arp_ipv4 D') = 20" using ok' by (rule arpd.enc_length)
  have m': "skb_mem ?b = pre @ enc_arp_hdr H @ enc_arp_ipv4 D @ rest"
    by (simp add: skb_reserve_def m)
  define b3 where "b3 = ?b\<lparr>skb_mem := pre @ enc_arp_hdr H' @ enc_arp_ipv4 D' @ rest, skb_dev := Some d\<rparr>"
  have b3: "skb_data b3 = 14" "skb_len b3 = skb_len b + 28" "skb_dev b3 = Some d"
    "skb_mem b3 = pre @ enc_arp_hdr H' @ enc_arp_ipv4 D' @ rest"
    using data by (simp_all add: b3_def skb_reserve_def skb_push_def)
  have n: "unat (skb_len b + 28) = unat (skb_len b) + 28"
    using len by (simp add: unat_word_ariths)
  have fits: "skb_fits 14 b3" using l len lD by (simp add: skb_fits_def b3 n)
  have bytes: "skb_bytes b3 = enc_arp_hdr H' @ enc_arp_ipv4 D' @ take (unat (skb_len b)) rest"
    using l lD by (simp add: skb_bytes_def b3 n get_bytes_def)
  have dst: "ad_dmac D' = ad_smac D" "length (ad_smac D) = 6"
    using ok by (simp_all add: D'_def arp_reply_data_def ok_arp_ipv4_def)
  have tr: "snd (arp_reply b d s) = snd (snd (netdev_transmit b3 (ad_smac D) ETH_P_ARP s))"
    using arp_reply_stored(1) [OF m l ok ok] arp_reply_stored(2) [OF m' l ok ok]
      arp_reply_stored(3) [OF m' l ok ok', of H'] dst
    by (simp add: arp_reply_def case_prod_beta b3_def Let_def D'_def [symmetric] H'_def [symmetric])
  show ?thesis
    unfolding tr netdev_transmit_sends [OF b3(3) wf dst(2) fits] bytes H'_def D'_def by simp
qed

lemma arp_in_skb_mem:
  assumes m: "skb_mem skb = pre @ h @ d @ rest" and l: "length pre = 14" "length h = 8" "length d = 20"
  shows "ok_arp_ipv4 (arp_in_data skb)"
    and "arp_in_skb skb =
      skb\<lparr>skb_mem := pre @ enc_arp_hdr (arp_in_hdr skb) @ enc_arp_ipv4 (arp_in_data skb) @ rest\<rparr>"
proof -
  have "skb_load dec_arp_ipv4 22 skb = dec_arp_ipv4 (d @ rest)"
    using skb_load_mid [of skb "pre @ h" "d @ rest" 22 dec_arp_ipv4] m l by simp
  then show ok: "ok_arp_ipv4 (arp_in_data skb)"
    using l(3) by (simp add: arp_in_data_def ok_arp_ipv4_def arp_ntoh_data_def dec_arp_ipv4_def
        get_bytes_def)
  define H where "H = arp_in_hdr skb"
  define D where "D = arp_in_data skb"
  have lD: "length (enc_arp_ipv4 D) = 20" using ok unfolding D_def by (rule arpd.enc_length)
  have "skb_store enc_arp_hdr 14 H skb = skb\<lparr>skb_mem := pre @ enc_arp_hdr H @ d @ rest\<rparr>" (is "_ = ?b")
    using skb_put_mid [OF m l(1), of "enc_arp_hdr H"] l(2) by (simp add: skb_store_def)
  moreover have "skb_store enc_arp_ipv4 22 D ?b =
      skb\<lparr>skb_mem := pre @ enc_arp_hdr H @ enc_arp_ipv4 D @ rest\<rparr>"
    using l(3) lD l(1) by (rule skb_store_arp_ipv4)
  ultimately show "arp_in_skb skb =
      skb\<lparr>skb_mem := pre @ enc_arp_hdr (arp_in_hdr skb) @ enc_arp_ipv4 (arp_in_data skb) @ rest\<rparr>"
    by (simp add: arp_in_skb_def H_def [symmetric] D_def [symmetric])
qed

text \<open>A request for our address is answered with one frame to the requester: our
  hardware and protocol address as sender, the requester's as target, opcode 2, all in network byte
  order. The frame does not end there: \<open>skb_push\<close> adds to the length of the received frame, so as many
  bytes as were received follow the 42 bytes of the reply.\<close>

lemma arp_rcv_reply_frame:
  assumes "wf_netdev (devs s Dev_tap)" and "skb_data skb = 0"
    and "42 + unat (skb_len skb) \<le> length (skb_mem skb)" and "length (skb_mem skb) < 2 ^ 30"
    and "arp_in_hdr skb = \<lparr>arp_hwtype = ARP_ETHERNET, arp_protype = ARP_IPV4, arp_hwsize = hs,
           arp_prosize = ps, arp_opcode = ARP_REQUEST\<rparr>"
    and "ad_dip (arp_in_data skb) = dev_addr (devs s Dev_tap)"
  shows "let dev = devs s Dev_tap; D = arp_in_data skb; n = unat (skb_len skb)
    in tun_tx (snd (arp_rcv skb s)) = tun_tx s @
      [ad_smac D @ dev_hwaddr dev @ [0x08, 0x06] @ [0x00, 0x01, 0x08, 0x00, hs, ps, 0x00, 0x02] @
       dev_hwaddr dev @ rev (le32 (dev_addr dev)) @ ad_smac D @ rev (le32 (ad_sip D)) @
       get_bytes 42 n (skb_mem skb)]"
proof -
  let ?dev = "devs s Dev_tap" and ?D = "arp_in_data skb" and ?H = "arp_in_hdr skb"
  obtain pre h d rest where m: "skb_mem skb = pre @ h @ d @ rest"
    and l: "length pre = 14" "length h = 8" "length d = 20"
    by (rule arp_pieces [of "skb_mem skb"]) (use assms(3) in simp)
  note b = arp_in_skb_mem [OF m l]
  have rest: "unat (skb_len skb) \<le> length rest" "length rest < 2 ^ 30"
    "get_bytes 42 n (skb_mem skb) = take n rest" for n
    using m l assms(3,4) by (simp_all add: get_bytes_def)
  obtain f c where u: "update_arp_translation_table ?H ?D (arp_cache s) = (f, c)" by force
  define s1 where "s1 = s\<lparr>arp_cache := if f then c else insert_arp_translation_table ?H ?D c\<rparr>"
  have rcv: "arp_rcv skb s = arp_reply (arp_in_skb skb) Dev_tap s1"
    using arp_rcv_eq [of skb s] assms(3,5,6) u by (simp add: s1_def)
  have s1: "devs s1 = devs s" "tun_tx s1 = tun_tx s" by (simp_all add: s1_def)
  have b': "skb_mem (arp_in_skb skb) = pre @ enc_arp_hdr ?H @ enc_arp_ipv4 ?D @ rest"
    "skb_data (arp_in_skb skb) = 0" "skb_len (arp_in_skb skb) = skb_len skb"
    using b assms(2) by simp_all
  have frame: "tun_tx (snd (arp_rcv skb s)) = tun_tx s @
    [ad_smac ?D @ dev_hwaddr ?dev @ le16 (htons ETH_P_ARP) @ enc_arp_hdr (arp_reply_hdr ?H) @
     enc_arp_ipv4 (arp_reply_data ?dev ?D) @ take (unat (skb_len skb)) rest]"
    unfolding rcv
    using arp_reply_frame [of s1 Dev_tap "arp_in_skb skb" pre ?H ?D rest] assms(1) b b' l rest s1
    by simp
  have "enc_arp_hdr (arp_reply_hdr ?H) = [0x00, 0x01, 0x08, 0x00, hs, ps, 0x00, 0x02]"
    by (simp add: assms(5) arp_reply_hdr_def enc_arp_hdr_def le16_htons) (simp add: le16_def)
  moreover have "le16 (htons ETH_P_ARP) = [0x08, 0x06]"
    by (simp add: le16_htons) (simp add: le16_def)
  moreover have "enc_arp_ipv4 (arp_reply_data ?dev ?D) = dev_hwaddr ?dev @ rev (le32 (dev_addr ?dev)) @
      ad_smac ?D @ rev (le32 (ad_sip ?D))"
    using assms(1) by (simp add: enc_arp_ipv4_def arp_reply_data_def le32_htonl wf_netdev_def)
  ultimately show ?thesis unfolding Let_def frame by (simp add: rest(3))
qed

lemma arp_rcv_reply_frame_example:
  "length (hd (tun_tx (snd (arp_rcv arp_sample arp_boot)))) = 84"
proof -
  have "skb_data arp_sample = 0" "42 + unat (skb_len arp_sample) \<le> length (skb_mem arp_sample)"
    "length (skb_mem arp_sample) < 2 ^ 30" "skb_len arp_sample = 42" "tun_tx arp_boot = []"
    "length (skb_mem arp_sample) = 100"
    by (simp_all add: arp_sample_def alloc_skb_def arp_boot_def)
  with arp_rcv_reply_frame [OF arp_boot_facts(4), of arp_sample 6 4]
  show ?thesis
    using arp_boot_facts by (simp add: arp_sample_fields Let_def wf_netdev_def get_bytes_def)
qed

end
