(* ===== verification/Ip_Output.thy ===== *)
theory Ip_Output
  imports Arp
begin

text \<open>
  IPv4 output: the header of \<open>include/ip.h\<close>, \<open>src/ip_output.c\<close>, the neighbour output of
  \<open>src/dst.c\<close> and the checksum helper of \<open>src/udp.c\<close> it calls. \<open>ip_output\<close> reads only the
  destination address of the socket it is given, which is its first argument here.
\<close>

record iphdr =
  ih_ihl :: "4 word"
  ih_version :: "4 word"
  ih_tos :: u8
  ih_len :: u16
  ih_id :: u16
  ih_frag_offset :: u16
  ih_ttl :: u8
  ih_proto :: u8
  ih_csum :: u16
  ih_saddr :: u32
  ih_daddr :: u32

definition enc_iphdr :: "iphdr \<Rightarrow> bytes" where
  "enc_iphdr h =
     [nibs (ih_ihl h) (ih_version h), ih_tos h] @ le16 (ih_len h) @
     le16 (ih_id h) @ le16 (ih_frag_offset h) @ [ih_ttl h, ih_proto h] @ le16 (ih_csum h) @
     le32 (ih_saddr h) @ le32 (ih_daddr h)"

definition dec_iphdr :: "bytes \<Rightarrow> iphdr" where
  "dec_iphdr b =
     \<lparr>ih_ihl = ucast (b ! 0), ih_version = ucast (drop_bit 4 (b ! 0)), ih_tos = b ! 1,
      ih_len = get16 b 2, ih_id = get16 b 4, ih_frag_offset = get16 b 6, ih_ttl = b ! 8,
      ih_proto = b ! 9, ih_csum = get16 b 10, ih_saddr = get32 b 12, ih_daddr = get32 b 16\<rparr>"

lemma length_enc_iphdr [simp]: "length (enc_iphdr h) = 20"
  by (simp add: enc_iphdr_def)

interpretation iph: packed_struct enc_iphdr dec_iphdr 20 "\<lambda>_. True"
  by unfold_locales
    (simp_all add: enc_iphdr_def dec_iphdr_def get16_def get32_def le16_def le32_def)

section \<open>Checksums\<close>

definition tcp_v4_ip_partion_checksum :: "u32 \<Rightarrow> u32 \<Rightarrow> u32 \<Rightarrow> u16" where
  "tcp_v4_ip_partion_checksum saddr daddr csum = checksum (le32 saddr @ le32 daddr) csum"

text \<open>\<open>calcuate_udp_checksum\<close> on the \<open>udphdr\<close> at the start of \<open>uhdr\<close>: the length field is at
  offset 4, the checksum at 6. Datagrams longer than its 1512-byte stack buffer get 0.\<close>

definition calcuate_udp_checksum :: "u32 \<Rightarrow> u32 \<Rightarrow> bytes \<Rightarrow> u16" where
  "calcuate_udp_checksum saddr daddr uhdr =
     (let len = get16 uhdr 4;
          pseudo = le32 saddr @ le32 daddr @ [0, IP_UDP] @ le16 len;
          total_len = 12 + unat (ntohs len)
      in if total_len > 12 + 1500 then 0
         else checksum (put_bytes (12 + 6) (le16 0) (pseudo @ take (unat (ntohs len)) uhdr)) 0)"

definition ip_send_check :: "sk_buff \<Rightarrow> sk_buff" where
  "ip_send_check skb =
     (let h = skb_load dec_iphdr 14 skb;
          csum = checksum (get_bytes 14 (unat (ih_ihl h) * 4) (skb_mem skb)) 0
      in skb_store enc_iphdr 14 (h\<lparr>ih_csum := csum\<rparr>) skb)"

section \<open>Output\<close>

definition dst_neigh_output ::
  "sk_buff \<Rightarrow> ('x) arpstate_scheme \<Rightarrow> int \<times> sk_buff \<times> ('x) arpstate_scheme" where
  "dst_neigh_output skb s =
     (case (skb_rt skb, skb_dev skb) of
        (Some rt, Some netdev) \<Rightarrow>
          (let iphdr = skb_load dec_iphdr 14 skb;
               daddr = ntohl (ih_daddr iphdr);
               saddr = ntohl (ih_saddr iphdr);
               daddr = (if rt_flags rt AND RT_GATEWAY \<noteq> 0 then un_v4 (rt_gateway rt) else daddr)
           in case arp_get_hwaddr daddr (arp_cache s) of
                Some dmac \<Rightarrow> netdev_transmit skb dmac ETH_P_IP s
              | None \<Rightarrow> (let (rc, s) = arp_request saddr daddr netdev s in (-1, skb, s)))
      | _ \<Rightarrow> (-1, skb\<lparr>skb_oob := True\<rparr>, s))"

text \<open>The header \<open>ip_output\<close> writes, before and after the conversion to network byte order.\<close>

definition ip_output_hdr :: "u32 \<Rightarrow> netdev \<Rightarrow> sk_buff \<Rightarrow> iphdr \<Rightarrow> iphdr" where
  "ip_output_hdr daddr dev skb ihdr =
     ihdr\<lparr>ih_version := 4, ih_ihl := 5, ih_tos := 0, ih_len := ucast (skb_len skb),
       ih_frag_offset := 0x4000, ih_ttl := 64, ih_proto := ucast (skb_protocol skb),
       ih_saddr := dev_addr dev, ih_daddr := daddr, ih_csum := 0\<rparr>"

definition ip_hton_hdr :: "iphdr \<Rightarrow> iphdr" where
  "ip_hton_hdr ihdr =
     ihdr\<lparr>ih_len := htons (ih_len ihdr), ih_id := htons (ih_id ihdr),
       ih_daddr := htonl (ih_daddr ihdr), ih_saddr := htonl (ih_saddr ihdr),
       ih_csum := htons (ih_csum ihdr), ih_frag_offset := htons (ih_frag_offset ihdr)\<rparr>"

text \<open>The transport checksum, completed with the addresses: of the UDP header at its fixed place,
  or of the TCP header behind the IP header at \<open>data\<close>.\<close>

definition ip_transport_csum :: "iphdr \<Rightarrow> sk_buff \<Rightarrow> sk_buff" where
  "ip_transport_csum ihdr skb =
     (if ih_proto ihdr = IP_UDP then
        skb_put (14 + 20 + 6) (le16 (calcuate_udp_checksum (ih_saddr ihdr) (ih_daddr ihdr)
          (drop (14 + 20) (skb_mem skb)))) skb
      else if ih_proto ihdr = IP_TCP then
        skb_put (skb_data skb + 20 + 16) (le16 (tcp_v4_ip_partion_checksum (ih_saddr ihdr)
          (ih_daddr ihdr) (skb_tcpcsum skb))) skb
      else skb)"

definition ip_output ::
  "u32 \<Rightarrow> sk_buff \<Rightarrow> ('x) arpstate_scheme \<Rightarrow> int \<times> sk_buff \<times> ('x) arpstate_scheme" where
  "ip_output daddr skb s =
     (case route_lookup daddr s of
        None \<Rightarrow> (-1, skb, s)
      | Some i \<Rightarrow>
          (let rt = routes s ! i;
               skb = skb\<lparr>skb_dev := Some (rt_dev rt), skb_rt := Some rt\<rparr>;
               skb = skb_push skb IP_HDR_LEN;
               ihdr = ip_hton_hdr (ip_output_hdr daddr (devs s (rt_dev rt)) skb (skb_load dec_iphdr 14 skb));
               skb = skb_store enc_iphdr 14 ihdr skb;
               skb = ip_transport_csum ihdr skb;
               skb = ip_send_check skb
           in dst_neigh_output skb s))"

section \<open>What goes on the wire\<close>

lemma enc_iphdr_csum:
  "enc_iphdr (h\<lparr>ih_csum := c\<rparr>) = put_bytes 10 (le16 c) (enc_iphdr h)"
  by (simp add: enc_iphdr_def put_bytes_def le16_def)

lemma ip_header_verifies:
  assumes "ih_csum h = 0"
  shows "checksum (enc_iphdr (h\<lparr>ih_csum := checksum (enc_iphdr h) 0\<rparr>)) 0 = 0"
proof -
  have "get_bytes 10 2 (enc_iphdr h) = [0, 0]"
    using assms by (simp add: enc_iphdr_def get_bytes_def le16_def)
  moreover have "unat (0 :: u32) + sum16 (enc_iphdr h) + 65535 < 4294967296"
    using sum16_bound [of "enc_iphdr h"] by simp
  ultimately show ?thesis
    unfolding enc_iphdr_csum by (intro checksum_store_zero) simp_all
qed

lemma ip_send_check_mem:
  assumes "skb_mem skb = pre @ enc_iphdr h @ rest" "length pre = 14" "ih_ihl h = 5"
  shows "ip_send_check skb =
    skb\<lparr>skb_mem := pre @ enc_iphdr (h\<lparr>ih_csum := checksum (enc_iphdr h) 0\<rparr>) @ rest\<rparr>"
proof -
  have "skb_load dec_iphdr 14 skb = h"
    using skb_load_mid [OF assms(1,2), of dec_iphdr] iph.dec_enc [of h] by simp
  moreover have "get_bytes 14 20 (skb_mem skb) = enc_iphdr h"
    using assms(1,2) by (simp add: get_bytes_def)
  ultimately show ?thesis
    using skb_put_mid [OF assms(1,2), of "enc_iphdr (h\<lparr>ih_csum := checksum (enc_iphdr h) 0\<rparr>)"] assms(3)
    by (simp add: ip_send_check_def Let_def skb_store_def)
qed

text \<open>The payload with its transport checksum filled in.\<close>

definition ip_payload :: "iphdr \<Rightarrow> u32 \<Rightarrow> bytes \<Rightarrow> bytes" where
  "ip_payload h tcpcsum pay =
     (if ih_proto h = IP_UDP
      then put_bytes 6 (le16 (calcuate_udp_checksum (ih_saddr h) (ih_daddr h) pay)) pay
      else if ih_proto h = IP_TCP
      then put_bytes 16 (le16 (tcp_v4_ip_partion_checksum (ih_saddr h) (ih_daddr h) tcpcsum)) pay
      else pay)"

text \<open>How long the payload has to be to contain the checksum field of its protocol.\<close>

definition csum_room :: "u8 \<Rightarrow> nat" where
  "csum_room proto = (if proto = IP_UDP then 8 else if proto = IP_TCP then 18 else 0)"

lemma ip_transport_csum_mem:
  assumes "skb_mem skb = pre @ ih @ pay" "length pre = 14" "length ih = 20" "skb_data skb = 14"
    and "csum_room (ih_proto h) \<le> length pay"
  shows "ip_transport_csum h skb =
    skb\<lparr>skb_mem := pre @ ih @ ip_payload h (skb_tcpcsum skb) pay\<rparr>"
proof -
  have put: "skb_put (34 + int i) bs skb = skb\<lparr>skb_mem := pre @ ih @ put_bytes i bs pay\<rparr>"
    if "i + length bs \<le> length pay" for i bs
  proof -
    have "nat (34 + int i) = 34 + i" by simp
    then show ?thesis
      using that assms(1-3) by (simp add: skb_put_def skb_end_def put_bytes_def)
  qed
  have "ih_proto h = IP_UDP \<Longrightarrow> 8 \<le> length pay" "ih_proto h = IP_TCP \<Longrightarrow> 18 \<le> length pay"
    using assms(5) by (simp_all add: csum_room_def)
  then show ?thesis
    using put [of 6 "le16 x" for x] put [of 16 "le16 x" for x] assms(1-4)
    by (simp add: ip_transport_csum_def ip_payload_def)
qed

lemma length_ip_payload: "csum_room (ih_proto h) \<le> length pay \<Longrightarrow> length (ip_payload h c pay) = length pay"
  by (auto simp: ip_payload_def csum_room_def)

definition next_hop :: "rtentry \<Rightarrow> u32 \<Rightarrow> u32" where
  "next_hop rt daddr = (if rt_flags rt AND RT_GATEWAY \<noteq> 0 then un_v4 (rt_gateway rt) else daddr)"

lemma dst_neigh_output_hit:
  assumes "skb_rt skb = Some rt" "skb_dev skb = Some d"
    and "skb_mem skb = pre @ enc_iphdr h @ pay" "length pre = 14"
    and "arp_get_hwaddr (next_hop rt (ntohl (ih_daddr h))) (arp_cache s) = Some dmac"
  shows "dst_neigh_output skb s = netdev_transmit skb dmac ETH_P_IP s"
proof -
  have "skb_load dec_iphdr 14 skb = h"
    using skb_load_mid [OF assms(3,4), of dec_iphdr] iph.dec_enc [of h] by simp
  with assms show ?thesis by (simp add: dst_neigh_output_def next_hop_def Let_def)
qed

text \<open>The header of an outgoing packet of \<open>n\<close> bytes, checksum included; the identification is
  whatever the buffer held at its place.\<close>

definition ip_wire_hdr :: "u32 \<Rightarrow> netdev \<Rightarrow> sk_buff \<Rightarrow> iphdr \<Rightarrow> iphdr" where
  "ip_wire_hdr daddr dev skb old =
     (let h = ip_hton_hdr (ip_output_hdr daddr dev (skb_push skb 20) old)
      in h\<lparr>ih_csum := checksum (enc_iphdr h) 0\<rparr>)"

lemma dec_iphdr_prefix: "length ih = 20 \<Longrightarrow> dec_iphdr (ih @ rest) = dec_iphdr ih"
  by (simp add: dec_iphdr_def get16_def get32_def nth_append)

lemma ip_payload_csum: "ip_payload (h\<lparr>ih_csum := c\<rparr>) t pay = ip_payload h t pay"
  by (simp add: ip_payload_def)

text \<open>The buffer that reaches the neighbour output.\<close>

lemma ip_output_eq:
  assumes rt: "route_lookup daddr s = Some i"
    and m: "skb_mem skb = pre @ ih @ pay" "length pre = 14" "length ih = 20"
    and pay: "csum_room (ucast (skb_protocol skb)) \<le> length pay" and data: "skb_data skb = 34"
  shows "ip_output daddr skb s = dst_neigh_output
    ((skb_push skb 20)\<lparr>skb_dev := Some (rt_dev (routes s ! i)), skb_rt := Some (routes s ! i),
       skb_mem := pre @ enc_iphdr (ip_wire_hdr daddr (devs s (rt_dev (routes s ! i))) skb (dec_iphdr ih)) @
         ip_payload (ip_wire_hdr daddr (devs s (rt_dev (routes s ! i))) skb (dec_iphdr ih))
           (skb_tcpcsum skb) pay\<rparr>) s"
proof -
  define rt' dev where "rt' = routes s ! i" and "dev = devs s (rt_dev rt')"
  define b1 where "b1 = skb_push (skb\<lparr>skb_dev := Some (rt_dev rt'), skb_rt := Some rt'\<rparr>) 20"
  define h where "h = ip_hton_hdr (ip_output_hdr daddr dev (skb_push skb 20) (dec_iphdr ih))"
  have b1: "skb_mem b1 = pre @ ih @ pay" "skb_data b1 = 14" "skb_tcpcsum b1 = skb_tcpcsum skb"
    using m data by (simp_all add: b1_def skb_push_def)
  have ld: "skb_load dec_iphdr 14 b1 = dec_iphdr ih"
    using skb_load_mid [OF b1(1) m(2), of dec_iphdr] dec_iphdr_prefix [OF m(3)] by simp
  have hdr: "ip_output_hdr daddr dev b1 old = ip_output_hdr daddr dev (skb_push skb 20) old" for old
    by (simp add: ip_output_hdr_def b1_def skb_push_def)
  have st: "skb_store enc_iphdr 14 h b1 = b1\<lparr>skb_mem := pre @ enc_iphdr h @ pay\<rparr>"
    unfolding skb_store_def
    by (subst skb_put_mid [of _ pre ih pay 14 "enc_iphdr h", simplified]) (simp_all add: b1 m)
  have tr: "ip_transport_csum h (b1\<lparr>skb_mem := pre @ enc_iphdr h @ pay\<rparr>) =
      b1\<lparr>skb_mem := pre @ enc_iphdr h @ ip_payload h (skb_tcpcsum skb) pay\<rparr>"
    using pay by (subst ip_transport_csum_mem [of _ pre "enc_iphdr h" pay])
      (simp_all add: b1 m h_def ip_hton_hdr_def ip_output_hdr_def skb_push_def)
  have chk: "ip_send_check (b1\<lparr>skb_mem := pre @ enc_iphdr h @ ip_payload h (skb_tcpcsum skb) pay\<rparr>) =
      b1\<lparr>skb_mem := pre @ enc_iphdr (h\<lparr>ih_csum := checksum (enc_iphdr h) 0\<rparr>) @
        ip_payload h (skb_tcpcsum skb) pay\<rparr>"
    by (subst ip_send_check_mem [of _ pre h "ip_payload h (skb_tcpcsum skb) pay"])
      (simp_all add: m h_def ip_hton_hdr_def ip_output_hdr_def)
  have b1': "b1\<lparr>skb_mem := x\<rparr> = (skb_push skb 20)\<lparr>skb_dev := Some (rt_dev rt'), skb_rt := Some rt',
      skb_mem := x\<rparr>" for x
    by (simp add: b1_def skb_push_def)
  have "ip_output daddr skb s =
      dst_neigh_output (ip_send_check (ip_transport_csum h (skb_store enc_iphdr 14 h b1))) s"
    unfolding ip_output_def rt option.case Let_def rt'_def [symmetric] b1_def [symmetric]
      dev_def [symmetric] ld hdr h_def [symmetric] ..
  also have "ip_send_check (ip_transport_csum h (skb_store enc_iphdr 14 h b1)) =
      b1\<lparr>skb_mem := pre @ enc_iphdr (h\<lparr>ih_csum := checksum (enc_iphdr h) 0\<rparr>) @
        ip_payload h (skb_tcpcsum skb) pay\<rparr>"
    by (simp only: st tr chk)
  finally show ?thesis
    unfolding b1' by (simp add: rt'_def dev_def h_def ip_wire_hdr_def Let_def ip_payload_csum)
qed

lemma ip_output_frame:
  assumes rt: "route_lookup daddr s = Some i" and wf: "wf_netdev (devs s (rt_dev (routes s ! i)))"
    and hit: "arp_get_hwaddr (next_hop (routes s ! i) daddr) (arp_cache s) = Some dmac"
    and dmac: "length dmac = 6"
    and m: "skb_mem skb = pre @ ih @ pay" "length pre = 14" "length ih = 20"
    and pay: "csum_room (ucast (skb_protocol skb)) \<le> length pay" "unat (skb_len skb) \<le> length pay" "length pay < 2 ^ 30"
    and data: "skb_data skb = 34"
  shows "tun_tx (snd (snd (ip_output daddr skb s))) = tun_tx s @
    [dmac @ dev_hwaddr (devs s (rt_dev (routes s ! i))) @ le16 (htons ETH_P_IP) @
     enc_iphdr (ip_wire_hdr daddr (devs s (rt_dev (routes s ! i))) skb (dec_iphdr ih)) @
     take (unat (skb_len skb))
       (ip_payload (ip_wire_hdr daddr (devs s (rt_dev (routes s ! i))) skb (dec_iphdr ih))
         (skb_tcpcsum skb) pay)]"
proof -
  define rt' dev where "rt' = routes s ! i" and "dev = devs s (rt_dev rt')"
  define h where "h = ip_wire_hdr daddr dev skb (dec_iphdr ih)"
  define pay' where "pay' = ip_payload h (skb_tcpcsum skb) pay"
  define b where "b = (skb_push skb 20)\<lparr>skb_dev := Some (rt_dev rt'), skb_rt := Some rt',
    skb_mem := pre @ enc_iphdr h @ pay'\<rparr>"
  have b: "skb_rt b = Some rt'" "skb_dev b = Some (rt_dev rt')" "skb_mem b = pre @ enc_iphdr h @ pay'"
    "skb_data b = 14" "skb_len b = skb_len skb + 20"
    using data by (simp_all add: b_def skb_push_def)
  have l: "length pay' = length pay"
    unfolding pay'_def using pay(1)
    by (intro length_ip_payload) (simp add: h_def ip_wire_hdr_def Let_def ip_hton_hdr_def ip_output_hdr_def skb_push_def)
  have n: "unat (skb_len skb + 20) = unat (skb_len skb) + 20"
    using pay by (simp add: unat_word_ariths)
  have d: "ntohl (ih_daddr h) = daddr"
    by (simp add: h_def ip_wire_hdr_def Let_def ip_hton_hdr_def ip_output_hdr_def)
  have out: "ip_output daddr skb s = netdev_transmit b dmac ETH_P_IP s"
    unfolding ip_output_eq [OF rt m pay(1) data] rt'_def [symmetric] dev_def [symmetric]
      h_def [symmetric] pay'_def [symmetric] b_def [symmetric]
    using hit by (intro dst_neigh_output_hit [OF b(1-3) m(2)]) (simp add: d rt'_def)
  have fits: "skb_fits 14 b" using m pay l by (simp add: skb_fits_def b n)
  have bytes: "skb_bytes b = enc_iphdr h @ take (unat (skb_len skb)) pay'"
    using m by (simp add: skb_bytes_def b n get_bytes_def)
  have wf': "wf_netdev (devs s (rt_dev rt'))" using wf by (simp add: rt'_def)
  show ?thesis
    unfolding out netdev_transmit_sends [OF b(2) wf' dmac fits] bytes
    by (simp add: rt'_def dev_def h_def pay'_def)
qed

lemma ip_output_wire:
  assumes "route_lookup daddr s = Some i" and "rt = routes s ! i" and "dev = devs s (rt_dev rt)"
    and "wf_netdev dev"
    and "arp_get_hwaddr (next_hop rt daddr) (arp_cache s) = Some dmac" and "length dmac = 6"
    and "skb_mem skb = pre @ ih @ pay" "length pre = 14" "length ih = 20"
    and "csum_room (ucast (skb_protocol skb)) \<le> length pay" "unat (skb_len skb) \<le> length pay" "unat (skb_len skb) < 60000"
    and "length pay < 2 ^ 30" and "skb_data skb = 34"
  shows "\<exists>h. tun_tx (snd (snd (ip_output daddr skb s))) = tun_tx s @
      [dmac @ dev_hwaddr dev @ [0x08, 0x00] @ enc_iphdr h @
       take (unat (skb_len skb)) (ip_payload h (skb_tcpcsum skb) pay)] \<and>
    checksum (enc_iphdr h) 0 = 0 \<and> ih_version h = 4 \<and> ih_ihl h = 5 \<and> ih_ttl h = 64 \<and>
    unat (ntohs (ih_len h)) = unat (skb_len skb) + 20 \<and> ih_proto h = ucast (skb_protocol skb) \<and>
    ntohl (ih_saddr h) = dev_addr dev \<and> ntohl (ih_daddr h) = daddr"
proof -
  define h where "h = ip_wire_hdr daddr dev skb (dec_iphdr ih)"
  have "checksum (enc_iphdr h) 0 = 0"
    unfolding h_def ip_wire_hdr_def Let_def
    by (rule ip_header_verifies) (simp add: ip_hton_hdr_def ip_output_hdr_def htons_def w16_def)
  moreover have "unat (ucast (skb_len skb + 20) :: u16) = unat (skb_len skb) + 20"
    using assms(12) by (simp add: unsigned_ucast_eq take_bit_nat_eq_self unat_word_ariths)
  then have "unat (ntohs (ih_len h)) = unat (skb_len skb) + 20"
    by (simp add: h_def ip_wire_hdr_def Let_def ip_hton_hdr_def ip_output_hdr_def)
  moreover have "le16 (htons ETH_P_IP) = [0x08, 0x00]" by (simp add: le16_htons) (simp add: le16_def)
  moreover have "tun_tx (snd (snd (ip_output daddr skb s))) = tun_tx s @
      [dmac @ dev_hwaddr dev @ le16 (htons ETH_P_IP) @ enc_iphdr h @
       take (unat (skb_len skb)) (ip_payload h (skb_tcpcsum skb) pay)]"
    using ip_output_frame [of daddr s i dmac skb pre ih pay] assms by (simp add: h_def)
  ultimately show ?thesis
    by (intro exI [of _ h])
      (simp add: h_def ip_wire_hdr_def Let_def ip_hton_hdr_def ip_output_hdr_def skb_push_def)
qed



end
