(* ===== verification/Timer.thy ===== *)
theory Timer
  imports Prelude
begin

text \<open>
  The timer list of \<open>src/timer.c\<close>. A timer pointer is the identifier given at allocation;
  identifiers are never reused, so a pointer to a timer that was freed finds nothing. What the
  timer thread does to the outside is recorded: \<open>tm_spawned\<close> lists the handler threads started
  (timer, handler, argument) and \<open>tm_argfreed\<close> the timers whose argument was released with
  \<open>arg_free\<close>. Handlers and arguments are type parameters. Each function runs under the list
  lock or the timer's mutex, so an execution is a sequence of the steps of \<open>timer_step\<close>.
\<close>

record ('h, 'a) timer =
  tm_id :: nat
  tm_refcnt :: int
  tm_expires :: u32
  tm_cancelled :: bool
  tm_handler :: 'h
  tm_arg :: "'a option"
  tm_has_free :: bool
  tm_locked :: bool

record ('h, 'a) timers =
  tm_list :: "('h, 'a) timer list"
  tm_tick :: int
  tm_next :: nat
  tm_spawned :: "(nat \<times> 'h \<times> 'a option) list"
  tm_argfreed :: "nat list"

section \<open>Operations\<close>

definition timers_init :: "('h, 'a) timers" where
  "timers_init = \<lparr>tm_list = [], tm_tick = 0, tm_next = 0, tm_spawned = [], tm_argfreed = []\<rparr>"

definition timer_get_tick :: "('h, 'a) timers \<Rightarrow> int" where
  "timer_get_tick s = tm_tick s"

text \<open>\<open>timer_free\<close>: the argument is released when it is still owned by the timer.\<close>

definition timer_free :: "('h, 'a) timer \<Rightarrow> nat list" where
  "timer_free t = (if tm_has_free t \<and> tm_arg t \<noteq> None then [tm_id t] else [])"

text \<open>What \<open>timer_oneshot\<close> and \<open>timer_add_with_release\<close> share: a zeroed timer is filled in and
  appended under the list lock. A wrapped expiry is only reported.\<close>

definition timer_enqueue ::
  "int \<Rightarrow> u32 \<Rightarrow> 'h \<Rightarrow> 'a option \<Rightarrow> bool \<Rightarrow> ('h, 'a) timers \<Rightarrow> ('h, 'a) timers" where
  "timer_enqueue refcnt expire handler arg has_free s =
     s\<lparr>tm_list := tm_list s @
         [\<lparr>tm_id = tm_next s, tm_refcnt = refcnt,
           tm_expires = word_of_int (timer_get_tick s) + expire, tm_cancelled = False,
           tm_handler = handler, tm_arg = arg, tm_has_free = has_free, tm_locked = False\<rparr>],
       tm_next := tm_next s + 1\<rparr>"

definition timer_oneshot ::
  "u32 \<Rightarrow> 'h \<Rightarrow> 'a option \<Rightarrow> ('h, 'a) timers \<Rightarrow> ('h, 'a) timers" where
  "timer_oneshot expire handler arg s = timer_enqueue 0 expire handler arg False s"

definition timer_add_with_release ::
  "u32 \<Rightarrow> 'h \<Rightarrow> 'a option \<Rightarrow> bool \<Rightarrow> ('h, 'a) timers \<Rightarrow> nat \<times> ('h, 'a) timers" where
  "timer_add_with_release expire handler arg has_free s =
     (tm_next s, timer_enqueue 1 expire handler arg has_free s)"

definition timer_add ::
  "u32 \<Rightarrow> 'h \<Rightarrow> 'a option \<Rightarrow> ('h, 'a) timers \<Rightarrow> nat \<times> ('h, 'a) timers" where
  "timer_add expire handler arg s = timer_add_with_release expire handler arg False s"

text \<open>A call on a timer whose mutex is never released (see \<open>timers_tick_loop\<close>) does not
  return; the state stays as it is.\<close>

definition timer_upd ::
  "nat \<Rightarrow> (('h, 'a) timer \<Rightarrow> ('h, 'a) timer) \<Rightarrow> ('h, 'a) timers \<Rightarrow> ('h, 'a) timers" where
  "timer_upd i f s =
     s\<lparr>tm_list := map (\<lambda>t. if tm_id t = i \<and> \<not> tm_locked t then f t else t) (tm_list s)\<rparr>"

definition timer_release :: "nat option \<Rightarrow> ('h, 'a) timers \<Rightarrow> ('h, 'a) timers" where
  "timer_release t s =
     (case t of None \<Rightarrow> s
      | Some i \<Rightarrow> timer_upd i (\<lambda>t. t\<lparr>tm_refcnt := tm_refcnt t - 1\<rparr>) s)"

definition timer_cancel :: "nat option \<Rightarrow> ('h, 'a) timers \<Rightarrow> ('h, 'a) timers" where
  "timer_cancel t s =
     (case t of None \<Rightarrow> s
      | Some i \<Rightarrow> timer_upd i (\<lambda>t. t\<lparr>tm_refcnt := tm_refcnt t - 1, tm_cancelled := True\<rparr>) s)"

text \<open>
  The scan of \<open>timers_tick\<close>. \<open>busy\<close> says whose mutex another thread holds at that moment,
  \<open>spawns\<close> for which timers \<open>pthread_create\<close> succeeds. When it fails the code continues with
  the mutex still locked. The result is the remaining list, the threads started and the timers
  whose argument was released.
\<close>

fun timers_tick_loop ::
  "(nat \<Rightarrow> bool) \<Rightarrow> (nat \<Rightarrow> bool) \<Rightarrow> int \<Rightarrow> ('h, 'a) timer list
   \<Rightarrow> ('h, 'a) timer list \<times> (nat \<times> 'h \<times> 'a option) list \<times> nat list" where
  "timers_tick_loop busy spawns tick [] = ([], [], [])"
| "timers_tick_loop busy spawns tick (t # ts) =
     (let (rest, sp, fr) = timers_tick_loop busy spawns tick ts
      in if tm_locked t \<or> busy (tm_id t) then (t # rest, sp, fr)
         else if \<not> tm_cancelled t \<and> tm_expires t < word_of_int tick then
           (if \<not> spawns (tm_id t) then (t\<lparr>tm_locked := True\<rparr> # rest, sp, fr)
            else
              (let t' = t\<lparr>tm_arg := None, tm_cancelled := True\<rparr>;
                   sp' = (tm_id t, tm_handler t, tm_arg t) # sp
               in if tm_refcnt t' = 0 then (rest, sp', timer_free t' @ fr)
                  else (t' # rest, sp', fr)))
         else if tm_cancelled t \<and> tm_refcnt t = 0 then (rest, sp, timer_free t @ fr)
         else (t # rest, sp, fr))"

definition timers_tick ::
  "(nat \<Rightarrow> bool) \<Rightarrow> (nat \<Rightarrow> bool) \<Rightarrow> ('h, 'a) timers \<Rightarrow> ('h, 'a) timers" where
  "timers_tick busy spawns s =
     (let (rest, sp, fr) = timers_tick_loop busy spawns (tm_tick s) (tm_list s)
      in s\<lparr>tm_list := rest, tm_spawned := tm_spawned s @ sp, tm_argfreed := tm_argfreed s @ fr\<rparr>)"

text \<open>One round of the loop of \<open>timers_start\<close>, after its \<open>usleep(10000)\<close>.\<close>

definition timers_round ::
  "(nat \<Rightarrow> bool) \<Rightarrow> (nat \<Rightarrow> bool) \<Rightarrow> ('h, 'a) timers \<Rightarrow> ('h, 'a) timers" where
  "timers_round busy spawns s = timers_tick busy spawns (s\<lparr>tm_tick := tm_tick s + 10\<rparr>)"

section \<open>Executions\<close>

inductive timer_step :: "('h, 'a) timers \<Rightarrow> ('h, 'a) timers \<Rightarrow> bool" where
  st_add: "timer_step s (snd (timer_add_with_release e h a f s))"
| st_oneshot: "timer_step s (timer_oneshot e h a s)"
| st_release: "timer_step s (timer_release t s)"
| st_cancel: "timer_step s (timer_cancel t s)"
| st_round: "timer_step s (timers_round busy spawns s)"

inductive timer_run :: "('h, 'a) timers \<Rightarrow> ('h, 'a) timers \<Rightarrow> bool" where
  run_refl: "timer_run s s"
| run_step: "timer_run s t \<Longrightarrow> timer_step t u \<Longrightarrow> timer_run s u"

section \<open>Invariant\<close>

text \<open>Timers have distinct identifiers; a timer that has spawned its handler is cancelled and
  no longer owns its argument; an argument is released at most once, by a timer that is gone and
  never spawned.\<close>

definition timers_inv :: "('h, 'a) timers \<Rightarrow> bool" where
  "timers_inv s \<longleftrightarrow>
     distinct (map tm_id (tm_list s)) \<and>
     (\<forall>t \<in> set (tm_list s). tm_id t < tm_next s) \<and>
     (\<forall>e \<in> set (tm_spawned s). fst e < tm_next s) \<and>
     (\<forall>i \<in> set (tm_argfreed s). i < tm_next s) \<and>
     (\<forall>t \<in> set (tm_list s). \<forall>e \<in> set (tm_spawned s).
        tm_id t = fst e \<longrightarrow> tm_cancelled t \<and> tm_arg t = None) \<and>
     (\<forall>t \<in> set (tm_list s). tm_id t \<notin> set (tm_argfreed s)) \<and>
     distinct (map fst (tm_spawned s)) \<and>
     distinct (tm_argfreed s) \<and>
     (\<forall>e \<in> set (tm_spawned s). fst e \<notin> set (tm_argfreed s))"

text \<open>What the scan does with one timer.\<close>

definition fires :: "(nat \<Rightarrow> bool) \<Rightarrow> (nat \<Rightarrow> bool) \<Rightarrow> int \<Rightarrow> ('h, 'a) timer \<Rightarrow> bool" where
  "fires busy spawns tick t \<longleftrightarrow> \<not> tm_locked t \<and> \<not> busy (tm_id t) \<and> \<not> tm_cancelled t \<and>
     tm_expires t < word_of_int tick \<and> spawns (tm_id t)"

definition reaped :: "(nat \<Rightarrow> bool) \<Rightarrow> ('h, 'a) timer \<Rightarrow> bool" where
  "reaped busy t \<longleftrightarrow> \<not> tm_locked t \<and> \<not> busy (tm_id t) \<and> tm_cancelled t \<and> tm_refcnt t = 0"

definition keep ::
  "(nat \<Rightarrow> bool) \<Rightarrow> (nat \<Rightarrow> bool) \<Rightarrow> int \<Rightarrow> ('h, 'a) timer \<Rightarrow> ('h, 'a) timer option" where
  "keep busy spawns tick t =
     (if fires busy spawns tick t
      then (if tm_refcnt t = 0 then None else Some (t\<lparr>tm_arg := None, tm_cancelled := True\<rparr>))
      else if reaped busy t then None
      else if \<not> tm_locked t \<and> \<not> busy (tm_id t) \<and> \<not> tm_cancelled t \<and> tm_expires t < word_of_int tick
      then Some (t\<lparr>tm_locked := True\<rparr>) else Some t)"

definition spawned ::
  "(nat \<Rightarrow> bool) \<Rightarrow> (nat \<Rightarrow> bool) \<Rightarrow> int \<Rightarrow> ('h, 'a) timer \<Rightarrow> (nat \<times> 'h \<times> 'a option) option" where
  "spawned busy spawns tick t =
     (if fires busy spawns tick t then Some (tm_id t, tm_handler t, tm_arg t) else None)"

definition argfreed :: "(nat \<Rightarrow> bool) \<Rightarrow> ('h, 'a) timer \<Rightarrow> nat option" where
  "argfreed busy t =
     (if reaped busy t \<and> tm_has_free t \<and> tm_arg t \<noteq> None then Some (tm_id t) else None)"

lemma timers_tick_loop_filter:
  "timers_tick_loop busy spawns tick ts =
     (List.map_filter (keep busy spawns tick) ts, List.map_filter (spawned busy spawns tick) ts,
      List.map_filter (argfreed busy) ts)"
proof (induction ts)
  case (Cons t ts)
  show ?case
    by (cases "tm_arg t")
      (auto simp: Cons map_filter_simps keep_def spawned_def argfreed_def fires_def reaped_def
        timer_free_def Let_def)
qed (simp add: map_filter_simps)

lemma keep_id: "keep busy spawns tick t = Some t' \<Longrightarrow> tm_id t' = tm_id t"
  by (auto simp: keep_def split: if_splits)

lemma keep_cases:
  "keep busy spawns tick t = Some t' \<Longrightarrow>
     if fires busy spawns tick t then tm_cancelled t' \<and> tm_arg t' = None
     else tm_cancelled t' = tm_cancelled t \<and> tm_arg t' = tm_arg t"
  by (auto simp: keep_def split: if_splits)

lemma spawned_SomeD:
  "spawned busy spawns tick t = Some e \<Longrightarrow>
     e = (tm_id t, tm_handler t, tm_arg t) \<and> fires busy spawns tick t"
  by (auto simp: spawned_def split: if_splits)

lemma argfreed_SomeD:
  "argfreed busy t = Some i \<Longrightarrow> i = tm_id t \<and> reaped busy t \<and> tm_arg t \<noteq> None"
  by (auto simp: argfreed_def split: if_splits)

lemma fires_not_cancelled: "fires busy spawns tick t \<Longrightarrow> \<not> tm_cancelled t"
  by (simp add: fires_def)

lemma reaped_cancelled: "reaped busy t \<Longrightarrow> tm_cancelled t"
  by (simp add: reaped_def)

lemma reaped_keep: "reaped busy t \<Longrightarrow> keep busy spawns tick t = None"
  by (simp add: keep_def reaped_def fires_def)

lemma same_timer:
  "distinct (map tm_id ts) \<Longrightarrow> t \<in> set ts \<Longrightarrow> u \<in> set ts \<Longrightarrow> tm_id t = tm_id u \<Longrightarrow> t = u"
  by (simp add: distinct_map inj_on_def)

text \<open>The threads, releases and survivors of a scan come from timers of the list.\<close>

lemma kept_from:
  assumes "t' \<in> set (List.map_filter (keep busy spawns tick) ts)"
  obtains t where "t \<in> set ts" "tm_id t' = tm_id t" "keep busy spawns tick t = Some t'"
  using assms keep_id by (metis set_map_filter)

lemma spawned_from:
  assumes "e \<in> set (List.map_filter (spawned busy spawns tick) ts)"
  obtains t where "t \<in> set ts" "e = (tm_id t, tm_handler t, tm_arg t)" "fires busy spawns tick t"
  using assms spawned_SomeD by (metis set_map_filter)

lemma argfreed_from:
  assumes "i \<in> set (List.map_filter (argfreed busy) ts)"
  obtains t where "t \<in> set ts" "i = tm_id t" "reaped busy t" "tm_arg t \<noteq> None"
  using assms argfreed_SomeD by (metis set_map_filter)

lemma spawned_fresh:
  assumes d: "distinct (map tm_id ts)"
    and "e \<in> set (List.map_filter (spawned busy spawns tick) ts)" "t \<in> set ts" "tm_id t = fst e"
  shows "fires busy spawns tick t"
  using assms(2)
proof (rule spawned_from)
  fix u assume "u \<in> set ts" "e = (tm_id u, tm_handler u, tm_arg u)" "fires busy spawns tick u"
  with same_timer [OF d assms(3), of u] assms(4) show ?thesis by simp
qed

lemma argfreed_fresh:
  assumes d: "distinct (map tm_id ts)"
    and "i \<in> set (List.map_filter (argfreed busy) ts)" "t \<in> set ts" "tm_id t = i"
  shows "reaped busy t" "tm_arg t \<noteq> None"
proof -
  obtain u where "u \<in> set ts" "i = tm_id u" "reaped busy u" "tm_arg u \<noteq> None"
    using assms(2) by (rule argfreed_from)
  with same_timer [OF d assms(3), of u] assms(4) show "reaped busy t" "tm_arg t \<noteq> None" by simp_all
qed

lemma spawned_distinct:
  "distinct (map tm_id ts) \<Longrightarrow> distinct (map fst (List.map_filter (spawned busy spawns tick) ts))"
  by (erule distinct_map_filter) (drule spawned_SomeD, simp)

lemma argfreed_distinct:
  "distinct (map tm_id ts) \<Longrightarrow> distinct (List.map_filter (argfreed busy) ts)"
  using distinct_map_filter [of tm_id ts "argfreed busy" "\<lambda>i. i"] argfreed_SomeD
  by (metis list.map_ident)

lemma kept_distinct:
  "distinct (map tm_id ts) \<Longrightarrow> distinct (map tm_id (List.map_filter (keep busy spawns tick) ts))"
  by (erule distinct_map_filter) (rule keep_id)

section \<open>Every step keeps the invariant\<close>

lemma timers_invI:
  assumes "distinct (map tm_id (tm_list s))"
    and "\<And>t. t \<in> set (tm_list s) \<Longrightarrow> tm_id t < tm_next s"
    and "\<And>e. e \<in> set (tm_spawned s) \<Longrightarrow> fst e < tm_next s"
    and "\<And>i. i \<in> set (tm_argfreed s) \<Longrightarrow> i < tm_next s"
    and "\<And>t e. t \<in> set (tm_list s) \<Longrightarrow> e \<in> set (tm_spawned s) \<Longrightarrow> tm_id t = fst e
           \<Longrightarrow> tm_cancelled t \<and> tm_arg t = None"
    and "\<And>t. t \<in> set (tm_list s) \<Longrightarrow> tm_id t \<notin> set (tm_argfreed s)"
    and "distinct (map fst (tm_spawned s))" and "distinct (tm_argfreed s)"
    and "\<And>e. e \<in> set (tm_spawned s) \<Longrightarrow> fst e \<notin> set (tm_argfreed s)"
  shows "timers_inv s"
  unfolding timers_inv_def using assms by (intro conjI ballI impI) simp_all

lemma timers_invD:
  assumes "timers_inv s"
  shows "distinct (map tm_id (tm_list s))"
    and "\<And>t. t \<in> set (tm_list s) \<Longrightarrow> tm_id t < tm_next s"
    and "\<And>e. e \<in> set (tm_spawned s) \<Longrightarrow> fst e < tm_next s"
    and "\<And>i. i \<in> set (tm_argfreed s) \<Longrightarrow> i < tm_next s"
    and "\<And>t e. t \<in> set (tm_list s) \<Longrightarrow> e \<in> set (tm_spawned s) \<Longrightarrow> tm_id t = fst e
           \<Longrightarrow> tm_cancelled t \<and> tm_arg t = None"
    and "\<And>t. t \<in> set (tm_list s) \<Longrightarrow> tm_id t \<notin> set (tm_argfreed s)"
    and "distinct (map fst (tm_spawned s))" and "distinct (tm_argfreed s)"
    and "\<And>e. e \<in> set (tm_spawned s) \<Longrightarrow> fst e \<notin> set (tm_argfreed s)"
  using assms unfolding timers_inv_def by (simp_all del: ball_simps)

lemma timers_inv_init: "timers_inv timers_init"
  by (simp add: timers_inv_def timers_init_def)

lemma timers_tick_sel:
  "tm_list (timers_tick busy spawns s) = List.map_filter (keep busy spawns (tm_tick s)) (tm_list s)"
  "tm_spawned (timers_tick busy spawns s) =
     tm_spawned s @ List.map_filter (spawned busy spawns (tm_tick s)) (tm_list s)"
  "tm_argfreed (timers_tick busy spawns s) =
     tm_argfreed s @ List.map_filter (argfreed busy) (tm_list s)"
  "tm_next (timers_tick busy spawns s) = tm_next s"
  "tm_tick (timers_tick busy spawns s) = tm_tick s"
  by (simp_all add: timers_tick_def timers_tick_loop_filter)

lemma timers_tick_spawned_once:
  assumes inv: "timers_inv s"
  shows "distinct (map fst (tm_spawned (timers_tick busy spawns s)))"
proof -
  let ?S = "List.map_filter (spawned busy spawns (tm_tick s)) (tm_list s)"
  have "fst e \<noteq> fst e'" if "e \<in> set (tm_spawned s)" "e' \<in> set ?S" for e e'
    using that(2)
  proof (rule spawned_from)
    fix t assume "t \<in> set (tm_list s)" "e' = (tm_id t, tm_handler t, tm_arg t)"
      and f: "fires busy spawns (tm_tick s) t"
    with timers_invD(5) [OF inv _ that(1), of t] fires_not_cancelled [OF f] show ?thesis by auto
  qed
  with timers_invD(7) [OF inv] spawned_distinct [OF timers_invD(1) [OF inv]] show ?thesis
    unfolding timers_tick_sel map_append distinct_append by (auto simp: image_iff)
qed

lemma timers_tick_freed_once:
  assumes inv: "timers_inv s"
  shows "distinct (tm_argfreed (timers_tick busy spawns s))"
proof -
  have "i \<notin> set (List.map_filter (argfreed busy) (tm_list s))" if "i \<in> set (tm_argfreed s)" for i
    using argfreed_from timers_invD(6) [OF inv] that by metis
  with timers_invD(8) [OF inv] argfreed_distinct [OF timers_invD(1) [OF inv]] show ?thesis
    unfolding timers_tick_sel distinct_append by blast
qed

lemma timers_tick_owner:
  assumes inv: "timers_inv s" and e: "e \<in> set (tm_spawned (timers_tick busy spawns s))"
  shows "fst e \<notin> set (tm_argfreed (timers_tick busy spawns s))"
proof
  assume i: "fst e \<in> set (tm_argfreed (timers_tick busy spawns s))"
  note d = timers_invD(1) [OF inv]
  from e consider (old) "e \<in> set (tm_spawned s)"
    | (new) t where "t \<in> set (tm_list s)" "fst e = tm_id t" "fires busy spawns (tm_tick s) t"
    by (auto simp: timers_tick_sel elim: spawned_from)
  note ecases = this
  from i consider (old) "fst e \<in> set (tm_argfreed s)"
    | (new) u where "u \<in> set (tm_list s)" "fst e = tm_id u" "reaped busy u" "tm_arg u \<noteq> None"
    by (auto simp: timers_tick_sel elim: argfreed_from)
  then show False
  proof cases
    case old
    from ecases show False
      by cases (use old timers_invD(6,9) [OF inv] in auto)
  next
    case new
    from ecases show False
    proof cases
      case old
      with new timers_invD(5) [OF inv new(1) old] show False by simp
    next
      case (new t)
      with \<open>u \<in> set (tm_list s)\<close> \<open>fst e = tm_id u\<close> same_timer [OF d, of t u]
      have "t = u" by simp
      with new(3) \<open>reaped busy u\<close> show False by (simp add: fires_def reaped_def)
    qed
  qed
qed

lemma timers_tick_kept:
  assumes inv: "timers_inv s" and t': "t' \<in> set (tm_list (timers_tick busy spawns s))"
  shows "tm_id t' < tm_next s"
    and "e \<in> set (tm_spawned (timers_tick busy spawns s)) \<Longrightarrow> tm_id t' = fst e
           \<Longrightarrow> tm_cancelled t' \<and> tm_arg t' = None"
    and "tm_id t' \<notin> set (tm_argfreed (timers_tick busy spawns s))"
proof -
  note d = timers_invD(1) [OF inv]
  obtain t where t: "t \<in> set (tm_list s)" "tm_id t' = tm_id t"
    "keep busy spawns (tm_tick s) t = Some t'"
    using t' unfolding timers_tick_sel by (rule kept_from)
  show "tm_id t' < tm_next s" using timers_invD(2) [OF inv t(1)] t(2) by simp
  show "tm_cancelled t' \<and> tm_arg t' = None"
    if e: "e \<in> set (tm_spawned (timers_tick busy spawns s))" "tm_id t' = fst e"
  proof (cases "fires busy spawns (tm_tick s) t")
    case True with keep_cases [OF t(3)] show ?thesis by simp
  next
    case False
    with e t(1,2) spawned_fresh [OF d, of e] have "e \<in> set (tm_spawned s)"
      by (auto simp: timers_tick_sel)
    with timers_invD(5) [OF inv t(1)] e(2) t(2) False keep_cases [OF t(3)] show ?thesis by simp
  qed
  show "tm_id t' \<notin> set (tm_argfreed (timers_tick busy spawns s))"
  proof -
    have "tm_id t \<notin> set (List.map_filter (argfreed busy) (tm_list s))"
      using argfreed_fresh(1) [OF d _ t(1)] reaped_keep t(3) by fastforce
    with timers_invD(6) [OF inv t(1)] t(2) show ?thesis by (simp add: timers_tick_sel)
  qed
qed

lemma timers_tick_inv:
  assumes inv: "timers_inv s"
  shows "timers_inv (timers_tick busy spawns s)"
proof (rule timers_invI)
  show "distinct (map tm_id (tm_list (timers_tick busy spawns s)))"
    unfolding timers_tick_sel by (rule kept_distinct [OF timers_invD(1) [OF inv]])
  show "fst e < tm_next (timers_tick busy spawns s)"
    if "e \<in> set (tm_spawned (timers_tick busy spawns s))" for e
    using that timers_invD(2) [OF inv]
    by (auto simp: timers_tick_sel elim: spawned_from intro: timers_invD(3) [OF inv])
  show "i < tm_next (timers_tick busy spawns s)"
    if "i \<in> set (tm_argfreed (timers_tick busy spawns s))" for i
    using that timers_invD(2,4) [OF inv] by (auto simp: timers_tick_sel elim: argfreed_from)
qed (use timers_tick_kept [OF inv] timers_tick_owner [OF inv] timers_tick_spawned_once [OF inv]
      timers_tick_freed_once [OF inv] in \<open>auto simp: timers_tick_sel(4)\<close>)


lemma timer_upd_inv:
  assumes inv: "timers_inv s"
    and f: "\<And>t. tm_id (f t) = tm_id t" "\<And>t. tm_arg (f t) = tm_arg t"
      "\<And>t. tm_cancelled t \<Longrightarrow> tm_cancelled (f t)"
  shows "timers_inv (timer_upd i f s)"
proof -
  let ?g = "\<lambda>t. if tm_id t = i \<and> \<not> tm_locked t then f t else t"
  have ids: "map tm_id (tm_list (timer_upd i f s)) = map tm_id (tm_list s)"
    by (simp add: timer_upd_def f)
  have sel: "tm_list (timer_upd i f s) = map ?g (tm_list s)"
    "tm_spawned (timer_upd i f s) = tm_spawned s" "tm_argfreed (timer_upd i f s) = tm_argfreed s"
    "tm_next (timer_upd i f s) = tm_next s"
    by (simp_all add: timer_upd_def)
  have g: "tm_id (?g t) = tm_id t" "tm_arg (?g t) = tm_arg t"
    "tm_cancelled t \<Longrightarrow> tm_cancelled (?g t)" for t
    by (simp_all add: f)
  show ?thesis
  proof (rule timers_invI)
    show "distinct (map tm_id (tm_list (timer_upd i f s)))"
      using timers_invD(1) [OF inv] by (simp only: ids)
    show "tm_id t < tm_next (timer_upd i f s)" if "t \<in> set (tm_list (timer_upd i f s))" for t
      using that timers_invD(2) [OF inv] by (auto simp: sel f)
    show "tm_cancelled t \<and> tm_arg t = None"
      if t: "t \<in> set (tm_list (timer_upd i f s))" and e: "e \<in> set (tm_spawned (timer_upd i f s))"
        and id: "tm_id t = fst e" for t e
    proof -
      from t obtain u where u: "u \<in> set (tm_list s)" "t = ?g u" by (auto simp: sel)
      with e id timers_invD(5) [OF inv u(1), of e] show ?thesis by (simp add: sel g f)
    qed
    show "tm_id t \<notin> set (tm_argfreed (timer_upd i f s))" if "t \<in> set (tm_list (timer_upd i f s))" for t
      using that timers_invD(6) [OF inv] by (auto simp: sel f)
  qed (use timers_invD(3,4,7,8,9) [OF inv] in \<open>simp_all add: sel\<close>)
qed

lemma timer_enqueue_inv:
  assumes inv: "timers_inv s"
  shows "timers_inv (timer_enqueue r e h a f s)"
proof -
  have "tm_next s \<notin> tm_id ` set (tm_list s)" using timers_invD(2) [OF inv] by fastforce
  moreover have "fst e \<noteq> tm_next s" if "e \<in> set (tm_spawned s)" for e
    using timers_invD(3) [OF inv that] by simp
  moreover have "tm_next s \<notin> set (tm_argfreed s)" using timers_invD(4) [OF inv] by fastforce
  ultimately show ?thesis
    using inv unfolding timers_inv_def timer_enqueue_def
    by (elim conjE) (intro conjI; fastforce simp: less_Suc_eq)
qed

lemma timer_step_inv:
  assumes "timer_step s s'" and inv: "timers_inv s"
  shows "timers_inv s'"
  using assms(1)
proof cases
  case (st_round busy spawns)
  have "timers_inv (s\<lparr>tm_tick := tm_tick s + 10\<rparr>)" using inv by (simp add: timers_inv_def)
  then show ?thesis unfolding st_round timers_round_def by (rule timers_tick_inv)
qed (auto simp: inv timer_add_with_release_def timer_oneshot_def timer_release_def timer_cancel_def
    intro!: timer_enqueue_inv timer_upd_inv split: option.splits)

lemma timer_run_inv: "timer_run s s' \<Longrightarrow> timers_inv s \<Longrightarrow> timers_inv s'"
  by (induction rule: timer_run.induct) (simp_all add: timer_step_inv)


section \<open>Properties\<close>

text \<open>Property C24. In every execution of the timer list, whatever the interleaving of the
  callers with the timer thread, each timer starts its handler at most once, each argument is
  released at most once, and no argument that was handed to a handler is also released by the
  list (the double release the ownership comment in \<open>timers_tick\<close> speaks of).\<close>

theorem timer_handler_once:
  assumes "timer_run timers_init s"
  shows "distinct (map fst (tm_spawned s)) \<and> distinct (tm_argfreed s) \<and>
    fst ` set (tm_spawned s) \<inter> set (tm_argfreed s) = {}"
  using timer_run_inv [OF assms timers_inv_init] unfolding timers_inv_def by blast

lemmas timer_eval = timer_add_def timer_add_with_release_def timer_oneshot_def timer_enqueue_def
  timers_init_def timer_get_tick_def timer_cancel_def timer_release_def timer_upd_def
  timers_round_def timers_tick_def timer_free_def

theorem timer_handler_once_witness:
  "let s = timers_round (\<lambda>_. False) (\<lambda>_. True)
             (timer_cancel (Some 1) (snd (timer_add_with_release 100 ''free'' (Some 8) True
               (snd (timer_add_with_release 5 ''rto'' (Some 7) True timers_init)))))
   in tm_spawned s = [(0, ''rto'', Some (7 :: nat))] \<and> tm_argfreed s = [1] \<and>
      fst ` set (tm_spawned s) \<inter> set (tm_argfreed s) = {}"
proof -
  let ?a = "snd (timer_add_with_release 5 ''rto'' (Some (7 :: nat)) True timers_init)"
  let ?b = "snd (timer_add_with_release 100 ''free'' (Some 8) True ?a)"
  let ?c = "timer_cancel (Some 1) ?b"
  let ?d = "timers_round (\<lambda>_. False) (\<lambda>_. True) ?c"
  have "timer_run timers_init ?d"
    by (rule run_step [OF run_step [OF run_step [OF run_step [OF run_refl st_add] st_add] st_cancel]
          st_round])
  from timer_handler_once [OF this]
  have a: "fst ` set (tm_spawned ?d) \<inter> set (tm_argfreed ?d) = {}" by (elim conjE)
  have b: "tm_spawned ?d = [(0, ''rto'', Some (7 :: nat))]" and c: "tm_argfreed ?d = [1]"
    by (simp_all add: timer_eval)
  show ?thesis unfolding Let_def by (intro conjI a b c)
qed

text \<open>A timer that will never start its handler: every entry of that identifier is cancelled,
  or its mutex was left locked.\<close>

definition dead_timer :: "nat \<Rightarrow> ('h, 'a) timers \<Rightarrow> bool" where
  "dead_timer i s \<longleftrightarrow> i < tm_next s \<and> i \<notin> fst ` set (tm_spawned s) \<and>
     (\<forall>t \<in> set (tm_list s). tm_id t = i \<longrightarrow> tm_cancelled t \<or> tm_locked t)"

lemma fires_live: "fires busy spawns tick t \<Longrightarrow> \<not> tm_cancelled t \<and> \<not> tm_locked t"
  by (simp add: fires_def)

lemma keep_dead:
  "keep busy spawns tick t = Some t' \<Longrightarrow> tm_cancelled t \<or> tm_locked t
   \<Longrightarrow> tm_cancelled t' \<or> tm_locked t'"
  by (auto simp: keep_def fires_def split: if_splits)

lemma timers_tick_dead:
  assumes "dead_timer i s"
  shows "dead_timer i (timers_tick busy spawns s)"
proof -
  have "i \<notin> fst ` set (List.map_filter (spawned busy spawns (tm_tick s)) (tm_list s))"
  proof
    assume "i \<in> fst ` set (List.map_filter (spawned busy spawns (tm_tick s)) (tm_list s))"
    then obtain t where "t \<in> set (tm_list s)" "i = tm_id t" "fires busy spawns (tm_tick s) t"
      by (auto elim: spawned_from)
    with assms fires_live show False unfolding dead_timer_def by blast
  qed
  moreover have "tm_cancelled t' \<or> tm_locked t'"
    if "t' \<in> set (List.map_filter (keep busy spawns (tm_tick s)) (tm_list s))" "tm_id t' = i" for t'
    using that(1)
  proof (rule kept_from)
    fix t assume t: "t \<in> set (tm_list s)" "tm_id t' = tm_id t"
      and k: "keep busy spawns (tm_tick s) t = Some t'"
    from t that(2) assms have "tm_cancelled t \<or> tm_locked t" by (simp add: dead_timer_def)
    with k show ?thesis by (rule keep_dead)
  qed
  ultimately show ?thesis using assms by (simp add: dead_timer_def timers_tick_sel image_Un)
qed

lemma timer_upd_dead:
  assumes "dead_timer i s" and "\<And>t. tm_id (f t) = tm_id t" "\<And>t. tm_cancelled t \<Longrightarrow> tm_cancelled (f t)"
  shows "dead_timer i (timer_upd j f s)"
  using assms by (auto simp: dead_timer_def timer_upd_def)

lemma timer_enqueue_dead: "dead_timer i s \<Longrightarrow> dead_timer i (timer_enqueue r e h a f s)"
  by (auto simp: dead_timer_def timer_enqueue_def)

lemma timer_step_dead:
  assumes "timer_step s s'" and d: "dead_timer i s"
  shows "dead_timer i s'"
  using assms(1)
proof cases
  case (st_round busy spawns)
  have "dead_timer i (s\<lparr>tm_tick := tm_tick s + 10\<rparr>)" using d by (simp add: dead_timer_def)
  then show ?thesis unfolding st_round timers_round_def by (rule timers_tick_dead)
qed (auto simp: d timer_add_with_release_def timer_oneshot_def timer_release_def timer_cancel_def
    intro!: timer_enqueue_dead timer_upd_dead split: option.splits)

lemma timer_run_dead: "timer_run s s' \<Longrightarrow> dead_timer i s \<Longrightarrow> dead_timer i s'"
  by (induction rule: timer_run.induct) (simp_all add: timer_step_dead)

lemma timer_upd_unique_dead:
  assumes inv: "timers_inv s" and t: "t \<in> set (tm_list s)" "\<not> tm_cancelled t" "\<not> tm_locked t"
    and f: "\<And>u. tm_cancelled (f u)" "\<And>u. tm_id (f u) = tm_id u"
  shows "dead_timer (tm_id t) (timer_upd (tm_id t) f s)"
proof -
  have "tm_id t \<notin> fst ` set (tm_spawned s)" using timers_invD(5) [OF inv t(1)] t(2) by fastforce
  then show ?thesis
    using timers_invD(2) [OF inv t(1)] f by (auto simp: dead_timer_def timer_upd_def)
qed

text \<open>Cancelling a timer before the timer thread reached it is final: in no later
  state of any execution has its handler been started.\<close>

lemma timer_cancel_final:
  assumes "timer_run timers_init s" and "t \<in> set (tm_list s)" "\<not> tm_cancelled t" "\<not> tm_locked t"
    and "timer_run (timer_cancel (Some (tm_id t)) s) s'"
  shows "tm_id t \<notin> fst ` set (tm_spawned s')"
proof -
  have "dead_timer (tm_id t) (timer_cancel (Some (tm_id t)) s)"
    unfolding timer_cancel_def option.case
    by (rule timer_upd_unique_dead [OF timer_run_inv [OF assms(1) timers_inv_init] assms(2-4)]) simp_all
  with timer_run_dead [OF assms(5)] show ?thesis unfolding dead_timer_def by blast
qed

lemma timer_cancel_final_example:
  "let s = snd (timer_add 5 ''rto'' (Some (7 :: nat)) timers_init)
   in 0 \<notin> fst ` set (tm_spawned (timers_round (\<lambda>_. False) (\<lambda>_. True) (timer_cancel (Some 0) s)))"
proof -
  let ?s = "snd (timer_add 5 ''rto'' (Some (7 :: nat)) timers_init)"
  let ?t = "hd (tm_list ?s)"
  have "timer_run timers_init ?s"
    unfolding timer_add_def by (rule run_step [OF run_refl st_add])
  moreover have i: "tm_id ?t = 0"
    by (simp add: timer_eval)
  have "?t \<in> set (tm_list ?s)" "\<not> tm_cancelled ?t" "\<not> tm_locked ?t"
    by (simp_all add: timer_eval)
  moreover have "timer_run (timer_cancel (Some (tm_id ?t)) ?s)
      (timers_round (\<lambda>_. False) (\<lambda>_. True) (timer_cancel (Some (tm_id ?t)) ?s))"
    by (rule run_step [OF run_refl st_round])
  ultimately have "tm_id ?t \<notin> fst ` set (tm_spawned (timers_round (\<lambda>_. False) (\<lambda>_. True)
      (timer_cancel (Some (tm_id ?t)) ?s)))"
    by (rule timer_cancel_final)
  then show ?thesis unfolding i Let_def .
qed

lemma timers_round_sel:
  "tm_list (timers_round busy spawns s) =
     List.map_filter (keep busy spawns (tm_tick s + 10)) (tm_list s)"
  "tm_spawned (timers_round busy spawns s) =
     tm_spawned s @ List.map_filter (spawned busy spawns (tm_tick s + 10)) (tm_list s)"
  by (simp_all add: timers_round_def timers_tick_sel)

lemma set_spawned:
  "set (List.map_filter (spawned busy spawns tick) ts) =
     {(tm_id t, tm_handler t, tm_arg t) | t. t \<in> set ts \<and> fires busy spawns tick t}"
  by (auto simp: set_map_filter spawned_def split: if_splits)

lemma timers_round_spawned:
  "set (tm_spawned (timers_round busy spawns s)) = set (tm_spawned s) \<union>
     {(tm_id t, tm_handler t, tm_arg t) | t. t \<in> set (tm_list s) \<and> \<not> tm_locked t \<and>
        \<not> busy (tm_id t) \<and> \<not> tm_cancelled t \<and> tm_expires t < word_of_int (tm_tick s + 10) \<and>
        spawns (tm_id t)}"
  by (simp only: timers_round_sel set_append set_spawned fires_def)

lemma timers_round_kept:
  assumes "t \<in> set (tm_list s)" "tm_refcnt t \<noteq> 0"
  shows "\<exists>t' \<in> set (tm_list (timers_round busy spawns s)). tm_id t' = tm_id t"
proof -
  have "keep busy spawns (tm_tick s + 10) t \<noteq> None"
    using assms(2) by (simp add: keep_def reaped_def)
  then obtain t' where "keep busy spawns (tm_tick s + 10) t = Some t'" "tm_id t' = tm_id t"
    using keep_id by blast
  with assms(1) show ?thesis
    unfolding timers_round_sel by (metis set_map_filter)
qed

text \<open>What one round of the timer thread starts: exactly the handlers, with their
  arguments, of the timers that are not cancelled, whose mutex is free, whose expiry lies strictly
  before the new tick and whose thread could be created. A timer some holder still has a reference
  to is not freed by the round.\<close>

lemma timers_round_fires:
  "set (tm_spawned (timers_round busy spawns s)) = set (tm_spawned s) \<union>
     {(tm_id t, tm_handler t, tm_arg t) | t. t \<in> set (tm_list s) \<and> \<not> tm_locked t \<and>
        \<not> busy (tm_id t) \<and> \<not> tm_cancelled t \<and> tm_expires t < word_of_int (tm_tick s + 10) \<and>
        spawns (tm_id t)} \<and>
   (\<forall>t \<in> set (tm_list s). tm_refcnt t \<noteq> 0 \<longrightarrow>
      (\<exists>t' \<in> set (tm_list (timers_round busy spawns s)). tm_id t' = tm_id t))"
  by (intro conjI ballI impI timers_round_spawned timers_round_kept)

lemma timers_round_fires_example:
  "let s = snd (timer_add 5 ''rto'' (Some (7 :: nat)) timers_init)
   in \<exists>t' \<in> set (tm_list (timers_round (\<lambda>_. False) (\<lambda>_. True) s)). tm_id t' = 0"
proof -
  let ?s = "snd (timer_add 5 ''rto'' (Some (7 :: nat)) timers_init)"
  let ?t = "hd (tm_list ?s)"
  have t: "?t \<in> set (tm_list ?s)" "tm_refcnt ?t \<noteq> 0" "tm_id ?t = 0"
    by (simp_all add: timer_eval)
  from timers_round_fires [of "\<lambda>_. False" "\<lambda>_. True" ?s] t
  show ?thesis by (metis (no_types, lifting))
qed

text \<open>When \<open>pthread_create\<close> fails, \<open>timers_tick\<close> continues to the next timer without
  releasing the mutex it has taken: that timer never starts its handler in any later state, however
  often the thread creation would succeed then.\<close>

lemma timer_spawn_failure_stuck:
  assumes "timer_run timers_init s" and "t \<in> set (tm_list s)" "\<not> tm_locked t" "\<not> tm_cancelled t"
    and "\<not> busy (tm_id t)" "tm_expires t < word_of_int (tm_tick s + 10)" "\<not> spawns (tm_id t)"
    and "timer_run (timers_round busy spawns s) s'"
  shows "tm_id t \<notin> fst ` set (tm_spawned s')"
proof -
  let ?s = "s\<lparr>tm_tick := tm_tick s + 10\<rparr>"
  note inv = timer_run_inv [OF assms(1) timers_inv_init]
  note d = timers_invD(1) [OF inv]
  have "dead_timer (tm_id t) (timers_round busy spawns s)"
    unfolding dead_timer_def
  proof (intro conjI ballI impI)
    show "tm_id t < tm_next (timers_round busy spawns s)"
      using timers_invD(2) [OF inv assms(2)] by (simp add: timers_round_def timers_tick_sel)
    have "e \<notin> set (tm_spawned s)" if "fst e = tm_id t" for e
      using timers_invD(5) [OF inv assms(2), of e] assms(4) that by auto
    moreover have "e \<notin> set (List.map_filter (spawned busy spawns (tm_tick s + 10)) (tm_list s))"
      if "fst e = tm_id t" for e
      using spawned_fresh [OF d _ assms(2)] that assms(7) by (fastforce simp: fires_def)
    ultimately show "tm_id t \<notin> fst ` set (tm_spawned (timers_round busy spawns s))"
      by (force simp: timers_round_def timers_tick_sel)
  next
    fix t' assume "t' \<in> set (tm_list (timers_round busy spawns s))" and id: "tm_id t' = tm_id t"
    then have "t' \<in> set (List.map_filter (keep busy spawns (tm_tick s + 10)) (tm_list s))"
      by (simp add: timers_round_def timers_tick_sel)
    then obtain u where u: "u \<in> set (tm_list s)" "tm_id t' = tm_id u"
        "keep busy spawns (tm_tick s + 10) u = Some t'"
      by (rule kept_from)
    with same_timer [OF d assms(2), of u] id have "u = t" by simp
    with u(3) assms(3-7) show "tm_cancelled t' \<or> tm_locked t'"
      by (auto simp: keep_def fires_def reaped_def split: if_splits)
  qed
  with timer_run_dead [OF assms(8)] show ?thesis unfolding dead_timer_def by blast
qed

lemma timer_spawn_failure_stuck_example:
  "let s = timers_round (\<lambda>_. False) (\<lambda>_. False) (snd (timer_add 5 ''rto'' (Some (7 :: nat)) timers_init))
   in 0 \<notin> fst ` set (tm_spawned (timers_round (\<lambda>_. False) (\<lambda>_. True) s))"
proof -
  let ?s = "snd (timer_add 5 ''rto'' (Some (7 :: nat)) timers_init)"
  let ?t = "hd (tm_list ?s)"
  have r: "timer_run timers_init ?s"
    unfolding timer_add_def by (rule run_step [OF run_refl st_add])
  have t: "?t \<in> set (tm_list ?s)" "\<not> tm_locked ?t" "\<not> tm_cancelled ?t" "tm_id ?t = 0"
    "tm_expires ?t < word_of_int (tm_tick ?s + 10)"
    by (simp_all add: timer_eval)
  from timer_spawn_failure_stuck [OF r t(1-3) _ t(5), of "\<lambda>_. False" "\<lambda>_. False",
      OF _ _ run_step [OF run_refl st_round [of _ "\<lambda>_. False" "\<lambda>_. True"]]]
  show ?thesis unfolding t(4) Let_def by simp
qed

end
