(* ===== verification/Ipv6_Types.thy ===== *)
theory Ipv6_Types
  imports Ip_Output Timer
begin

text \<open>
  The IPv6 fixed header and its accessors (\<open>include/ipv6.h\<close>), the ICMPv6 checksum
  (\<open>src/icmpv6.c\<close>), and the timers of the whole program: which callbacks exist and what their
  arguments are. A socket is named by a number, and the argument of an RTO timer carries the epoch
  of \<open>struct rto_timer_arg\<close>. The address lifetime timers own a copy of the device.
\<close>

record ipv6hdr =
  i6_vtc_flow :: u32
  i6_payload_len :: u16
  i6_nexthdr :: u8
  i6_hop_limit :: u8
  i6_saddr :: in6_addr
  i6_daddr :: in6_addr

definition enc_ipv6hdr :: "ipv6hdr \<Rightarrow> bytes" where
  "enc_ipv6hdr h = le32 (i6_vtc_flow h) @ le16 (i6_payload_len h) @ [i6_nexthdr h, i6_hop_limit h] @
     i6_saddr h @ i6_daddr h"

definition dec_ipv6hdr :: "bytes \<Rightarrow> ipv6hdr" where
  "dec_ipv6hdr b = \<lparr>i6_vtc_flow = get32 b 0, i6_payload_len = get16 b 4, i6_nexthdr = b ! 6,
     i6_hop_limit = b ! 7, i6_saddr = get_bytes 8 16 b, i6_daddr = get_bytes 24 16 b\<rparr>"

definition ok_ipv6hdr :: "ipv6hdr \<Rightarrow> bool" where
  "ok_ipv6hdr h \<longleftrightarrow> length (i6_saddr h) = 16 \<and> length (i6_daddr h) = 16"

interpretation ip6h: packed_struct enc_ipv6hdr dec_ipv6hdr 40 ok_ipv6hdr
proof unfold_locales
  fix h :: ipv6hdr and rest
  assume ok: "ok_ipv6hdr h"
  then show "length (enc_ipv6hdr h) = 40" by (simp add: ok_ipv6hdr_def enc_ipv6hdr_def)
  from ok show "dec_ipv6hdr (enc_ipv6hdr h @ rest) = h"
    by (simp add: ok_ipv6hdr_def enc_ipv6hdr_def dec_ipv6hdr_def get_bytes_def get32_def get16_def
        le32_def le16_def)
qed

abbreviation (input) NEXTHDR_HOP :: u8 where "NEXTHDR_HOP \<equiv> 0"
abbreviation (input) NEXTHDR_TCP :: u8 where "NEXTHDR_TCP \<equiv> 6"
abbreviation (input) NEXTHDR_UDP :: u8 where "NEXTHDR_UDP \<equiv> 17"
abbreviation (input) NEXTHDR_ROUTING :: u8 where "NEXTHDR_ROUTING \<equiv> 43"
abbreviation (input) NEXTHDR_FRAGMENT :: u8 where "NEXTHDR_FRAGMENT \<equiv> 44"
abbreviation (input) NEXTHDR_ICMPV6 :: u8 where "NEXTHDR_ICMPV6 \<equiv> 58"
abbreviation (input) NEXTHDR_NONE :: u8 where "NEXTHDR_NONE \<equiv> 59"
abbreviation (input) NEXTHDR_DEST :: u8 where "NEXTHDR_DEST \<equiv> 60"
abbreviation (input) IPV6_VERSION :: u8 where "IPV6_VERSION \<equiv> 6"
abbreviation (input) IPV6_DEFAULT_HOPLIMIT :: u8 where "IPV6_DEFAULT_HOPLIMIT \<equiv> 64"

definition ipv6_hdr_version :: "ipv6hdr \<Rightarrow> u8" where
  "ipv6_hdr_version h = ucast (drop_bit 28 (ntohl (i6_vtc_flow h)))"

definition ipv6_hdr_tclass :: "ipv6hdr \<Rightarrow> u8" where
  "ipv6_hdr_tclass h = ucast (drop_bit 20 (ntohl (i6_vtc_flow h)) AND 0xFF)"

definition ipv6_hdr_flowlabel :: "ipv6hdr \<Rightarrow> u32" where
  "ipv6_hdr_flowlabel h = ntohl (i6_vtc_flow h) AND 0x000FFFFF"

definition ipv6_hdr_set_vtc_flow :: "u8 \<Rightarrow> u8 \<Rightarrow> u32 \<Rightarrow> ipv6hdr \<Rightarrow> ipv6hdr" where
  "ipv6_hdr_set_vtc_flow version tclass flow_label h =
     (let v = push_bit 28 (ucast version) OR push_bit 20 (ucast tclass) OR (flow_label AND 0x000FFFFF)
      in h\<lparr>i6_vtc_flow := htonl v\<rparr>)"

lemma mask20: "(0x000FFFFF :: u32) = mask 20" and mask8: "(0xFF :: u32) = mask 8"
  by (simp_all add: mask_eq_exp_minus_1)

lemma vtc_flow_fields:
  assumes "version < 16"
  shows "ipv6_hdr_version (ipv6_hdr_set_vtc_flow version tclass fl h) = version"
    and "ipv6_hdr_tclass (ipv6_hdr_set_vtc_flow version tclass fl h) = tclass"
    and "ipv6_hdr_flowlabel (ipv6_hdr_set_vtc_flow version tclass fl h) = fl AND mask 20"
proof -
  have v: "\<not> bit version n" if "4 \<le> n" for n
  proof -
    have "version = take_bit 4 version"
      using assms by (simp add: word_unat_eq_iff unsigned_take_bit_eq take_bit_nat_eq_self word_less_nat_alt)
    with that show ?thesis by (metis bit_take_bit_iff not_less)
  qed
  show "ipv6_hdr_version (ipv6_hdr_set_vtc_flow version tclass fl h) = version"
    by (rule bit_word_eqI)
      (auto simp: ipv6_hdr_version_def ipv6_hdr_set_vtc_flow_def Let_def mask20 bit_simps v
        dest: bit_imp_le_length v [THEN notE, rotated])
  show "ipv6_hdr_tclass (ipv6_hdr_set_vtc_flow version tclass fl h) = tclass"
    by (rule bit_word_eqI)
      (auto simp: ipv6_hdr_tclass_def ipv6_hdr_set_vtc_flow_def Let_def mask20 mask8 bit_simps v)
  show "ipv6_hdr_flowlabel (ipv6_hdr_set_vtc_flow version tclass fl h) = fl AND mask 20"
    by (rule bit_word_eqI)
      (auto simp: ipv6_hdr_flowlabel_def ipv6_hdr_set_vtc_flow_def Let_def mask20 bit_simps)
qed

section \<open>ICMPv6 checksum\<close>

definition icmpv6_checksum :: "in6_addr \<Rightarrow> in6_addr \<Rightarrow> bytes \<Rightarrow> u16 \<Rightarrow> u16" where
  "icmpv6_checksum saddr daddr msg len =
     (let pseudo = take 16 saddr @ take 16 daddr @
            [0, 0, ucast (drop_bit 8 len), ucast (len AND 0xFF), 0, 0, 0, NEXTHDR_ICMPV6]
      in checksum (take (unat len) msg) (0 + sum_every_16bits pseudo))"

section \<open>The program's timers\<close>

datatype tm_handler =
    Tcp_connect_rto | Tcp_retransmission_timeout | Tcp_send_delack | Tcp_linger | Tcp_user_timeout
  | Socket_garbage_collect | Dad_timeout | Addr6_preferred_expired | Addr6_valid_expired

datatype tm_arg = Rto_arg nat u64 | Sk_arg nat | Dev_arg netdev

type_synonym sys_timers = "(tm_handler, tm_arg) timers"

end
