(* ===== verification/Ndp_Msg.thy ===== *)
theory Ndp_Msg
  imports Ipv6_Types
begin

text \<open>
  The packed structs of ICMPv6 and of neighbour discovery (\<open>include/icmpv6.h\<close>, \<open>include/ndp.h\<close>) with their layout. The options
  that follow a message are not part of its record. A byte of bit fields is one field.
\<close>

record icmpv6_hdr =
  ic6_type :: u8
  ic6_code :: u8
  ic6_csum :: u16
  ic6_body :: u32

definition enc_icmpv6_hdr :: "icmpv6_hdr \<Rightarrow> bytes" where
  "enc_icmpv6_hdr h = [ic6_type h, ic6_code h] @ le16 (ic6_csum h) @ le32 (ic6_body h)"

definition dec_icmpv6_hdr :: "bytes \<Rightarrow> icmpv6_hdr" where
  "dec_icmpv6_hdr b = \<lparr>ic6_type = b ! 0, ic6_code = b ! 1, ic6_csum = get16 b 2, ic6_body = get32 b 4\<rparr>"

interpretation ic6: packed_struct enc_icmpv6_hdr dec_icmpv6_hdr 8 "\<lambda>_. True"
  by unfold_locales (simp_all add: enc_icmpv6_hdr_def dec_icmpv6_hdr_def get32_def get16_def le32_def le16_def)

record ndp_ns =
  ns_type :: u8
  ns_code :: u8
  ns_csum :: u16
  ns_reserved :: u32
  ns_target :: in6_addr

definition enc_ndp_ns :: "ndp_ns \<Rightarrow> bytes" where
  "enc_ndp_ns m = [ns_type m, ns_code m] @ le16 (ns_csum m) @ le32 (ns_reserved m) @ ns_target m"

definition dec_ndp_ns :: "bytes \<Rightarrow> ndp_ns" where
  "dec_ndp_ns b = \<lparr>ns_type = b ! 0, ns_code = b ! 1, ns_csum = get16 b 2, ns_reserved = get32 b 4, ns_target = get_bytes 8 16 b\<rparr>"

interpretation ns: packed_struct enc_ndp_ns dec_ndp_ns 24 "\<lambda>m. length (ns_target m) = 16"
  by unfold_locales
    (simp_all add: enc_ndp_ns_def dec_ndp_ns_def get_bytes_def get32_def get16_def le32_def le16_def)

record ndp_na =
  na_type :: u8
  na_code :: u8
  na_csum :: u16
  na_flags :: u8
  na_reserved :: bytes
  na_target :: in6_addr

definition enc_ndp_na :: "ndp_na \<Rightarrow> bytes" where
  "enc_ndp_na m = [na_type m, na_code m] @ le16 (na_csum m) @ [na_flags m] @ na_reserved m @ na_target m"

definition dec_ndp_na :: "bytes \<Rightarrow> ndp_na" where
  "dec_ndp_na b = \<lparr>na_type = b ! 0, na_code = b ! 1, na_csum = get16 b 2, na_flags = b ! 4, na_reserved = get_bytes 5 3 b,
     na_target = get_bytes 8 16 b\<rparr>"

interpretation na: packed_struct enc_ndp_na dec_ndp_na 24 "\<lambda>m. length (na_reserved m) = 3 \<and> length (na_target m) = 16"
  by unfold_locales (simp_all add: enc_ndp_na_def dec_ndp_na_def get_bytes_def get16_def le16_def)

definition GET_NA_S :: "u8 \<Rightarrow> bool" where "GET_NA_S flags \<longleftrightarrow> drop_bit 6 flags AND 1 \<noteq> 0"
definition GET_NA_O :: "u8 \<Rightarrow> bool" where "GET_NA_O flags \<longleftrightarrow> drop_bit 5 flags AND 1 \<noteq> 0"
definition SET_NA_S :: "u8 \<Rightarrow> u8" where "SET_NA_S flags = flags OR push_bit 6 1"
definition SET_NA_O :: "u8 \<Rightarrow> u8" where "SET_NA_O flags = flags OR push_bit 5 1"
definition CLR_NA_R :: "u8 \<Rightarrow> u8" where "CLR_NA_R flags = flags AND NOT (push_bit 7 1)"

lemma GET_NA_bit: "GET_NA_S f \<longleftrightarrow> bit f 6" "GET_NA_O f \<longleftrightarrow> bit f 5"
  by (simp_all only: GET_NA_S_def GET_NA_O_def and_one_eq bit_iff_odd_drop_bit even_iff_mod_2_eq_zero)

lemma na_flags_get [simp]:
  "GET_NA_S (SET_NA_S f)" "GET_NA_S (SET_NA_O f) = GET_NA_S f" "GET_NA_S (CLR_NA_R f) = GET_NA_S f"
  "GET_NA_O (SET_NA_O f)" "GET_NA_O (SET_NA_S f) = GET_NA_O f" "GET_NA_O (CLR_NA_R f) = GET_NA_O f"
  unfolding GET_NA_bit SET_NA_S_def SET_NA_O_def CLR_NA_R_def by (simp_all only: bit_simps) simp_all

record ndp_rs =
  rs_type :: u8
  rs_code :: u8
  rs_csum :: u16
  rs_reserved :: u32

definition enc_ndp_rs :: "ndp_rs \<Rightarrow> bytes" where
  "enc_ndp_rs m = [rs_type m, rs_code m] @ le16 (rs_csum m) @ le32 (rs_reserved m)"

definition dec_ndp_rs :: "bytes \<Rightarrow> ndp_rs" where
  "dec_ndp_rs b = \<lparr>rs_type = b ! 0, rs_code = b ! 1, rs_csum = get16 b 2, rs_reserved = get32 b 4\<rparr>"

interpretation rs: packed_struct enc_ndp_rs dec_ndp_rs 8 "\<lambda>_. True"
  by unfold_locales (simp_all add: enc_ndp_rs_def dec_ndp_rs_def get32_def get16_def le32_def le16_def)

record ndp_ra =
  ra_type :: u8
  ra_code :: u8
  ra_csum :: u16
  ra_cur_hop_limit :: u8
  ra_m_o_flags :: u8
  ra_router_lifetime :: u16
  ra_reachable_time :: u32
  ra_retrans_timer :: u32

definition enc_ndp_ra :: "ndp_ra \<Rightarrow> bytes" where
  "enc_ndp_ra m = [ra_type m, ra_code m] @ le16 (ra_csum m) @ [ra_cur_hop_limit m, ra_m_o_flags m] @ le16 (ra_router_lifetime m) @
     le32 (ra_reachable_time m) @ le32 (ra_retrans_timer m)"

definition dec_ndp_ra :: "bytes \<Rightarrow> ndp_ra" where
  "dec_ndp_ra b = \<lparr>ra_type = b ! 0, ra_code = b ! 1, ra_csum = get16 b 2, ra_cur_hop_limit = b ! 4, ra_m_o_flags = b ! 5,
     ra_router_lifetime = get16 b 6, ra_reachable_time = get32 b 8, ra_retrans_timer = get32 b 12\<rparr>"

interpretation ra: packed_struct enc_ndp_ra dec_ndp_ra 16 "\<lambda>_. True"
  by unfold_locales (simp_all add: enc_ndp_ra_def dec_ndp_ra_def get32_def get16_def le32_def le16_def)

record ndp_opt_prefix =
  pfx_type :: u8
  pfx_length :: u8
  pfx_prefix_len :: u8
  pfx_l_a_flags :: u8
  pfx_valid_lifetime :: u32
  pfx_preferred_lifetime :: u32
  pfx_reserved2 :: u32
  pfx_prefix :: in6_addr

definition enc_ndp_opt_prefix :: "ndp_opt_prefix \<Rightarrow> bytes" where
  "enc_ndp_opt_prefix o6 = [pfx_type o6, pfx_length o6, pfx_prefix_len o6, pfx_l_a_flags o6] @ le32 (pfx_valid_lifetime o6) @
     le32 (pfx_preferred_lifetime o6) @ le32 (pfx_reserved2 o6) @ pfx_prefix o6"

definition dec_ndp_opt_prefix :: "bytes \<Rightarrow> ndp_opt_prefix" where
  "dec_ndp_opt_prefix b = \<lparr>pfx_type = b ! 0, pfx_length = b ! 1, pfx_prefix_len = b ! 2, pfx_l_a_flags = b ! 3,
     pfx_valid_lifetime = get32 b 4, pfx_preferred_lifetime = get32 b 8, pfx_reserved2 = get32 b 12, pfx_prefix = get_bytes 16 16 b\<rparr>"

interpretation pfx: packed_struct enc_ndp_opt_prefix dec_ndp_opt_prefix 32 "\<lambda>o6. length (pfx_prefix o6) = 16"
  by unfold_locales
    (simp_all add: enc_ndp_opt_prefix_def dec_ndp_opt_prefix_def get_bytes_def get32_def get16_def le32_def le16_def)

end
