(* ===== verification/Ndp.thy ===== *)
theory Ndp
  imports Ndp_Msg
begin

text \<open>
  The IPv6 neighbour cache and the messages that fill it (\<open>include/ndp.h\<close>, first half of
  \<open>src/ndp.c\<close>), the IPv6 neighbour output of \<open>src/dst.c\<close> and IPv6 output
  (\<open>src/ipv6_output.c\<close>). A pointer to a cache entry is its position: entries are only appended.
\<close>

datatype ndp_state = NDP_INCOMPLETE | NDP_REACHABLE | NDP_STALE | NDP_DELAY | NDP_PROBE | NDP_FAILED

record ndp_entry =
  ne_ip6 :: in6_addr
  ne_hwaddr :: bytes
  ne_state :: ndp_state
  ne_state_timestamp :: u32
  ne_solicit_count :: u8
  ne_queue :: sk_buff_head

record ndpstate = arpstate +
  ndp_cache :: "ndp_entry list"
  ndp_entry_count :: int
  timers :: sys_timers

abbreviation (input) NDP_MAX_NEIGHBORS :: int where "NDP_MAX_NEIGHBORS \<equiv> 64"
abbreviation (input) ICMPV6_ROUTER_SOLICIT :: u8 where "ICMPV6_ROUTER_SOLICIT \<equiv> 133"
abbreviation (input) ICMPV6_ROUTER_ADVERT :: u8 where "ICMPV6_ROUTER_ADVERT \<equiv> 134"
abbreviation (input) ICMPV6_NEIGHBOR_SOLICIT :: u8 where "ICMPV6_NEIGHBOR_SOLICIT \<equiv> 135"
abbreviation (input) ICMPV6_NEIGHBOR_ADVERT :: u8 where "ICMPV6_NEIGHBOR_ADVERT \<equiv> 136"
abbreviation (input) ICMPV6_REDIRECT :: u8 where "ICMPV6_REDIRECT \<equiv> 137"
abbreviation (input) NDP_OPT_SLLA :: u8 where "NDP_OPT_SLLA \<equiv> 1"
abbreviation (input) NDP_OPT_TLLA :: u8 where "NDP_OPT_TLLA \<equiv> 2"
abbreviation (input) NDP_OPT_PREFIX :: u8 where "NDP_OPT_PREFIX \<equiv> 3"

section \<open>The neighbour cache\<close>

definition ndp_init :: "('x) ndpstate_scheme \<Rightarrow> ('x) ndpstate_scheme" where
  "ndp_init s = s\<lparr>ndp_cache := [], ndp_entry_count := 0\<rparr>"

definition ndp_entry_alloc ::
  "in6_addr \<Rightarrow> ('x) ndpstate_scheme \<Rightarrow> nat option \<times> ('x) ndpstate_scheme" where
  "ndp_entry_alloc ip6 s =
     (if ndp_entry_count s \<ge> NDP_MAX_NEIGHBORS then (None, s)
      else (Some (length (ndp_cache s)),
            s\<lparr>ndp_cache := ndp_cache s @
                [\<lparr>ne_ip6 = ip6, ne_hwaddr = replicate 6 0, ne_state = NDP_INCOMPLETE,
                  ne_state_timestamp = word_of_int (timer_get_tick (timers s)),
                  ne_solicit_count = 0, ne_queue = skb_queue_init\<rparr>],
              ndp_entry_count := ndp_entry_count s + 1\<rparr>))"

fun ndp_find :: "(ndp_entry \<Rightarrow> bool) \<Rightarrow> nat \<Rightarrow> ndp_entry list \<Rightarrow> nat option" where
  "ndp_find p i [] = None"
| "ndp_find p i (e # es) = (if p e then Some i else ndp_find p (i + 1) es)"

definition ndp_lookup :: "in6_addr \<Rightarrow> ('x) ndpstate_scheme \<Rightarrow> nat option" where
  "ndp_lookup ip6 s = ndp_find (\<lambda>e. ipv6_addr_equal (ne_ip6 e) ip6) 0 (ndp_cache s)"

definition ndp_get_hwaddr :: "in6_addr \<Rightarrow> ('x) ndpstate_scheme \<Rightarrow> bytes option" where
  "ndp_get_hwaddr ip6 s =
     (case ndp_find (\<lambda>e. ipv6_addr_equal (ne_ip6 e) ip6 \<and> ne_state e = NDP_REACHABLE) 0 (ndp_cache s) of
        None \<Rightarrow> None
      | Some i \<Rightarrow> Some (ne_hwaddr (ndp_cache s ! i)))"

definition ndp_upd ::
  "nat \<Rightarrow> (ndp_entry \<Rightarrow> ndp_entry) \<Rightarrow> ('x) ndpstate_scheme \<Rightarrow> ('x) ndpstate_scheme" where
  "ndp_upd i f s = s\<lparr>ndp_cache := (ndp_cache s)[i := f (ndp_cache s ! i)]\<rparr>"

text \<open>The loop of \<open>ndp_flush_queue\<close>: what is left of the queue, the buffers it freed, the state.\<close>

function ndp_flush_loop ::
  "bytes \<Rightarrow> sk_buff_head \<Rightarrow> ('x) netstate_scheme
   \<Rightarrow> sk_buff_head \<times> sk_buff list \<times> ('x) netstate_scheme" where
  "ndp_flush_loop dmac q s =
     (if skb_queue_empty q then (q, [], s)
      else case skb_dequeue q of
             None \<Rightarrow> (q, [], s)
           | Some (skb, q') \<Rightarrow>
               (let (rc, skb, s) = netdev_transmit skb dmac ETH_P_IPV6 s;
                    (q'', freed, s) = ndp_flush_loop dmac q' s
                in (q'', free_skb skb # freed, s)))"
  by pat_completeness auto
termination
  by (relation "measure (\<lambda>(_, q, _). length (skb_list q))")
    (auto simp: skb_dequeue_def split: list.splits)

declare ndp_flush_loop.simps [simp del]

definition ndp_flush_queue :: "nat \<Rightarrow> ('x) ndpstate_scheme \<Rightarrow> ('x) ndpstate_scheme" where
  "ndp_flush_queue i s =
     (let e = ndp_cache s ! i;
          (q, freed, s) = ndp_flush_loop (ne_hwaddr e) (ne_queue e) s
      in ndp_upd i (\<lambda>e. e\<lparr>ne_queue := q\<rparr>) s)"

definition ndp_queue_skb ::
  "in6_addr \<Rightarrow> sk_buff \<Rightarrow> ('x) ndpstate_scheme \<Rightarrow> int \<times> ('x) ndpstate_scheme" where
  "ndp_queue_skb ip6 skb s =
     (case ndp_lookup ip6 s of
        None \<Rightarrow> (-1, s)
      | Some i \<Rightarrow>
          (let q = ne_queue (ndp_cache s ! i)
           in if skb_queue_len q \<ge> max_q q then (-1, s)
              else (0, ndp_upd i (\<lambda>e. e\<lparr>ne_queue := skb_queue_tail (ne_queue e) (skb_copy skb)\<rparr>) s)))"

section \<open>Sending solicitations\<close>

definition ipv6_solnode_addr :: "in6_addr \<Rightarrow> in6_addr" where
  "ipv6_solnode_addr target =
     [0xff, 0x02, 0, 0, 0, 0, 0, 0, 0, 0, 0, 0x01, 0xff, target ! 13, target ! 14, target ! 15]"

definition ipv6_multicast_mac :: "in6_addr \<Rightarrow> bytes" where
  "ipv6_multicast_mac mc6 = [0x33, 0x33, mc6 ! 12, mc6 ! 13, mc6 ! 14, mc6 ! 15]"

text \<open>The fixed header of the ND messages: hop limit 255.\<close>

definition nd_ipv6hdr :: "nat \<Rightarrow> in6_addr \<Rightarrow> in6_addr \<Rightarrow> ipv6hdr" where
  "nd_ipv6hdr pktlen src dst =
     ipv6_hdr_set_vtc_flow IPV6_VERSION 0 0
       \<lparr>i6_vtc_flow = 0, i6_payload_len = htons (of_nat pktlen), i6_nexthdr = NEXTHDR_ICMPV6,
        i6_hop_limit = 255, i6_saddr = src, i6_daddr = dst\<rparr>"

text \<open>Both solicitations fill a fresh buffer of exactly their size from the back: the message \<open>msg\<close>
  with a zero checksum, the IPv6 header, then the checksum at offset 2 of the message.\<close>

definition nd_send ::
  "bytes \<Rightarrow> in6_addr \<Rightarrow> in6_addr \<Rightarrow> bytes \<Rightarrow> devid \<Rightarrow> ('x) netstate_scheme
   \<Rightarrow> int \<times> ('x) netstate_scheme" where
  "nd_send msg src dst dst_mac d s =
     (let pktlen = length msg;
          total = ETH_HDR_LEN + IPV6_HDR_LEN + pktlen;
          skb = (skb_reserve (alloc_skb total) total)\<lparr>skb_dev := Some d\<rparr>;
          skb = skb_push skb pktlen;
          ns = skb_data skb;
          skb = skb_put ns msg skb;
          skb = skb_push skb IPV6_HDR_LEN;
          skb = skb_store enc_ipv6hdr (skb_data skb) (nd_ipv6hdr pktlen src dst) skb;
          skb = skb_put (ns + 2) (le16 (icmpv6_checksum src dst
                  (get_bytes (nat ns) pktlen (skb_mem skb)) (of_nat pktlen))) skb;
          (rc, skb, s) = netdev_transmit skb dst_mac ETH_P_IPV6 s
      in (0, s))"

definition ndp_send_ns ::
  "in6_addr \<Rightarrow> in6_addr \<Rightarrow> devid \<Rightarrow> ('x) netstate_scheme \<Rightarrow> int \<times> ('x) netstate_scheme" where
  "ndp_send_ns target src d s =
     (let msg = enc_ndp_ns \<lparr>ns_type = ICMPV6_NEIGHBOR_SOLICIT, ns_code = 0, ns_csum = 0, ns_reserved = 0, ns_target = target\<rparr> @
            [NDP_OPT_SLLA, 1] @ take 6 (dev_hwaddr (devs s d));
          dst_mc = ipv6_solnode_addr target
      in nd_send msg src dst_mc (ipv6_multicast_mac dst_mc) d s)"

definition ndp_send_rs ::
  "in6_addr \<Rightarrow> devid \<Rightarrow> ('x) netstate_scheme \<Rightarrow> int \<times> ('x) netstate_scheme" where
  "ndp_send_rs src d s =
     (let msg = enc_ndp_rs \<lparr>rs_type = ICMPV6_ROUTER_SOLICIT, rs_code = 0, rs_csum = 0, rs_reserved = 0\<rparr> @
            [NDP_OPT_SLLA, 1] @ take 6 (dev_hwaddr (devs s d));
          dst_mc = [0xff, 0x02, 0, 0, 0, 0, 0, 0, 0, 0, 0, 0, 0, 0, 0, 0x02]
      in nd_send msg src dst_mc (ipv6_multicast_mac dst_mc) d s)"

section \<open>Output\<close>

definition dst6_neigh_output ::
  "sk_buff \<Rightarrow> ('x) ndpstate_scheme \<Rightarrow> int \<times> sk_buff \<times> ('x) ndpstate_scheme" where
  "dst6_neigh_output skb s =
     (case (skb_rt skb, skb_dev skb) of
        (Some rt, Some d) \<Rightarrow>
          (let ip6h = skb_load dec_ipv6hdr (skb_data skb) skb;
               src_addr = i6_saddr ip6h;
               next_hop = (if rt_flags rt AND RT_GATEWAY \<noteq> 0 then rt_gateway rt else i6_daddr ip6h)
           in case ndp_get_hwaddr next_hop s of
                Some dmac \<Rightarrow> netdev_transmit skb dmac ETH_P_IPV6 s
              | None \<Rightarrow>
                  (let (rc, s) = ndp_send_ns next_hop src_addr d s;
                       (entry, s) = (case ndp_lookup next_hop s of
                                       None \<Rightarrow> ndp_entry_alloc next_hop s
                                     | Some i \<Rightarrow> (Some i, s));
                       s = (if entry \<noteq> None then snd (ndp_queue_skb next_hop skb s) else s)
                   in (-1, skb, s)))
      | _ \<Rightarrow> (-1, skb\<lparr>skb_oob := True\<rparr>, s))"

definition tcp_v6_ip_partion_checksum :: "in6_addr \<Rightarrow> in6_addr \<Rightarrow> u32 \<Rightarrow> u16" where
  "tcp_v6_ip_partion_checksum saddr daddr csum = checksum (take 16 saddr @ take 16 daddr) csum"

text \<open>Source address selection: the address given, or the device's global or link-local one, which is
  also written back through the pointer. \<open>None\<close> is the null pointer.\<close>

definition ipv6_select_saddr :: "in6_addr option \<Rightarrow> netdev \<Rightarrow> in6_addr \<times> in6_addr option" where
  "ipv6_select_saddr saddr dev =
     (case saddr of
        Some a \<Rightarrow>
          if \<not> ipv6_addr_is_unspecified a then (a, saddr)
          else if addr6_global_valid dev then (addr6_global dev, Some (addr6_global dev))
          else (addr6_ll dev, Some (addr6_ll dev))
      | None \<Rightarrow>
          if addr6_global_valid dev then (addr6_global dev, None) else (addr6_ll dev, None))"

definition ipv6_output_ex ::
  "sk_buff \<Rightarrow> u8 \<Rightarrow> in6_addr option \<Rightarrow> in6_addr \<Rightarrow> bool \<Rightarrow> ('x) ndpstate_scheme
   \<Rightarrow> int \<times> sk_buff \<times> in6_addr option \<times> ('x) ndpstate_scheme" where
  "ipv6_output_ex skb nexthdr saddr daddr headroom_reserved s =
     (case route6_lookup daddr s of
        None \<Rightarrow> (-1, free_skb skb, saddr, s)
      | Some i \<Rightarrow>
          (let rt = routes s ! i;
               skb = skb\<lparr>skb_dev := Some (rt_dev rt), skb_rt := Some rt\<rparr>;
               skb = (if headroom_reserved then skb else skb_push skb IPV6_HDR_LEN);
               (src, saddr) = ipv6_select_saddr saddr (devs s (rt_dev rt));
               ip6h = ipv6_hdr_set_vtc_flow IPV6_VERSION 0 0
                 \<lparr>i6_vtc_flow = 0, i6_payload_len = htons (ucast (skb_len skb - of_nat IPV6_HDR_LEN)),
                  i6_nexthdr = nexthdr, i6_hop_limit = IPV6_DEFAULT_HOPLIMIT, i6_saddr = src,
                  i6_daddr = daddr\<rparr>;
               skb = skb_store enc_ipv6hdr (skb_data skb) ip6h skb;
               skb = (if nexthdr = NEXTHDR_TCP
                      then skb_put (14 + 40 + 16) (le16 (tcp_v6_ip_partion_checksum src daddr
                             (skb_tcpcsum skb))) skb
                      else skb);
               (rc, skb, s) = dst6_neigh_output skb s
           in (rc, skb, saddr, s)))"

definition ipv6_output ::
  "sk_buff \<Rightarrow> u8 \<Rightarrow> in6_addr option \<Rightarrow> in6_addr \<Rightarrow> ('x) ndpstate_scheme
   \<Rightarrow> int \<times> sk_buff \<times> in6_addr option \<times> ('x) ndpstate_scheme" where
  "ipv6_output skb nexthdr saddr daddr s = ipv6_output_ex skb nexthdr saddr daddr False s"

end
