(* ===== verification/Addrconf.thy ===== *)
theory Addrconf
  imports Ndp
begin

text \<open>
  Stateless address configuration (\<open>src/ipv6_addrconf.c\<close>): link-local addresses, duplicate address
  detection and the lifetimes of the global address. There is one detection at a time:
  \<open>dad_ctx\<close> and \<open>dad_done\<close> are fields of the state. \<open>dad_state_ptr\<close> points to the state byte of
  one of a device's two addresses; following it while it is null sets \<open>null_deref\<close>, after which the
  C program has no behaviour. The lifetime timers own a copy of the device, which is their argument.
\<close>

datatype dad_ptr = Ll_state devid | Global_state devid

record addrconfstate = ndpstate +
  dad_target :: in6_addr
  dad_state_ptr :: "dad_ptr option"
  dad_dev :: "devid option"
  dad_done :: bool
  null_deref :: bool

abbreviation (input) ADDR6_TENTATIVE :: u8 where "ADDR6_TENTATIVE \<equiv> 0"
abbreviation (input) ADDR6_PREFERRED :: u8 where "ADDR6_PREFERRED \<equiv> 1"
abbreviation (input) ADDR6_DEPRECATED :: u8 where "ADDR6_DEPRECATED \<equiv> 2"
abbreviation (input) ADDR6_INVALID :: u8 where "ADDR6_INVALID \<equiv> 3"
abbreviation (input) DAD_TIMEOUT_MS :: u32 where "DAD_TIMEOUT_MS \<equiv> 1000"

section \<open>Operations\<close>

definition upd_dev ::
  "devid \<Rightarrow> (netdev \<Rightarrow> netdev) \<Rightarrow> ('x) netstate_scheme \<Rightarrow> ('x) netstate_scheme" where
  "upd_dev d f s = s\<lparr>devs := (devs s)(d := f (devs s d))\<rparr>"

definition dad_read :: "dad_ptr \<Rightarrow> ('x) netstate_scheme \<Rightarrow> u8" where
  "dad_read p s =
     (case p of Ll_state d \<Rightarrow> addr6_ll_state (devs s d) | Global_state d \<Rightarrow> addr6_global_state (devs s d))"

definition dad_write :: "dad_ptr \<Rightarrow> u8 \<Rightarrow> ('x) netstate_scheme \<Rightarrow> ('x) netstate_scheme" where
  "dad_write p v s =
     (case p of Ll_state d \<Rightarrow> upd_dev d (\<lambda>dev. dev\<lparr>addr6_ll_state := v\<rparr>) s
      | Global_state d \<Rightarrow> upd_dev d (\<lambda>dev. dev\<lparr>addr6_global_state := v\<rparr>) s)"

definition ipv6_generate_linklocal :: "bytes \<Rightarrow> in6_addr" where
  "ipv6_generate_linklocal hw_addr =
     (let iid = [hw_addr ! 0 XOR 0x02, hw_addr ! 1, hw_addr ! 2, 0xff, 0xfe,
                 hw_addr ! 3, hw_addr ! 4, hw_addr ! 5]
      in [0xfe, 0x80, 0, 0, 0, 0, 0, 0] @ iid)"

text \<open>What \<open>ipv6_addrconf_dad_failed\<close> and \<open>dad_timeout\<close> do under \<open>dad_lock\<close>, with the state they assign.
  Neither looks at the address it is called for.\<close>

definition dad_finish :: "u8 \<Rightarrow> ('x) addrconfstate_scheme \<Rightarrow> ('x) addrconfstate_scheme" where
  "dad_finish v s =
     (if dad_done s then s
      else
        (let s = s\<lparr>dad_done := True\<rparr>
         in case dad_state_ptr s of
              None \<Rightarrow> s\<lparr>null_deref := True\<rparr>
            | Some p \<Rightarrow> if dad_read p s = ADDR6_TENTATIVE then dad_write p v s else s))"

definition ipv6_addrconf_dad_failed ::
  "in6_addr \<Rightarrow> ('x) addrconfstate_scheme \<Rightarrow> ('x) addrconfstate_scheme" where
  "ipv6_addrconf_dad_failed target s = dad_finish ADDR6_INVALID s"

definition dad_timeout :: "('x) addrconfstate_scheme \<Rightarrow> ('x) addrconfstate_scheme" where
  "dad_timeout s = dad_finish ADDR6_PREFERRED s"

definition ipv6_dad_start ::
  "in6_addr \<Rightarrow> devid \<Rightarrow> ('x) addrconfstate_scheme \<Rightarrow> ('x) addrconfstate_scheme" where
  "ipv6_dad_start addr d s =
     (let s = s\<lparr>dad_done := False, dad_target := addr, dad_dev := Some d,
            dad_state_ptr := Some (if ipv6_addr_equal addr (addr6_ll (devs s d))
                                   then Ll_state d else Global_state d)\<rparr>;
          (ret, s) = ndp_send_ns addr in6_zero d s
      in if ret \<noteq> 0 then s
         else s\<lparr>timers := timer_oneshot DAD_TIMEOUT_MS Dad_timeout None (timers s)\<rparr>)"

text \<open>The lifetime callbacks, on the device they are given: the timer's own copy.\<close>

definition addr6_preferred_expired :: "netdev \<Rightarrow> netdev" where
  "addr6_preferred_expired dev =
     (if addr6_global_state dev = ADDR6_PREFERRED
      then dev\<lparr>addr6_global_state := ADDR6_DEPRECATED, addr6_pref_timer := None\<rparr> else dev)"

definition addr6_valid_expired :: "netdev \<Rightarrow> netdev" where
  "addr6_valid_expired dev =
     dev\<lparr>addr6_global_state := ADDR6_INVALID, addr6_global_valid := False, addr6_valid_timer := None\<rparr>"

text \<open>One of the two lifetime timers of \<open>ipv6_addrconf_update_lifetime\<close>: the old one is cancelled, the new
  one gets a copy of the device. The number of milliseconds is computed in 32 bits.\<close>

definition addr6_lifetime_timer ::
  "u32 \<Rightarrow> nat option \<Rightarrow> tm_handler \<Rightarrow> devid \<Rightarrow> ('x) ndpstate_scheme
   \<Rightarrow> nat option \<times> ('x) ndpstate_scheme" where
  "addr6_lifetime_timer lt old handler d s =
     (if lt > 0 \<and> lt \<noteq> 0xffffffff then
        (let s = s\<lparr>timers := timer_cancel old (timers s)\<rparr>;
             (i, tms) = timer_add_with_release (lt * 1000) handler (Some (Dev_arg (devs s d))) True (timers s)
         in (Some i, s\<lparr>timers := tms\<rparr>))
      else (old, s))"

definition addr6_global_for :: "in6_addr \<Rightarrow> bytes \<Rightarrow> in6_addr" where
  "addr6_global_for prefix hw = take 8 prefix @ drop 8 (ipv6_generate_linklocal hw)"

definition ipv6_addrconf_update_lifetime ::
  "in6_addr \<Rightarrow> u8 \<Rightarrow> u32 \<Rightarrow> u32 \<Rightarrow> devid \<Rightarrow> ('x) addrconfstate_scheme \<Rightarrow> ('x) addrconfstate_scheme" where
  "ipv6_addrconf_update_lifetime prefix prefix_len valid_lt preferred_lt d s =
     (if prefix_len \<noteq> 64 then s
      else
        (let global = addr6_global_for prefix (dev_hwaddr (devs s d));
             s = upd_dev d (\<lambda>dev. dev\<lparr>addr6_global := global, addr6_global_state := ADDR6_TENTATIVE,
                   addr6_global_valid := True\<rparr>) s;
             s = ipv6_dad_start global d s;
             s = upd_dev d (\<lambda>dev. dev\<lparr>addr6_valid_lifetime := valid_lt,
                   addr6_preferred_lifetime := preferred_lt\<rparr>) s;
             (i, s) = addr6_lifetime_timer preferred_lt (addr6_pref_timer (devs s d))
                        Addr6_preferred_expired d s;
             s = upd_dev d (\<lambda>dev. dev\<lparr>addr6_pref_timer := i\<rparr>) s;
             (i, s) = addr6_lifetime_timer valid_lt (addr6_valid_timer (devs s d))
                        Addr6_valid_expired d s
         in upd_dev d (\<lambda>dev. dev\<lparr>addr6_valid_timer := i\<rparr>) s))"

definition ipv6_addrconf_init :: "('x) addrconfstate_scheme \<Rightarrow> ('x) addrconfstate_scheme" where
  "ipv6_addrconf_init s =
     (let s = upd_dev Dev_tap (\<lambda>dev. dev\<lparr>addr6_ll := ipv6_generate_linklocal (dev_hwaddr dev),
                addr6_ll_state := ADDR6_TENTATIVE\<rparr>) s;
          s = route6_add (Some ([0xfe, 0x80] @ replicate 14 0)) None 10 RT_HOST 0 Dev_tap s;
          s = ipv6_dad_start (addr6_ll (devs s Dev_tap)) Dev_tap s;
          (ret, s) = ndp_send_rs (addr6_ll (devs s Dev_tap)) Dev_tap s
      in s)"

end
