(* ===== verification/Ndp_Input.thy ===== *)
theory Ndp_Input
  imports Addrconf
begin

text \<open>
  Received neighbour discovery messages (second half of \<open>src/ndp.c\<close>). A message is given by the
  offset of its ICMPv6 header in the buffer, the fixed header by value. Each handler returns the
  buffer, released, with the state.
\<close>

section \<open>Options\<close>

text \<open>The loop of \<open>ndp_na_process\<close> over the options at \<open>p\<close>: the last link-layer address seen.\<close>

function ndp_na_opts :: "bytes \<Rightarrow> int \<Rightarrow> bytes option \<Rightarrow> bytes option" where
  "ndp_na_opts p optlen tlla =
     (if optlen < 8 then tlla
      else
        (let tlla = (if p ! 0 = NDP_OPT_TLLA \<and> p ! 1 = 1 then Some (get_bytes 2 6 p) else tlla);
             skip = unat (p ! 1) * 8
         in if skip = 0 then tlla else ndp_na_opts (drop skip p) (optlen - int skip) tlla))"
  by pat_completeness auto
termination
  by (relation "measure (\<lambda>(p, optlen, tlla). nat optlen)") (auto simp: uint_pos_iff)

declare ndp_na_opts.simps [simp del]

text \<open>A prefix information option at the start of \<open>p\<close>.\<close>

definition ra_prefix_option ::
  "bytes \<Rightarrow> ('x) addrconfstate_scheme \<Rightarrow> ('x) addrconfstate_scheme" where
  "ra_prefix_option p s =
     (let pfx = dec_ndp_opt_prefix p;
          s = upd_dev Dev_tap (\<lambda>dev. dev\<lparr>dev_prefix_len := pfx_prefix_len pfx\<rparr>) s
      in ipv6_addrconf_update_lifetime (pfx_prefix pfx) (pfx_prefix_len pfx) (ntohl (pfx_valid_lifetime pfx))
           (ntohl (pfx_preferred_lifetime pfx)) Dev_tap s)"

function ndp_ra_opts :: "bytes \<Rightarrow> int \<Rightarrow> ('x) addrconfstate_scheme \<Rightarrow> ('x) addrconfstate_scheme" where
  "ndp_ra_opts p optlen s =
     (if optlen < 8 then s
      else
        (let skip = unat (p ! 1) * 8
         in if skip = 0 \<or> int skip > optlen then s
            else
              (let s = (if p ! 0 = NDP_OPT_PREFIX \<and> p ! 1 = 4 then ra_prefix_option p s else s)
               in ndp_ra_opts (drop skip p) (optlen - int skip) s)))"
  by pat_completeness auto
termination
  by (relation "measure (\<lambda>(p, optlen, s). nat optlen)") (auto simp: uint_pos_iff)

declare ndp_ra_opts.simps [simp del]

section \<open>Messages\<close>

definition ndp_ra_process ::
  "sk_buff \<Rightarrow> ipv6hdr \<Rightarrow> nat \<Rightarrow> ('x) addrconfstate_scheme \<Rightarrow> sk_buff \<times> ('x) addrconfstate_scheme" where
  "ndp_ra_process skb ip6h off s =
     (let gateway = i6_saddr ip6h;
          s = ndp_ra_opts (drop (off + 16) (skb_mem skb)) (int (unat (ntohs (i6_payload_len ip6h))) - 16) s;
          s = route6_add_default gateway RT_GATEWAY 0 Dev_tap s
      in (free_skb skb, s))"

text \<open>The update of an entry that was resolved before. The second comparison of the addresses follows the
  copy, as in the code.\<close>

definition ndp_na_refresh :: "u8 \<Rightarrow> bytes \<Rightarrow> u32 \<Rightarrow> ndp_entry \<Rightarrow> ndp_entry" where
  "ndp_na_refresh flags tlla now e =
     (let e = (if GET_NA_O flags \<or> ne_hwaddr e \<noteq> tlla then e\<lparr>ne_hwaddr := tlla\<rparr> else e);
          e = (if GET_NA_S flags then e\<lparr>ne_state := NDP_REACHABLE\<rparr>
               else if GET_NA_O flags \<or> ne_hwaddr e \<noteq> tlla then e\<lparr>ne_state := NDP_STALE\<rparr>
               else e)
      in e\<lparr>ne_state_timestamp := now\<rparr>)"

definition ndp_na_update ::
  "in6_addr \<Rightarrow> u8 \<Rightarrow> bytes \<Rightarrow> ('x) ndpstate_scheme \<Rightarrow> ('x) ndpstate_scheme" where
  "ndp_na_update target flags tlla s =
     (let now = word_of_int (timer_get_tick (timers s))
      in case ndp_lookup target s of
           None \<Rightarrow> s
         | Some i \<Rightarrow>
             if ne_state (ndp_cache s ! i) = NDP_INCOMPLETE then
               ndp_flush_queue i (ndp_upd i (\<lambda>e. e\<lparr>ne_hwaddr := tlla, ne_state := NDP_REACHABLE,
                 ne_state_timestamp := now, ne_solicit_count := 0\<rparr>) s)
             else ndp_upd i (ndp_na_refresh flags tlla now) s)"

definition ndp_na_process ::
  "sk_buff \<Rightarrow> ipv6hdr \<Rightarrow> nat \<Rightarrow> ('x) addrconfstate_scheme \<Rightarrow> sk_buff \<times> ('x) addrconfstate_scheme" where
  "ndp_na_process skb ip6h off s =
     (let na = skb_load dec_ndp_na (int off) skb;
          target = na_target na;
          flags = na_flags na
      in case ndp_na_opts (drop (off + 24) (skb_mem skb)) (int (unat (ntohs (i6_payload_len ip6h))) - 24) None of
           None \<Rightarrow> (free_skb skb, s)
         | Some tlla \<Rightarrow>
             (let s = ndp_na_update target flags tlla s;
                  s = (if ipv6_addr_is_unspecified (i6_saddr ip6h)
                       then ipv6_addrconf_dad_failed target s else s)
              in (free_skb skb, s)))"

definition ndp_is_ours :: "in6_addr \<Rightarrow> netdev \<Rightarrow> bool" where
  "ndp_is_ours target dev \<longleftrightarrow> ipv6_addr_equal target (addr6_ll dev) \<or>
     addr6_global_valid dev \<and> ipv6_addr_equal target (addr6_global dev)"

text \<open>The advertisement is built and sent like the solicitations (\<open>nd_send\<close>).\<close>

definition ndp_ns_process ::
  "sk_buff \<Rightarrow> ipv6hdr \<Rightarrow> nat \<Rightarrow> ('x) netstate_scheme \<Rightarrow> sk_buff \<times> ('x) netstate_scheme" where
  "ndp_ns_process skb ip6h off s =
     (let saddr = i6_saddr ip6h;
          target = ns_target (skb_load dec_ndp_ns (int off) skb);
          dev = devs s Dev_tap
      in if \<not> ndp_is_ours target dev then (free_skb skb, s)
         else
           (let flags = SET_NA_O (SET_NA_S (CLR_NA_R 0));
                msg = enc_ndp_na \<lparr>na_type = ICMPV6_NEIGHBOR_ADVERT, na_code = 0, na_csum = 0, na_flags = flags, na_reserved = [0, 0, 0],
                    na_target = target\<rparr> @ [NDP_OPT_TLLA, 1] @ take 6 (dev_hwaddr dev);
                reply_daddr = (if ipv6_addr_is_unspecified saddr
                               then [0xff, 0x02, 0, 0, 0, 0, 0, 0, 0, 0, 0, 0, 0, 0, 0, 0x01] else saddr);
                dst_mac = (if ipv6_addr_is_multicast reply_daddr then ipv6_multicast_mac reply_daddr
                           else get_bytes 6 6 (skb_mem skb));
                (rc, s) = nd_send msg target reply_daddr dst_mac Dev_tap s
            in (free_skb skb, s)))"

definition ndp_incoming ::
  "sk_buff \<Rightarrow> ipv6hdr \<Rightarrow> nat \<Rightarrow> ('x) addrconfstate_scheme \<Rightarrow> sk_buff \<times> ('x) addrconfstate_scheme" where
  "ndp_incoming skb ip6h off s =
     (let ty = skb_mem skb ! off
      in if i6_hop_limit ip6h \<noteq> 255 then (free_skb skb, s)
         else if ty = ICMPV6_ROUTER_SOLICIT then (free_skb skb, s)
         else if ty = ICMPV6_ROUTER_ADVERT then ndp_ra_process skb ip6h off s
         else if ty = ICMPV6_NEIGHBOR_SOLICIT then ndp_ns_process skb ip6h off s
         else if ty = ICMPV6_NEIGHBOR_ADVERT then ndp_na_process skb ip6h off s
         else (free_skb skb, s))"

end
