(* ===== verification/Tcp_Types.thy ===== *)
theory Tcp_Types
  imports Ndp_Input
begin

text \<open>
  The data of TCP (\<open>include/tcp.h\<close>, \<open>include/sock.h\<close>, \<open>include/socket.h\<close>): the header and its
  layout, the transmission control block, the socket, and the state of the whole stack above IP.

  A socket is a number. \<open>socks\<close> gives its \<open>struct socket\<close>; \<open>so_family\<close> and \<open>so_dgram\<close> say which of the
  four operation tables of \<open>src/inet.c\<close> and \<open>src/inet6.c\<close> it has. Behind it is the \<open>struct tcp_sock\<close>
  of \<open>tsks\<close> or, for a datagram socket, the \<open>struct udp_sock\<close> of \<open>usks\<close>. \<open>sockets\<close> is the global list and
  \<open>freed_socks\<close> records the \<open>struct socket\<close>s that were given to \<open>free\<close>. \<open>wakes\<close> records which wait queues were signalled. The values of
  \<open>generate_iss\<close> come from \<open>iss_src\<close>, by call.
\<close>

datatype tcp_states =
    TCP_LISTEN | TCP_SYN_SENT | TCP_SYN_RECEIVED | TCP_ESTABLISHED | TCP_FIN_WAIT_1 | TCP_FIN_WAIT_2
  | TCP_CLOSE | TCP_CLOSE_WAIT | TCP_CLOSING | TCP_LAST_ACK | TCP_TIME_WAIT

datatype socket_state = SS_FREE | SS_UNCONNECTED | SS_CONNECTING | SS_CONNECTED | SS_DISCONNECTING

section \<open>The header\<close>

record tcphdr =
  th_sport :: u16
  th_dport :: u16
  th_seq :: u32
  th_ack_seq :: u32
  th_rsvd :: "4 word"
  th_hl :: "4 word"
  th_fin :: bool
  th_syn :: bool
  th_rst :: bool
  th_psh :: bool
  th_ack :: bool
  th_urg :: bool
  th_ece :: bool
  th_cwr :: bool
  th_win :: u16
  th_csum :: u16
  th_urp :: u16

text \<open>Bit-fields are allocated from the least significant bit.\<close>

definition flag_byte :: "bool list \<Rightarrow> u8" where
  "flag_byte bs = horner_sum of_bool 2 bs"

definition enc_tcphdr :: "tcphdr \<Rightarrow> bytes" where
  "enc_tcphdr h = le16 (th_sport h) @ le16 (th_dport h) @ le32 (th_seq h) @ le32 (th_ack_seq h) @
     [nibs (th_rsvd h) (th_hl h),
      flag_byte [th_fin h, th_syn h, th_rst h, th_psh h, th_ack h, th_urg h, th_ece h, th_cwr h]] @
     le16 (th_win h) @ le16 (th_csum h) @ le16 (th_urp h)"

definition dec_tcphdr :: "bytes \<Rightarrow> tcphdr" where
  "dec_tcphdr b =
     \<lparr>th_sport = get16 b 0, th_dport = get16 b 2, th_seq = get32 b 4, th_ack_seq = get32 b 8,
      th_rsvd = ucast (b ! 12), th_hl = ucast (drop_bit 4 (b ! 12)),
      th_fin = bit (b ! 13) 0, th_syn = bit (b ! 13) 1, th_rst = bit (b ! 13) 2,
      th_psh = bit (b ! 13) 3, th_ack = bit (b ! 13) 4, th_urg = bit (b ! 13) 5,
      th_ece = bit (b ! 13) 6, th_cwr = bit (b ! 13) 7,
      th_win = get16 b 14, th_csum = get16 b 16, th_urp = get16 b 18\<rparr>"

lemma bit_flag_byte: "length bs = 8 \<Longrightarrow> bit (flag_byte bs) n \<longleftrightarrow> n < 8 \<and> bs ! n"
  by (simp add: flag_byte_def bit_horner_sum_bit_word_iff)

lemma length_enc_tcphdr [simp]: "length (enc_tcphdr h) = 20"
  by (simp add: enc_tcphdr_def)

lemma dec_enc_tcphdr: "dec_tcphdr (enc_tcphdr h @ rest) = h"
  by (simp add: enc_tcphdr_def dec_tcphdr_def get16_def get32_def le16_def le32_def bit_flag_byte)

interpretation tcph: packed_struct enc_tcphdr dec_tcphdr 20 "\<lambda>_. True"
  by unfold_locales (simp_all add: dec_enc_tcphdr)

section \<open>Control block and socket\<close>

record tcb =
  snd_una :: u32
  snd_nxt :: u32
  snd_wnd :: u32
  snd_up :: u32
  snd_wl1 :: u32
  snd_wl2 :: u32
  iss :: u32
  rcv_nxt :: u32
  rcv_wnd :: u32
  real_rcv_wnd :: u32
  rcv_up :: u32
  irs :: u32

record 'st sock =
  sk_protocol :: int
  sk_state :: 'st
  sk_err :: int
  sk_poll_events :: u16
  sk_sport :: u16
  sk_dport :: u16
  sk_addr_family :: u8
  sk_saddr :: bytes
  sk_daddr :: bytes
  sk_receive_queue :: sk_buff_head
  sk_write_queue :: sk_buff_head

record tcp_sock = "tcp_states sock" +
  ptsk :: "nat option"
  tcp_header_len :: u16
  tcb_of :: tcb
  tsk_flags :: u8
  backoff :: u8
  srtt :: int
  rttvar :: int
  rto :: u32
  rto_epoch :: u64
  retransmit :: "nat option"
  delack :: "nat option"
  keepalive :: "nat option"
  linger :: "nat option"
  delacks :: u8
  rmss :: u16
  smss :: u16
  cwnd :: u32
  ssthresh :: u32
  inflight :: u32
  bytes_acked :: u32
  dupacks :: u8
  in_recovery :: bool
  last_ack_win :: u16
  sackok :: bool
  sacks_allowed :: u8
  sacklen :: u8
  sacks :: "(u32 \<times> u32) list"
  sack_max_right :: u32
  snd_scale :: u8
  wso_allowed :: bool
  rcv_scale :: u8
  tsopt :: u8
  ofo_queue :: sk_buff_head
  conn_queue :: "nat list"
  max_conn :: u32

record socket =
  so_fd :: int
  so_pid :: int
  so_refcnt :: int
  so_state :: socket_state
  so_type :: int
  so_flags :: u32
  so_family :: u8
  so_dgram :: bool

datatype waitq = Wait_sleep | Wait_recv | Wait_write | Wait_accept

record tcpstate = addrconfstate +
  tsks :: "nat \<Rightarrow> tcp_sock"
  usks :: "nat \<Rightarrow> socket_state sock"
  socks :: "nat \<Rightarrow> socket"
  sockets :: "nat list"
  freed_socks :: "nat list"
  next_sock :: nat
  next_fd :: int
  next_port :: int
  iss_src :: "nat \<Rightarrow> u32"
  iss_cnt :: nat
  wakes :: "(nat \<times> waitq) list"

abbreviation (input) TCP_FIN :: u8 where "TCP_FIN \<equiv> 0x01"
abbreviation (input) TCP_PSH :: u8 where "TCP_PSH \<equiv> 0x08"
abbreviation (input) TCP_HDR_LEN :: nat where "TCP_HDR_LEN \<equiv> 20"
abbreviation (input) TCP_DOFFSET :: nat where "TCP_DOFFSET \<equiv> 5"
abbreviation (input) TCP_SYN_BACKOFF :: u32 where "TCP_SYN_BACKOFF \<equiv> 500"
abbreviation (input) TCP_CONN_RETRIES :: u8 where "TCP_CONN_RETRIES \<equiv> 3"
abbreviation (input) TCP_2MSL :: u32 where "TCP_2MSL \<equiv> 60000"
abbreviation (input) TCP_USER_TIMEOUT :: u32 where "TCP_USER_TIMEOUT \<equiv> 180000"

abbreviation (input) O_RDWR :: u32 where "O_RDWR \<equiv> 0x002"
abbreviation (input) O_NONBLOCK :: u32 where "O_NONBLOCK \<equiv> 0x800"

abbreviation (input) POLLIN :: u16 where "POLLIN \<equiv> 0x001"
abbreviation (input) POLLPRI :: u16 where "POLLPRI \<equiv> 0x002"
abbreviation (input) POLLOUT :: u16 where "POLLOUT \<equiv> 0x004"
abbreviation (input) POLLERR :: u16 where "POLLERR \<equiv> 0x008"
abbreviation (input) POLLHUP :: u16 where "POLLHUP \<equiv> 0x010"
abbreviation (input) POLLRDNORM :: u16 where "POLLRDNORM \<equiv> 0x040"
abbreviation (input) POLLRDBAND :: u16 where "POLLRDBAND \<equiv> 0x080"
abbreviation (input) POLLWRNORM :: u16 where "POLLWRNORM \<equiv> 0x100"
abbreviation (input) POLLWRBAND :: u16 where "POLLWRBAND \<equiv> 0x200"

section \<open>Access through a socket pointer\<close>

definition upd_tsk :: "nat \<Rightarrow> (tcp_sock \<Rightarrow> tcp_sock) \<Rightarrow> tcpstate \<Rightarrow> tcpstate" where
  "upd_tsk k f s = s\<lparr>tsks := (tsks s)(k := f (tsks s k))\<rparr>"

definition upd_tcb :: "nat \<Rightarrow> (tcb \<Rightarrow> tcb) \<Rightarrow> tcpstate \<Rightarrow> tcpstate" where
  "upd_tcb k f s = upd_tsk k (\<lambda>t. t\<lparr>tcb_of := f (tcb_of t)\<rparr>) s"

definition upd_sock :: "nat \<Rightarrow> (socket \<Rightarrow> socket) \<Rightarrow> tcpstate \<Rightarrow> tcpstate" where
  "upd_sock k f s = s\<lparr>socks := (socks s)(k := f (socks s k))\<rparr>"

definition upd_timers :: "(sys_timers \<Rightarrow> sys_timers) \<Rightarrow> tcpstate \<Rightarrow> tcpstate" where
  "upd_timers f s = s\<lparr>timers := f (timers s)\<rparr>"

definition wait_wakeup :: "nat \<Rightarrow> waitq \<Rightarrow> tcpstate \<Rightarrow> tcpstate" where
  "wait_wakeup k w s = s\<lparr>wakes := wakes s @ [(k, w)]\<rparr>"

lemmas tcp_upd_defs = upd_tsk_def upd_tcb_def upd_sock_def upd_timers_def wait_wakeup_def

lemma upd_tsk_same [simp]: "tsks (upd_tsk k f s) k = f (tsks s k)"
  and upd_tsk_other [simp]: "j \<noteq> k \<Longrightarrow> tsks (upd_tsk k f s) j = tsks s j"
  by (simp_all add: upd_tsk_def)

text \<open>Where the TCP header of an outgoing buffer is, from \<open>head\<close>.\<close>

definition tcp_hdr_for_sk :: "tcp_sock \<Rightarrow> nat" where
  "tcp_hdr_for_sk sk = ETH_HDR_LEN + (if sk_addr_family sk = AF_INET6 then IPV6_HDR_LEN else IP_HDR_LEN)"

end
