(* ===== verification/Tcp_Timers.thy ===== *)
theory Tcp_Timers
  imports Tcp_Types
begin

text \<open>
  The parts of \<open>src/tcp.c\<close> that manage a socket's timers and its end (and \<open>socket_delete\<close> of
  \<open>src/socket.c\<close>), the round-trip estimator, the selection of SACK blocks, and the
  RTO rearming of \<open>src/tcp_output.c\<close>. Allocation never fails.
\<close>

definition tcp_set_state :: "nat \<Rightarrow> tcp_states \<Rightarrow> tcpstate \<Rightarrow> tcpstate" where
  "tcp_set_state k st s = upd_tsk k (\<lambda>t. t\<lparr>sk_state := st\<rparr>) s"

section \<open>Timers of a socket\<close>

definition tcp_stop_rto_timer :: "nat \<Rightarrow> tcpstate \<Rightarrow> tcpstate" where
  "tcp_stop_rto_timer k s =
     (let s = upd_timers (timer_cancel (retransmit (tsks s k))) s
      in upd_tsk k (\<lambda>t. t\<lparr>retransmit := None, backoff := 0, rto_epoch := rto_epoch t + 1\<rparr>) s)"

definition tcp_release_rto_timer :: "nat \<Rightarrow> tcpstate \<Rightarrow> tcpstate" where
  "tcp_release_rto_timer k s =
     (let s = upd_timers (timer_release (retransmit (tsks s k))) s
      in upd_tsk k (\<lambda>t. t\<lparr>retransmit := None\<rparr>) s)"

definition tcp_stop_delack_timer :: "nat \<Rightarrow> tcpstate \<Rightarrow> tcpstate" where
  "tcp_stop_delack_timer k s =
     (let s = upd_timers (timer_cancel (delack (tsks s k))) s
      in upd_tsk k (\<lambda>t. t\<lparr>delack := None\<rparr>) s)"

definition tcp_release_delack_timer :: "nat \<Rightarrow> tcpstate \<Rightarrow> tcpstate" where
  "tcp_release_delack_timer k s =
     (let s = upd_timers (timer_release (delack (tsks s k))) s
      in upd_tsk k (\<lambda>t. t\<lparr>delack := None\<rparr>) s)"

definition tcp_cancel_linger :: "nat \<Rightarrow> tcpstate \<Rightarrow> tcpstate" where
  "tcp_cancel_linger k s =
     (let s = upd_timers (timer_cancel (linger (tsks s k))) s
      in upd_tsk k (\<lambda>t. t\<lparr>linger := None\<rparr>) s)"

definition tcp_clear_timers :: "nat \<Rightarrow> tcpstate \<Rightarrow> tcpstate" where
  "tcp_clear_timers k s =
     (let s = tcp_stop_rto_timer k s;
          s = tcp_stop_delack_timer k s;
          s = upd_timers (timer_cancel (keepalive (tsks s k))) s;
          s = upd_tsk k (\<lambda>t. t\<lparr>keepalive := None\<rparr>) s
      in tcp_cancel_linger k s)"

definition tcp_rearm_rto_timer :: "nat \<Rightarrow> tcpstate \<Rightarrow> tcpstate" where
  "tcp_rearm_rto_timer k s =
     (let s = tcp_release_rto_timer k s;
          s = upd_tsk k (\<lambda>t. t\<lparr>rto_epoch := rto_epoch t + 1\<rparr>) s;
          t = tsks s k;
          arg = Rto_arg k (rto_epoch t);
          (i, tms) = (if sk_state t = TCP_SYN_SENT
                      then timer_add_with_release (push_bit (unat (backoff t)) TCP_SYN_BACKOFF)
                             Tcp_connect_rto (Some arg) True (timers s)
                      else timer_add_with_release (rto t) Tcp_retransmission_timeout (Some arg) True
                             (timers s))
      in upd_tsk k (\<lambda>t. t\<lparr>retransmit := Some i\<rparr>) (s\<lparr>timers := tms\<rparr>))"

definition tcp_add_linger :: "u32 \<Rightarrow> tm_handler \<Rightarrow> nat \<Rightarrow> tcpstate \<Rightarrow> tcpstate" where
  "tcp_add_linger expire handler k s =
     (let (i, tms) = timer_add expire handler (Some (Sk_arg k)) (timers s)
      in upd_tsk k (\<lambda>t. t\<lparr>linger := Some i\<rparr>) (s\<lparr>timers := tms\<rparr>))"

definition tcp_enter_time_wait :: "nat \<Rightarrow> tcpstate \<Rightarrow> tcpstate" where
  "tcp_enter_time_wait k s =
     (let s = tcp_set_state k TCP_TIME_WAIT s;
          s = tcp_clear_timers k s
      in tcp_add_linger TCP_2MSL Tcp_linger k s)"

definition tcp_rearm_user_timeout :: "nat \<Rightarrow> tcpstate \<Rightarrow> tcpstate" where
  "tcp_rearm_user_timeout k s =
     (if sk_state (tsks s k) = TCP_TIME_WAIT then s
      else
        (let s = upd_timers (timer_cancel (linger (tsks s k))) s
         in tcp_add_linger TCP_USER_TIMEOUT Tcp_user_timeout k s))"

definition tcp_handle_fin_state :: "nat \<Rightarrow> tcpstate \<Rightarrow> tcpstate" where
  "tcp_handle_fin_state k s =
     (case sk_state (tsks s k) of
        TCP_CLOSE_WAIT \<Rightarrow> tcp_set_state k TCP_LAST_ACK s
      | TCP_ESTABLISHED \<Rightarrow> tcp_set_state k TCP_FIN_WAIT_1 s
      | _ \<Rightarrow> s)"

section \<open>The end of a socket\<close>

definition tcp_clear_queues :: "nat \<Rightarrow> tcpstate \<Rightarrow> tcpstate" where
  "tcp_clear_queues k s = upd_tsk k (\<lambda>t. t\<lparr>ofo_queue := fst (skb_queue_free (ofo_queue t))\<rparr>) s"

definition tcp_free :: "nat \<Rightarrow> tcpstate \<Rightarrow> tcpstate" where
  "tcp_free k s =
     (let s = tcp_clear_timers k s;
          s = tcp_clear_queues k s
      in wait_wakeup k Wait_sleep s)"

definition socket_delete :: "nat \<Rightarrow> tcpstate \<Rightarrow> int \<times> tcpstate" where
  "socket_delete k s =
     (if so_state (socks s k) = SS_DISCONNECTING then (0, s)
      else
        (let s = upd_sock k (\<lambda>so. so\<lparr>so_state := SS_DISCONNECTING\<rparr>) s
         in (0, upd_timers (timer_oneshot 10000 Socket_garbage_collect (Some (Sk_arg k))) s)))"

definition tcp_done :: "nat \<Rightarrow> tcpstate \<Rightarrow> int \<times> tcpstate" where
  "tcp_done k s =
     (let s = tcp_set_state k TCP_CLOSING s;
          s = tcp_free k s
      in socket_delete k s)"

section \<open>Round-trip time\<close>

text \<open>Conversion of a quotient to \<open>int\<close> truncates towards zero. The products with 0.25 and 0.125 are exact
  in a double for 32-bit operands, so the assignments truncate the exact quotients.\<close>

definition trunc_div :: "int \<Rightarrow> int \<Rightarrow> int" where
  "trunc_div a b = (if a \<ge> 0 then a div b else - ((- a) div b))"

definition timer_expires :: "nat \<Rightarrow> sys_timers \<Rightarrow> u32 option" where
  "timer_expires i tms = map_option tm_expires (find (\<lambda>t. tm_id t = i) (tm_list tms))"

text \<open>The estimator on a measurement \<open>r\<close>.\<close>

definition tcp_rtt_update :: "int \<Rightarrow> tcp_sock \<Rightarrow> tcp_sock" where
  "tcp_rtt_update r t =
     (let t = (if srtt t = 0 then t\<lparr>srtt := r, rttvar := trunc_div r 2\<rparr>
               else t\<lparr>rttvar := trunc_div (3 * rttvar t + \<bar>srtt t - r\<bar>) 4,
                      srtt := trunc_div (7 * srtt t + r) 8\<rparr>);
          k = 4 * rttvar t;
          k = (if k < 200 then 200 else k)
      in t\<lparr>rto := word_of_int (srtt t + k)\<rparr>)"

definition tcp_rtt :: "nat \<Rightarrow> tcpstate \<Rightarrow> tcpstate" where
  "tcp_rtt k s =
     (let t = tsks s k
      in if backoff t > 0 then s
         else case retransmit t of
                None \<Rightarrow> s
              | Some i \<Rightarrow>
                  (case timer_expires i (timers s) of
                     None \<Rightarrow> s
                   | Some expires \<Rightarrow>
                       (let r = sint (word_of_int (timer_get_tick (timers s)) - (expires - rto t) :: u32)
                        in if r < 0 then s else upd_tsk k (tcp_rtt_update r) s)))"

section \<open>SACK blocks to send\<close>

text \<open>The state of the loop: the socket and the index of the block \<open>sb\<close> points to.\<close>

fun tcp_sacks_loop ::
  "u32 \<Rightarrow> u32 \<Rightarrow> sk_buff list \<Rightarrow> nat \<Rightarrow> tcp_sock \<Rightarrow> tcp_sock" where
  "tcp_sacks_loop tseq tend [] j t = t"
| "tcp_sacks_loop tseq tend (nb # q) j t =
     (if skb_seq nb \<ge> tseq \<and> skb_end_seq nb \<le> tend then tcp_sacks_loop tseq tend q j t
      else if sacklen t \<ge> sacks_allowed t then t
      else if fst (sacks t ! j) = 0 then
        tcp_sacks_loop tseq tend q j
          (t\<lparr>sacks := (sacks t)[j := (skb_seq nb, skb_end_seq nb)], sacklen := sacklen t + 1\<rparr>)
      else if snd (sacks t ! j) = skb_seq nb then
        tcp_sacks_loop tseq tend q j
          (t\<lparr>sacks := (sacks t)[j := (fst (sacks t ! j), skb_end_seq nb)]\<rparr>)
      else if sacklen t \<ge> sacks_allowed t then t
      else
        (let j = unat (sacklen t)
         in tcp_sacks_loop tseq tend q j
              (t\<lparr>sacks := (sacks t)[j := (skb_seq nb, skb_end_seq nb)], sacklen := sacklen t + 1\<rparr>)))"

definition tcp_calculate_sacks :: "u32 \<Rightarrow> u32 \<Rightarrow> tcp_sock \<Rightarrow> tcp_sock" where
  "tcp_calculate_sacks trigger_seq trigger_end_seq t =
     tcp_sacks_loop trigger_seq trigger_end_seq (skb_list (ofo_queue t)) 1
       (t\<lparr>sacks := [(trigger_seq, trigger_end_seq), (0, 0), (0, 0), (0, 0)], sacklen := 1\<rparr>)"

end
