(* ===== verification/Tcp_Output.thy ===== *)
theory Tcp_Output
  imports Tcp_Timers
begin

text \<open>
  TCP output (\<open>src/tcp_output.c\<close>) and the TCP part of the transport checksum (\<open>src/tcp.c\<close>).

  A thread that has to wait for the send window releases the socket and sleeps. The model takes the
  changes other threads make while it sleeps as a list of state transformers, one per wake-up;
  a call that is still asleep when the list ends has the result \<open>None\<close>. A buffer that is in
  the write queue is updated there.
\<close>

type_synonym sched = "(tcpstate \<Rightarrow> tcpstate) list"

section \<open>Segments\<close>

definition tcp_v4_tcp_partion_checksum :: "sk_buff \<Rightarrow> u32" where
  "tcp_v4_tcp_partion_checksum skb =
     (let len = skb_len skb;
          pseudo = [0, IP_TCP, ucast (drop_bit 8 len), ucast (len AND 0xFF)]
      in 0 + sum_every_16bits pseudo + sum_every_16bits (skb_bytes skb))"

definition tcp_v6_tcp_partion_checksum :: "sk_buff \<Rightarrow> u32" where
  "tcp_v6_tcp_partion_checksum skb =
     (let len = skb_len skb;
          pseudo = [ucast (drop_bit 24 len), ucast (drop_bit 16 len), ucast (drop_bit 8 len),
                    ucast (len AND 0xFF), 0, 0, 0, IP_TCP]
      in 0 + sum_every_16bits pseudo + sum_every_16bits (skb_bytes skb))"

definition tcp_alloc_skb :: "u8 \<Rightarrow> nat \<Rightarrow> nat \<Rightarrow> sk_buff" where
  "tcp_alloc_skb family optlen sz =
     (let ip_hlen = (if family = AF_INET6 then IPV6_HDR_LEN else IP_HDR_LEN);
          reserved = ETH_HDR_LEN + ip_hlen + TCP_HDR_LEN + optlen + sz
      in (skb_reserve (alloc_skb reserved) reserved)\<lparr>skb_protocol := ucast IP_TCP,
           skb_dlen := of_nat sz, skb_seq := 0\<rparr>)"

text \<open>Header flags and length of a buffer that is being built.\<close>

definition tcp_set_hdr :: "tcp_sock \<Rightarrow> (tcphdr \<Rightarrow> tcphdr) \<Rightarrow> sk_buff \<Rightarrow> sk_buff" where
  "tcp_set_hdr t f skb =
     (let off = int (tcp_hdr_for_sk t)
      in skb_store enc_tcphdr off (f (skb_load dec_tcphdr off skb)) skb)"

record tcp_options =
  opt_mss :: u16
  opt_sack :: bool

definition tcp_syn_options :: "tcp_sock \<Rightarrow> nat \<times> tcp_options" where
  "tcp_syn_options t =
     (if sackok t then (4 + 1 * 2 + 2, \<lparr>opt_mss = rmss t, opt_sack = True\<rparr>)
      else (4, \<lparr>opt_mss = rmss t, opt_sack = False\<rparr>))"

definition tcp_write_syn_options :: "tcp_sock \<Rightarrow> tcp_options \<Rightarrow> nat \<Rightarrow> sk_buff \<Rightarrow> sk_buff" where
  "tcp_write_syn_options t opts optlen skb =
     (let off = int (tcp_hdr_for_sk t) + 20;
          skb = skb_put off ([2, 4] @ le16 (htons (opt_mss opts))) skb;
          skb = (if opt_sack opts then skb_put (off + 4) [1, 1, 4, 2] skb else skb)
      in tcp_set_hdr t (\<lambda>th. th\<lparr>th_hl := of_nat (TCP_DOFFSET + optlen div 4)\<rparr>) skb)"

text \<open>\<open>tcp_write_options\<close>: the option bytes it writes behind the header, and the socket with the sent
  SACK blocks forgotten.\<close>

definition tcp_write_options :: "tcp_sock \<Rightarrow> bytes \<times> tcp_sock" where
  "tcp_write_options t =
     (let wso = (if wso_allowed t then [1, 3, 3, rcv_scale t] else [])
      in if sackok t \<and> sacklen t > 0 \<and> fst (sacks t ! 0) \<noteq> 0
         then (wso @ [1, 1, 5, 2 + sacklen t * 8] @
                 concat (map (\<lambda>i. le32 (htonl (fst (sacks t ! i))) @ le32 (htonl (snd (sacks t ! i))))
                   [0..<unat (sacklen t)]),
               t\<lparr>sacks := replicate 4 (0, 0), sacklen := 0\<rparr>)
         else (wso, t))"

text \<open>\<open>tcp_options_len\<close>, with its 8-bit counter and the padding loop.\<close>

fun tcp_pad_optlen :: "nat \<Rightarrow> u8 \<Rightarrow> u8" where
  "tcp_pad_optlen 0 n = n"
| "tcp_pad_optlen (Suc fuel) n = (if unat n mod 4 > 0 then tcp_pad_optlen fuel (n + 1) else n)"

definition tcp_options_len :: "tcp_sock \<Rightarrow> nat" where
  "tcp_options_len t =
     (let n = (0 :: u8);
          n = (if wso_allowed t then n + 1 + 3 else n);
          n = (if sackok t \<and> sacklen t > 0 \<and> fst (sacks t ! 0) \<noteq> 0 then n + 2 + 2 + sacklen t * 8 else n)
      in unat (tcp_pad_optlen 3 n))"

section \<open>Transmission\<close>

text \<open>The header fields \<open>tcp_transmit_skb\<close> sets, in host order and then converted. The window is
  narrowed to 16 bits before it is scaled.\<close>

definition tcp_fill_hdr :: "tcp_sock \<Rightarrow> u32 \<Rightarrow> tcphdr \<Rightarrow> tcphdr" where
  "tcp_fill_hdr t seq th =
     (let th = th\<lparr>th_sport := sk_sport t, th_dport := sk_dport t, th_seq := seq,
            th_ack_seq := rcv_nxt (tcb_of t), th_rsvd := 0, th_win := ucast (real_rcv_wnd (tcb_of t))\<rparr>;
          th = (if \<not> th_syn th then th\<lparr>th_win := drop_bit (unat (rcv_scale t)) (th_win th)\<rparr> else th)
      in th\<lparr>th_csum := 0, th_urp := 0\<rparr>)"

definition tcp_hton_hdr :: "tcphdr \<Rightarrow> tcphdr" where
  "tcp_hton_hdr th =
     th\<lparr>th_sport := htons (th_sport th), th_dport := htons (th_dport th), th_seq := htonl (th_seq th),
       th_ack_seq := htonl (th_ack_seq th), th_win := htons (th_win th), th_urp := htons (th_urp th)\<rparr>"

definition tcp_transmit_skb :: "nat \<Rightarrow> sk_buff \<Rightarrow> u32 \<Rightarrow> tcpstate \<Rightarrow> int \<times> sk_buff \<times> tcpstate" where
  "tcp_transmit_skb k skb seq s =
     (let t = tsks s k;
          off = int (tcp_hdr_for_sk t);
          th = skb_load dec_tcphdr off skb;
          th = (if th_hl th = 0 then th\<lparr>th_hl := of_nat TCP_DOFFSET\<rparr> else th);
          skb = skb_push skb (unat (th_hl th) * 4);
          th = tcp_fill_hdr t seq th;
          (opts, t') = (if th_hl th > 5 then tcp_write_options t else ([], t));
          skb = skb_put (off + 20) opts skb;
          s = upd_tsk k (\<lambda>_. t') s;
          skb = skb_store enc_tcphdr off (tcp_hton_hdr th) skb
      in if sk_addr_family t = AF_INET6 then
           (let skb = skb\<lparr>skb_tcpcsum := tcp_v6_tcp_partion_checksum skb\<rparr>;
                (rc, skb, saddr, s) = ipv6_output skb NEXTHDR_TCP (Some (sk_saddr t)) (sk_daddr t) s;
                s = upd_tsk k (\<lambda>t. t\<lparr>sk_saddr := (case saddr of None \<Rightarrow> sk_saddr t | Some a \<Rightarrow> a)\<rparr>) s
            in (rc, skb, s))
         else
           (let skb = skb\<lparr>skb_tcpcsum := tcp_v4_tcp_partion_checksum skb\<rparr>
            in ip_output (un_v4 (sk_daddr t)) skb s))"

text \<open>Transmitting the buffer at position \<open>i\<close> of the write queue.\<close>

definition tcp_transmit_queued :: "nat \<Rightarrow> nat \<Rightarrow> u32 \<Rightarrow> tcpstate \<Rightarrow> int \<times> tcpstate" where
  "tcp_transmit_queued k i seq s =
     (let (rc, skb, s) = tcp_transmit_skb k (skb_list (sk_write_queue (tsks s k)) ! i) seq s
      in (rc, upd_tsk k (\<lambda>t. t\<lparr>sk_write_queue := skb_queue_upd i (\<lambda>_. skb) (sk_write_queue t)\<rparr>) s))"

fun tcp_wait_snd_wnd :: "nat \<Rightarrow> u32 \<Rightarrow> sched \<Rightarrow> tcpstate \<Rightarrow> (sched \<times> tcpstate) option" where
  "tcp_wait_snd_wnd k n env s =
     (if inflight (tsks s k) + n > umin (cwnd (tsks s k)) (snd_wnd (tcb_of (tsks s k)))
      then case env of [] \<Rightarrow> None | e # env' \<Rightarrow> tcp_wait_snd_wnd k n env' (e s)
      else Some (env, s))"

declare tcp_wait_snd_wnd.simps [simp del]

text \<open>Assigning sequence numbers and queueing, once the window is open.\<close>

definition tcp_enqueue_skb :: "nat \<Rightarrow> sk_buff \<Rightarrow> tcpstate \<Rightarrow> tcpstate" where
  "tcp_enqueue_skb k skb s =
     (let t = tsks s k;
          fin = th_fin (skb_load dec_tcphdr (int (tcp_hdr_for_sk t)) skb);
          nx = snd_nxt (tcb_of t);
          skb = skb\<lparr>skb_seq := nx, skb_end_seq := nx + skb_dlen skb\<rparr>;
          s = upd_tcb k (\<lambda>b. b\<lparr>snd_nxt := nx + skb_dlen skb + (if fin then 1 else 0)\<rparr>) s
      in upd_tsk k (\<lambda>t. t\<lparr>inflight := inflight t + skb_dlen skb,
           sk_write_queue := skb_queue_tail (sk_write_queue t) skb\<rparr>) s)"

definition tcp_queue_transmit_skb ::
  "nat \<Rightarrow> sk_buff \<Rightarrow> sched \<Rightarrow> tcpstate \<Rightarrow> (int \<times> sched \<times> tcpstate) option" where
  "tcp_queue_transmit_skb k skb env s =
     (case tcp_wait_snd_wnd k (skb_dlen skb) env s of
        None \<Rightarrow> None
      | Some (env, s) \<Rightarrow>
          (let was_empty = skb_queue_empty (sk_write_queue (tsks s k));
               s = tcp_enqueue_skb k skb s;
               s = (if was_empty then tcp_rearm_rto_timer k s else s);
               i = length (skb_list (sk_write_queue (tsks s k))) - 1;
               (rc, s) = tcp_transmit_queued k i
                 (skb_seq (skb_list (sk_write_queue (tsks s k)) ! i)) s
           in Some (rc, env, s)))"

section \<open>Control segments\<close>

definition tcp_send_synack :: "nat \<Rightarrow> sched \<Rightarrow> tcpstate \<Rightarrow> (int \<times> sched \<times> tcpstate) option" where
  "tcp_send_synack k env s =
     (let t = tsks s k
      in if sk_state t \<noteq> TCP_SYN_SENT \<and> sk_state t \<noteq> TCP_SYN_RECEIVED then Some (1, env, s)
         else
           (let skb = tcp_alloc_skb (sk_addr_family t) 4 0;
                skb = tcp_set_hdr t (\<lambda>th. th\<lparr>th_syn := True, th_ack := True, th_hl := 6\<rparr>) skb
            in case tcp_queue_transmit_skb k skb env s of
                 None \<Rightarrow> None
               | Some (rc, env, s) \<Rightarrow> Some (rc, env, upd_tcb k (\<lambda>b. b\<lparr>snd_nxt := snd_nxt b + 1\<rparr>) s)))"

definition tcp_send_ack :: "nat \<Rightarrow> tcpstate \<Rightarrow> int \<times> tcpstate" where
  "tcp_send_ack k s =
     (let t = tsks s k
      in if sk_state t = TCP_CLOSE then (0, s)
         else
           (let optlen = tcp_options_len t;
                skb = tcp_alloc_skb (sk_addr_family t) optlen 0;
                skb = tcp_set_hdr t (\<lambda>th. th\<lparr>th_ack := True, th_hl := of_nat (TCP_DOFFSET + optlen div 4)\<rparr>) skb;
                (rc, skb, s) = tcp_transmit_skb k skb (snd_nxt (tcb_of t)) s
            in (rc, s)))"

definition tcp_send_delack :: "nat \<Rightarrow> tcpstate \<Rightarrow> tcpstate" where
  "tcp_send_delack k s =
     (let s = upd_tsk k (\<lambda>t. t\<lparr>delacks := 0\<rparr>) s;
          s = tcp_release_delack_timer k s
      in snd (tcp_send_ack k s))"

definition tcp_send_syn :: "nat \<Rightarrow> sched \<Rightarrow> tcpstate \<Rightarrow> (int \<times> sched \<times> tcpstate) option" where
  "tcp_send_syn k env s =
     (let t = tsks s k
      in if sk_state t \<noteq> TCP_SYN_SENT \<and> sk_state t \<noteq> TCP_CLOSE \<and> sk_state t \<noteq> TCP_LISTEN
         then Some (1, env, s)
         else
           (let (optlen, opts) = tcp_syn_options t;
                skb = tcp_alloc_skb (sk_addr_family t) optlen 0;
                skb = tcp_write_syn_options t opts optlen skb;
                s = tcp_set_state k TCP_SYN_SENT s;
                skb = tcp_set_hdr t (\<lambda>th. th\<lparr>th_syn := True\<rparr>) skb
            in tcp_queue_transmit_skb k skb env s))"

definition tcp_fin_skb :: "tcp_sock \<Rightarrow> sk_buff" where
  "tcp_fin_skb t =
     tcp_set_hdr t (\<lambda>th. th\<lparr>th_fin := True, th_ack := True\<rparr>) (tcp_alloc_skb (sk_addr_family t) 0 0)"

definition tcp_send_fin :: "nat \<Rightarrow> sched \<Rightarrow> tcpstate \<Rightarrow> (int \<times> sched \<times> tcpstate) option" where
  "tcp_send_fin k env s =
     (if sk_state (tsks s k) = TCP_CLOSE then Some (0, env, s)
      else tcp_queue_transmit_skb k (tcp_fin_skb (tsks s k)) env s)"

definition tcp_queue_fin :: "nat \<Rightarrow> sched \<Rightarrow> tcpstate \<Rightarrow> (int \<times> sched \<times> tcpstate) option" where
  "tcp_queue_fin k env s = tcp_queue_transmit_skb k (tcp_fin_skb (tsks s k)) env s"

definition tcp_send_reset :: "nat \<Rightarrow> tcpstate \<Rightarrow> int \<times> tcpstate" where
  "tcp_send_reset k s =
     (let t = tsks s k;
          skb = tcp_set_hdr t (\<lambda>th. th\<lparr>th_rst := True\<rparr>) (tcp_alloc_skb (sk_addr_family t) 0 0);
          s = upd_tcb k (\<lambda>b. b\<lparr>snd_una := snd_nxt b\<rparr>) s;
          (rc, skb, s) = tcp_transmit_skb k skb (snd_nxt (tcb_of (tsks s k))) s
      in (rc, s))"

text \<open>\<open>tcp_send_challenge_ack\<close> is not implemented in the program.\<close>

definition tcp_send_challenge_ack :: "tcpstate \<Rightarrow> int \<times> tcpstate" where
  "tcp_send_challenge_ack s = (0, s)"

definition tcp_select_initial_window :: u32 where
  "tcp_select_initial_window = 44477"

definition generate_iss :: "tcpstate \<Rightarrow> u32 \<times> tcpstate" where
  "generate_iss s = (iss_src s (iss_cnt s), s\<lparr>iss_cnt := iss_cnt s + 1\<rparr>)"

definition tcp_connect :: "nat \<Rightarrow> sched \<Rightarrow> tcpstate \<Rightarrow> (int \<times> sched \<times> tcpstate) option" where
  "tcp_connect k env s =
     (let s = upd_tsk k (\<lambda>t. t\<lparr>tcp_header_len := 20\<rparr>) s;
          (i, s) = generate_iss s;
          s = upd_tcb k (\<lambda>b. b\<lparr>iss := i, snd_wnd := 0, snd_wl1 := 0, snd_una := i, snd_up := i,
                snd_nxt := i, rcv_nxt := 0, rcv_wnd := tcp_select_initial_window,
                real_rcv_wnd := tcp_select_initial_window\<rparr>) s
      in case tcp_send_syn k env s of
           None \<Rightarrow> None
         | Some (rc, env, s) \<Rightarrow> Some (rc, env, upd_tcb k (\<lambda>b. b\<lparr>snd_nxt := snd_nxt b + 1\<rparr>) s))"

section \<open>Data\<close>

text \<open>The loop of \<open>tcp_send\<close>: it never ends when \<open>mss\<close> is 0 and there is data.\<close>

definition tcp_data_skb :: "tcp_sock \<Rightarrow> bytes \<Rightarrow> bool \<Rightarrow> sk_buff" where
  "tcp_data_skb t chunk is_last =
     (let skb = tcp_alloc_skb (sk_addr_family t) 0 (length chunk);
          skb = skb_push skb (length chunk);
          skb = skb_put (skb_data skb) chunk skb
      in tcp_set_hdr t (\<lambda>th. th\<lparr>th_ack := True, th_psh := (is_last \<or> th_psh th)\<rparr>) skb)"

partial_function (option) tcp_send_loop ::
  "nat \<Rightarrow> nat \<Rightarrow> bytes \<Rightarrow> sched \<Rightarrow> tcpstate \<Rightarrow> (sched \<times> tcpstate) option" where
  "tcp_send_loop k mss buf env s =
     (if buf = [] then Some (env, s)
      else Option.bind
        (tcp_queue_transmit_skb k
           (tcp_data_skb (tsks s k) (take mss buf) (drop mss buf = [])) env s)
        (\<lambda>r. tcp_send_loop k mss (drop mss buf) (fst (snd r)) (snd (snd r))))"

definition tcp_send :: "nat \<Rightarrow> bytes \<Rightarrow> sched \<Rightarrow> tcpstate \<Rightarrow> (int \<times> sched \<times> tcpstate) option" where
  "tcp_send k buf env s =
     (case tcp_send_loop k (unat (smss (tsks s k))) buf env s of
        None \<Rightarrow> None
      | Some (env, s) \<Rightarrow> Some (int (length buf), env, tcp_rearm_user_timeout k s))"

text \<open>\<open>tcp_send_next\<close>: the positions of the write queue, at most \<open>amount\<close> of them.\<close>

fun tcp_send_next_loop :: "nat \<Rightarrow> u32 \<Rightarrow> nat list \<Rightarrow> tcpstate \<Rightarrow> tcpstate" where
  "tcp_send_next_loop k wnd [] s = s"
| "tcp_send_next_loop k wnd (i # js) s =
     (let skb = skb_list (sk_write_queue (tsks s k)) ! i
      in if skb_seq skb \<noteq> 0 then tcp_send_next_loop k wnd js s
         else if inflight (tsks s k) + skb_dlen skb > wnd then s
         else
           (let s = upd_tsk k (\<lambda>t. t\<lparr>sk_write_queue := skb_queue_upd i skb_reset_header (sk_write_queue t)\<rparr>) s;
                nx = snd_nxt (tcb_of (tsks s k));
                (rc, s) = tcp_transmit_queued k i nx s;
                skb = skb_list (sk_write_queue (tsks s k)) ! i;
                fin = th_fin (skb_load dec_tcphdr (int (tcp_hdr_for_sk (tsks s k))) skb);
                s = upd_tsk k (\<lambda>t. t\<lparr>sk_write_queue := skb_queue_upd i
                      (\<lambda>b. b\<lparr>skb_seq := nx, skb_end_seq := nx + skb_dlen skb\<rparr>) (sk_write_queue t),
                      inflight := inflight t + skb_dlen skb\<rparr>) s;
                s = upd_tcb k (\<lambda>b. b\<lparr>snd_nxt := nx + skb_dlen skb + (if fin then 1 else 0)\<rparr>) s
            in tcp_send_next_loop k wnd js s))"

definition tcp_send_next :: "nat \<Rightarrow> nat \<Rightarrow> u32 \<Rightarrow> tcpstate \<Rightarrow> int \<times> tcpstate" where
  "tcp_send_next k amount extra s =
     (let t = tsks s k;
          wnd = umin (cwnd t + extra) (snd_wnd (tcb_of t))
      in (0, tcp_send_next_loop k wnd [0..<min amount (length (skb_list (sk_write_queue t)))] s))"

section \<open>Retransmission\<close>

definition write_queue_head :: "tcp_sock \<Rightarrow> sk_buff option" where
  "write_queue_head t = skb_peek (sk_write_queue t)"

definition tcp_reset_queued :: "nat \<Rightarrow> nat \<Rightarrow> tcpstate \<Rightarrow> tcpstate" where
  "tcp_reset_queued k i s =
     upd_tsk k (\<lambda>t. t\<lparr>sk_write_queue := skb_queue_upd i skb_reset_header (sk_write_queue t)\<rparr>) s"

definition tcp_sack_clear :: "nat \<Rightarrow> tcpstate \<Rightarrow> tcpstate" where
  "tcp_sack_clear k s =
     upd_tsk k (\<lambda>t. t\<lparr>sk_write_queue := (sk_write_queue t)
         \<lparr>skb_list := map (\<lambda>b. b\<lparr>skb_sacked := 0\<rparr>) (skb_list (sk_write_queue t))\<rparr>,
       sack_max_right := 0\<rparr>) s"

definition tcp_notify_user :: "nat \<Rightarrow> tcpstate \<Rightarrow> tcpstate" where
  "tcp_notify_user k s =
     (if sk_state (tsks s k) = TCP_CLOSE_WAIT then wait_wakeup k Wait_sleep s else s)"

text \<open>\<open>tcp_retransmit_candidate\<close>: the position of the buffer.\<close>

fun first_index :: "('a \<Rightarrow> bool) \<Rightarrow> nat \<Rightarrow> 'a list \<Rightarrow> nat option" where
  "first_index p i [] = None"
| "first_index p i (x # xs) = (if p x then Some i else first_index p (i + 1) xs)"

definition tcp_retransmit_candidate :: "tcp_sock \<Rightarrow> nat option" where
  "tcp_retransmit_candidate t =
     (let hole = (if sack_max_right t > 0
                  then first_index (\<lambda>b. skb_sacked b = 0 \<and> skb_end_seq b \<le> sack_max_right t) 0
                         (skb_list (sk_write_queue t))
                  else None)
      in case hole of
           Some i \<Rightarrow> Some i
         | None \<Rightarrow> (case write_queue_head t of None \<Rightarrow> None | Some _ \<Rightarrow> Some 0))"

definition tcp_fast_retransmit :: "nat \<Rightarrow> tcpstate \<Rightarrow> int \<times> tcpstate" where
  "tcp_fast_retransmit k s =
     (case tcp_retransmit_candidate (tsks s k) of
        None \<Rightarrow> (0, s)
      | Some i \<Rightarrow>
          (let s = tcp_reset_queued k i s
           in tcp_transmit_queued k i (skb_seq (skb_list (sk_write_queue (tsks s k)) ! i)) s))"

text \<open>The timer callbacks, as run with the argument \<open>Rto_arg k epoch\<close> under the socket lock.\<close>

definition tcp_connect_rto :: "nat \<Rightarrow> u64 \<Rightarrow> tcpstate \<Rightarrow> tcpstate" where
  "tcp_connect_rto k epoch s =
     (if epoch \<noteq> rto_epoch (tsks s k) then s
      else
        (let s = tcp_release_rto_timer k s;
             t = tsks s k
         in if sk_state t \<noteq> TCP_SYN_SENT then s
            else if backoff t > TCP_CONN_RETRIES then
              (let s = upd_tsk k (\<lambda>t. t\<lparr>sk_err := - ETIMEDOUT,
                     sk_poll_events := sk_poll_events t OR (POLLOUT OR POLLERR OR POLLHUP)\<rparr>) s
               in snd (tcp_done k s))
            else case write_queue_head t of
                   None \<Rightarrow> s
                 | Some skb \<Rightarrow>
                     (let s = tcp_reset_queued k 0 s;
                          (rc, s) = tcp_transmit_queued k 0 (snd_una (tcb_of (tsks s k))) s;
                          s = upd_tsk k (\<lambda>t. t\<lparr>backoff := backoff t + 1\<rparr>) s
                      in tcp_rearm_rto_timer k s)))"

definition tcp_rto_congestion :: "tcp_sock \<Rightarrow> tcp_sock" where
  "tcp_rto_congestion t =
     t\<lparr>ssthresh := umax (inflight t div 2) (2 * ucast (smss t)), cwnd := ucast (smss t), bytes_acked := 0\<rparr>"

definition tcp_retransmission_timeout :: "nat \<Rightarrow> u64 \<Rightarrow> tcpstate \<Rightarrow> tcpstate" where
  "tcp_retransmission_timeout k epoch s =
     (if epoch \<noteq> rto_epoch (tsks s k) then s
      else
        (let s = tcp_release_rto_timer k s
         in case write_queue_head (tsks s k) of
              None \<Rightarrow> tcp_notify_user k (upd_tsk k (\<lambda>t. t\<lparr>backoff := 0\<rparr>) s)
            | Some _ \<Rightarrow>
                (let s = upd_tsk k tcp_rto_congestion s;
                     s = tcp_sack_clear k s;
                     s = tcp_reset_queued k 0 s;
                     (rc, s) = tcp_transmit_queued k 0 (snd_una (tcb_of (tsks s k))) s;
                     t = tsks s k;
                     fin = th_fin (skb_load dec_tcphdr (int (tcp_hdr_for_sk t)) (skb_list (sk_write_queue t) ! 0))
                 in if rto t > 60000 then
                      (let s = snd (tcp_done k s)
                       in upd_tsk k (\<lambda>t. t\<lparr>sk_err := - ETIMEDOUT,
                            sk_poll_events := sk_poll_events t OR (POLLOUT OR POLLERR OR POLLHUP)\<rparr>) s)
                    else
                      (let s = upd_tsk k (\<lambda>t. t\<lparr>rto := rto t * 2, backoff := backoff t + 1\<rparr>) s;
                           s = tcp_rearm_rto_timer k s
                       in if fin then tcp_handle_fin_state k s else s))))"

end
