(* ===== verification/Tcp_Data.thy ===== *)
theory Tcp_Data
  imports Tcp_Output
begin

text \<open>
  Segment text (\<open>src/tcp_data.c\<close>): the ordered out-of-order queue, its transfer into the receive
  queue, and the delivery of bytes to the user.
\<close>

section \<open>Operations\<close>

text \<open>The queue, and the segment with the reference the queue may have taken.\<close>

fun tcp_insert_loop ::
  "sk_buff_head \<Rightarrow> sk_buff \<Rightarrow> nat \<Rightarrow> sk_buff list \<Rightarrow> sk_buff_head \<times> sk_buff" where
  "tcp_insert_loop q skb i [] =
     (let skb = skb\<lparr>skb_refcnt := skb_refcnt skb + 1\<rparr> in (skb_queue_tail q skb, skb))"
| "tcp_insert_loop q skb i (nb # ns) =
     (if skb_seq skb < skb_seq nb then
        (if skb_end_seq skb > skb_seq nb then tcp_insert_loop q skb (i + 1) ns
         else (let skb = skb\<lparr>skb_refcnt := skb_refcnt skb + 1\<rparr> in (skb_queue_add q skb i, skb)))
      else if skb_seq skb = skb_seq nb then (q, skb)
      else tcp_insert_loop q skb (i + 1) ns)"

definition tcp_data_insert_ordered :: "sk_buff_head \<Rightarrow> sk_buff \<Rightarrow> sk_buff_head \<times> sk_buff" where
  "tcp_data_insert_ordered q skb = tcp_insert_loop q skb 0 (skb_list q)"

function tcp_consume_ofo_queue :: "tcp_sock \<Rightarrow> tcp_sock" where
  "tcp_consume_ofo_queue t =
     (case skb_peek (ofo_queue t) of
        None \<Rightarrow> t
      | Some skb \<Rightarrow>
          (if rcv_nxt (tcb_of t) = skb_seq skb then
             (case skb_dequeue (ofo_queue t) of
                None \<Rightarrow> t
              | Some (skb, q) \<Rightarrow>
                  tcp_consume_ofo_queue
                    (t\<lparr>tcb_of := (tcb_of t)\<lparr>rcv_nxt := rcv_nxt (tcb_of t) + skb_dlen skb\<rparr>,
                       ofo_queue := q,
                       sk_receive_queue := skb_queue_tail (sk_receive_queue t) skb\<rparr>))
           else t))"
  by pat_completeness auto
termination
  by (relation "measure (\<lambda>t. length (skb_list (ofo_queue t)))")
    (auto simp: skb_dequeue_def split: list.splits)

declare tcp_consume_ofo_queue.simps [simp del]

definition increase_recv_win :: "u32 \<Rightarrow> tcp_sock \<Rightarrow> tcp_sock" where
  "increase_recv_win dlen t = t\<lparr>tcb_of := (tcb_of t)\<lparr>real_rcv_wnd := real_rcv_wnd (tcb_of t) + dlen\<rparr>\<rparr>"

definition decrease_recv_win :: "u32 \<Rightarrow> tcp_sock \<Rightarrow> tcp_sock" where
  "decrease_recv_win dlen t = t\<lparr>tcb_of := (tcb_of t)\<lparr>real_rcv_wnd := real_rcv_wnd (tcb_of t) - dlen\<rparr>\<rparr>"

text \<open>One segment at the head of the receive queue, with \<open>room\<close> bytes left in the user's buffer after
  \<open>rlen\<close>: how much is copied, and the segment afterwards.\<close>

definition tcp_eat :: "nat \<Rightarrow> nat \<Rightarrow> sk_buff \<Rightarrow> nat \<times> sk_buff" where
  "tcp_eat userlen rlen skb =
     (let dlen = (if of_nat rlen + skb_dlen skb > of_nat userlen then userlen - rlen
                  else unat (skb_dlen skb))
      in (dlen, skb\<lparr>skb_dlen := skb_dlen skb - of_nat dlen,
                   skb_payload := map_option (\<lambda>p. p + int dlen) (skb_payload skb)\<rparr>))"

definition skb_payload_bytes :: "nat \<Rightarrow> sk_buff \<Rightarrow> bytes" where
  "skb_payload_bytes n skb =
     (case skb_payload skb of None \<Rightarrow> [] | Some p \<Rightarrow> get_bytes (nat p) n (skb_mem skb))"

text \<open>The loop of \<open>tcp_data_dequeue\<close>: bytes copied, number of bytes, socket.\<close>

function tcp_dequeue_loop :: "nat \<Rightarrow> nat \<Rightarrow> tcp_sock \<Rightarrow> bytes \<times> nat \<times> tcp_sock" where
  "tcp_dequeue_loop userlen rlen t =
     (if skb_queue_empty (sk_receive_queue t) \<or> userlen \<le> rlen then ([], rlen, t)
      else case skb_list (sk_receive_queue t) of
             [] \<Rightarrow> ([], rlen, t)
           | skb # _ \<Rightarrow>
               (let (dlen, skb') = tcp_eat userlen rlen skb;
                    psh = th_psh (skb_load dec_tcphdr (int (tcp_hdr_for_sk t)) skb);
                    t = increase_recv_win (of_nat dlen) t;
                    t = (if skb_dlen skb' = 0 then
                           (let t = (if psh then t\<lparr>tsk_flags := tsk_flags t OR TCP_PSH\<rparr> else t)
                            in t\<lparr>sk_receive_queue := (case skb_dequeue (sk_receive_queue t) of
                                   None \<Rightarrow> sk_receive_queue t | Some (_, q) \<Rightarrow> q)\<rparr>)
                         else t\<lparr>sk_receive_queue := skb_queue_upd 0 (\<lambda>_. skb') (sk_receive_queue t)\<rparr>);
                    (rest, rlen, t) = tcp_dequeue_loop userlen (rlen + dlen) t
                in (skb_payload_bytes dlen skb @ rest, rlen, t)))"
  by pat_completeness auto
termination
proof (relation "measure (\<lambda>(userlen, rlen, t). 2 * length (skb_list (sk_receive_queue t)) +
    (if rlen < userlen then 1 else 0))", goal_cases)
  case (2 userlen rlen t skb rest dk dlen skb' psh t1 t2)
  show ?case
  proof (cases "skb_dlen skb' = 0")
    case True
    with 2 show ?thesis
      by (auto simp: skb_dequeue_def increase_recv_win_def Let_def)
  next
    case False
    with 2 have "dlen = userlen - rlen"
      by (auto simp: tcp_eat_def Let_def split: if_splits)
    with 2 False show ?thesis
      by (auto simp: skb_queue_upd_def increase_recv_win_def)
  qed
qed simp

declare tcp_dequeue_loop.simps [simp del]

definition tcp_data_dequeue :: "nat \<Rightarrow> tcp_sock \<Rightarrow> bytes \<times> nat \<times> tcp_sock" where
  "tcp_data_dequeue userlen t =
     (let (buf, rlen, t) = tcp_dequeue_loop userlen 0 t;
          t = (if skb_queue_empty (sk_receive_queue t) \<and> tsk_flags t AND TCP_FIN = 0
               then t\<lparr>sk_poll_events := sk_poll_events t AND NOT POLLIN\<rparr> else t)
      in (buf, rlen, t))"

definition tcp_recv_notify :: "nat \<Rightarrow> tcpstate \<Rightarrow> int \<times> tcpstate" where
  "tcp_recv_notify k s = (0, wait_wakeup k Wait_recv s)"

text \<open>The in-order branch of \<open>tcp_data_queue\<close> on the socket.\<close>

definition tcp_queue_expected :: "sk_buff \<Rightarrow> tcp_sock \<Rightarrow> tcp_sock" where
  "tcp_queue_expected skb t =
     (let t = decrease_recv_win (skb_dlen skb) t;
          t = t\<lparr>tcb_of := (tcb_of t)\<lparr>rcv_nxt := rcv_nxt (tcb_of t) + skb_dlen skb\<rparr>,
                sk_receive_queue := skb_queue_tail (sk_receive_queue t)
                  (skb\<lparr>skb_refcnt := skb_refcnt skb + 1\<rparr>)\<rparr>;
          t = tcp_consume_ofo_queue t
      in t\<lparr>sk_poll_events := sk_poll_events t OR (POLLIN OR POLLPRI OR POLLRDNORM OR POLLRDBAND)\<rparr>)"

definition tcp_data_queue :: "nat \<Rightarrow> sk_buff \<Rightarrow> tcpstate \<Rightarrow> int \<times> sk_buff \<times> tcpstate" where
  "tcp_data_queue k skb s =
     (let t = tsks s k
      in if rcv_wnd (tcb_of t) = 0 then (-1, skb, s)
         else if skb_seq skb = rcv_nxt (tcb_of t) then
           (let s = upd_tsk k (tcp_queue_expected skb) s;
                (rc, s) = tcp_recv_notify k s
            in (0, skb\<lparr>skb_refcnt := skb_refcnt skb + 1\<rparr>, s))
         else
           (let (q, skb) = tcp_data_insert_ordered (ofo_queue t) skb;
                s = upd_tsk k (\<lambda>t. t\<lparr>ofo_queue := q\<rparr>) s;
                s = (if sackok (tsks s k)
                     then upd_tsk k (tcp_calculate_sacks (skb_seq skb) (skb_end_seq skb)) s else s);
                (rc, s) = tcp_send_ack k s
            in (0, skb, s)))"

end
