(* ===== verification/Tcp_Input.thy ===== *)
theory Tcp_Input
  imports Tcp_Data
begin

text \<open>
  TCP input (\<open>src/tcp_input.c\<close>): options, acknowledgements and congestion control, and the
  segment-arrives procedure \<open>tcp_input_state\<close>, stage by stage in the order of the source. A stage
  either returns from the procedure (\<open>Inl\<close>) or lets it go on (\<open>Inr\<close>). The header is passed in host
  order; the buffer is returned so that its references and releases can be followed.
\<close>

section \<open>Options\<close>

definition update_snd_win :: "u16 \<Rightarrow> tcp_sock \<Rightarrow> tcp_sock" where
  "update_snd_win win t =
     t\<lparr>tcb_of := (tcb_of t)\<lparr>snd_wnd := push_bit (unat (snd_scale t)) (ucast win)\<rparr>\<rparr>"

definition tcp_sack_mark_write_queue :: "(u32 \<times> u32) list \<Rightarrow> tcp_sock \<Rightarrow> tcp_sock" where
  "tcp_sack_mark_write_queue blocks t =
     (let mark = (\<lambda>skb. if \<exists>b \<in> set blocks. skb_seq skb \<ge> fst b \<and> skb_end_seq skb \<le> snd b
                        then skb\<lparr>skb_sacked := 1\<rparr> else skb);
          q = sk_write_queue t;
          t = t\<lparr>sk_write_queue := q\<lparr>skb_list := map mark (skb_list q)\<rparr>\<rparr>;
          max_right = foldl (\<lambda>m b. if snd b > m then snd b else m) 0 blocks
      in if max_right > sack_max_right t then t\<lparr>sack_max_right := max_right\<rparr> else t)"

text \<open>The loop of \<open>tcp_parse_opts\<close>: \<open>p\<close> is the rest of the buffer at \<open>ptr\<close>, \<open>sack\<close> the blocks of the last
  SACK option seen.\<close>

definition sack_block_at :: "bytes \<Rightarrow> nat \<Rightarrow> u32 \<times> u32" where
  "sack_block_at p i = (ntohl (get32 p (2 + 8 * i)), ntohl (get32 p (2 + 8 * i + 4)))"

definition sack_nblocks :: "u8 \<Rightarrow> nat" where
  "sack_nblocks datalen = min 4 ((unat datalen - 2) div 8)"

lemma optlen_decreases:
  fixes n :: u8
  assumes "0 < n" "n < 40" "0 < k" "k \<le> 34"
  shows "n - of_nat k < 40 \<longrightarrow> unat (n - of_nat k) < unat n"
proof (cases "k \<le> unat n")
  case True
  have "unat (of_nat k :: u8) = k" using assms(4) by (simp add: unat_of_nat)
  with True assms(1,3) show ?thesis
    by (simp add: unat_sub word_le_nat_alt word_less_nat_alt)
next
  case False
  have k: "unat (of_nat k :: u8) = k" using assms(4) by (simp add: unat_of_nat)
  have "unat (n - of_nat k) = 256 + unat n - k"
    using False k by (simp add: unat_sub_if_size word_size)
  with False assms show ?thesis by (simp add: word_less_nat_alt)
qed

function tcp_parse_loop ::
  "bytes \<Rightarrow> u8 \<Rightarrow> (u32 \<times> u32) list option \<Rightarrow> tcp_sock \<Rightarrow> (u32 \<times> u32) list option \<times> tcp_sock" where
  "tcp_parse_loop p optlen sack t =
     (if \<not> (0 < optlen \<and> optlen < 40) then (sack, t)
      else if p ! 0 = 2 then tcp_parse_loop (drop 4 p) (optlen - 4) sack t
      else if p ! 0 = 1 then tcp_parse_loop (drop 1 p) (optlen - 1) sack t
      else if p ! 0 = 4 then tcp_parse_loop (drop 2 p) (optlen - 2) sack t
      else if p ! 0 = 5 then
        (let n = sack_nblocks (p ! 1)
         in tcp_parse_loop (drop (2 + 8 * n) p) (optlen - 2 - of_nat (8 * n))
              (Some (map (sack_block_at p) [0..<n])) t)
      else if p ! 0 = 8 then tcp_parse_loop (drop 10 p) (optlen - 10) sack t
      else if p ! 0 = 3 then
        tcp_parse_loop (drop 3 p) (optlen - 3) sack (t\<lparr>snd_scale := (if p ! 2 \<le> 14 then p ! 2 else 14)\<rparr>)
      else tcp_parse_loop p (optlen - 1) sack t)"
  by pat_completeness auto
termination
proof (relation "measure (\<lambda>(p, optlen, sack, t). if optlen < 40 then unat optlen else 0)", goal_cases)
  case 1 then show ?case by simp
next
  case (2 p n) then show ?case using optlen_decreases [of n 4] by (simp add: word_less_nat_alt)
next
  case (3 p n) then show ?case using optlen_decreases [of n 1] by (simp add: word_less_nat_alt)
next
  case (4 p n) then show ?case using optlen_decreases [of n 2] by (simp add: word_less_nat_alt)
next
  case (5 p n sack t m)
  have "m \<le> 4" using 5 by (simp add: sack_nblocks_def)
  with 5 show ?case using optlen_decreases [of n "2 + 8 * m"]
    by (simp add: diff_diff_eq word_less_nat_alt)
next
  case (6 p n) then show ?case using optlen_decreases [of n 10] by (simp add: word_less_nat_alt)
next
  case (7 p n) then show ?case using optlen_decreases [of n 3] by (simp add: word_less_nat_alt)
next
  case (8 p n) then show ?case using optlen_decreases [of n 1] by (simp add: word_less_nat_alt)
qed

declare tcp_parse_loop.simps [simp del]

definition tcp_parse_opts :: "tcphdr \<Rightarrow> bytes \<Rightarrow> tcp_sock \<Rightarrow> tcp_sock" where
  "tcp_parse_opts th opts t =
     (let optlen = (of_nat (unat (th_hl th) * 4) - 20 :: u8);
          (sack, t) = tcp_parse_loop opts optlen None t;
          t = t\<lparr>tsopt := 0\<rparr>
      in case sack of
           Some blocks \<Rightarrow> if sackok t then tcp_sack_mark_write_queue blocks t else t
         | None \<Rightarrow> t)"

section \<open>Acknowledgements and congestion control\<close>

definition tcp_cong_avoid :: "u32 \<Rightarrow> tcp_sock \<Rightarrow> tcp_sock" where
  "tcp_cong_avoid acked t =
     (if acked = 0 then t
      else if in_recovery t then t
      else if cwnd t < ssthresh t then t\<lparr>cwnd := cwnd t + umin acked (ucast (smss t))\<rparr>
      else
        (let t = t\<lparr>bytes_acked := bytes_acked t + acked\<rparr>
         in if bytes_acked t \<ge> cwnd t
            then t\<lparr>bytes_acked := bytes_acked t - cwnd t, cwnd := cwnd t + ucast (smss t)\<rparr>
            else t))"

text \<open>One fully acknowledged buffer leaves the write queue.\<close>

definition tcp_acked_skb :: "sk_buff \<Rightarrow> sk_buff_head \<Rightarrow> tcp_sock \<Rightarrow> tcp_sock" where
  "tcp_acked_skb skb q t =
     (let acked = skb_dlen skb;
          t = t\<lparr>sk_write_queue := q,
                inflight := (if inflight t \<ge> acked then inflight t - acked else 0)\<rparr>
      in tcp_cong_avoid acked t)"

lemma tcp_acked_skb_queue [simp]: "sk_write_queue (tcp_acked_skb skb q t) = q"
  by (simp add: tcp_acked_skb_def tcp_cong_avoid_def Let_def)

function tcp_clean_loop :: "nat \<Rightarrow> u32 \<Rightarrow> tcpstate \<Rightarrow> tcpstate" where
  "tcp_clean_loop k una s =
     (case skb_peek (sk_write_queue (tsks s k)) of
        None \<Rightarrow> s
      | Some skb \<Rightarrow>
          (if skb_seq skb > 0 \<and> skb_end_seq skb \<le> una then
             (case skb_dequeue (sk_write_queue (tsks s k)) of
                None \<Rightarrow> s
              | Some (skb, q) \<Rightarrow>
                  tcp_clean_loop k una (upd_tsk k (tcp_acked_skb skb q) (wait_wakeup k Wait_write s)))
           else s))"
  by pat_completeness auto
termination
  by (relation "measure (\<lambda>(k, una, s). length (skb_list (sk_write_queue (tsks s k))))")
    (auto simp: skb_dequeue_def split: list.splits)

declare tcp_clean_loop.simps [simp del]

definition tcp_clean_rto_queue :: "nat \<Rightarrow> u32 \<Rightarrow> tcpstate \<Rightarrow> tcpstate" where
  "tcp_clean_rto_queue k una s =
     (let s = tcp_clean_loop k una s
      in if skb_peek (sk_write_queue (tsks s k)) = None \<or> inflight (tsks s k) = 0
         then tcp_stop_rto_timer k s else s)"

definition tcp_is_dupack :: "tcphdr \<Rightarrow> sk_buff \<Rightarrow> tcp_sock \<Rightarrow> bool" where
  "tcp_is_dupack th skb t \<longleftrightarrow> th_ack_seq th = snd_una (tcb_of t) \<and> skb_dlen skb = 0 \<and>
     \<not> (th_syn th \<or> th_fin th) \<and> th_win th = last_ack_win t \<and> inflight t \<noteq> 0"

definition tcp_enter_fast_recovery :: "nat \<Rightarrow> tcpstate \<Rightarrow> tcpstate" where
  "tcp_enter_fast_recovery k s =
     (let s = upd_tsk k (\<lambda>t. t\<lparr>ssthresh := umax (inflight t div 2) (2 * ucast (smss t))\<rparr>) s;
          (rc, s) = tcp_fast_retransmit k s;
          s = upd_tsk k (\<lambda>t. t\<lparr>cwnd := ssthresh t + 3 * ucast (smss t), bytes_acked := 0,
                in_recovery := True\<rparr>) s
      in tcp_rearm_rto_timer k s)"

definition tcp_exit_fast_recovery :: "tcp_sock \<Rightarrow> tcp_sock" where
  "tcp_exit_fast_recovery t = t\<lparr>cwnd := ssthresh t, in_recovery := False, dupacks := 0, bytes_acked := 0\<rparr>"

definition tcp_handle_dupack :: "nat \<Rightarrow> tcpstate \<Rightarrow> tcpstate" where
  "tcp_handle_dupack k s =
     (let s = upd_tsk k (\<lambda>t. t\<lparr>dupacks := dupacks t + 1\<rparr>) s;
          d = dupacks (tsks s k);
          (extra, s) =
            (if d < 3 then (ucast d * ucast (smss (tsks s k)), s)
             else if d = 3 then (0, tcp_enter_fast_recovery k s)
             else (0, upd_tsk k (\<lambda>t. t\<lparr>cwnd := cwnd t + ucast (smss t)\<rparr>) s));
          pending = skb_queue_len (sk_write_queue (tsks s k))
      in if sint pending > 0 then snd (tcp_send_next k (unat pending) extra s) else s)"

section \<open>Arriving segments\<close>

definition tcp_verify_segment :: "tcphdr \<Rightarrow> sk_buff \<Rightarrow> tcp_sock \<Rightarrow> bool" where
  "tcp_verify_segment th skb t \<longleftrightarrow>
     \<not> (skb_dlen skb > 0 \<and> rcv_wnd (tcb_of t) = 0) \<and>
     \<not> (th_seq th < rcv_nxt (tcb_of t) \<or> th_seq th > rcv_nxt (tcb_of t) + rcv_wnd (tcb_of t))"

definition tcp_reset :: "nat \<Rightarrow> tcpstate \<Rightarrow> tcpstate" where
  "tcp_reset k s =
     (let s = upd_tsk k (\<lambda>t. t\<lparr>sk_poll_events := POLLOUT OR POLLWRNORM OR POLLERR OR POLLHUP\<rparr>) s
      in case sk_state (tsks s k) of
           TCP_CLOSE \<Rightarrow> s
         | TCP_SYN_SENT \<Rightarrow> snd (tcp_done k (upd_tsk k (\<lambda>t. t\<lparr>sk_err := - ECONNREFUSED\<rparr>) s))
         | TCP_CLOSE_WAIT \<Rightarrow> snd (tcp_done k (upd_tsk k (\<lambda>t. t\<lparr>sk_err := - EPIPE\<rparr>) s))
         | _ \<Rightarrow> snd (tcp_done k (upd_tsk k (\<lambda>t. t\<lparr>sk_err := - ECONNRESET\<rparr>) s)))"

definition sock_connected :: "nat \<Rightarrow> tcpstate \<Rightarrow> tcpstate" where
  "sock_connected k s =
     (let s = upd_sock k (\<lambda>so. so\<lparr>so_state := SS_CONNECTED\<rparr>) s;
          s = upd_tsk k (\<lambda>t. t\<lparr>sk_err := 0, sk_poll_events := POLLOUT OR POLLWRNORM OR POLLWRBAND\<rparr>) s
      in wait_wakeup k Wait_sleep s)"

subsection \<open>New sockets\<close>

definition tcp_alloc_sock :: tcp_sock where
  "tcp_alloc_sock =
     \<lparr>sk_protocol = 0, sk_state = TCP_CLOSE, sk_err = 0, sk_poll_events = 0, sk_sport = 0, sk_dport = 0,
      sk_addr_family = 0, sk_saddr = replicate 16 0, sk_daddr = replicate 16 0,
      sk_receive_queue = \<lparr>skb_list = [], max_q = 0, qlen = 0\<rparr>,
      sk_write_queue = \<lparr>skb_list = [], max_q = 0, qlen = 0\<rparr>,
      ptsk = None, tcp_header_len = 0,
      tcb_of = \<lparr>snd_una = 0, snd_nxt = 0, snd_wnd = 0, snd_up = 0, snd_wl1 = 0, snd_wl2 = 0, iss = 0,
        rcv_nxt = 0, rcv_wnd = 0, real_rcv_wnd = 0, rcv_up = 0, irs = 0\<rparr>,
      tsk_flags = 0, backoff = 0, srtt = 0, rttvar = 0, rto = 0, rto_epoch = 0, retransmit = None,
      delack = None, keepalive = None, linger = None, delacks = 0, rmss = 1460, smss = 536,
      cwnd = 4 * 536, ssthresh = 0xFFFFFFFF, inflight = 0, bytes_acked = 0, dupacks = 0,
      in_recovery = False, last_ack_win = 0, sackok = True, sacks_allowed = 0, sacklen = 0,
      sacks = replicate 4 (0, 0), sack_max_right = 0, snd_scale = 0, wso_allowed = False,
      rcv_scale = 0, tsopt = 0, ofo_queue = skb_queue_init, conn_queue = [], max_conn = 0\<rparr>"

text \<open>Creation of a socket. \<open>alloc_socket\<close> uses up a descriptor; \<open>inet_create\<close> and \<open>inet6_create\<close> look up the type in
  their table (\<open>sock_type_lookup\<close>: the two tables are alike, the result tells datagram sockets) and initialise
  what \<open>sk_alloc\<close> allocated.\<close>

definition alloc_socket :: "int \<Rightarrow> tcpstate \<Rightarrow> socket \<times> tcpstate" where
  "alloc_socket pid s =
     (\<lparr>so_fd = next_fd s, so_pid = pid, so_refcnt = 1, so_state = SS_UNCONNECTED, so_type = 0, so_flags = O_RDWR,
       so_family = 0, so_dgram = False\<rparr>, s\<lparr>next_fd := next_fd s + 1\<rparr>)"

definition sock_type_lookup :: "int \<Rightarrow> bool option" where
  "sock_type_lookup ty = (if 1 AND ty \<noteq> 0 then Some False else if 2 AND ty \<noteq> 0 then Some True else None)"

definition sock_init_data :: "('st, 'x) sock_scheme \<Rightarrow> ('st, 'x) sock_scheme" where
  "sock_init_data sk = sk\<lparr>sk_receive_queue := skb_queue_init, sk_write_queue := skb_queue_init, sk_poll_events := 0\<rparr>"

definition inet_create :: "int \<Rightarrow> ('st, 'x) sock_scheme \<Rightarrow> ('st, 'x) sock_scheme" where
  "inet_create protocol sk = sock_init_data (sk\<lparr>sk_protocol := protocol, sk_addr_family := AF_INET\<rparr>)"

definition inet6_create :: "int \<Rightarrow> ('st, 'x) sock_scheme \<Rightarrow> ('st, 'x) sock_scheme" where
  "inet6_create protocol sk = sock_init_data (sk\<lparr>sk_protocol := protocol, sk_addr_family := AF_INET6\<rparr>)"

definition family_create :: "u8 \<Rightarrow> int \<Rightarrow> ('st, 'x) sock_scheme \<Rightarrow> ('st, 'x) sock_scheme" where
  "family_create family = (if family = AF_INET6 then inet6_create else inet_create)"

text \<open>\<open>_socket(pid, family, SOCK_STREAM, IPPROTO_TCP)\<close> for the two address families: the number of the new socket.\<close>

definition socket_stream :: "int \<Rightarrow> u8 \<Rightarrow> tcpstate \<Rightarrow> nat \<times> tcpstate" where
  "socket_stream pid family s =
     (let (so, s) = alloc_socket pid s;
          k = next_sock s
      in (k, s\<lparr>socks := (socks s)(k := so\<lparr>so_type := 1, so_family := family, so_dgram := False\<rparr>),
               tsks := (tsks s)(k := family_create family 6 tcp_alloc_sock), sockets := sockets s @ [k],
               next_sock := k + 1\<rparr>))"

text \<open>\<open>fork_socket\<close>: \<open>saddr\<close> and \<open>daddr\<close> are the 16 bytes of the address unions.\<close>

definition fork_init :: "u32 \<Rightarrow> tcphdr \<Rightarrow> tcb \<Rightarrow> tcb" where
  "fork_init i th b =
     b\<lparr>iss := i, rcv_nxt := th_seq th + 1, rcv_wnd := tcp_select_initial_window,
       real_rcv_wnd := tcp_select_initial_window, irs := th_seq th, snd_una := i, snd_nxt := i,
       snd_wnd := ucast (th_win th), snd_wl1 := 0, snd_wl2 := 0\<rparr>"

definition fork_socket ::
  "int \<Rightarrow> tcphdr \<Rightarrow> bytes \<Rightarrow> u8 \<Rightarrow> bytes \<Rightarrow> u16 \<Rightarrow> bytes \<Rightarrow> tcpstate \<Rightarrow> nat \<times> tcpstate" where
  "fork_socket pid th opts family saddr sport daddr s =
     (let (k, s) = socket_stream pid family s;
          s = tcp_set_state k TCP_SYN_RECEIVED s;
          s = upd_tsk k (tcp_parse_opts th opts) s;
          s = upd_tsk k (\<lambda>t. if snd_scale t \<noteq> 0 then t\<lparr>wso_allowed := True, rcv_scale := snd_scale t\<rparr> else t) s;
          (i, s) = generate_iss s;
          s = upd_tcb k (fork_init i th) s;
          s = upd_tsk k (\<lambda>t. if family = AF_INET6 then t\<lparr>sk_saddr := saddr, sk_daddr := daddr\<rparr>
                             else t\<lparr>sk_saddr := set_v4 (un_v4 saddr) (sk_saddr t),
                                    sk_daddr := set_v4 (un_v4 daddr) (sk_daddr t)\<rparr>) s;
          s = upd_tsk k (\<lambda>t. t\<lparr>sk_sport := sport, sk_dport := th_sport th\<rparr>) s
      in (k, s))"

definition tcp_listen ::
  "nat \<Rightarrow> tcphdr \<Rightarrow> bytes \<Rightarrow> sk_buff \<Rightarrow> bytes \<Rightarrow> u8 \<Rightarrow> sched \<Rightarrow> tcpstate
   \<Rightarrow> (int \<times> sk_buff \<times> sched \<times> tcpstate) option" where
  "tcp_listen k th opts skb saddr family env s =
     (if th_syn th then
        (let (f, s) = fork_socket (so_pid (socks s k)) th opts family (sk_saddr (tsks s k))
               (sk_sport (tsks s k)) saddr s;
             s = upd_tsk f (\<lambda>t. t\<lparr>ptsk := Some k\<rparr>) s
         in case tcp_send_synack f env s of
              None \<Rightarrow> None
            | Some (ret, env, s) \<Rightarrow>
                Some (ret, free_skb skb, env, upd_tcb f (\<lambda>b. b\<lparr>snd_nxt := snd_nxt b + 1\<rparr>) s))
      else Some (0, free_skb skb, env, s))"

subsection \<open>SYN-SENT and CLOSED\<close>

text \<open>The acceptable SYN of \<open>tcp_synsent\<close>.\<close>

definition tcp_synsent_syn ::
  "nat \<Rightarrow> tcphdr \<Rightarrow> bytes \<Rightarrow> sched \<Rightarrow> tcpstate \<Rightarrow> (sched \<times> tcpstate) option" where
  "tcp_synsent_syn k th opts env s =
     (let s = upd_tcb k (\<lambda>b. b\<lparr>rcv_nxt := th_seq th + 1, irs := th_seq th\<rparr>) s;
          s = (if th_ack th then
                 (let s = upd_tcb k (\<lambda>b. b\<lparr>snd_una := th_ack_seq th\<rparr>) s
                  in tcp_clean_rto_queue k (th_ack_seq th) s)
               else s);
          b = tcb_of (tsks s k)
      in if snd_una b > iss b then
           (let s = tcp_set_state k TCP_ESTABLISHED s;
                s = upd_tcb k (\<lambda>b. b\<lparr>snd_una := snd_nxt b, snd_wnd := ucast (th_win th),
                      snd_wl1 := th_seq th, snd_wl2 := th_ack_seq th\<rparr>) s;
                s = upd_tsk k (\<lambda>t. t\<lparr>backoff := 0, rto := 1000\<rparr>) s;
                (rc, s) = tcp_send_ack k s;
                s = tcp_rearm_user_timeout k s;
                s = upd_tsk k (tcp_parse_opts th opts) s;
                s = upd_tsk k (update_snd_win (th_win th)) s
            in Some (env, sock_connected k s))
         else
           (let s = tcp_set_state k TCP_SYN_RECEIVED s;
                s = upd_tcb k (\<lambda>b. b\<lparr>snd_una := iss b\<rparr>) s
            in case tcp_send_synack k env s of
                 None \<Rightarrow> None
               | Some (rc, env, s) \<Rightarrow> Some (env, s)))"

definition tcp_synsent ::
  "nat \<Rightarrow> tcphdr \<Rightarrow> bytes \<Rightarrow> sk_buff \<Rightarrow> sched \<Rightarrow> tcpstate \<Rightarrow> (int \<times> sk_buff \<times> sched \<times> tcpstate) option" where
  "tcp_synsent k th opts skb env s =
     (let b = tcb_of (tsks s k)
      in if th_ack th \<and>
            (th_ack_seq th \<le> iss b \<or> th_ack_seq th > snd_nxt b \<or>
             th_ack_seq th < snd_una b \<or> th_ack_seq th > snd_nxt b)
         then Some (0, free_skb skb, env, s)
         else if th_rst th then Some (0, free_skb skb, env, tcp_reset k s)
         else if \<not> th_syn th then Some (0, free_skb skb, env, s)
         else case tcp_synsent_syn k th opts env s of
                None \<Rightarrow> None
              | Some (env, s) \<Rightarrow> Some (0, free_skb skb, env, s))"

definition tcp_closed :: "nat \<Rightarrow> tcphdr \<Rightarrow> sk_buff \<Rightarrow> tcpstate \<Rightarrow> int \<times> sk_buff \<times> tcpstate" where
  "tcp_closed k th skb s =
     (if th_rst th then (0, free_skb skb, s)
      else (let (rc, s) = tcp_send_reset k s in (rc, free_skb skb, s)))"

subsection \<open>The other states\<close>

definition add_tsk_to_parent_establied_conn_list :: "nat \<Rightarrow> tcpstate \<Rightarrow> tcpstate" where
  "add_tsk_to_parent_establied_conn_list k s =
     (case ptsk (tsks s k) of
        None \<Rightarrow> s
      | Some p \<Rightarrow>
          (let s = upd_tsk p (\<lambda>t. t\<lparr>conn_queue := conn_queue t @ [k]\<rparr>) s
           in wait_wakeup p Wait_accept s))"

text \<open>The acknowledgement of new data.\<close>

definition tcp_new_ack :: "nat \<Rightarrow> u32 \<Rightarrow> tcpstate \<Rightarrow> tcpstate" where
  "tcp_new_ack k ack s =
     (let s = upd_tcb k (\<lambda>b. b\<lparr>snd_una := ack\<rparr>) s;
          s = tcp_rtt k s;
          s = tcp_clean_rto_queue k ack s
      in if in_recovery (tsks s k) then upd_tsk k tcp_exit_fast_recovery s else s)"

text \<open>The part of the ACK switch shared by all states from ESTABLISHED to LAST-ACK.\<close>

definition tcp_ack_common ::
  "nat \<Rightarrow> tcphdr \<Rightarrow> sk_buff \<Rightarrow> tcpstate \<Rightarrow> (int \<times> sk_buff \<times> tcpstate) + tcpstate" where
  "tcp_ack_common k th skb s =
     (if tcp_is_dupack th skb (tsks s k) then
        (let s = tcp_handle_dupack k s;
             s = upd_tsk k (\<lambda>t. t\<lparr>last_ack_win := th_win th\<rparr>) s
         in Inl (0, free_skb skb, s))
      else
        (let b = tcb_of (tsks s k);
             s = (if snd_una b < th_ack_seq th \<and> th_ack_seq th \<le> snd_nxt b
                  then tcp_new_ack k (th_ack_seq th) s else s);
             b = tcb_of (tsks s k)
         in if th_ack_seq th < snd_una b then Inl (0, free_skb skb, s)
            else if th_ack_seq th > snd_nxt b then Inl (0, free_skb skb, s)
            else
              (let s = (if snd_una b < th_ack_seq th \<and> th_ack_seq th \<le> snd_nxt b
                        then upd_tsk k (update_snd_win (th_win th)) s else s)
               in Inr (upd_tsk k (\<lambda>t. t\<lparr>last_ack_win := th_win th\<rparr>) s))))"

definition tcp_ack_stage ::
  "nat \<Rightarrow> tcphdr \<Rightarrow> sk_buff \<Rightarrow> tcpstate \<Rightarrow> (int \<times> sk_buff \<times> tcpstate) + tcpstate" where
  "tcp_ack_stage k th skb s =
     (case sk_state (tsks s k) of
        TCP_SYN_RECEIVED \<Rightarrow>
          (let b = tcb_of (tsks s k)
           in if snd_una b < th_ack_seq th \<and> th_ack_seq th \<le> snd_nxt b then
                tcp_ack_common k th skb
                  (add_tsk_to_parent_establied_conn_list k (tcp_set_state k TCP_ESTABLISHED s))
              else Inl (0, free_skb skb, s))
      | TCP_ESTABLISHED \<Rightarrow> tcp_ack_common k th skb s
      | TCP_FIN_WAIT_1 \<Rightarrow> tcp_ack_common k th skb s
      | TCP_FIN_WAIT_2 \<Rightarrow> tcp_ack_common k th skb s
      | TCP_CLOSE_WAIT \<Rightarrow> tcp_ack_common k th skb s
      | TCP_CLOSING \<Rightarrow> tcp_ack_common k th skb s
      | TCP_LAST_ACK \<Rightarrow> tcp_ack_common k th skb s
      | _ \<Rightarrow> Inr s)"

text \<open>An empty write queue means that our FIN was acknowledged.\<close>

definition tcp_fin_acked_stage ::
  "nat \<Rightarrow> tcphdr \<Rightarrow> sk_buff \<Rightarrow> tcpstate \<Rightarrow> (int \<times> sk_buff \<times> tcpstate) + tcpstate" where
  "tcp_fin_acked_stage k th skb s =
     (if skb_queue_empty (sk_write_queue (tsks s k)) then
        (case sk_state (tsks s k) of
           TCP_FIN_WAIT_1 \<Rightarrow> Inr (tcp_set_state k TCP_FIN_WAIT_2 s)
         | TCP_CLOSING \<Rightarrow> Inr (tcp_set_state k TCP_TIME_WAIT s)
         | TCP_LAST_ACK \<Rightarrow> (let (rc, s) = tcp_done k s in Inl (rc, free_skb skb, s))
         | TCP_TIME_WAIT \<Rightarrow>
             Inr (if rcv_nxt (tcb_of (tsks s k)) = th_seq th
                  then snd (tcp_send_ack k (upd_tsk k (\<lambda>t. t\<lparr>tsk_flags := tsk_flags t OR TCP_FIN\<rparr>) s))
                  else s)
         | _ \<Rightarrow> Inr s)
      else Inr s)"

definition tcp_text_stage :: "nat \<Rightarrow> tcphdr \<Rightarrow> sk_buff \<Rightarrow> tcpstate \<Rightarrow> sk_buff \<times> tcpstate" where
  "tcp_text_stage k th skb s =
     (if sk_state (tsks s k) \<in> {TCP_ESTABLISHED, TCP_FIN_WAIT_1, TCP_FIN_WAIT_2} \<and>
         (th_psh th \<or> skb_dlen skb > 0)
      then (let (rc, skb, s) = tcp_data_queue k skb s in (skb, s))
      else (skb, s))"

definition tcp_fin_stage :: "nat \<Rightarrow> tcpstate \<Rightarrow> tcpstate" where
  "tcp_fin_stage k s =
     (let s = upd_tcb k (\<lambda>b. b\<lparr>rcv_nxt := rcv_nxt b + 1\<rparr>) s;
          s = upd_tsk k (\<lambda>t. t\<lparr>tsk_flags := tsk_flags t OR TCP_FIN,
                sk_poll_events := sk_poll_events t OR (POLLIN OR POLLPRI OR POLLRDNORM OR POLLRDBAND)\<rparr>) s;
          (rc, s) = tcp_send_ack k s;
          (rc, s) = tcp_recv_notify k s
      in case sk_state (tsks s k) of
           TCP_SYN_RECEIVED \<Rightarrow> tcp_set_state k TCP_CLOSE_WAIT s
         | TCP_ESTABLISHED \<Rightarrow> tcp_set_state k TCP_CLOSE_WAIT s
         | TCP_FIN_WAIT_1 \<Rightarrow>
             if skb_queue_empty (sk_write_queue (tsks s k)) then tcp_enter_time_wait k s
             else tcp_set_state k TCP_CLOSING s
         | TCP_FIN_WAIT_2 \<Rightarrow> tcp_enter_time_wait k s
         | _ \<Rightarrow> s)"

definition tcp_delack_stage :: "nat \<Rightarrow> tcphdr \<Rightarrow> sk_buff \<Rightarrow> bool \<Rightarrow> tcpstate \<Rightarrow> tcpstate" where
  "tcp_delack_stage k th skb expected s =
     (if sk_state (tsks s k) \<in> {TCP_ESTABLISHED, TCP_FIN_WAIT_1, TCP_FIN_WAIT_2} \<and> expected then
        (let s = tcp_stop_delack_timer k s;
             pending = skb_queue_len (sk_write_queue (tsks s k))
         in if sint pending > 0 then
              tcp_rearm_rto_timer k (snd (tcp_send_next k (unat pending) 0 s))
            else
              (let s = (if \<not> th_psh th \<and> skb_dlen skb > 1000
                        then upd_tsk k (\<lambda>t. t\<lparr>delacks := delacks t + 1\<rparr>) s else s)
               in if th_psh th \<or> (skb_dlen skb > 1000 \<and> delacks (tsks s k) > 1) then
                    snd (tcp_send_ack k (upd_tsk k (\<lambda>t. t\<lparr>delacks := 0\<rparr>) s))
                  else if skb_dlen skb > 0 then
                    (let (i, tms) = timer_add 200 Tcp_send_delack (Some (Sk_arg k)) (timers s)
                     in upd_tsk k (\<lambda>t. t\<lparr>delack := Some i\<rparr>) (s\<lparr>timers := tms\<rparr>))
                  else s))
      else s)"

text \<open>The stages after the ACK check.\<close>

definition tcp_input_tail ::
  "nat \<Rightarrow> tcphdr \<Rightarrow> sk_buff \<Rightarrow> tcpstate \<Rightarrow> int \<times> sk_buff \<times> tcpstate" where
  "tcp_input_tail k th skb s =
     (case tcp_fin_acked_stage k th skb s of
        Inl r \<Rightarrow> r
      | Inr s \<Rightarrow>
          (let expected = (skb_seq skb = rcv_nxt (tcb_of (tsks s k)));
               (skb, s) = tcp_text_stage k th skb s
           in if th_fin th \<and> expected \<and> sk_state (tsks s k) \<in> {TCP_CLOSE, TCP_LISTEN, TCP_SYN_SENT}
              then (0, free_skb skb, s)
              else
                (let s = (if th_fin th \<and> expected then tcp_fin_stage k s else s);
                     s = tcp_delack_stage k th skb expected s
                 in (0, free_skb skb, s))))"

definition tcp_input_state ::
  "nat \<Rightarrow> tcphdr \<Rightarrow> bytes \<Rightarrow> sk_buff \<Rightarrow> bytes \<Rightarrow> u8 \<Rightarrow> sched \<Rightarrow> tcpstate
   \<Rightarrow> (int \<times> sk_buff \<times> sched \<times> tcpstate) option" where
  "tcp_input_state k th opts skb saddr family env s =
     (case sk_state (tsks s k) of
        TCP_CLOSE \<Rightarrow> (let (rc, skb, s) = tcp_closed k th skb s in Some (rc, skb, env, s))
      | TCP_LISTEN \<Rightarrow> tcp_listen k th opts skb saddr family env s
      | TCP_SYN_SENT \<Rightarrow> tcp_synsent k th opts skb env s
      | _ \<Rightarrow>
          if \<not> tcp_verify_segment th skb (tsks s k) then
            Some (0, free_skb skb, env, if th_rst th then s else snd (tcp_send_ack k s))
          else if th_rst th then
            Some (0, free_skb skb, env, snd (tcp_recv_notify k (tcp_enter_time_wait k s)))
          else if th_syn th then
            Some (0, free_skb skb, env, snd (tcp_send_challenge_ack s))
          else if \<not> th_ack th then Some (0, free_skb skb, env, s)
          else case tcp_ack_stage k th skb s of
                 Inl (rc, skb, s) \<Rightarrow> Some (rc, skb, env, s)
               | Inr s \<Rightarrow> (let (rc, skb, s) = tcp_input_tail k th skb s in Some (rc, skb, env, s)))"

end
