(* ===== verification/Socket.thy ===== *)
theory Socket
  imports Tcp_Input
begin

text \<open>
  The socket table of \<open>src/socket.c\<close> and \<open>src/sock.c\<close>: creation, references, release, and the lookups that
  the protocols use. The table lock is not modelled: each function here runs under it. Pointers to
  IPv6 addresses are options.
\<close>

section \<open>Operations\<close>

text \<open>Fields of the \<open>struct sock\<close> behind a socket, whichever protocol it has.\<close>

definition sk_family_of :: "nat \<Rightarrow> tcpstate \<Rightarrow> u8" where
  "sk_family_of k s =
     (if so_dgram (socks s k) then sk_addr_family (usks s k) else sk_addr_family (tsks s k))"

definition sk_protocol_of :: "nat \<Rightarrow> tcpstate \<Rightarrow> int" where
  "sk_protocol_of k s =
     (if so_dgram (socks s k) then sk_protocol (usks s k) else sk_protocol (tsks s k))"

definition sk_sport_of :: "nat \<Rightarrow> tcpstate \<Rightarrow> u16" where
  "sk_sport_of k s = (if so_dgram (socks s k) then sk_sport (usks s k) else sk_sport (tsks s k))"

definition sk_err_of :: "nat \<Rightarrow> tcpstate \<Rightarrow> int" where
  "sk_err_of k s = (if so_dgram (socks s k) then sk_err (usks s k) else sk_err (tsks s k))"

definition sk_poll_of :: "nat \<Rightarrow> tcpstate \<Rightarrow> u16" where
  "sk_poll_of k s =
     (if so_dgram (socks s k) then sk_poll_events (usks s k) else sk_poll_events (tsks s k))"

definition upd_usk :: "nat \<Rightarrow> (socket_state sock \<Rightarrow> socket_state sock) \<Rightarrow> tcpstate \<Rightarrow> tcpstate" where
  "upd_usk k f s = s\<lparr>usks := (usks s)(k := f (usks s k))\<rparr>"

subsection \<open>References\<close>

definition socket_wr_acquire :: "nat \<Rightarrow> tcpstate \<Rightarrow> tcpstate" where
  "socket_wr_acquire k s = upd_sock k (\<lambda>so. so\<lparr>so_refcnt := so_refcnt so + 1\<rparr>) s"

definition socket_rd_acquire :: "nat \<Rightarrow> tcpstate \<Rightarrow> tcpstate" where
  "socket_rd_acquire k s = upd_sock k (\<lambda>so. so\<lparr>so_refcnt := so_refcnt so + 1\<rparr>) s"

definition socket_release :: "nat \<Rightarrow> tcpstate \<Rightarrow> tcpstate" where
  "socket_release k s =
     (let s = upd_sock k (\<lambda>so. so\<lparr>so_refcnt := so_refcnt so - 1\<rparr>) s
      in if so_refcnt (socks s k) = 0 then s\<lparr>freed_socks := freed_socks s @ [k]\<rparr> else s)"

subsection \<open>Creation\<close>

definition udp_alloc_sock :: "socket_state sock" where
  "udp_alloc_sock =
     \<lparr>sk_protocol = 0, sk_state = SS_UNCONNECTED, sk_err = 0, sk_poll_events = 0, sk_sport = 0,
      sk_dport = 0, sk_addr_family = 0, sk_saddr = replicate 16 0, sk_daddr = replicate 16 0,
      sk_receive_queue = \<lparr>skb_list = [], max_q = 0, qlen = 0\<rparr>,
      sk_write_queue = \<lparr>skb_list = [], max_q = 0, qlen = 0\<rparr>\<rparr>"

definition socket_dgram :: "int \<Rightarrow> u8 \<Rightarrow> tcpstate \<Rightarrow> nat \<times> tcpstate" where
  "socket_dgram pid family s =
     (let (so, s) = alloc_socket pid s;
          k = next_sock s
      in (k, s\<lparr>socks := (socks s)(k := so\<lparr>so_type := 2, so_family := family, so_dgram := True\<rparr>),
               usks := (usks s)(k := family_create family 17 udp_alloc_sock), sockets := sockets s @ [k],
               next_sock := k + 1\<rparr>))"

text \<open>\<open>_socket\<close> with a domain within the table of families. A socket that cannot be created has used up a
  descriptor; its protocol is that of its type, whatever was asked for.\<close>

definition socket_call :: "int \<Rightarrow> int \<Rightarrow> int \<Rightarrow> tcpstate \<Rightarrow> int \<times> tcpstate" where
  "socket_call pid domain ty s =
     (case if domain = 2 \<or> domain = 10 then sock_type_lookup ty else None of
        None \<Rightarrow> (-1, snd (alloc_socket pid s))
      | Some dgram \<Rightarrow>
          (let family = word_of_int domain;
               (k, s) = (if dgram then socket_dgram pid family s else socket_stream pid family s);
               s = upd_sock k (\<lambda>so. so\<lparr>so_type := ty\<rparr>) s
           in (so_fd (socks s k), s)))"

subsection \<open>Release\<close>

definition sock_free :: "nat \<Rightarrow> tcpstate \<Rightarrow> tcpstate" where
  "sock_free k s =
     (if so_dgram (socks s k)
      then upd_usk k (\<lambda>u. u\<lparr>sk_receive_queue := fst (skb_queue_free (sk_receive_queue u)),
             sk_write_queue := fst (skb_queue_free (sk_write_queue u))\<rparr>) s
      else upd_tsk k (\<lambda>t. t\<lparr>sk_receive_queue := fst (skb_queue_free (sk_receive_queue t)),
             sk_write_queue := fst (skb_queue_free (sk_write_queue t))\<rparr>) s)"

definition socket_free :: "nat \<Rightarrow> tcpstate \<Rightarrow> tcpstate" where
  "socket_free k s =
     (let s = socket_wr_acquire k s;
          s = s\<lparr>sockets := remove1 k (sockets s)\<rparr>;
          s = sock_free k s;
          s = wait_wakeup k Wait_sleep s
      in socket_release k s)"

definition socket_find :: "nat \<Rightarrow> tcpstate \<Rightarrow> nat option" where
  "socket_find k s = find (\<lambda>j. j = k) (sockets s)"

definition socket_garbage_collect :: "nat \<Rightarrow> tcpstate \<Rightarrow> tcpstate" where
  "socket_garbage_collect k s =
     (case socket_find k s of None \<Rightarrow> s | Some j \<Rightarrow> socket_free j s)"

subsection \<open>Lookups\<close>

definition get_socket :: "int \<Rightarrow> int \<Rightarrow> tcpstate \<Rightarrow> nat option" where
  "get_socket pid fd s = find (\<lambda>k. so_pid (socks s k) = pid \<and> so_fd (socks s k) = fd) (sockets s)"

definition tcp_sock_match_established ::
  "tcp_sock \<Rightarrow> u8 \<Rightarrow> u32 \<Rightarrow> u32 \<Rightarrow> in6_addr option \<Rightarrow> in6_addr option \<Rightarrow> u16 \<Rightarrow> u16 \<Rightarrow> bool" where
  "tcp_sock_match_established sk family remotesaddr localsaddr remote6 local6 remoteport localport =
     (if sk_protocol sk \<noteq> 6 \<or> sk_state sk = TCP_LISTEN then False
      else if sk_sport sk \<noteq> localport \<or> sk_dport sk \<noteq> remoteport then False
      else if family = AF_INET6 then
        (case (remote6, local6) of
           (Some r, Some l) \<Rightarrow> ipv6_addr_equal (sk_daddr sk) r \<and> ipv6_addr_equal (sk_saddr sk) l
         | _ \<Rightarrow> False)
      else un_v4 (sk_daddr sk) = remotesaddr \<and> un_v4 (sk_saddr sk) = localsaddr)"

definition tcp_sock_match_listener ::
  "tcp_sock \<Rightarrow> u8 \<Rightarrow> u32 \<Rightarrow> in6_addr option \<Rightarrow> u16 \<Rightarrow> bool" where
  "tcp_sock_match_listener sk family localsaddr local6 localport =
     (if sk_protocol sk \<noteq> 6 \<or> sk_state sk \<noteq> TCP_LISTEN then False
      else if sk_sport sk \<noteq> localport then False
      else if family = AF_INET6 then
        (case local6 of
           None \<Rightarrow> True
         | Some l \<Rightarrow> ipv6_addr_is_unspecified l \<or> ipv6_addr_equal (sk_saddr sk) l)
      else un_v4 (sk_saddr sk) = localsaddr)"

definition tcp_lookup_established ::
  "u8 \<Rightarrow> u32 \<Rightarrow> u32 \<Rightarrow> in6_addr option \<Rightarrow> in6_addr option \<Rightarrow> u16 \<Rightarrow> u16 \<Rightarrow> tcpstate \<Rightarrow> nat option" where
  "tcp_lookup_established family remotesaddr localsaddr remote6 local6 remoteport localport s =
     find (\<lambda>k. \<not> so_dgram (socks s k) \<and> sk_addr_family (tsks s k) = family \<and>
       tcp_sock_match_established (tsks s k) family remotesaddr localsaddr remote6 local6
         remoteport localport) (sockets s)"

definition tcp_lookup_listener ::
  "u8 \<Rightarrow> u32 \<Rightarrow> in6_addr option \<Rightarrow> u16 \<Rightarrow> tcpstate \<Rightarrow> nat option" where
  "tcp_lookup_listener family localsaddr local6 localport s =
     find (\<lambda>k. \<not> so_dgram (socks s k) \<and> sk_addr_family (tsks s k) = family \<and>
       tcp_sock_match_listener (tsks s k) family localsaddr local6 localport) (sockets s)"

definition socket_lookup ::
  "u8 \<Rightarrow> u32 \<Rightarrow> u32 \<Rightarrow> in6_addr option \<Rightarrow> in6_addr option \<Rightarrow> u16 \<Rightarrow> u16 \<Rightarrow> tcpstate \<Rightarrow> nat option" where
  "socket_lookup family remotesaddr localsaddr remote6 local6 remoteport localport s =
     (case tcp_lookup_established family remotesaddr localsaddr remote6 local6 remoteport localport s of
        Some k \<Rightarrow> Some k
      | None \<Rightarrow> tcp_lookup_listener family localsaddr local6 localport s)"

definition socket_lookup_udp :: "u8 \<Rightarrow> u16 \<Rightarrow> tcpstate \<Rightarrow> nat option" where
  "socket_lookup_udp family localport s =
     find (\<lambda>k. sk_family_of k s = family \<and> sk_protocol_of k s = 17 \<and> sk_sport_of k s = localport)
       (sockets s)"

definition socker_find_protocol_port :: "u16 \<Rightarrow> int \<Rightarrow> tcpstate \<Rightarrow> nat option" where
  "socker_find_protocol_port port protocol s =
     find (\<lambda>k. sk_protocol_of k s = protocol \<and> sk_sport_of k s = port) (sockets s)"

definition inet_lookup :: "u32 \<Rightarrow> u32 \<Rightarrow> u16 \<Rightarrow> u16 \<Rightarrow> tcpstate \<Rightarrow> nat option" where
  "inet_lookup saddr daddr sport dport s = socket_lookup AF_INET saddr daddr None None sport dport s"

definition inet6_lookup :: "in6_addr \<Rightarrow> in6_addr \<Rightarrow> u16 \<Rightarrow> u16 \<Rightarrow> tcpstate \<Rightarrow> nat option" where
  "inet6_lookup saddr daddr sport dport s =
     socket_lookup AF_INET6 0 0 (Some saddr) (Some daddr) sport dport s"

definition inet_udp_lookup :: "u16 \<Rightarrow> u16 \<Rightarrow> tcpstate \<Rightarrow> nat option" where
  "inet_udp_lookup sport dport s = socket_lookup_udp AF_INET dport s"

subsection \<open>Path MTU\<close>

definition tcp_clamp_mss :: "u16 \<Rightarrow> tcp_sock \<Rightarrow> tcp_sock" where
  "tcp_clamp_mss new_mss t = (if new_mss < smss t then t\<lparr>smss := new_mss, rmss := new_mss\<rparr> else t)"

definition socket_adjust_pmtu6 :: "in6_addr \<Rightarrow> u16 \<Rightarrow> tcpstate \<Rightarrow> tcpstate" where
  "socket_adjust_pmtu6 daddr pmtu s =
     (let new_mss = pmtu - 60
      in fold (\<lambda>k s. if \<not> so_dgram (socks s k) \<and> sk_addr_family (tsks s k) = AF_INET6 \<and>
                 sk_protocol (tsks s k) = 6 \<and> ipv6_addr_equal (sk_daddr (tsks s k)) daddr
               then upd_tsk k (tcp_clamp_mss new_mss) s else s) (sockets s) s)"

end
