(* ===== verification/Tcp.thy ===== *)
theory Tcp
  imports Socket
begin

text \<open>
  The entry points of TCP in \<open>src/tcp.c\<close> (and \<open>tcp_receive\<close> of \<open>src/tcp_input.c\<close>): segments from IP, the
  operations behind the socket calls, and the timer callbacks. A socket address has the fields of
  \<open>sockaddr_in\<close> and \<open>sockaddr_in6\<close> by their offsets; ports and addresses are in network order.
\<close>

record sockaddr =
  sa_family :: u16
  sin_port :: u16
  sin_addr :: u32
  sin6_addr :: in6_addr

definition build_sockaddr_from_host_order :: "u16 \<Rightarrow> u32 \<Rightarrow> sockaddr" where
  "build_sockaddr_from_host_order srcport srcaddr =
     \<lparr>sa_family = 2, sin_port = htons srcport, sin_addr = htonl srcaddr, sin6_addr = replicate 16 0\<rparr>"

section \<open>Segments from IP\<close>

text \<open>The segment starts at \<open>off\<close>. The header is converted in place; the payload is taken to start right
  behind the fixed header.\<close>

definition tcp_ntoh_hdr :: "tcphdr \<Rightarrow> tcphdr" where
  "tcp_ntoh_hdr th =
     th\<lparr>th_sport := ntohs (th_sport th), th_dport := ntohs (th_dport th), th_seq := ntohl (th_seq th),
       th_ack_seq := ntohl (th_ack_seq th), th_win := ntohs (th_win th), th_csum := ntohs (th_csum th),
       th_urp := ntohs (th_urp th)\<rparr>"

definition tcp_init_segment :: "nat \<Rightarrow> int \<Rightarrow> sk_buff \<Rightarrow> tcphdr \<times> sk_buff" where
  "tcp_init_segment off tcp_dlen skb =
     (let th = tcp_ntoh_hdr (skb_load dec_tcphdr (int off) skb);
          skb = skb_store enc_tcphdr (int off) th skb;
          dlen = word_of_int tcp_dlen
      in (th, skb\<lparr>skb_seq := th_seq th, skb_dlen := dlen,
                 skb_len := dlen + of_bool (th_syn th) + of_bool (th_fin th),
                 skb_end_seq := th_seq th + dlen, skb_payload := Some (int off + 20)\<rparr>))"

text \<open>\<open>tcp_in\<close> takes the segment at the end of a 20-byte IP header, whatever \<open>ihl\<close> says. The IP header
  is in host order here.\<close>

definition tcp_in :: "sk_buff \<Rightarrow> sched \<Rightarrow> tcpstate \<Rightarrow> (sk_buff \<times> sched \<times> tcpstate) option" where
  "tcp_in skb env s =
     (let iph = skb_load dec_iphdr 14 skb;
          hl = th_hl (skb_load dec_tcphdr 34 skb);
          tcp_dlen = int (unat (ih_len iph)) - int (unat (ih_ihl iph)) * 4 - int (unat hl) * 4;
          (th, skb) = tcp_init_segment 34 tcp_dlen skb
      in case inet_lookup (ih_saddr iph) (ih_daddr iph) (th_sport th) (th_dport th) s of
           None \<Rightarrow> Some (free_skb skb, env, s)
         | Some k \<Rightarrow>
             (let s = socket_wr_acquire k s
              in case tcp_input_state k th (drop 54 (skb_mem skb)) skb (get_bytes 26 16 (skb_mem skb))
                        (sk_addr_family (tsks s k)) env s of
                   None \<Rightarrow> None
                 | Some (rc, skb, env, s) \<Rightarrow> Some (skb, env, socket_release k s)))"

definition tcp_in_v6 :: "sk_buff \<Rightarrow> nat \<Rightarrow> sched \<Rightarrow> tcpstate \<Rightarrow> (sk_buff \<times> sched \<times> tcpstate) option" where
  "tcp_in_v6 skb off env s =
     (let ip6h = skb_load dec_ipv6hdr 14 skb;
          hl = th_hl (skb_load dec_tcphdr (int off) skb);
          tcp_dlen = int (unat (ntohs (i6_payload_len ip6h))) - int (off - 54) - int (unat hl) * 4;
          (th, skb) = tcp_init_segment off tcp_dlen skb
      in case inet6_lookup (i6_saddr ip6h) (i6_daddr ip6h) (th_sport th) (th_dport th) s of
           None \<Rightarrow> Some (free_skb skb, env, s)
         | Some k \<Rightarrow>
             (let s = socket_wr_acquire k s
              in case tcp_input_state k th (drop (off + 20) (skb_mem skb)) skb (i6_saddr ip6h)
                        (sk_addr_family (tsks s k)) env s of
                   None \<Rightarrow> None
                 | Some (rc, skb, env, s) \<Rightarrow> Some (skb, env, socket_release k s)))"

section \<open>Connecting and listening\<close>

definition generate_port :: "tcpstate \<Rightarrow> u16 \<times> tcpstate" where
  "generate_port s =
     (let s = s\<lparr>next_port := next_port s + 1\<rparr>
      in (word_of_int (next_port s + timer_get_tick (timers s) mod 10000), s))"

definition tcp_v4_connect ::
  "nat \<Rightarrow> sockaddr \<Rightarrow> sched \<Rightarrow> tcpstate \<Rightarrow> (int \<times> sched \<times> tcpstate) option" where
  "tcp_v4_connect k addr env s =
     (let (port, s) = generate_port s;
          s = upd_tsk k (\<lambda>t. t\<lparr>sk_dport := ntohs (sin_port addr), sk_sport := port,
                sk_daddr := set_v4 (ntohl (sin_addr addr)) (sk_daddr t),
                sk_saddr := set_v4 0x0a000004 (sk_saddr t)\<rparr>) s
      in tcp_connect k env s)"

definition tcp_v6_pmtu :: "in6_addr \<Rightarrow> tcpstate \<Rightarrow> u16" where
  "tcp_v6_pmtu daddr s =
     (case route6_lookup daddr s of
        None \<Rightarrow> 1500
      | Some i \<Rightarrow>
          (let rt = routes s ! i; dev = devs s (rt_dev rt)
           in if rt_pmtu rt > 0 then rt_pmtu rt
              else ucast (if dev_mtu6 dev > 0 then dev_mtu6 dev else dev_mtu dev)))"

definition tcp_v6_connect ::
  "nat \<Rightarrow> sockaddr \<Rightarrow> nat \<Rightarrow> sched \<Rightarrow> tcpstate \<Rightarrow> (int \<times> sched \<times> tcpstate) option" where
  "tcp_v6_connect k addr addrlen env s =
     (if addrlen < 28 \<or> sa_family addr \<noteq> 10 then Some (- EINVAL, env, s)
      else
        (let (port, s) = generate_port s;
             s = upd_tsk k (\<lambda>t. t\<lparr>sk_dport := ntohs (sin_port addr), sk_sport := port,
                   sk_daddr := sin6_addr addr, sk_saddr := in6_zero\<rparr>) s;
             pmtu = tcp_v6_pmtu (sin6_addr addr) s;
             s = upd_tsk k (\<lambda>t. t\<lparr>smss := pmtu - 60, rmss := pmtu - 60\<rparr>) s
         in tcp_connect k env s))"

definition tcp_v4_bind :: "nat \<Rightarrow> sockaddr \<Rightarrow> tcpstate \<Rightarrow> int \<times> tcpstate" where
  "tcp_v4_bind k addr s =
     (0, upd_tsk k (\<lambda>t. t\<lparr>sk_sport := ntohs (sin_port addr),
           sk_saddr := set_v4 (ntohl (sin_addr addr)) (sk_saddr t)\<rparr>) s)"

definition tcp_v6_bind :: "nat \<Rightarrow> sockaddr \<Rightarrow> nat \<Rightarrow> tcpstate \<Rightarrow> int \<times> tcpstate" where
  "tcp_v6_bind k addr addrlen s =
     (if addrlen < 28 \<or> sa_family addr \<noteq> 10 then (- EINVAL, s)
      else (0, upd_tsk k (\<lambda>t. t\<lparr>sk_sport := ntohs (sin_port addr), sk_saddr := sin6_addr addr\<rparr>) s))"

definition tcp_v4_listen :: "nat \<Rightarrow> int \<Rightarrow> tcpstate \<Rightarrow> int \<times> tcpstate" where
  "tcp_v4_listen k n s =
     (if sk_state (tsks s k) = TCP_CLOSE then
        (let s = tcp_set_state k TCP_LISTEN s
         in (0, upd_tsk k (\<lambda>t. t\<lparr>max_conn := word_of_int n, conn_queue := []\<rparr>) s))
      else (EOPNOTSUPP, s))"

text \<open>\<open>get_established_conn_fd\<close>: the descriptor of the first established connection.\<close>

fun get_established_conn_fd :: "nat \<Rightarrow> sched \<Rightarrow> tcpstate \<Rightarrow> (int \<times> sched \<times> tcpstate) option" where
  "get_established_conn_fd k env s =
     (case conn_queue (tsks s k) of
        c # cs \<Rightarrow> Some (so_fd (socks s c), env, upd_tsk k (\<lambda>t. t\<lparr>conn_queue := cs\<rparr>) s)
      | [] \<Rightarrow>
          if so_flags (socks s k) AND O_NONBLOCK \<noteq> 0 then Some (- EAGAIN, env, s)
          else case env of [] \<Rightarrow> None | e # env' \<Rightarrow> get_established_conn_fd k env' (e s))"

declare get_established_conn_fd.simps [simp del]

text \<open>\<open>tcp_v4_accept\<close>: the descriptor and the peer's address. \<open>get_socket\<close> is not checked.\<close>

definition tcp_v4_accept ::
  "nat \<Rightarrow> sched \<Rightarrow> tcpstate \<Rightarrow> (int \<times> sockaddr option \<times> sched \<times> tcpstate) option" where
  "tcp_v4_accept k env s =
     (if sk_state (tsks s k) \<noteq> TCP_LISTEN then Some (-1, None, env, s)
      else case get_established_conn_fd k env s of
             None \<Rightarrow> None
           | Some (fd, env, s) \<Rightarrow>
               (case get_socket (so_pid (socks s k)) fd s of
                  None \<Rightarrow> Some (fd, None, env, s\<lparr>null_deref := True\<rparr>)
                | Some c \<Rightarrow>
                    Some (fd, Some (build_sockaddr_from_host_order (sk_dport (tsks s c))
                            (un_v4 (sk_daddr (tsks s c)))), env, s)))"

section \<open>Reading and writing\<close>

definition tcp_write :: "nat \<Rightarrow> bytes \<Rightarrow> sched \<Rightarrow> tcpstate \<Rightarrow> (int \<times> sched \<times> tcpstate) option" where
  "tcp_write k buf env s =
     (let t = tsks s k
      in if sk_err t \<noteq> 0 then Some (sk_err t, env, s)
         else case sk_state t of
                TCP_ESTABLISHED \<Rightarrow> tcp_send k buf env s
              | TCP_CLOSE_WAIT \<Rightarrow> tcp_send k buf env s
              | _ \<Rightarrow> Some (- EBADF, env, s))"

text \<open>The loop of \<open>tcp_receive\<close>, after \<open>rlen\<close> bytes: the result, the bytes, the state.\<close>

fun tcp_receive_loop ::
  "nat \<Rightarrow> nat \<Rightarrow> nat \<Rightarrow> bytes \<Rightarrow> sched \<Rightarrow> tcpstate \<Rightarrow> (int \<times> bytes \<times> sched \<times> tcpstate) option" where
  "tcp_receive_loop k len rlen buf env s =
     (if len \<le> rlen then Some (int rlen, buf, env, s)
      else
        (let (bs, n, t) = tcp_data_dequeue (len - rlen) (tsks s k);
             s = upd_tsk k (\<lambda>_. t) s;
             rlen = rlen + n;
             buf = buf @ bs
         in if tsk_flags t AND TCP_PSH \<noteq> 0 then
              Some (int rlen, buf, env, upd_tsk k (\<lambda>t. t\<lparr>tsk_flags := tsk_flags t AND NOT TCP_PSH\<rparr>) s)
            else if tsk_flags t AND TCP_FIN \<noteq> 0 \<or> rlen = len then Some (int rlen, buf, env, s)
            else if so_flags (socks s k) AND O_NONBLOCK \<noteq> 0 then
              Some (if rlen = 0 then - EAGAIN else int rlen, buf, env, s)
            else case env of [] \<Rightarrow> None | e # env' \<Rightarrow> tcp_receive_loop k len rlen buf env' (e s)))"

declare tcp_receive_loop.simps [simp del]

definition tcp_receive ::
  "nat \<Rightarrow> nat \<Rightarrow> sched \<Rightarrow> tcpstate \<Rightarrow> (int \<times> bytes \<times> sched \<times> tcpstate) option" where
  "tcp_receive k len env s =
     (case tcp_receive_loop k len 0 [] env s of
        None \<Rightarrow> None
      | Some (r, buf, env, s) \<Rightarrow> Some (r, buf, env, if r \<ge> 0 then tcp_rearm_user_timeout k s else s))"

definition tcp_read ::
  "nat \<Rightarrow> nat \<Rightarrow> sched \<Rightarrow> tcpstate \<Rightarrow> (int \<times> bytes \<times> sched \<times> tcpstate) option" where
  "tcp_read k len env s =
     (let t = tsks s k
      in case sk_state t of
           TCP_CLOSE \<Rightarrow> Some (- EBADF, [], env, s)
         | TCP_CLOSE_WAIT \<Rightarrow>
             if skb_queue_empty (sk_receive_queue t) \<and> tsk_flags t AND TCP_FIN \<noteq> 0
             then Some (0, [], env, upd_tsk k (\<lambda>t. t\<lparr>tsk_flags := tsk_flags t AND NOT TCP_FIN\<rparr>) s)
             else tcp_receive k len env s
         | TCP_CLOSING \<Rightarrow> Some (sk_err t, [], env, s)
         | TCP_LAST_ACK \<Rightarrow> Some (sk_err t, [], env, s)
         | TCP_TIME_WAIT \<Rightarrow> Some (sk_err t, [], env, s)
         | _ \<Rightarrow> tcp_receive k len env s)"

section \<open>Closing\<close>

definition tcp_close :: "nat \<Rightarrow> sched \<Rightarrow> tcpstate \<Rightarrow> (int \<times> sched \<times> tcpstate) option" where
  "tcp_close k env s =
     (case sk_state (tsks s k) of
        TCP_LISTEN \<Rightarrow> (let (rc, s) = tcp_done k s in Some (rc, env, s))
      | TCP_SYN_SENT \<Rightarrow> (let (rc, s) = tcp_done k s in Some (rc, env, s))
      | TCP_SYN_RECEIVED \<Rightarrow> (let (rc, s) = tcp_done k s in Some (rc, env, s))
      | TCP_ESTABLISHED \<Rightarrow>
          (case tcp_queue_fin k env (tcp_set_state k TCP_FIN_WAIT_1 s) of
             None \<Rightarrow> None
           | Some (rc, env, s) \<Rightarrow> Some (0, env, s))
      | TCP_CLOSE_WAIT \<Rightarrow>
          (case tcp_queue_fin k env s of
             None \<Rightarrow> None
           | Some (rc, env, s) \<Rightarrow> Some (0, env, tcp_set_state k TCP_LAST_ACK s))
      | _ \<Rightarrow> Some (-1, env, upd_tsk k (\<lambda>t. t\<lparr>sk_err := - EBADF\<rparr>) s))"

definition tcp_abort :: "nat \<Rightarrow> tcpstate \<Rightarrow> int \<times> tcpstate" where
  "tcp_abort k s = tcp_done k (snd (tcp_send_reset k s))"

definition tcp_linger :: "nat \<Rightarrow> tcpstate \<Rightarrow> tcpstate" where
  "tcp_linger k s =
     (let s = socket_wr_acquire k s;
          s = tcp_cancel_linger k s;
          (rc, s) = tcp_done k s
      in socket_release k s)"

definition tcp_user_timeout :: "nat \<Rightarrow> tcpstate \<Rightarrow> tcpstate" where
  "tcp_user_timeout k s =
     (let s = socket_wr_acquire k s;
          s = tcp_cancel_linger k s;
          (rc, s) = tcp_abort k s
      in socket_release k s)"

section \<open>Timer callbacks\<close>

text \<open>The thread a timer starts runs its handler on its argument. The RTO callbacks take the socket
  lock, as do the two above; the lifetime callbacks work on the timer's own copy of a device.\<close>

definition timer_callback :: "tm_handler \<Rightarrow> tm_arg option \<Rightarrow> tcpstate \<Rightarrow> tcpstate" where
  "timer_callback h arg s =
     (case (h, arg) of
        (Tcp_connect_rto, Some (Rto_arg k e)) \<Rightarrow>
          socket_release k (tcp_connect_rto k e (socket_wr_acquire k s))
      | (Tcp_retransmission_timeout, Some (Rto_arg k e)) \<Rightarrow>
          socket_release k (tcp_retransmission_timeout k e (socket_wr_acquire k s))
      | (Tcp_send_delack, Some (Sk_arg k)) \<Rightarrow>
          socket_release k (tcp_send_delack k (socket_wr_acquire k s))
      | (Tcp_linger, Some (Sk_arg k)) \<Rightarrow> tcp_linger k s
      | (Tcp_user_timeout, Some (Sk_arg k)) \<Rightarrow> tcp_user_timeout k s
      | (Socket_garbage_collect, Some (Sk_arg k)) \<Rightarrow> socket_garbage_collect k s
      | (Dad_timeout, _) \<Rightarrow> dad_timeout s
      | (Addr6_preferred_expired, Some (Dev_arg dev)) \<Rightarrow> (let dev = addr6_preferred_expired dev in s)
      | (Addr6_valid_expired, Some (Dev_arg dev)) \<Rightarrow> (let dev = addr6_valid_expired dev in s)
      | _ \<Rightarrow> s)"

end
