(* ===== verification/Udp.thy ===== *)
theory Udp
  imports Tcp
begin

text \<open>
  UDP (\<open>src/udp.c\<close>, \<open>src/udp_data.c\<close>, \<open>src/udp_inpute.c\<close>, \<open>src/udp_out.c\<close>). A datagram socket is its
  \<open>struct sock\<close>; its state is one of the socket states.
\<close>

record udphdr =
  uh_sport :: u16
  uh_dport :: u16
  uh_length :: u16
  uh_csum :: u16

definition enc_udphdr :: "udphdr \<Rightarrow> bytes" where
  "enc_udphdr h = le16 (uh_sport h) @ le16 (uh_dport h) @ le16 (uh_length h) @ le16 (uh_csum h)"

definition dec_udphdr :: "bytes \<Rightarrow> udphdr" where
  "dec_udphdr b = \<lparr>uh_sport = get16 b 0, uh_dport = get16 b 2, uh_length = get16 b 4, uh_csum = get16 b 6\<rparr>"

lemma length_enc_udphdr [simp]: "length (enc_udphdr h) = 8"
  by (simp add: enc_udphdr_def)

interpretation udph: packed_struct enc_udphdr dec_udphdr 8 "\<lambda>_. True"
  by unfold_locales (simp_all add: enc_udphdr_def dec_udphdr_def get16_def le16_def)

section \<open>Input\<close>

definition udp_init_head :: "sk_buff \<Rightarrow> udphdr \<times> sk_buff" where
  "udp_init_head skb =
     (let uh = skb_load dec_udphdr 34 skb;
          uh = uh\<lparr>uh_dport := ntohs (uh_dport uh), uh_sport := ntohs (uh_sport uh),
                 uh_length := ntohs (uh_length uh)\<rparr>;
          skb = skb_store enc_udphdr 34 uh skb
      in (uh, skb\<lparr>skb_dlen := ucast (uh_length uh) - 8, skb_payload := Some 42\<rparr>))"

definition udp_checksum_right :: "iphdr \<Rightarrow> sk_buff \<Rightarrow> bool" where
  "udp_checksum_right iph skb \<longleftrightarrow>
     calcuate_udp_checksum (htonl (ih_saddr iph)) (htonl (ih_daddr iph)) (drop 34 (skb_mem skb)) =
     uh_csum (skb_load dec_udphdr 34 skb)"

definition udp_recv_notify :: "nat \<Rightarrow> tcpstate \<Rightarrow> int \<times> tcpstate" where
  "udp_recv_notify k s = (0, wait_wakeup k Wait_recv s)"

definition udp_data_queue :: "nat \<Rightarrow> sk_buff \<Rightarrow> tcpstate \<Rightarrow> sk_buff \<times> tcpstate" where
  "udp_data_queue k skb s =
     (let skb = skb\<lparr>skb_refcnt := skb_refcnt skb + 1\<rparr>;
          s = upd_usk k (\<lambda>u. u\<lparr>sk_receive_queue := skb_queue_tail (sk_receive_queue u) skb,
                sk_poll_events := sk_poll_events u OR (POLLIN OR POLLPRI OR POLLRDNORM OR POLLRDBAND)\<rparr>) s
      in (skb, snd (udp_recv_notify k s)))"

definition udp_in :: "sk_buff \<Rightarrow> tcpstate \<Rightarrow> sk_buff \<times> tcpstate" where
  "udp_in skb s =
     (let iph = skb_load dec_iphdr 14 skb
      in if \<not> udp_checksum_right iph skb then (free_skb skb, s)
         else
           (let (uh, skb) = udp_init_head skb
            in case inet_udp_lookup (uh_sport uh) (uh_dport uh) s of
                 None \<Rightarrow> (free_skb skb, s)
               | Some k \<Rightarrow>
                   (let s = socket_wr_acquire k s;
                        (skb, s) = udp_data_queue k skb s
                    in (skb, socket_release k s))))"

section \<open>Receiving\<close>

text \<open>\<open>udp_data_dequeue\<close>: the length of the datagram, the bytes that fit, the sender.\<close>

definition udp_data_dequeue ::
  "nat \<Rightarrow> nat \<Rightarrow> tcpstate \<Rightarrow> u32 \<times> bytes \<times> sockaddr option \<times> tcpstate" where
  "udp_data_dequeue k userlen s =
     (case skb_peek (sk_receive_queue (usks s k)) of
        None \<Rightarrow> (0, [], None, s)
      | Some skb \<Rightarrow>
          (let addr = build_sockaddr_from_host_order (uh_sport (skb_load dec_udphdr 34 skb))
                 (ih_saddr (skb_load dec_iphdr 14 skb));
               dlen = (if skb_dlen skb > of_nat userlen then userlen else unat (skb_dlen skb));
               s = upd_usk k (\<lambda>u. u\<lparr>sk_receive_queue := (case skb_dequeue (sk_receive_queue u) of
                     None \<Rightarrow> sk_receive_queue u | Some (_, q) \<Rightarrow> q)\<rparr>) s;
               s = (if skb_queue_empty (sk_receive_queue (usks s k))
                    then upd_usk k (\<lambda>u. u\<lparr>sk_poll_events := sk_poll_events u AND NOT POLLIN\<rparr>) s else s)
           in (skb_dlen skb, skb_payload_bytes dlen skb, Some addr, s)))"

fun udp_receive ::
  "nat \<Rightarrow> nat \<Rightarrow> sched \<Rightarrow> tcpstate \<Rightarrow> (int \<times> bytes \<times> sockaddr option \<times> sched \<times> tcpstate) option" where
  "udp_receive k len env s =
     (let (rlen, buf, addr, s) = udp_data_dequeue k len s
      in if sint rlen > 0 then Some (sint rlen, buf, addr, env, s)
         else case env of [] \<Rightarrow> None | e # env' \<Rightarrow> udp_receive k len env' (e s))"

declare udp_receive.simps [simp del]

section \<open>Output\<close>

definition udp_alloc_skb :: "nat \<Rightarrow> sk_buff" where
  "udp_alloc_skb sz =
     (let reserved = ETH_HDR_LEN + IP_HDR_LEN + 8 + sz
      in (skb_reserve (alloc_skb reserved) reserved)\<lparr>skb_protocol := ucast IP_UDP, skb_dlen := of_nat sz,
           skb_seq := 0\<rparr>)"

definition udp_transmit_skb :: "nat \<Rightarrow> sk_buff \<Rightarrow> tcpstate \<Rightarrow> int \<times> sk_buff \<times> tcpstate" where
  "udp_transmit_skb k skb s =
     (let u = usks s k;
          uh = skb_load dec_udphdr 34 skb;
          skb = skb_push skb 8;
          uh = uh\<lparr>uh_sport := htons (sk_sport u), uh_dport := htons (sk_dport u),
                 uh_length := htons (ucast (skb_dlen skb + 8))\<rparr>;
          skb = skb_store enc_udphdr 34 uh skb
      in ip_output (un_v4 (sk_daddr u)) skb s)"

definition udp_out_send :: "nat \<Rightarrow> bytes \<Rightarrow> tcpstate \<Rightarrow> int \<times> tcpstate" where
  "udp_out_send k buf s =
     (let skb = udp_alloc_skb (length buf);
          skb = skb_push skb (length buf);
          skb = skb_put (skb_data skb) buf skb;
          (rc, skb, s) = udp_transmit_skb k skb s
      in (int (length buf), s))"

section \<open>Socket operations\<close>

definition udp_v4_connect :: "nat \<Rightarrow> tcpstate \<Rightarrow> int \<times> tcpstate" where
  "udp_v4_connect k s = (0, upd_usk k (\<lambda>u. u\<lparr>sk_state := SS_CONNECTED\<rparr>) s)"

definition udp_disconnect :: "nat \<Rightarrow> tcpstate \<Rightarrow> int \<times> tcpstate" where
  "udp_disconnect k s = (0, upd_usk k (\<lambda>u. u\<lparr>sk_state := SS_UNCONNECTED\<rparr>) s)"

definition udp_write :: "nat \<Rightarrow> bytes \<Rightarrow> tcpstate \<Rightarrow> int \<times> tcpstate" where
  "udp_write k buf s =
     (let u = usks s k
      in if sk_err u \<noteq> 0 then (sk_err u, s)
         else if sk_state u = SS_UNCONNECTED \<or> sk_state u = SS_CONNECTED then udp_out_send k buf s
         else (- EBADF, s))"

definition udp_read :: "tcpstate \<Rightarrow> int \<times> tcpstate" where
  "udp_read s = (0, s)"

definition udp_close :: "tcpstate \<Rightarrow> int \<times> tcpstate" where
  "udp_close s = (0, s)"

definition udp_abort :: "tcpstate \<Rightarrow> int \<times> tcpstate" where
  "udp_abort s = (0, s)"

definition udp_bind :: "nat \<Rightarrow> sockaddr \<Rightarrow> tcpstate \<Rightarrow> int \<times> tcpstate" where
  "udp_bind k addr s =
     (let sport = ntohs (sin_port addr)
      in case socker_find_protocol_port sport 17 s of
           Some _ \<Rightarrow> (- EADDRINUSE, s)
         | None \<Rightarrow> (0, upd_usk k (\<lambda>u. u\<lparr>sk_sport := sport,
                       sk_saddr := set_v4 (ntohl (sin_addr addr)) (sk_saddr u)\<rparr>) s))"

definition udp_sendto :: "nat \<Rightarrow> bytes \<Rightarrow> sockaddr \<Rightarrow> tcpstate \<Rightarrow> int \<times> tcpstate" where
  "udp_sendto k buf addr s =
     (if sk_err (usks s k) \<noteq> 0 then (sk_err (usks s k), s)
      else udp_out_send k buf (upd_usk k (\<lambda>u. u\<lparr>sk_dport := ntohs (sin_port addr),
             sk_daddr := set_v4 (ntohl (sin_addr addr)) (sk_daddr u)\<rparr>) s))"

definition udp_recvfrom ::
  "nat \<Rightarrow> nat \<Rightarrow> sched \<Rightarrow> tcpstate \<Rightarrow> (int \<times> bytes \<times> sockaddr option \<times> sched \<times> tcpstate) option" where
  "udp_recvfrom k len env s = udp_receive k len env s"

section \<open>The dump of every datagram\<close>

text \<open>The call in \<open>calcuate_udp_checksum\<close>, on the same buffer as the checksum: whether it writes behind the stack buffer.\<close>

definition udp_checksum_oob :: "u32 \<Rightarrow> u32 \<Rightarrow> bytes \<Rightarrow> bool" where
  "udp_checksum_oob saddr daddr uhdr =
     (let len = get16 uhdr 4;
          pseudo = le32 saddr @ le32 daddr @ [0, IP_UDP] @ le16 len;
          total_len = 12 + unat (ntohs len)
      in if total_len > 12 + 1500 then False
         else snd (print_buffer_hexdump (put_bytes (12 + 6) (le16 0) (pseudo @ take (unat (ntohs len)) uhdr))))"

lemma udp_checksum_oob_iff:
  assumes "unat (ntohs (get16 uhdr 4)) \<le> length uhdr"
  shows "udp_checksum_oob saddr daddr uhdr \<longleftrightarrow> 670 < unat (ntohs (get16 uhdr 4)) \<and> unat (ntohs (get16 uhdr 4)) \<le> 1500"
proof -
  define m where "m = unat (ntohs (get16 uhdr 4))"
  define x where "x = le32 saddr @ le32 daddr @ [0, IP_UDP] @ le16 (get16 uhdr 4)"
  have "length (put_bytes 18 (le16 0) (x @ take m uhdr)) = 14 + (min 6 m + (m - 8))"
    using assms by (auto simp: put_bytes_def x_def m_def)
  then show ?thesis
    unfolding udp_checksum_oob_def Let_def x_def [symmetric] m_def [symmetric] print_buffer_hexdump_spec(1) by auto
qed

text \<open>
  Property C23. The checksum of a received datagram, which \<open>udp_in\<close> computes with these arguments before anything else, prints the bytes it
  sums: exactly when the UDP length field is between 671 and 1500, with right checksum or wrong, \<open>print_buffer_hexdump\<close> writes behind
  its stack buffer of 2048 bytes. Shorter datagrams fit, and longer ones are not summed.
\<close>

theorem udp_in_overruns:
  assumes "length (skb_mem skb) = 1600" and "L = unat (ntohs (get16 (skb_mem skb) 38))"
    and "iph = skb_load dec_iphdr 14 skb"
  shows "udp_checksum_oob (htonl (ih_saddr iph)) (htonl (ih_daddr iph)) (drop 34 (skb_mem skb)) \<longleftrightarrow> 670 < L \<and> L \<le> 1500"
proof -
  have L: "L = unat (ntohs (get16 (drop 34 (skb_mem skb)) 4))" using assms(1,2) by (simp add: get16_def nth_drop)
  show ?thesis
  proof (cases "L \<le> 1500")
    case True
    then show ?thesis using udp_checksum_oob_iff [of "drop 34 (skb_mem skb)"] assms(1) by (simp add: L)
  next
    case False
    then show ?thesis by (simp add: udp_checksum_oob_def Let_def L)
  qed
qed

theorem udp_in_overruns_witness:
  "\<exists>skb. length (skb_mem skb) = 1600 \<and>
    udp_checksum_oob (htonl (ih_saddr (skb_load dec_iphdr 14 skb))) (htonl (ih_daddr (skb_load dec_iphdr 14 skb))) (drop 34 (skb_mem skb))"
proof -
  define skb where "skb = (alloc_skb 1600)\<lparr>skb_mem := replicate 38 0 @ [0x03, 0xe8] @ replicate 1560 (0 :: u8)\<rparr>"
  have m: "length (skb_mem skb) = 1600" "get16 (skb_mem skb) 38 = w16 0x03 0xe8"
    by (simp_all add: skb_def get16_def nth_append)
  have "unat (ntohs (w16 0x03 0xe8)) = 1000" by code_simp
  then show ?thesis using udp_in_overruns [OF m(1) refl refl] m by (intro exI [of _ skb]) simp
qed

end
