(* ===== verification/Inet.thy ===== *)
theory Inet
  imports Udp
begin

text \<open>
  The socket calls of \<open>src/socket.c\<close> with the operation tables of \<open>src/inet.c\<close> and \<open>src/inet6.c\<close>: each call finds
  the socket by process and descriptor, holds it, dispatches on its table and lets it go. A table
  entry that is not filled in is a null pointer; calling it sets \<open>null_deref\<close>.
\<close>

section \<open>Streams\<close>

text \<open>The wait of a blocking connect.\<close>

fun inet_wait_connected :: "nat \<Rightarrow> sched \<Rightarrow> tcpstate \<Rightarrow> (sched \<times> tcpstate) option" where
  "inet_wait_connected k env s =
     (if so_state (socks s k) = SS_CONNECTING \<and> sk_err (tsks s k) = - EINPROGRESS
      then case env of [] \<Rightarrow> None | e # env' \<Rightarrow> inet_wait_connected k env' (e s)
      else Some (env, s))"

declare inet_wait_connected.simps [simp del]

definition set_sk_err :: "nat \<Rightarrow> int \<Rightarrow> tcpstate \<Rightarrow> tcpstate" where
  "set_sk_err k e s = upd_tsk k (\<lambda>t. t\<lparr>sk_err := e\<rparr>) s"

definition tcp_net_connect ::
  "nat \<Rightarrow> sockaddr \<Rightarrow> nat \<Rightarrow> sched \<Rightarrow> tcpstate \<Rightarrow> (int \<times> sched \<times> tcpstate) option" where
  "tcp_net_connect k addr addrlen env s =
     (if so_family (socks s k) = AF_INET6 then tcp_v6_connect k addr addrlen env s
      else tcp_v4_connect k addr env s)"

text \<open>After the wait the code takes the socket a second time.\<close>

definition inet_connect_done :: "nat \<Rightarrow> sched \<Rightarrow> tcpstate \<Rightarrow> int \<times> sched \<times> tcpstate" where
  "inet_connect_done k env s =
     (let s = socket_wr_acquire k s;
          e = sk_err (tsks s k)
      in if e \<noteq> 0 then (e, env, s)
         else (e, env, upd_sock k (\<lambda>so. so\<lparr>so_state := SS_CONNECTED\<rparr>) s))"

definition inet_stream_connect ::
  "nat \<Rightarrow> sockaddr \<Rightarrow> nat \<Rightarrow> sched \<Rightarrow> tcpstate \<Rightarrow> (int \<times> sched \<times> tcpstate) option" where
  "inet_stream_connect k addr addrlen env s =
     (if addrlen < 2 then Some (- EINVAL, env, s)
      else if sa_family addr = 0 then Some (- EAFNOSUPPORT, env, s)
      else case so_state (socks s k) of
             SS_CONNECTED \<Rightarrow> Some (- EISCONN, env, set_sk_err k (- EISCONN) s)
           | SS_CONNECTING \<Rightarrow> Some (- EALREADY, env, set_sk_err k (- EALREADY) s)
           | SS_UNCONNECTED \<Rightarrow>
               (let s = set_sk_err k (- EISCONN) s
                in if sk_state (tsks s k) \<noteq> TCP_CLOSE then Some (- EISCONN, env, s)
                   else case tcp_net_connect k addr addrlen env s of
                          None \<Rightarrow> None
                        | Some (rc, env, s) \<Rightarrow>
                            (let s = upd_sock k (\<lambda>so. so\<lparr>so_state := SS_CONNECTING\<rparr>) s;
                                 s = set_sk_err k (- EINPROGRESS) s
                             in if so_flags (socks s k) AND O_NONBLOCK \<noteq> 0
                                then Some (- EINPROGRESS, env, s)
                                else map_option (\<lambda>(env, s). inet_connect_done k env s)
                                       (inet_wait_connected k env s)))
           | _ \<Rightarrow> Some (- EINVAL, env, set_sk_err k (- EINVAL) s))"

definition inet6_stream_connect ::
  "nat \<Rightarrow> sockaddr \<Rightarrow> nat \<Rightarrow> sched \<Rightarrow> tcpstate \<Rightarrow> (int \<times> sched \<times> tcpstate) option" where
  "inet6_stream_connect k addr addrlen env s =
     (if sa_family addr \<noteq> 10 \<and> sa_family addr \<noteq> 0 then Some (- EINVAL, env, s)
      else inet_stream_connect k addr addrlen env s)"

definition inet_bind :: "nat \<Rightarrow> sockaddr \<Rightarrow> nat \<Rightarrow> tcpstate \<Rightarrow> int \<times> tcpstate" where
  "inet_bind k addr addrlen s =
     (if addrlen < 2 then (- EINVAL, s)
      else if sa_family addr = 0 then (- EAFNOSUPPORT, s)
      else if sin_addr addr \<noteq> 0 \<and> netdev_get (ntohl (sin_addr addr)) s = None then (- EADDRNOTAVAIL, s)
      else
        (let s = (if so_dgram (socks s k) then snd (udp_bind k addr s) else snd (tcp_v4_bind k addr s))
         in (sk_err_of k s, s)))"

definition inet6_bind :: "nat \<Rightarrow> sockaddr \<Rightarrow> nat \<Rightarrow> tcpstate \<Rightarrow> int \<times> tcpstate" where
  "inet6_bind k addr addrlen s =
     (if addrlen < 28 then (- EINVAL, s)
      else if sa_family addr \<noteq> 10 then (- EAFNOSUPPORT, s)
      else if sk_protocol_of k s = 6 then tcp_v6_bind k addr addrlen s
      else (0, s))"

definition inet_stream_listen :: "nat \<Rightarrow> int \<Rightarrow> tcpstate \<Rightarrow> int \<times> tcpstate" where
  "inet_stream_listen k n s =
     (if n < 0 \<or> n > 100 then (- EINVAL, s)
      else (let s = snd (tcp_v4_listen k n s) in (sk_err (tsks s k), s)))"

definition inet_stream_accept ::
  "nat \<Rightarrow> nat \<Rightarrow> sched \<Rightarrow> tcpstate \<Rightarrow> (int \<times> sockaddr option \<times> sched \<times> tcpstate) option" where
  "inet_stream_accept k addrlen env s =
     (if addrlen < 2 then Some (- EINVAL, None, env, s) else tcp_v4_accept k env s)"

section \<open>Datagrams\<close>

definition inet_dgram_connect :: "nat \<Rightarrow> sockaddr \<Rightarrow> nat \<Rightarrow> tcpstate \<Rightarrow> int \<times> tcpstate" where
  "inet_dgram_connect k addr addrlen s =
     (if addrlen < 16 \<or> sa_family addr \<noteq> 2 then (- EINVAL, s)
      else
        (let s = upd_usk k (\<lambda>u. u\<lparr>sk_daddr := set_v4 (ntohl (sin_addr addr)) (sk_daddr u),
                   sk_dport := ntohs (sin_port addr)\<rparr>) s
         in (0, upd_sock k (\<lambda>so. so\<lparr>so_state := SS_CONNECTED\<rparr>) s)))"

section \<open>Both\<close>

definition inet_write :: "nat \<Rightarrow> bytes \<Rightarrow> sched \<Rightarrow> tcpstate \<Rightarrow> (int \<times> sched \<times> tcpstate) option" where
  "inet_write k buf env s =
     (if so_dgram (socks s k) then (let (r, s) = udp_write k buf s in Some (r, env, s))
      else tcp_write k buf env s)"

definition inet_read ::
  "nat \<Rightarrow> nat \<Rightarrow> sched \<Rightarrow> tcpstate \<Rightarrow> (int \<times> bytes \<times> sched \<times> tcpstate) option" where
  "inet_read k len env s =
     (if so_dgram (socks s k) then (let (r, s) = udp_read s in Some (r, [], env, s))
      else tcp_read k len env s)"

definition inet_sendto :: "nat \<Rightarrow> bytes \<Rightarrow> sockaddr \<Rightarrow> tcpstate \<Rightarrow> int \<times> tcpstate" where
  "inet_sendto k buf addr s = udp_sendto k buf addr s"

definition inet_recvfrom ::
  "nat \<Rightarrow> nat \<Rightarrow> sched \<Rightarrow> tcpstate \<Rightarrow> (int \<times> bytes \<times> sockaddr option \<times> sched \<times> tcpstate) option" where
  "inet_recvfrom k len env s = udp_recvfrom k len env s"

definition inet_close :: "nat \<Rightarrow> sched \<Rightarrow> tcpstate \<Rightarrow> (int \<times> sched \<times> tcpstate) option" where
  "inet_close k env s =
     (if so_dgram (socks s k) then (let (r, s) = udp_close s in Some (r, env, s))
      else tcp_close k env s)"

definition inet_abort :: "nat \<Rightarrow> tcpstate \<Rightarrow> int \<times> tcpstate" where
  "inet_abort k s =
     (0, if so_dgram (socks s k) then snd (udp_abort s) else snd (tcp_abort k s))"

definition abort_sockets :: "tcpstate \<Rightarrow> tcpstate" where
  "abort_sockets s = fold (\<lambda>k s. snd (inet_abort k s)) (sockets s) s"

definition inet_getpeername :: "nat \<Rightarrow> tcpstate \<Rightarrow> int \<times> sockaddr" where
  "inet_getpeername k s =
     (0, if so_dgram (socks s k)
         then build_sockaddr_from_host_order (sk_dport (usks s k)) (un_v4 (sk_daddr (usks s k)))
         else build_sockaddr_from_host_order (sk_dport (tsks s k)) (un_v4 (sk_daddr (tsks s k))))"

definition inet_getsockname :: "nat \<Rightarrow> tcpstate \<Rightarrow> int \<times> sockaddr" where
  "inet_getsockname k s =
     (0, if so_dgram (socks s k)
         then build_sockaddr_from_host_order (sk_sport (usks s k)) (un_v4 (sk_saddr (usks s k)))
         else build_sockaddr_from_host_order (sk_sport (tsks s k)) (un_v4 (sk_saddr (tsks s k))))"

section \<open>The socket calls\<close>

text \<open>What every call does: look up, hold, dispatch, let go.\<close>

definition with_socket ::
  "int \<Rightarrow> int \<Rightarrow> 'r \<Rightarrow> sched \<Rightarrow> tcpstate \<Rightarrow> (nat \<Rightarrow> sched \<Rightarrow> tcpstate \<Rightarrow> (int \<times> 'r \<times> sched \<times> tcpstate) option)
   \<Rightarrow> (int \<times> 'r \<times> sched \<times> tcpstate) option" where
  "with_socket pid fd none env s f =
     (case get_socket pid fd s of
        None \<Rightarrow> Some (- EBADF, none, env, s)
      | Some k \<Rightarrow>
          (case f k env (socket_wr_acquire k s) of
             None \<Rightarrow> None
           | Some (r, x, env, s) \<Rightarrow> Some (r, x, env, socket_release k s)))"

definition null_call :: "'r \<Rightarrow> sched \<Rightarrow> tcpstate \<Rightarrow> (int \<times> 'r \<times> sched \<times> tcpstate) option" where
  "null_call none env s = Some (0, none, env, s\<lparr>null_deref := True\<rparr>)"

definition add_unit :: "(int \<times> sched \<times> tcpstate) option \<Rightarrow> (int \<times> unit \<times> sched \<times> tcpstate) option" where
  "add_unit r = map_option (\<lambda>(rc, env, s). (rc, (), env, s)) r"

definition connect_call ::
  "int \<Rightarrow> int \<Rightarrow> sockaddr \<Rightarrow> nat \<Rightarrow> sched \<Rightarrow> tcpstate \<Rightarrow> (int \<times> sched \<times> tcpstate) option" where
  "connect_call pid fd addr addrlen env s =
     (case get_socket pid fd s of
        None \<Rightarrow> Some (- EBADF, env, s)
      | Some k \<Rightarrow>
          (let s = socket_wr_acquire k s
           in case (if so_dgram (socks s k) then
                      (if so_family (socks s k) = AF_INET6 then Some (0, env, s\<lparr>null_deref := True\<rparr>)
                       else (let (r, s) = inet_dgram_connect k addr addrlen s in Some (r, env, s)))
                    else if so_family (socks s k) = AF_INET6 then inet6_stream_connect k addr addrlen env s
                    else inet_stream_connect k addr addrlen env s) of
                None \<Rightarrow> None
              | Some (rc, env, s) \<Rightarrow>
                  (let s = socket_release k s
                   in Some (rc, env, if rc \<in> {- EINVAL, - EAFNOSUPPORT, - ECONNREFUSED, - ETIMEDOUT}
                                     then socket_free k s else s))))"

definition bind_call ::
  "int \<Rightarrow> int \<Rightarrow> sockaddr \<Rightarrow> nat \<Rightarrow> sched \<Rightarrow> tcpstate \<Rightarrow> (int \<times> unit \<times> sched \<times> tcpstate) option" where
  "bind_call pid fd addr addrlen env s =
     with_socket pid fd () env s (\<lambda>k env s.
       (let (r, s) = (if so_family (socks s k) = AF_INET6 then inet6_bind k addr addrlen s
                      else inet_bind k addr addrlen s)
        in Some (r, (), env, s)))"

definition listen_call ::
  "int \<Rightarrow> int \<Rightarrow> int \<Rightarrow> sched \<Rightarrow> tcpstate \<Rightarrow> (int \<times> unit \<times> sched \<times> tcpstate) option" where
  "listen_call pid fd n env s =
     with_socket pid fd () env s (\<lambda>k env s.
       if so_dgram (socks s k) then null_call () env s
       else (let (r, s) = inet_stream_listen k n s in Some (r, (), env, s)))"

definition accept_call ::
  "int \<Rightarrow> int \<Rightarrow> nat \<Rightarrow> sched \<Rightarrow> tcpstate \<Rightarrow> (int \<times> sockaddr option \<times> sched \<times> tcpstate) option" where
  "accept_call pid fd addrlen env s =
     with_socket pid fd None env s (\<lambda>k env s.
       if so_dgram (socks s k) then null_call None env s else inet_stream_accept k addrlen env s)"

definition sendto_call ::
  "int \<Rightarrow> int \<Rightarrow> bytes \<Rightarrow> sockaddr \<Rightarrow> sched \<Rightarrow> tcpstate \<Rightarrow> (int \<times> unit \<times> sched \<times> tcpstate) option" where
  "sendto_call pid fd buf addr env s =
     with_socket pid fd () env s (\<lambda>k env s.
       if so_dgram (socks s k) then (let (r, s) = inet_sendto k buf addr s in Some (r, (), env, s))
       else null_call () env s)"

definition recvfrom_call ::
  "int \<Rightarrow> int \<Rightarrow> nat \<Rightarrow> sched \<Rightarrow> tcpstate
   \<Rightarrow> (int \<times> (bytes \<times> sockaddr option) \<times> sched \<times> tcpstate) option" where
  "recvfrom_call pid fd count env s =
     with_socket pid fd ([], None) env s (\<lambda>k env s.
       if so_dgram (socks s k)
       then map_option (\<lambda>(r, buf, addr, env, s). (r, (buf, addr), env, s)) (inet_recvfrom k count env s)
       else null_call ([], None) env s)"

definition write_call ::
  "int \<Rightarrow> int \<Rightarrow> bytes \<Rightarrow> sched \<Rightarrow> tcpstate \<Rightarrow> (int \<times> unit \<times> sched \<times> tcpstate) option" where
  "write_call pid fd buf env s =
     with_socket pid fd () env s (\<lambda>k env s. add_unit (inet_write k buf env s))"

definition read_call ::
  "int \<Rightarrow> int \<Rightarrow> nat \<Rightarrow> sched \<Rightarrow> tcpstate \<Rightarrow> (int \<times> bytes \<times> sched \<times> tcpstate) option" where
  "read_call pid fd count env s = with_socket pid fd [] env s (\<lambda>k env s. inet_read k count env s)"

definition close_call ::
  "int \<Rightarrow> int \<Rightarrow> sched \<Rightarrow> tcpstate \<Rightarrow> (int \<times> unit \<times> sched \<times> tcpstate) option" where
  "close_call pid fd env s = with_socket pid fd () env s (\<lambda>k env s. add_unit (inet_close k env s))"

text \<open>\<open>_poll\<close>: one scan gives the returned events, or nothing when a descriptor is unknown. Between two
  scans the caller sleeps for 10 ms.\<close>

fun poll_scan :: "int \<Rightarrow> (int \<times> u16) list \<Rightarrow> tcpstate \<Rightarrow> u16 list option" where
  "poll_scan pid [] s = Some []"
| "poll_scan pid ((fd, events) # fds) s =
     (case get_socket pid fd s of
        None \<Rightarrow> None
      | Some k \<Rightarrow>
          map_option (\<lambda>r. (sk_poll_of k s AND (events OR POLLHUP OR POLLERR OR 0x020)) # r)
            (poll_scan pid fds s))"

fun poll_call ::
  "int \<Rightarrow> (int \<times> u16) list \<Rightarrow> int \<Rightarrow> sched \<Rightarrow> tcpstate \<Rightarrow> (int \<times> u16 list \<times> sched \<times> tcpstate) option" where
  "poll_call pid fds timeout env s =
     (case poll_scan pid fds s of
        None \<Rightarrow> Some (- EBADF, [], env, s)
      | Some revents \<Rightarrow>
          (let polled = int (length (filter (\<lambda>r. sint r > 0) revents))
           in if polled > 0 \<or> timeout = 0 then Some (polled, revents, env, s)
              else case env of
                     [] \<Rightarrow> None
                   | e # env' \<Rightarrow>
                       poll_call pid fds
                         (if timeout > 10 then timeout - 10 else if timeout > 0 then 0 else timeout)
                         env' (e s)))"

declare poll_call.simps [simp del]

definition fcntl_call ::
  "int \<Rightarrow> int \<Rightarrow> int \<Rightarrow> u32 \<Rightarrow> sched \<Rightarrow> tcpstate \<Rightarrow> (int \<times> unit \<times> sched \<times> tcpstate) option" where
  "fcntl_call pid fd cmd arg env s =
     with_socket pid fd () env s (\<lambda>k env s.
       if cmd = 3 then Some (sint (so_flags (socks s k)), (), env, s)
       else if cmd = 4 then Some (0, (), env, upd_sock k (\<lambda>so. so\<lparr>so_flags := arg\<rparr>) s)
       else Some (-1, (), env, s))"

definition getsockopt_call ::
  "int \<Rightarrow> int \<Rightarrow> int \<Rightarrow> int \<Rightarrow> sched \<Rightarrow> tcpstate \<Rightarrow> (int \<times> int option \<times> sched \<times> tcpstate) option" where
  "getsockopt_call pid fd level optname env s =
     with_socket pid fd None env s (\<lambda>k env s.
       if level = 1 then
         (if optname = 4 then Some (0, Some (sk_err_of k s), env, s) else Some (-92, None, env, s))
       else Some (- EINVAL, None, env, s))"

definition getpeername_call ::
  "int \<Rightarrow> int \<Rightarrow> sched \<Rightarrow> tcpstate \<Rightarrow> (int \<times> sockaddr option \<times> sched \<times> tcpstate) option" where
  "getpeername_call pid fd env s =
     with_socket pid fd None env s (\<lambda>k env s.
       (let (r, a) = inet_getpeername k s in Some (r, Some a, env, s)))"

definition getsockname_call ::
  "int \<Rightarrow> int \<Rightarrow> sched \<Rightarrow> tcpstate \<Rightarrow> (int \<times> sockaddr option \<times> sched \<times> tcpstate) option" where
  "getsockname_call pid fd env s =
     with_socket pid fd None env s (\<lambda>k env s.
       (let (r, a) = inet_getsockname k s in Some (r, Some a, env, s)))"

end
