(* ===== verification/Ipv6_Exthdr.thy ===== *)
theory Ipv6_Exthdr
  imports Ipv6_Types
begin

text \<open>
  The walk over IPv6 extension headers (\<open>src/ipv6_exthdr.c\<close>). \<open>p\<close> is the memory from \<open>ptr\<close> on; the
  bound of eight iterations is the code's own.
\<close>

record ipv6_exthdr_result =
  er_final_nexthdr :: u8
  er_has_frag :: bool
  er_frag_off :: u16
  er_frag_id :: u32
  er_consumed :: u32

abbreviation (input) IPV6_FRAG_OFFSET_MASK :: u16 where "IPV6_FRAG_OFFSET_MASK \<equiv> 0xFFF8"

fun ipv6_exthdr_loop ::
  "nat \<Rightarrow> u8 \<Rightarrow> bytes \<Rightarrow> u16 \<Rightarrow> u16 \<Rightarrow> ipv6_exthdr_result \<Rightarrow> int \<times> ipv6_exthdr_result" where
  "ipv6_exthdr_loop 0 nexthdr p consumed plen res = (-1, res)"
| "ipv6_exthdr_loop (Suc n) nexthdr p consumed plen res =
     (if nexthdr = NEXTHDR_TCP \<or> nexthdr = NEXTHDR_UDP \<or> nexthdr = NEXTHDR_ICMPV6 \<or> nexthdr = NEXTHDR_NONE then
        (0, res\<lparr>er_final_nexthdr := nexthdr, er_consumed := ucast consumed\<rparr>)
      else if nexthdr = NEXTHDR_HOP \<or> nexthdr = NEXTHDR_ROUTING \<or> nexthdr = NEXTHDR_DEST then
        (if unat consumed + 2 > unat plen then (-1, res)
         else
           (let optlen = (ucast (p ! 1) + 1) * 8 :: u16
            in if unat consumed + unat optlen > unat plen then (-1, res)
               else ipv6_exthdr_loop n (p ! 0) (drop (unat optlen) p) (consumed + optlen) plen res))
      else if nexthdr = NEXTHDR_FRAGMENT then
        (if unat consumed + 8 > unat plen then (-1, res)
         else
           (let res = res\<lparr>er_has_frag := True,
                  er_frag_off := drop_bit 3 (ntohs (get16 p 2) AND IPV6_FRAG_OFFSET_MASK),
                  er_frag_id := ntohl (get32 p 4)\<rparr>
            in ipv6_exthdr_loop n (p ! 0) (drop 8 p) (consumed + 8) plen res))
      else (-1, res))"

definition ipv6_parse_exthdrs :: "u8 \<Rightarrow> bytes \<Rightarrow> u16 \<Rightarrow> int \<times> ipv6_exthdr_result" where
  "ipv6_parse_exthdrs nexthdr start plen =
     ipv6_exthdr_loop 8 nexthdr start 0 plen
       \<lparr>er_final_nexthdr = 0, er_has_frag = False, er_frag_off = 0, er_frag_id = 0, er_consumed = 0\<rparr>"

section \<open>Bounds\<close>

lemmas ext_loop = ipv6_exthdr_loop.simps(2)

declare ipv6_exthdr_loop.simps(2) [simp del]

lemma optlen_bounds: "unat ((ucast (x :: u8) + 1) * 8 :: u16) = (unat x + 1) * 8"
  using u8_less [of x]
  by (simp add: unat_word_ariths unsigned_ucast_eq take_bit_nat_eq_self)

lemma consumed_add:
  "unat (c :: u16) + unat k \<le> unat (plen :: u16) \<Longrightarrow> unat (c + k) = unat c + unat k"
  using u16_less [of plen] by (simp add: unat_word_ariths)

lemma unat_ucast_u32 [simp]: "unat (ucast (c :: u16) :: u32) = unat c"
  using u16_less [of c] by (simp add: unsigned_ucast_eq take_bit_nat_eq_self)

lemma ipv6_exthdr_loop_ok:
  "ipv6_exthdr_loop n nexthdr p c plen res = (r, res') \<Longrightarrow> unat c \<le> unat plen \<Longrightarrow>
     (r = 0 \<or> r = -1) \<and>
     (r = 0 \<longrightarrow> unat (er_consumed res') \<le> unat plen \<and>
        er_final_nexthdr res' \<in> {NEXTHDR_TCP, NEXTHDR_UDP, NEXTHDR_ICMPV6, NEXTHDR_NONE})"
proof (induction n arbitrary: nexthdr p c res)
  case 0 then show ?case by simp
next
  case (Suc n)
  from Suc.prems(1) show ?case
    using Suc.IH [OF _ order.trans [OF eq_imp_le [OF consumed_add]]] Suc.prems(2)
    by (auto simp: ext_loop Let_def consumed_add [of c 8 plen] not_less split: if_splits)
qed

text \<open>The loop reads only the bytes of the payload.\<close>

lemma nth_eq_of_take:
  "take m p = take m q \<Longrightarrow> i < m \<Longrightarrow> m \<le> length p \<Longrightarrow> m \<le> length q \<Longrightarrow> p ! i = q ! i"
  by (metis nth_take)

lemma take_drop_eq:
  "take m p = take m q \<Longrightarrow> k \<le> m \<Longrightarrow> take (m - k) (drop k p) = take (m - k) (drop k q)"
  by (metis drop_take)

lemma ipv6_exthdr_loop_reads:
  assumes "take (unat plen - unat c) p = take (unat plen - unat c) q"
    and "unat plen - unat c \<le> length p" and "unat plen - unat c \<le> length q" and "unat c \<le> unat plen"
  shows "ipv6_exthdr_loop n nexthdr p c plen res = ipv6_exthdr_loop n nexthdr q c plen res"
  using assms
proof (induction n arbitrary: nexthdr p q c res)
  case 0 then show ?case by simp
next
  case (Suc n)
  note eq = nth_eq_of_take [OF Suc.prems(1) _ Suc.prems(2,3)]
  have step: "ipv6_exthdr_loop n h (drop (unat k) p) (c + k) plen r =
      ipv6_exthdr_loop n h (drop (unat k) q) (c + k) plen r"
    if "unat c + unat k \<le> unat plen" for h r k
  proof (rule Suc.IH)
    have u: "unat (c + k) = unat c + unat k" by (rule consumed_add [OF that])
    have m: "unat plen - unat (c + k) = unat plen - unat c - unat k" using u by simp
    show "take (unat plen - unat (c + k)) (drop (unat k) p) =
        take (unat plen - unat (c + k)) (drop (unat k) q)"
      unfolding m using that by (intro take_drop_eq Suc.prems(1)) simp
    show "unat plen - unat (c + k) \<le> length (drop (unat k) p)"
      and "unat plen - unat (c + k) \<le> length (drop (unat k) q)"
      and "unat (c + k) \<le> unat plen"
      using Suc.prems(2,3) that m u by simp_all
  qed
  have opt: "p ! 0 = q ! 0" "p ! 1 = q ! 1" if "unat c + 2 \<le> unat plen"
    using that by (auto intro!: eq)
  have frag: "p ! 0 = q ! 0" "get16 p 2 = get16 q 2" "get32 p 4 = get32 q 4"
    if "unat c + 8 \<le> unat plen"
    using that eq [of 0] eq [of 2] eq [of 3] eq [of 4] eq [of 5] eq [of 6] eq [of 7]
    by (simp_all add: get16_def get32_def)
  show ?case
    using step [of 8] step opt frag
    by (simp add: ext_loop Let_def not_less)
qed

section \<open>Chains\<close>

text \<open>
  The specification: a chain of extension headers and its encoding. An option header has a kind and
  a body that fills a multiple of eight bytes together with the two bytes in front of it.
\<close>

datatype exthdr = Opt_hdr u8 bytes | Frag_hdr u8 u16 u32

fun eh_type :: "exthdr \<Rightarrow> u8" where
  "eh_type (Opt_hdr k b) = k"
| "eh_type (Frag_hdr r off i) = NEXTHDR_FRAGMENT"

fun eh_ok :: "exthdr \<Rightarrow> bool" where
  "eh_ok (Opt_hdr k b) \<longleftrightarrow> (k = NEXTHDR_HOP \<or> k = NEXTHDR_ROUTING \<or> k = NEXTHDR_DEST) \<and>
     (\<exists>m < 256. length b + 2 = (m + 1) * 8)"
| "eh_ok (Frag_hdr r off i) \<longleftrightarrow> True"

fun eh_bytes :: "u8 \<Rightarrow> exthdr \<Rightarrow> bytes" where
  "eh_bytes nx (Opt_hdr k b) = [nx, of_nat ((length b + 2) div 8 - 1)] @ b"
| "eh_bytes nx (Frag_hdr r off i) = [nx, r] @ le16 (htons off) @ le32 (htonl i)"

fun eh_first :: "exthdr list \<Rightarrow> u8 \<Rightarrow> u8" where
  "eh_first [] final = final"
| "eh_first (h # hs) final = eh_type h"

fun eh_chain :: "exthdr list \<Rightarrow> u8 \<Rightarrow> bytes" where
  "eh_chain [] final = []"
| "eh_chain (h # hs) final = eh_bytes (eh_first hs final) h @ eh_chain hs final"

fun eh_note :: "ipv6_exthdr_result \<Rightarrow> exthdr \<Rightarrow> ipv6_exthdr_result" where
  "eh_note res (Opt_hdr k b) = res"
| "eh_note res (Frag_hdr r off i) =
     res\<lparr>er_has_frag := True, er_frag_off := drop_bit 3 (off AND IPV6_FRAG_OFFSET_MASK), er_frag_id := i\<rparr>"

lemma exthdr_loop_step:
  assumes "eh_ok h" and "unat c + length (eh_bytes nx h) \<le> unat plen"
  shows "ipv6_exthdr_loop (Suc n) (eh_type h) (eh_bytes nx h @ rest) c plen res =
     ipv6_exthdr_loop n nx rest (c + of_nat (length (eh_bytes nx h))) plen (eh_note res h)"
proof (cases h)
  case (Opt_hdr k b)
  then obtain m where m: "m < 256" "length b = m * 8 + 6" using assms(1) by auto
  have u: "unat (of_nat m :: u8) = m" using m(1) by (simp add: unat_of_nat)
  have l: "unat (of_nat (length b) + 2 :: u16) = Suc (Suc (length b))"
    using m by (simp add: unat_word_ariths unat_of_nat)
  have "unat ((ucast (of_nat m :: u8) + 1) * 8 :: u16) = Suc (Suc (length b))"
    unfolding optlen_bounds u using m(2) by simp
  with l have w: "(ucast (of_nat m :: u8) + 1) * 8 = (of_nat (length b) + 2 :: u16)"
    by (simp only: word_unat_eq_iff)
  have d: "(length b + 2) div 8 - 1 = m" using m(2) by simp
  define k8 where "k8 = (of_nat (length b) + 2 :: u16)"
  have w: "ucast (of_nat m :: u8) * 8 + 8 = k8" using w by (simp add: k8_def)
  have l: "unat k8 = Suc (Suc (length b))" using l by (simp add: k8_def)
  have fits: "unat c + Suc (Suc (length b)) \<le> unat plen" using assms(2) Opt_hdr by simp
  have k: "k = 0 \<or> k = 43 \<or> k = 60" using assms(1) Opt_hdr by simp
  have e: "eh_bytes nx h @ rest = nx # of_nat m # b @ rest"
    unfolding Opt_hdr eh_bytes.simps d by simp
  have "ipv6_exthdr_loop (Suc n) k (nx # of_nat m # b @ rest) c plen res =
      ipv6_exthdr_loop n nx rest (c + k8) plen res"
    using k fits by (elim disjE) (simp_all add: ext_loop w l)
  moreover have "k8 = of_nat (length (eh_bytes nx h))" by (simp add: Opt_hdr k8_def)
  ultimately show ?thesis unfolding e by (simp add: Opt_hdr)
next
  case (Frag_hdr r off i)
  then show ?thesis
    using assms by (simp add: ext_loop le16_def le32_def get16_def get32_def)
qed

lemma exthdr_loop_chain:
  assumes "list_all eh_ok hs" and "unat c + length (eh_chain hs final) \<le> unat plen"
    and "final \<in> {NEXTHDR_TCP, NEXTHDR_UDP, NEXTHDR_ICMPV6, NEXTHDR_NONE}"
  shows "ipv6_exthdr_loop n (eh_first hs final) (eh_chain hs final @ rest) c plen res =
     (if length hs < n
      then (0, (foldl eh_note res hs)\<lparr>er_final_nexthdr := final,
             er_consumed := of_nat (unat c + length (eh_chain hs final))\<rparr>)
      else (-1, foldl eh_note res (take n hs)))"
  using assms(1,2)
proof (induction hs arbitrary: n c res)
  case Nil
  have "(ucast c :: u32) = of_nat (unat c)" by simp
  with assms(3) show ?case by (cases n) (auto simp: ext_loop)
next
  case (Cons h hs)
  show ?case
  proof (cases n)
    case (Suc m)
    let ?k = "of_nat (length (eh_bytes (eh_first hs final) h)) :: u16"
    have l: "length (eh_bytes (eh_first hs final) h) < 65536"
      using Cons.prems(2) u16_less [of plen] by simp
    have k: "unat ?k = length (eh_bytes (eh_first hs final) h)"
      using l by (simp add: unat_of_nat)
    have u: "unat (c + ?k) = unat c + length (eh_bytes (eh_first hs final) h)"
      using consumed_add [of c ?k plen] Cons.prems(2) k by simp
    have "ipv6_exthdr_loop (Suc m) (eh_first (h # hs) final) (eh_chain (h # hs) final @ rest) c plen res =
        ipv6_exthdr_loop m (eh_first hs final) (eh_chain hs final @ rest) (c + ?k) plen (eh_note res h)"
      using Cons.prems by (simp add: exthdr_loop_step)
    also have "\<dots> = (if length hs < m
      then (0, (foldl eh_note (eh_note res h) hs)\<lparr>er_final_nexthdr := final,
             er_consumed := of_nat (unat (c + ?k) + length (eh_chain hs final))\<rparr>)
      else (-1, foldl eh_note (eh_note res h) (take m hs)))"
      using Cons.prems u by (intro Cons.IH) simp_all
    finally show ?thesis using Suc u by (simp add: add_ac)
  qed simp
qed





end
