(* ===== verification/Input.thy ===== *)
theory Input
  imports Inet Ipv6_Exthdr
begin

text \<open>
  The receive path: Ethernet (\<open>src/netdev.c\<close>), IPv4 (\<open>src/ip_input.c\<close>), ICMPv4 (\<open>src/icmpv4.c\<close>), IPv6
  (\<open>src/ipv6_input.c\<close>) and ICMPv6 (\<open>src/icmpv6.c\<close>). Each handler returns the received buffer as
  it left it, so that its release can be followed.
\<close>

section \<open>ICMPv4\<close>

definition icmpv4_reply :: "sk_buff \<Rightarrow> tcpstate \<Rightarrow> sk_buff \<times> tcpstate" where
  "icmpv4_reply skb s =
     (let iph = skb_load dec_iphdr 14 skb;
          icmp_len = ih_len iph - ucast (ih_ihl iph) * 4;
          skb = skb_reserve skb (ETH_HDR_LEN + IP_HDR_LEN + unat icmp_len);
          skb = skb_push skb (unat icmp_len);
          icmp = skb_data skb;
          skb = skb_put icmp [0x00] skb;
          skb = skb_put (icmp + 2) (le16 0) skb;
          skb = skb_put (icmp + 2)
            (le16 (checksum (get_bytes (nat icmp) (unat icmp_len) (skb_mem skb)) 0)) skb;
          skb = skb\<lparr>skb_protocol := ucast ICMPV4\<rparr>;
          (rc, skb, s) = ip_output (ih_saddr iph) skb s
      in (free_skb skb, s))"

definition icmpv4_incoming :: "sk_buff \<Rightarrow> tcpstate \<Rightarrow> sk_buff \<times> tcpstate" where
  "icmpv4_incoming skb s = (if skb_mem skb ! 34 = 0x08 then icmpv4_reply skb s else (free_skb skb, s))"

section \<open>IPv4\<close>

definition ip_ntoh_hdr :: "iphdr \<Rightarrow> iphdr" where
  "ip_ntoh_hdr ih =
     ih\<lparr>ih_saddr := ntohl (ih_saddr ih), ih_daddr := ntohl (ih_daddr ih), ih_len := ntohs (ih_len ih),
       ih_id := ntohs (ih_id ih)\<rparr>"

definition ip_init_pkt :: "sk_buff \<Rightarrow> sk_buff" where
  "ip_init_pkt skb = skb_store enc_iphdr 14 (ip_ntoh_hdr (skb_load dec_iphdr 14 skb)) skb"

definition ip_rcv :: "sk_buff \<Rightarrow> sched \<Rightarrow> tcpstate \<Rightarrow> (sk_buff \<times> sched \<times> tcpstate) option" where
  "ip_rcv skb env s =
     (let ih = skb_load dec_iphdr 14 skb
      in if ih_version ih \<noteq> 4 then Some (free_skb skb, env, s)
         else if ih_ihl ih < 5 then Some (free_skb skb, env, s)
         else if ih_ttl ih = 0 then Some (free_skb skb, env, s)
         else if checksum (get_bytes 14 (unat (ih_ihl ih) * 4) (skb_mem skb)) 0 \<noteq> 0
         then Some (free_skb skb, env, s)
         else
           (let skb = ip_init_pkt skb
            in if ih_proto ih = ICMPV4 then (let (skb, s) = icmpv4_incoming skb s in Some (skb, env, s))
               else if ih_proto ih = IP_TCP then tcp_in skb env s
               else if ih_proto ih = IP_UDP then (let (skb, s) = udp_in skb s in Some (skb, env, s))
               else Some (free_skb skb, env, s)))"

section \<open>ICMPv6\<close>

abbreviation (input) ICMPV6_DST_UNREACH :: u8 where "ICMPV6_DST_UNREACH \<equiv> 1"
abbreviation (input) ICMPV6_PKT_TOOBIG :: u8 where "ICMPV6_PKT_TOOBIG \<equiv> 2"
abbreviation (input) ICMPV6_TIME_EXCEEDED :: u8 where "ICMPV6_TIME_EXCEEDED \<equiv> 3"
abbreviation (input) ICMPV6_ECHO_REQUEST :: u8 where "ICMPV6_ECHO_REQUEST \<equiv> 128"
abbreviation (input) ICMPV6_ECHO_REPLY :: u8 where "ICMPV6_ECHO_REPLY \<equiv> 129"

definition icmpv6_handle_error :: "sk_buff \<Rightarrow> tcpstate \<Rightarrow> sk_buff \<times> tcpstate" where
  "icmpv6_handle_error skb s = (free_skb skb, s)"

definition icmpv6_pmtu_update :: "sk_buff \<Rightarrow> nat \<Rightarrow> tcpstate \<Rightarrow> sk_buff \<times> tcpstate" where
  "icmpv6_pmtu_update skb off s =
     (if skb_len skb < 14 + 40 + 8 + 40 then (free_skb skb, s)
      else
        (let mtu = ntohl (ic6_body (skb_load dec_icmpv6_hdr (int off) skb));
             orig_daddr = i6_daddr (skb_load dec_ipv6hdr (int (off + 8)) skb);
             s = snd (route6_update_pmtu orig_daddr (ucast mtu) s);
             s = socket_adjust_pmtu6 orig_daddr (ucast mtu) s
         in (free_skb skb, s)))"

text \<open>A copy of \<open>n\<close> bytes from the received buffer. Reading behind its end is noted in the target.\<close>

definition skb_copy_from :: "sk_buff \<Rightarrow> nat \<Rightarrow> nat \<Rightarrow> int \<Rightarrow> sk_buff \<Rightarrow> sk_buff" where
  "skb_copy_from src soff n doff dst =
     (if soff + n \<le> length (skb_mem src) then skb_put doff (get_bytes soff n (skb_mem src)) dst
      else dst\<lparr>skb_oob := True\<rparr>)"

text \<open>The error message \<open>icmpv6_send_error\<close> builds: room for the headers is reserved, and then the message
  is pushed into that same room.\<close>

definition icmpv6_error_skb :: "sk_buff \<Rightarrow> u8 \<Rightarrow> u8 \<Rightarrow> u32 \<Rightarrow> sk_buff" where
  "icmpv6_error_skb skb ty code type_body =
     (let orig = skb_load dec_ipv6hdr 14 skb;
          copy_len = skb_len skb - 14;
          copy_len = unat (if copy_len > 1272 then 1272 else copy_len);
          icmpv6_len = 8 + copy_len;
          err = skb_reserve (alloc_skb (ETH_HDR_LEN + IPV6_HDR_LEN + icmpv6_len)) (ETH_HDR_LEN + IPV6_HDR_LEN);
          err = skb_push err icmpv6_len;
          p = skb_data err;
          err = skb_store enc_icmpv6_hdr p \<lparr>ic6_type = ty, ic6_code = code, ic6_csum = 0, ic6_body = type_body\<rparr> err;
          err = skb_copy_from skb 14 copy_len (p + 8) err;
          err = skb_put (p + 2) (le16 (icmpv6_checksum (i6_daddr orig) (i6_saddr orig)
                  (drop (nat p) (skb_mem err)) (of_nat icmpv6_len))) err
      in err\<lparr>skb_protocol := ETH_P_IPV6\<rparr>)"

definition icmpv6_send_error ::
  "sk_buff \<Rightarrow> u8 \<Rightarrow> u8 \<Rightarrow> u32 \<Rightarrow> tcpstate \<Rightarrow> sk_buff \<times> sk_buff \<times> tcpstate" where
  "icmpv6_send_error skb ty code type_body s =
     (let orig = skb_load dec_ipv6hdr 14 skb;
          err = icmpv6_error_skb skb ty code type_body;
          (rc, err, saddr, s) = ipv6_output err NEXTHDR_ICMPV6 (Some (i6_daddr orig)) (i6_saddr orig) s
      in (free_skb skb, err, s))"

definition icmpv6_send_time_exceeded :: "sk_buff \<Rightarrow> tcpstate \<Rightarrow> sk_buff \<times> sk_buff \<times> tcpstate" where
  "icmpv6_send_time_exceeded skb s = icmpv6_send_error skb ICMPV6_TIME_EXCEEDED 0 0 s"

definition icmpv6_send_dst_unreach :: "sk_buff \<Rightarrow> u8 \<Rightarrow> tcpstate \<Rightarrow> sk_buff \<times> sk_buff \<times> tcpstate" where
  "icmpv6_send_dst_unreach skb code s = icmpv6_send_error skb ICMPV6_DST_UNREACH code 0 s"

definition icmpv6_send_pkt_toobig :: "sk_buff \<Rightarrow> u32 \<Rightarrow> tcpstate \<Rightarrow> sk_buff \<times> sk_buff \<times> tcpstate" where
  "icmpv6_send_pkt_toobig skb mtu s = icmpv6_send_error skb ICMPV6_PKT_TOOBIG 0 (htonl mtu) s"

text \<open>The reply to an echo request at \<open>off\<close>. Its length is that of the whole payload, extension headers
  included.\<close>

definition icmpv6_reply_skb :: "sk_buff \<Rightarrow> ipv6hdr \<Rightarrow> nat \<Rightarrow> sk_buff" where
  "icmpv6_reply_skb skb ip6h off =
     (let n = ntohs (i6_payload_len ip6h);
          reply = skb_reserve (alloc_skb (ETH_HDR_LEN + IPV6_HDR_LEN + unat n)) (ETH_HDR_LEN + IPV6_HDR_LEN);
          reply = skb_copy_from skb off (unat n) (skb_data reply) reply;
          reply = reply\<lparr>skb_len := ucast n\<rparr>;
          reply = skb_put (skb_data reply) [ICMPV6_ECHO_REPLY] reply;
          reply = skb_put (skb_data reply + 2) (le16 0) reply;
          reply = skb_put (skb_data reply + 2) (le16 (icmpv6_checksum (i6_daddr ip6h) (i6_saddr ip6h)
                    (drop (nat (skb_data reply)) (skb_mem reply)) n)) reply
      in reply\<lparr>skb_protocol := ETH_P_IPV6, skb_dev := skb_dev skb\<rparr>)"

definition icmpv6_echo_reply ::
  "sk_buff \<Rightarrow> ipv6hdr \<Rightarrow> nat \<Rightarrow> tcpstate \<Rightarrow> sk_buff \<times> tcpstate" where
  "icmpv6_echo_reply skb ip6h off s =
     (let reply = icmpv6_reply_skb skb ip6h off;
          (rc, reply, saddr, s) =
            ipv6_output reply NEXTHDR_ICMPV6 (Some (i6_daddr ip6h)) (i6_saddr ip6h) s
      in (free_skb skb, s))"

definition icmpv6_incoming :: "sk_buff \<Rightarrow> nat \<Rightarrow> tcpstate \<Rightarrow> sk_buff \<times> tcpstate" where
  "icmpv6_incoming skb off s =
     (let ip6h = skb_load dec_ipv6hdr 14 skb;
          icmpv6_len = ntohs (i6_payload_len ip6h) - of_nat (off - 54);
          ty = ic6_type (skb_load dec_icmpv6_hdr (int off) skb)
      in if icmpv6_checksum (i6_saddr ip6h) (i6_daddr ip6h) (drop off (skb_mem skb)) icmpv6_len \<noteq> 0
         then (free_skb skb, s)
         else if ty = ICMPV6_ECHO_REQUEST then icmpv6_echo_reply skb ip6h off s
         else if ty = ICMPV6_ECHO_REPLY then (free_skb skb, s)
         else if ty = ICMPV6_DST_UNREACH \<or> ty = ICMPV6_TIME_EXCEEDED then icmpv6_handle_error skb s
         else if ty = ICMPV6_PKT_TOOBIG then icmpv6_pmtu_update skb off s
         else if ty \<in> {ICMPV6_ROUTER_SOLICIT, ICMPV6_ROUTER_ADVERT, ICMPV6_NEIGHBOR_SOLICIT,
                       ICMPV6_NEIGHBOR_ADVERT, ICMPV6_REDIRECT}
         then ndp_incoming skb ip6h off s
         else (free_skb skb, s))"

section \<open>IPv6\<close>

definition udp_in_v6_stub :: "sk_buff \<Rightarrow> sk_buff" where
  "udp_in_v6_stub skb = free_skb skb"

definition ipv6_dispatch ::
  "u8 \<Rightarrow> nat \<Rightarrow> sk_buff \<Rightarrow> sched \<Rightarrow> tcpstate \<Rightarrow> (sk_buff \<times> sched \<times> tcpstate) option" where
  "ipv6_dispatch final off skb env s =
     (if final = NEXTHDR_ICMPV6 then (let (skb, s) = icmpv6_incoming skb off s in Some (skb, env, s))
      else if final = NEXTHDR_TCP then tcp_in_v6 skb off env s
      else if final = NEXTHDR_UDP then Some (udp_in_v6_stub skb, env, s)
      else Some (free_skb skb, env, s))"

definition ipv6_rcv :: "sk_buff \<Rightarrow> sched \<Rightarrow> tcpstate \<Rightarrow> (sk_buff \<times> sched \<times> tcpstate) option" where
  "ipv6_rcv skb env s =
     (let ip6h = skb_load dec_ipv6hdr 14 skb;
          plen = ntohs (i6_payload_len ip6h)
      in if ipv6_hdr_version ip6h \<noteq> IPV6_VERSION then Some (free_skb skb, env, s)
         else if unat plen + IPV6_HDR_LEN > unat (skb_len skb) then Some (free_skb skb, env, s)
         else if i6_hop_limit ip6h = 0 then
           (let (skb, err, s) = icmpv6_send_time_exceeded skb s in Some (skb, env, s))
         else
           (let (ret, res) = ipv6_parse_exthdrs (i6_nexthdr ip6h) (drop 54 (skb_mem skb)) plen
            in if ret < 0 then Some (free_skb skb, env, s)
               else if er_has_frag res \<and> er_frag_off res \<noteq> 0 then Some (free_skb skb, env, s)
               else ipv6_dispatch (er_final_nexthdr res) (54 + unat (er_consumed res)) skb env s))"

section \<open>Frames\<close>

definition netdev_receive :: "sk_buff \<Rightarrow> sched \<Rightarrow> tcpstate \<Rightarrow> (sk_buff \<times> sched \<times> tcpstate) option" where
  "netdev_receive skb env s =
     (let (ty, skb) = eth_hdr_ethertype skb
      in if ty = ETH_P_ARP then (let (skb, s) = arp_rcv skb s in Some (skb, env, s))
         else if ty = ETH_P_IP then ip_rcv skb env s
         else if ty = ETH_P_IPV6 then ipv6_rcv skb env s
         else Some (free_skb skb, env, s))"

text \<open>One round of \<open>netdev_rx_loop\<close> on a frame \<open>tun_read\<close> returned.\<close>

definition netdev_rx_frame :: "bytes \<Rightarrow> sched \<Rightarrow> tcpstate \<Rightarrow> (sk_buff \<times> sched \<times> tcpstate) option" where
  "netdev_rx_frame frame env s =
     (let skb = alloc_skb 1600;
          skb = skb_put 0 (take 1600 frame) skb;
          skb = skb\<lparr>skb_len := of_nat (length (take 1600 frame))\<rparr>
      in netdev_receive skb env s)"

end
