(* ===== verification/Icmpv6_Error.thy ===== *)
theory Icmpv6_Error
  imports Input
begin

text \<open>
  Where the error messages of \<open>src/icmpv6.c\<close> are written relative to their buffer.
\<close>

section \<open>ICMPv6 errors\<close>

lemma skb_oob_put: "skb_oob skb \<Longrightarrow> skb_oob (skb_put off bs skb)"
  by (simp add: skb_put_def)

text \<open>
  Property C40. An ICMPv6 error message about a packet of at least 61 bytes (with its Ethernet header) is built in front of its buffer: after the headers
  are reserved, the message is pushed into the same room, so that its first bytes lie before \<open>head\<close>.
\<close>
theorem icmpv6_error_outside:
  assumes "61 \<le> unat (skb_len skb)"
  shows "skb_data (icmpv6_error_skb skb ty code body) < 0 \<and> skb_oob (icmpv6_error_skb skb ty code body)"
proof -
  define n where "n = unat (if skb_len skb - 14 > 1272 then 1272 else skb_len skb - 14)"
  have "unat (skb_len skb - 14) = unat (skb_len skb) - 14"
    using assms by (simp add: unat_sub word_le_nat_alt)
  then have n: "54 < 8 + n" using assms by (auto simp: n_def word_less_nat_alt)
  define e where "e = skb_push (skb_reserve (alloc_skb (54 + (8 + n))) 54) (8 + n)"
  have d: "skb_data e < 0" using n by (simp add: e_def skb_push_def skb_reserve_def alloc_skb_def)
  have o: "skb_oob (skb_put (skb_data e) bs e)" if "bs \<noteq> []" for bs
    using d that by (simp add: skb_put_def)
  have c: "skb_oob x \<Longrightarrow> skb_oob (skb_copy_from skb a b c x)" "skb_data (skb_copy_from skb a b c x) = skb_data x" for x a b c
    by (simp_all add: skb_copy_from_def skb_oob_put)
  show ?thesis
    unfolding icmpv6_error_skb_def skb_store_def enc_icmpv6_hdr_def Let_def
    using d by (simp add: c o skb_oob_put flip: n_def e_def [simplified])
qed

theorem icmpv6_error_outside_witness:
  "skb_data (icmpv6_error_skb ((alloc_skb 61)\<lparr>skb_len := 61\<rparr>) ICMPV6_TIME_EXCEEDED 0 0) < 0"
  using icmpv6_error_outside [of "(alloc_skb 61)\<lparr>skb_len := 61\<rparr>" ICMPV6_TIME_EXCEEDED 0 0] by simp

end
