(* ===== verification/Ipv6_Addr.thy ===== *)
theory Ipv6_Addr
  imports Net_Types
begin

text \<open>
  Text form of IPv6 addresses (\<open>src/ipv6.c\<close>). A C string is its characters before the final zero.
  \<open>Parse_oob\<close> is the outcome of a parse that writes a ninth group behind one of the two arrays of
  eight, which the code detects only afterwards.
\<close>

datatype parse_result = Parsed in6_addr | Parse_error | Parse_oob

section \<open>Operations\<close>

definition hex_digit :: "char \<Rightarrow> nat option" where
  "hex_digit c =
     (let n = of_char c :: nat
      in if 48 \<le> n \<and> n \<le> 57 then Some (n - 48)
         else if 97 \<le> n \<and> n \<le> 102 then Some (n - 87)
         else if 65 \<le> n \<and> n \<le> 70 then Some (n - 55)
         else None)"

text \<open>\<open>sscanf("%x")\<close> reads the digits that were checked before.\<close>

definition parse_hex_group :: "string \<Rightarrow> u16 option" where
  "parse_hex_group s =
     (if s = [] \<or> 4 < length s then None
      else if \<not> list_all (\<lambda>c. hex_digit c \<noteq> None) s then None
      else Some (of_nat (foldl (\<lambda>v c. 16 * v + the (hex_digit c)) 0 s)))"

text \<open>\<open>strstr(str, "::")\<close>, as a position.\<close>

fun find_dcolon :: "nat \<Rightarrow> string \<Rightarrow> nat option" where
  "find_dcolon i [] = None"
| "find_dcolon i (c # cs) =
     (if c = CHR '':'' \<and> cs \<noteq> [] \<and> hd cs = CHR '':'' then Some i else find_dcolon (i + 1) cs)"

text \<open>The loop before \<open>::\<close>: \<open>cur\<close> is the text from \<open>start\<close> to \<open>p\<close>. It ends with the groups and the text after
  the last colon, or with the outcome of the whole function.\<close>

fun parse_left ::
  "nat option \<Rightarrow> nat \<Rightarrow> string \<Rightarrow> u16 list \<Rightarrow> string \<Rightarrow> parse_result + u16 list \<times> string" where
  "parse_left dcolon i cur groups [] = Inr (groups, cur)"
| "parse_left dcolon i cur groups (c # cs) =
     (if c = CHR '':'' then
        (if dcolon = Some i then Inr (groups, cur)
         else case parse_hex_group cur of
                None \<Rightarrow> Inl Parse_error
              | Some g \<Rightarrow> if length groups \<ge> 8 then Inl Parse_oob
                          else parse_left dcolon (i + 1) [] (groups @ [g]) cs)
      else parse_left dcolon (i + 1) (cur @ [c]) groups cs)"

text \<open>The loop after \<open>::\<close> is the same without the stop at \<open>::\<close>. A last group without a colon behind it is
  appended by the code that follows the loops.\<close>

definition parse_last :: "u16 list \<Rightarrow> string \<Rightarrow> parse_result + u16 list" where
  "parse_last groups cur =
     (if cur = [] then Inr groups
      else case parse_hex_group cur of
             None \<Rightarrow> Inl Parse_error
           | Some g \<Rightarrow> if length groups \<ge> 8 then Inl Parse_oob else Inr (groups @ [g]))"

definition store_groups :: "u16 list \<Rightarrow> in6_addr" where
  "store_groups groups = concat (map (\<lambda>g. [ucast (drop_bit 8 g), ucast (g AND 0xff)]) groups)"

definition parse_right :: "string \<Rightarrow> parse_result + u16 list" where
  "parse_right s =
     (case parse_left None 0 [] [] s of
        Inl r \<Rightarrow> Inl r
      | Inr (groups, cur) \<Rightarrow> parse_last groups cur)"

definition ipv6_parse_addr :: "string \<Rightarrow> parse_result" where
  "ipv6_parse_addr str =
     (let dcolon = find_dcolon 0 str
      in case parse_left dcolon 0 [] [] str of
           Inl r \<Rightarrow> r
         | Inr (groups, cur) \<Rightarrow>
             (case dcolon of
                None \<Rightarrow>
                  (case parse_last groups cur of
                     Inl r \<Rightarrow> r
                   | Inr groups \<Rightarrow> if length groups \<noteq> 8 then Parse_error else Parsed (store_groups groups))
              | Some d \<Rightarrow>
                  (case parse_right (drop (d + 2) str) of
                     Inl r \<Rightarrow> r
                   | Inr right \<Rightarrow>
                       if length groups + length right > 8 then Parse_error
                       else Parsed (store_groups
                              (groups @ replicate (8 - length groups - length right) 0 @ right)))))"

definition hex_char :: "nat \<Rightarrow> char" where
  "hex_char n = ''0123456789abcdef'' ! n"

definition hex_byte :: "u8 \<Rightarrow> string" where
  "hex_byte b = [hex_char (unat b div 16), hex_char (unat b mod 16)]"

text \<open>The buffer is as long as \<open>IPV6_ADDR_STRLEN\<close>, so \<open>snprintf\<close> writes everything.\<close>

definition ipv6_addr_to_str :: "in6_addr \<Rightarrow> string" where
  "ipv6_addr_to_str a =
     concat (map (\<lambda>i. hex_byte (a ! (2 * i)) @ hex_byte (a ! (2 * i + 1)) @ '':'') [0..<7]) @
     hex_byte (a ! 14) @ hex_byte (a ! 15)"

section \<open>Printing and parsing\<close>

lemma hex_digit_hex_char: "n < 16 \<Longrightarrow> hex_digit (hex_char n) = Some n"
proof -
  have "\<forall>n \<in> {0..<16}. hex_digit (hex_char n) = Some n"
    by (simp add: hex_digit_def hex_char_def atLeastLessThan_nat_numeral)
  then show "n < 16 \<Longrightarrow> hex_digit (hex_char n) = Some n" by simp
qed

lemma hex_digit_not_colon: "hex_digit c = Some v \<Longrightarrow> c \<noteq> CHR '':''"
  by (auto simp: hex_digit_def)

lemma hex_byte_no_colon: "CHR '':'' \<notin> set (hex_byte b)"
proof -
  have "unat b div 16 < 16" using u8_less [of b] by simp
  then show ?thesis
    by (auto simp: hex_byte_def dest!: hex_digit_hex_char hex_digit_not_colon
        simp: hex_digit_not_colon [OF hex_digit_hex_char, symmetric])
qed

lemma w16_eq_of_nat: "w16 b a = of_nat (256 * unat a + unat b)"
proof -
  have "unat (of_nat (256 * unat a + unat b) :: u16) = 256 * unat a + unat b"
    unfolding unat_of_nat using u8_less [of a] u8_less [of b] by simp
  moreover have "ucast b OR push_bit 8 (ucast a) = ucast b + (push_bit 8 (ucast a) :: u16)"
    by (rule disjunctive_add_eq_or [symmetric], rule bit_word_eqI)
      (auto simp: bit_simps dest: bit_imp_le_length)
  ultimately show ?thesis
    by (simp add: w16_def push_bit_eq_mult)
qed

lemma parse_hex_group_bytes: "parse_hex_group (hex_byte a @ hex_byte b) = Some (w16 b a)"
proof -
  have "unat a div 16 < 16" "unat b div 16 < 16" using u8_less [of a] u8_less [of b] by simp_all
  moreover have "16 * (16 * (16 * (unat a div 16) + unat a mod 16) + unat b div 16) + unat b mod 16 =
      256 * unat a + unat b"
    by (simp add: mult_div_mod_eq [of 16] algebra_simps)
  ultimately show ?thesis
    unfolding w16_eq_of_nat
    by (simp add: parse_hex_group_def hex_byte_def hex_digit_hex_char add.commute
        del: of_nat_add of_nat_mult)
qed

lemma ucast_w16_low [simp]: "ucast (w16 a b AND 0xff) = a"
proof -
  have m: "(0xff :: u16) = mask 8" by (simp add: mask_eq_exp_minus_1)
  show ?thesis
    by (rule bit_word_eqI) (simp add: w16_def m bit_simps)
qed

lemma store_groups_bytes: "store_groups (w16 b a # gs) = [a, b] @ store_groups gs"
  by (simp add: store_groups_def)

text \<open>Texts of groups: non-empty and without a colon.\<close>

lemma parse_left_text:
  "CHR '':'' \<notin> set g \<Longrightarrow> parse_left dc i cur gs (g @ cs) = parse_left dc (i + length g) (cur @ g) gs cs"
  by (induction g arbitrary: i cur) auto

lemma find_dcolon_text:
  "CHR '':'' \<notin> set g \<Longrightarrow> find_dcolon i (g @ cs) = find_dcolon (i + length g) cs"
  by (induction g arbitrary: i) auto

definition group_texts :: "(string \<times> u16) list \<Rightarrow> bool" where
  "group_texts ts = list_all (\<lambda>(t, v). t \<noteq> [] \<and> CHR '':'' \<notin> set t \<and> parse_hex_group t = Some v) ts"

definition colon_join :: "(string \<times> u16) list \<Rightarrow> string" where
  "colon_join ts = concat (map (\<lambda>(t, v). t @ '':'') ts)"

lemma parse_left_groups:
  assumes "group_texts ts" and "length gs + length ts \<le> 8" and "CHR '':'' \<notin> set lst"
  shows "parse_left None i [] gs (colon_join ts @ lst) = Inr (gs @ map snd ts, lst)"
  using assms(1,2)
proof (induction ts arbitrary: i gs)
  case Nil
  then show ?case using parse_left_text [OF assms(3), of None i "[]" gs "[]"] by (simp add: colon_join_def)
next
  case (Cons x ts)
  obtain t v where x: "x = (t, v)" by fastforce
  have IH: "parse_left None j [] (gs @ [v]) (colon_join ts @ lst) = Inr ((gs @ [v]) @ map snd ts, lst)" for j
    using Cons by (intro Cons.IH) (simp_all add: group_texts_def)
  have t: "CHR '':'' \<notin> set t" "parse_hex_group t = Some v"
    using Cons.prems x by (auto simp: group_texts_def)
  have "parse_left None i [] gs (colon_join (x # ts) @ lst) =
      parse_left None i [] gs (t @ CHR '':'' # colon_join ts @ lst)"
    by (simp add: x colon_join_def)
  also have "\<dots> = Inr ((gs @ [v]) @ map snd ts, lst)"
    unfolding parse_left_text [OF t(1)] using t(2) IH Cons.prems(2) by simp
  finally show ?case by (simp add: x)
qed

lemma find_dcolon_groups:
  assumes "group_texts ts" and "CHR '':'' \<notin> set lst" and "lst \<noteq> []"
  shows "find_dcolon i (colon_join ts @ lst) = None \<and> hd (colon_join ts @ lst) \<noteq> CHR '':''"
  using assms(1)
proof (induction ts arbitrary: i)
  case Nil
  show ?case using find_dcolon_text [OF assms(2), of i "[]"] assms(2,3)
    by (cases lst) (auto simp: colon_join_def)
next
  case (Cons x ts)
  obtain t v where x: "x = (t, v)" by fastforce
  have t: "CHR '':'' \<notin> set t" "t \<noteq> []" using Cons.prems x by (auto simp: group_texts_def)
  have IH: "find_dcolon j (colon_join ts @ lst) = None \<and> hd (colon_join ts @ lst) \<noteq> CHR '':''" for j
    using Cons by (intro Cons.IH) (simp add: group_texts_def)
  have eq: "colon_join (x # ts) @ lst = t @ CHR '':'' # colon_join ts @ lst"
    by (simp add: x colon_join_def)
  have "hd t \<noteq> CHR '':''" using t by (cases t) auto
  then show ?case unfolding eq find_dcolon_text [OF t(1)] using IH t(2) by simp
qed

lemma ipv6_parse_full:
  assumes "group_texts ts" and "length ts = 7" and "group_texts [(lst, v)]"
  shows "ipv6_parse_addr (colon_join ts @ lst) = Parsed (store_groups (map snd ts @ [v]))"
proof -
  have l: "CHR '':'' \<notin> set lst" "lst \<noteq> []" "parse_hex_group lst = Some v"
    using assms(3) by (simp_all add: group_texts_def)
  show ?thesis
    using parse_left_groups [OF assms(1), of "[]" lst 0] find_dcolon_groups [OF assms(1) l(1,2), of 0] l assms(2)
    by (simp add: ipv6_parse_addr_def parse_last_def)
qed

lemma hex_byte_nonempty: "hex_byte b \<noteq> []"
  by (simp add: hex_byte_def)

lemma concat_pairs:
  assumes "length a = 16"
  shows "concat (map (\<lambda>i. [a ! (2 * i), a ! (2 * i + 1)]) [0..<8]) = a"
proof -
  obtain b0 b1 b2 b3 b4 b5 b6 b7 b8 b9 b10 b11 b12 b13 b14 b15 where
    "a = [b0, b1, b2, b3, b4, b5, b6, b7, b8, b9, b10, b11, b12, b13, b14, b15]"
    using assms by (auto simp: length_Suc_conv numeral_eq_Suc)
  then show ?thesis by (simp add: upt_rec)
qed

text \<open>
  Property C37. Printing and parsing an IPv6 address are inverse: parsing the text that
  \<open>ipv6_addr_to_str\<close> prints for sixteen bytes gives the same sixteen bytes.
\<close>
theorem ipv6_addr_roundtrip:
  assumes "length a = 16"
  shows "ipv6_parse_addr (ipv6_addr_to_str a) = Parsed a"
proof -
  define grp where "grp = (\<lambda>i. (hex_byte (a ! (2 * i)) @ hex_byte (a ! (2 * i + 1)),
    w16 (a ! (2 * i + 1)) (a ! (2 * i))))"
  have ok: "group_texts [grp i]" for i
    using hex_byte_no_colon parse_hex_group_bytes by (simp add: group_texts_def grp_def hex_byte_nonempty)
  then have oks: "group_texts (map grp [0..<7])" by (simp add: group_texts_def list_all_iff)
  have str: "ipv6_addr_to_str a = colon_join (map grp [0..<7]) @ fst (grp 7)"
    by (simp add: ipv6_addr_to_str_def colon_join_def grp_def comp_def)
  have "store_groups (map snd (map grp [0..<7]) @ [snd (grp 7)]) = concat (map (\<lambda>i. [a ! (2 * i), a ! (2 * i + 1)]) [0..<8])"
    by (simp add: store_groups_def grp_def comp_def upt_rec)
  also have "\<dots> = a" by (rule concat_pairs [OF assms])
  finally have "store_groups (map snd (map grp [0..<7]) @ [snd (grp 7)]) = a" .
  then show ?thesis
    unfolding str using ipv6_parse_full [OF oks, of "fst (grp 7)" "snd (grp 7)"] ok [of 7] by simp
qed

theorem ipv6_addr_roundtrip_witness:
  "ipv6_parse_addr (ipv6_addr_to_str ([0xfe, 0x80] @ replicate 13 0 @ [1])) =
   Parsed ([0xfe, 0x80] @ replicate 13 0 @ [1])"
  by (rule ipv6_addr_roundtrip) simp

section \<open>Compression\<close>

lemma parse_left_stop:
  "CHR '':'' \<notin> set t \<Longrightarrow> parse_left (Some (length t)) 0 [] [] (t @ CHR '':'' # cs) = Inr ([], t)"
  using parse_left_text [of t "Some (length t)" 0 "[]" "[]"] by simp

text \<open>
  The group in front of a \<open>::\<close> is lost, and not even checked to be hexadecimal: a text
  without a colon followed by \<open>::\<close> parses like \<open>::\<close> alone, so \<open>fe80::1\<close> gives the loopback address.
\<close>
lemma ipv6_parse_drops_group:
  assumes "CHR '':'' \<notin> set t"
  shows "ipv6_parse_addr (t @ ''::'' @ r) = ipv6_parse_addr (''::'' @ r)"
proof -
  have d: "find_dcolon 0 (t @ ''::'' @ r) = Some (length t)"
    using find_dcolon_text [OF assms, of 0 "''::'' @ r"] by simp
  have p: "parse_left (Some (length t)) 0 [] [] (t @ ''::'' @ r) = Inr ([], t)"
    using parse_left_stop [OF assms] by simp
  have "ipv6_parse_addr (t @ ''::'' @ r) =
      (case parse_right r of Inl e \<Rightarrow> e
       | Inr right \<Rightarrow> if length right > 8 then Parse_error
           else Parsed (store_groups (replicate (8 - length right) 0 @ right)))"
    unfolding ipv6_parse_addr_def d by (simp only: Let_def p sum.case prod.case option.case) (simp split: sum.split)
  also have "\<dots> = ipv6_parse_addr (''::'' @ r)"
    by (simp add: ipv6_parse_addr_def split: sum.split)
  finally show ?thesis .
qed

lemma ipv6_parse_drops_group_example:
  "ipv6_parse_addr ''fe80::1'' = Parsed (replicate 15 0 @ [1])"
proof -
  have "ipv6_parse_addr ''fe80::1'' = ipv6_parse_addr ''::1''"
    using ipv6_parse_drops_group [of "''fe80''" "''1''"] by simp
  then show ?thesis
    by (simp add: ipv6_parse_addr_def parse_right_def parse_last_def parse_hex_group_def hex_digit_def
        store_groups_def numeral_eq_Suc)
qed

end
