(* ===== verification/Tcp_Frame.thy ===== *)
theory Tcp_Frame
  imports Tcp_Input
begin

text \<open>
  What the operations of TCP leave alone: sending a segment changes only the frames on the wire, the
  neighbour cache and the SACK blocks, and most operations keep the states of the sockets.
\<close>

section \<open>Sending\<close>

text \<open>\<open>net_tx s s'\<close>: nothing but the frames sent and the neighbour cache changed.\<close>

definition net_tx :: "('x) ndpstate_scheme \<Rightarrow> ('x) ndpstate_scheme \<Rightarrow> bool" where
  "net_tx s s' \<longleftrightarrow> (\<exists>tx c n. s' = s\<lparr>tun_tx := tx, ndp_cache := c, ndp_entry_count := n\<rparr>)"

lemma net_tx_refl [intro, simp]: "net_tx s s"
  unfolding net_tx_def
  by (intro exI [of _ "tun_tx s"] exI [of _ "ndp_cache s"] exI [of _ "ndp_entry_count s"]) simp

lemma net_tx_trans [trans]: "net_tx s s' \<Longrightarrow> net_tx s' s'' \<Longrightarrow> net_tx s s''"
  by (auto simp: net_tx_def) (intro exI, rule refl)

lemma net_tx_tun: "net_tx s (s\<lparr>tun_tx := tx\<rparr>)"
  unfolding net_tx_def by (intro exI [of _ tx] exI [of _ "ndp_cache s"] exI [of _ "ndp_entry_count s"]) simp

lemma net_tx_cache: "net_tx s (s\<lparr>ndp_cache := c, ndp_entry_count := n\<rparr>)"
  unfolding net_tx_def by (intro exI [of _ "tun_tx s"] exI [of _ c] exI [of _ n]) simp

lemma netdev_transmit_tx: "net_tx s (snd (snd (netdev_transmit skb m ty s)))"
  by (subst netdev_transmit_state) (rule net_tx_tun)

lemma arp_request_tx: "net_tx s (snd (arp_request x y d s))"
  unfolding arp_request_def Let_def case_prod_beta using netdev_transmit_tx by simp

lemma ndp_send_ns_tx: "net_tx s (snd (ndp_send_ns target src d s))"
  unfolding ndp_send_ns_def nd_send_def Let_def case_prod_beta using netdev_transmit_tx by simp

lemma ndp_entry_alloc_tx: "net_tx s (snd (ndp_entry_alloc a s))"
  by (auto simp: ndp_entry_alloc_def net_tx_cache)

lemma ndp_upd_tx: "net_tx s (ndp_upd i f s)"
  using net_tx_cache [where s = s and n = "ndp_entry_count s"] by (simp add: ndp_upd_def)

lemma ndp_queue_skb_tx: "net_tx s (snd (ndp_queue_skb a skb s))"
  by (auto simp: ndp_queue_skb_def ndp_upd_tx Let_def split: option.splits)

lemma ip_output_tx: "net_tx s (snd (snd (ip_output daddr skb s)))"
  unfolding ip_output_def dst_neigh_output_def Let_def case_prod_beta
  by (auto split: option.splits simp: netdev_transmit_tx arp_request_tx)

lemma dst6_neigh_output_tx: "net_tx s (snd (snd (dst6_neigh_output skb s)))"
  unfolding dst6_neigh_output_def Let_def case_prod_beta
  by (auto split: option.splits simp: netdev_transmit_tx
      intro: ndp_send_ns_tx net_tx_trans [OF ndp_send_ns_tx ndp_queue_skb_tx]
        net_tx_trans [OF ndp_send_ns_tx ndp_entry_alloc_tx]
        net_tx_trans [OF net_tx_trans [OF ndp_send_ns_tx ndp_entry_alloc_tx] ndp_queue_skb_tx])

lemma ipv6_output_tx: "net_tx s (snd (snd (snd (ipv6_output skb nh sa da s))))"
  unfolding ipv6_output_def ipv6_output_ex_def Let_def case_prod_beta
  by (auto split: option.splits simp: dst6_neigh_output_tx)


text \<open>The socket fields that transmitting a segment leaves alone: all but the source address and the SACK
  blocks.\<close>

definition tsk_tx :: "tcp_sock \<Rightarrow> tcp_sock \<Rightarrow> bool" where
  "tsk_tx t t' \<longleftrightarrow> (\<exists>a b n. t' = t\<lparr>sk_saddr := a, sacks := b, sacklen := n\<rparr>)"

lemma tsk_tx_refl [intro, simp]: "tsk_tx t t"
  unfolding tsk_tx_def by (intro exI [of _ "sk_saddr t"] exI [of _ "sacks t"] exI [of _ "sacklen t"]) simp

lemma tsk_tx_trans [trans]: "tsk_tx t t' \<Longrightarrow> tsk_tx t' t'' \<Longrightarrow> tsk_tx t t''"
  by (auto simp: tsk_tx_def) (intro exI, rule refl)

lemma tsk_tx_saddr: "tsk_tx t t' \<Longrightarrow> tsk_tx t (t'\<lparr>sk_saddr := a\<rparr>)"
  unfolding tsk_tx_def
proof (elim exE)
  fix c b n assume "t' = t\<lparr>sk_saddr := c, sacks := b, sacklen := n\<rparr>"
  then show "\<exists>a' b n. t'\<lparr>sk_saddr := a\<rparr> = t\<lparr>sk_saddr := a', sacks := b, sacklen := n\<rparr>"
    by (intro exI [of _ a] exI [of _ b] exI [of _ n]) simp
qed

text \<open>\<open>seg_tx k s s'\<close>: what sending one segment of socket \<open>k\<close> may change.\<close>

definition seg_tx :: "nat \<Rightarrow> tcpstate \<Rightarrow> tcpstate \<Rightarrow> bool" where
  "seg_tx k s s' \<longleftrightarrow> (\<exists>t s1. tsk_tx (tsks s k) t \<and> net_tx s s1 \<and> s' = s1\<lparr>tsks := (tsks s)(k := t)\<rparr>)"

lemma net_tx_sel:
  assumes "net_tx s s'"
  shows "tsks s' = tsks s" "socks s' = socks s" "timers s' = timers s" "sockets s' = sockets s"
    "usks s' = usks s" "wakes s' = wakes s" "next_sock s' = next_sock s" "iss_src s' = iss_src s"
    "null_deref s' = null_deref s" "iss_cnt s' = iss_cnt s"
  using assms by (auto simp: net_tx_def)

lemma net_tx_upd: "net_tx (s\<lparr>tsks := x\<rparr>) s' \<Longrightarrow> \<exists>s1. net_tx s s1 \<and> s' = s1\<lparr>tsks := x\<rparr>"
  unfolding net_tx_def
proof (elim exE)
  fix tx c n assume "s' = s\<lparr>tsks := x, tun_tx := tx, ndp_cache := c, ndp_entry_count := n\<rparr>"
  then show "\<exists>s1. (\<exists>tx c n. s1 = s\<lparr>tun_tx := tx, ndp_cache := c, ndp_entry_count := n\<rparr>) \<and> s' = s1\<lparr>tsks := x\<rparr>"
    by (intro exI [of _ "s\<lparr>tun_tx := tx, ndp_cache := c, ndp_entry_count := n\<rparr>"]) auto
qed

lemma tcp_write_options_tx: "tsk_tx t (snd (tcp_write_options t))"
proof -
  have "tsk_tx t (t\<lparr>sacks := b, sacklen := n\<rparr>)" for b n
    unfolding tsk_tx_def by (intro exI [of _ "sk_saddr t"] exI [of _ b] exI [of _ n]) simp
  then show ?thesis by (simp add: tcp_write_options_def Let_def)
qed

lemma seg_tx_out4:
  assumes "tsk_tx (tsks s k) t"
  shows "seg_tx k s (snd (snd (ip_output d skb (upd_tsk k (\<lambda>_. t) s))))"
  unfolding seg_tx_def using assms net_tx_upd [OF ip_output_tx [where s = "upd_tsk k (\<lambda>_. t) s", unfolded upd_tsk_def]]
  by (auto simp: upd_tsk_def)

lemma seg_tx_out6:
  assumes "tsk_tx (tsks s k) t"
  shows "seg_tx k s (upd_tsk k (\<lambda>t. t\<lparr>sk_saddr := f t\<rparr>) (snd (snd (snd (ipv6_output skb nh sa da (upd_tsk k (\<lambda>_. t) s))))))"
proof -
  obtain s1 where "net_tx s s1"
    "snd (snd (snd (ipv6_output skb nh sa da (upd_tsk k (\<lambda>_. t) s)))) = s1\<lparr>tsks := (tsks s)(k := t)\<rparr>"
    using net_tx_upd [OF ipv6_output_tx [of "upd_tsk k (\<lambda>_. t) s" skb nh sa da, unfolded upd_tsk_def]]
    by (auto simp: upd_tsk_def)
  moreover have "tsk_tx (tsks s k) (t\<lparr>sk_saddr := f t\<rparr>)" using assms by (rule tsk_tx_saddr)
  ultimately show ?thesis
    unfolding seg_tx_def by (intro exI [of _ "t\<lparr>sk_saddr := f t\<rparr>"] exI [of _ s1]) (simp add: upd_tsk_def)
qed

lemma tcp_transmit_skb_tx: "seg_tx k s (snd (snd (tcp_transmit_skb k skb seq s)))"
proof -
  have o: "tsk_tx t (snd (if b then tcp_write_options t else ([], t)))" for b t
    by (simp add: tcp_write_options_tx)
  show ?thesis
    unfolding tcp_transmit_skb_def Let_def case_prod_beta if_distrib [of snd] prod.sel
    by (simp only: prod.sel split: if_split) (intro conjI impI seg_tx_out4 seg_tx_out6 tcp_write_options_tx tsk_tx_refl)
qed

lemma seg_tx_sel:
  assumes "seg_tx k s s'"
  shows "sk_state (tsks s' j) = sk_state (tsks s j)" "sk_write_queue (tsks s' j) = sk_write_queue (tsks s j)"
    "sk_receive_queue (tsks s' j) = sk_receive_queue (tsks s j)" "ofo_queue (tsks s' j) = ofo_queue (tsks s j)"
    "tcb_of (tsks s' j) = tcb_of (tsks s j)" "inflight (tsks s' j) = inflight (tsks s j)"
    "rto_epoch (tsks s' j) = rto_epoch (tsks s j)" "retransmit (tsks s' j) = retransmit (tsks s j)"
    "cwnd (tsks s' j) = cwnd (tsks s j)" "ssthresh (tsks s' j) = ssthresh (tsks s j)"
    "smss (tsks s' j) = smss (tsks s j)" "dupacks (tsks s' j) = dupacks (tsks s j)"
    "in_recovery (tsks s' j) = in_recovery (tsks s j)" "ptsk (tsks s' j) = ptsk (tsks s j)"
    "sk_addr_family (tsks s' j) = sk_addr_family (tsks s j)" "delacks (tsks s' j) = delacks (tsks s j)"
    "linger (tsks s' j) = linger (tsks s j)" "delack (tsks s' j) = delack (tsks s j)"
    "sk_err (tsks s' j) = sk_err (tsks s j)" "sk_poll_events (tsks s' j) = sk_poll_events (tsks s j)"
    "rto (tsks s' j) = rto (tsks s j)" "backoff (tsks s' j) = backoff (tsks s j)"
    "tsk_flags (tsks s' j) = tsk_flags (tsks s j)"
    "socks s' = socks s" "timers s' = timers s" "sockets s' = sockets s" "next_sock s' = next_sock s"
    "wakes s' = wakes s"
  using assms by (auto simp: seg_tx_def tsk_tx_def net_tx_sel split: if_splits)

lemmas tcp_transmit_skb_sel [simp] = seg_tx_sel [OF tcp_transmit_skb_tx]

text \<open>The buffer keeps its place in the stream.\<close>

lemma skb_put_seq [simp]:
  "skb_seq (skb_put off bs skb) = skb_seq skb" "skb_end_seq (skb_put off bs skb) = skb_end_seq skb"
  "skb_dlen (skb_put off bs skb) = skb_dlen skb" "skb_sacked (skb_put off bs skb) = skb_sacked skb"
  by (simp_all add: skb_put_def)

lemma skb_push_seq [simp]:
  "skb_seq (skb_push skb n) = skb_seq skb" "skb_end_seq (skb_push skb n) = skb_end_seq skb"
  "skb_dlen (skb_push skb n) = skb_dlen skb" "skb_sacked (skb_push skb n) = skb_sacked skb"
  by (simp_all add: skb_push_def)

definition same_seg :: "sk_buff \<Rightarrow> sk_buff \<Rightarrow> bool" where
  "same_seg a b \<longleftrightarrow> skb_seq a = skb_seq b \<and> skb_end_seq a = skb_end_seq b \<and> skb_dlen a = skb_dlen b"

lemma same_seg_put [simp]: "same_seg (skb_put off bs skb) b = same_seg skb b" by (simp add: same_seg_def)
lemma same_seg_push [simp]: "same_seg (skb_push skb n) b = same_seg skb b" by (simp add: same_seg_def)
lemma same_seg_refl [simp]: "same_seg b b" by (simp add: same_seg_def)

lemma same_seg_store [simp]: "same_seg (skb_store enc off x skb) b = same_seg skb b"
  by (simp add: skb_store_def)
lemma same_seg_fields [simp]:
  "same_seg (skb\<lparr>skb_dev := d\<rparr>) b = same_seg skb b" "same_seg (skb\<lparr>skb_rt := r\<rparr>) b = same_seg skb b"
  "same_seg (skb\<lparr>skb_oob := x\<rparr>) b = same_seg skb b" "same_seg (skb\<lparr>skb_tcpcsum := c\<rparr>) b = same_seg skb b"
  "same_seg (free_skb skb) b = same_seg skb b"
  by (simp_all add: same_seg_def free_skb_def)
lemma same_seg_trans: "same_seg a b \<Longrightarrow> same_seg b c \<Longrightarrow> same_seg a c" by (simp add: same_seg_def)

lemma netdev_transmit_seg: "same_seg (fst (snd (netdev_transmit skb m ty s))) skb"
  unfolding netdev_transmit_def Let_def case_prod_beta by (simp split: option.split)

lemma dst_neigh_output_seg: "same_seg (fst (snd (dst_neigh_output skb s))) skb"
  unfolding dst_neigh_output_def Let_def case_prod_beta by (simp split: option.split add: netdev_transmit_seg)

lemma ip_send_check_seg [simp]: "same_seg (ip_send_check skb) b = same_seg skb b"
  by (simp add: ip_send_check_def Let_def)

lemma ip_transport_csum_seg [simp]: "same_seg (ip_transport_csum h skb) b = same_seg skb b"
  by (simp add: ip_transport_csum_def)

lemma ip_output_seg: "same_seg (fst (snd (ip_output d skb s))) skb"
proof (cases "route_lookup d s")
  case None
  then show ?thesis by (simp add: ip_output_def)
next
  case (Some i)
  show ?thesis
    unfolding ip_output_def Some Let_def option.case
    by (rule same_seg_trans [OF dst_neigh_output_seg]) (simp only: ip_send_check_seg ip_transport_csum_seg
      same_seg_store same_seg_push same_seg_fields same_seg_refl)
qed

lemma dst6_neigh_output_seg: "same_seg (fst (snd (dst6_neigh_output skb s))) skb"
  unfolding dst6_neigh_output_def Let_def case_prod_beta by (simp split: option.split add: netdev_transmit_seg)

lemma ipv6_output_seg: "same_seg (fst (snd (ipv6_output skb nh sa da s))) skb"
proof (cases "route6_lookup da s")
  case None
  then show ?thesis by (simp add: ipv6_output_def ipv6_output_ex_def)
next
  case (Some i)
  show ?thesis
    unfolding ipv6_output_def ipv6_output_ex_def Some Let_def option.case case_prod_beta if_False prod.sel
    by (rule same_seg_trans [OF dst6_neigh_output_seg]) (simp only: same_seg_put
      same_seg_store same_seg_push same_seg_fields same_seg_refl simp_thms split: if_split)
qed

lemma tcp_transmit_skb_seg: "same_seg (fst (snd (tcp_transmit_skb k skb seq s))) skb"
proof (cases "sk_addr_family (tsks s k) = AF_INET6")
  case True
  show ?thesis
    unfolding tcp_transmit_skb_def Let_def case_prod_beta
    by (simp only: True simp_thms if_True prod.sel) (rule same_seg_trans [OF ipv6_output_seg],
      simp only: same_seg_put same_seg_store same_seg_push same_seg_fields same_seg_refl)
next
  case False
  show ?thesis
    unfolding tcp_transmit_skb_def Let_def case_prod_beta
    by (simp only: False simp_thms if_False prod.sel) (rule same_seg_trans [OF ip_output_seg],
      simp only: same_seg_put same_seg_store same_seg_push same_seg_fields same_seg_refl)
qed

lemmas tcp_transmit_skb_seq [simp] = tcp_transmit_skb_seg [unfolded same_seg_def, THEN conjunct1]
  tcp_transmit_skb_seg [unfolded same_seg_def, THEN conjunct2, THEN conjunct1]
  tcp_transmit_skb_seg [unfolded same_seg_def, THEN conjunct2, THEN conjunct2]

text \<open>Transmitting a queued buffer changes that buffer's header only.\<close>

lemma tcp_transmit_queued_sel [simp]:
  "sk_state (tsks (snd (tcp_transmit_queued k i seq s)) j) = sk_state (tsks s j)"
  "tcb_of (tsks (snd (tcp_transmit_queued k i seq s)) j) = tcb_of (tsks s j)"
  "inflight (tsks (snd (tcp_transmit_queued k i seq s)) j) = inflight (tsks s j)"
  "cwnd (tsks (snd (tcp_transmit_queued k i seq s)) j) = cwnd (tsks s j)"
  "ssthresh (tsks (snd (tcp_transmit_queued k i seq s)) j) = ssthresh (tsks s j)"
  "smss (tsks (snd (tcp_transmit_queued k i seq s)) j) = smss (tsks s j)"
  "rto_epoch (tsks (snd (tcp_transmit_queued k i seq s)) j) = rto_epoch (tsks s j)"
  "rto (tsks (snd (tcp_transmit_queued k i seq s)) j) = rto (tsks s j)"
  "next_sock (snd (tcp_transmit_queued k i seq s)) = next_sock s"
  "qlen (sk_write_queue (tsks (snd (tcp_transmit_queued k i seq s)) j)) = qlen (sk_write_queue (tsks s j))"
  "length (skb_list (sk_write_queue (tsks (snd (tcp_transmit_queued k i seq s)) j))) =
    length (skb_list (sk_write_queue (tsks s j)))"
  unfolding tcp_transmit_queued_def Let_def case_prod_beta
  by (simp_all add: upd_tsk_def skb_queue_upd_def)

definition same_segs :: "sk_buff list \<Rightarrow> sk_buff list \<Rightarrow> bool" where
  "same_segs xs ys \<longleftrightarrow> list_all2 same_seg xs ys"

lemma tcp_transmit_queued_segs:
  "same_segs (skb_list (sk_write_queue (tsks (snd (tcp_transmit_queued k i seq s)) j)))
     (skb_list (sk_write_queue (tsks s j)))"
  unfolding tcp_transmit_queued_def Let_def case_prod_beta same_segs_def
  by (auto simp: upd_tsk_def skb_queue_upd_def list_all2_conv_all_nth nth_list_update tcp_transmit_skb_seg)

section \<open>What keeps the state\<close>

lemma upd_sel [simp]:
  "tsks (upd_timers f s) = tsks s" "tsks (upd_sock k g s) = tsks s" "tsks (wait_wakeup k w s) = tsks s"
  "next_sock (upd_timers f s) = next_sock s" "next_sock (upd_sock k g s) = next_sock s"
  "next_sock (wait_wakeup k w s) = next_sock s" "next_sock (upd_tsk k h s) = next_sock s"
  "next_sock (upd_tcb k h' s) = next_sock s"
  by (simp_all add: tcp_upd_defs)

lemma upd_tsk_at: "tsks (upd_tsk k f s) j = (if j = k then f (tsks s k) else tsks s j)"
  by (simp add: upd_tsk_def)

lemma upd_tcb_at: "tsks (upd_tcb k f s) j =
    (if j = k then (tsks s k)\<lparr>tcb_of := f (tcb_of (tsks s k))\<rparr> else tsks s j)"
  by (simp add: upd_tcb_def upd_tsk_def)

lemma upd_tsk_state: "(\<And>t. sk_state (f t) = sk_state t) \<Longrightarrow> sk_state (tsks (upd_tsk k f s) j) = sk_state (tsks s j)"
  by (simp add: upd_tsk_at)

lemma upd_tcb_state [simp]: "sk_state (tsks (upd_tcb k f s) j) = sk_state (tsks s j)"
  by (simp add: upd_tcb_at)

lemma tcp_set_state_at [simp]:
  "sk_state (tsks (tcp_set_state k st s) j) = (if j = k then st else sk_state (tsks s j))"
  "sk_write_queue (tsks (tcp_set_state k st s) j) = sk_write_queue (tsks s j)"
  "next_sock (tcp_set_state k st s) = next_sock s"
  by (simp_all add: tcp_set_state_def upd_tsk_at)

lemma tcp_timers_state [simp]:
  "sk_state (tsks (tcp_stop_rto_timer k s) j) = sk_state (tsks s j)"
  "sk_state (tsks (tcp_release_rto_timer k s) j) = sk_state (tsks s j)"
  "sk_state (tsks (tcp_stop_delack_timer k s) j) = sk_state (tsks s j)"
  "sk_state (tsks (tcp_release_delack_timer k s) j) = sk_state (tsks s j)"
  "sk_state (tsks (tcp_cancel_linger k s) j) = sk_state (tsks s j)"
  "next_sock (tcp_stop_rto_timer k s) = next_sock s"
  "next_sock (tcp_release_rto_timer k s) = next_sock s"
  "next_sock (tcp_stop_delack_timer k s) = next_sock s"
  "next_sock (tcp_cancel_linger k s) = next_sock s"
  by (simp_all add: tcp_stop_rto_timer_def tcp_release_rto_timer_def tcp_stop_delack_timer_def
      tcp_release_delack_timer_def tcp_cancel_linger_def Let_def upd_tsk_at)

lemma tcp_rearm_rto_timer_state [simp]:
  "sk_state (tsks (tcp_rearm_rto_timer k s) j) = sk_state (tsks s j)"
  "next_sock (tcp_rearm_rto_timer k s) = next_sock s"
  by (simp_all add: tcp_rearm_rto_timer_def Let_def case_prod_beta upd_tsk_at)

lemma tcp_add_linger_state [simp]:
  "sk_state (tsks (tcp_add_linger e h k s) j) = sk_state (tsks s j)"
  "next_sock (tcp_add_linger e h k s) = next_sock s"
  by (simp_all add: tcp_add_linger_def case_prod_beta upd_tsk_at)

lemma tcp_clear_timers_state [simp]:
  "sk_state (tsks (tcp_clear_timers k s) j) = sk_state (tsks s j)"
  "next_sock (tcp_clear_timers k s) = next_sock s"
  by (simp_all add: tcp_clear_timers_def Let_def upd_tsk_at)

lemma tcp_enter_time_wait_state [simp]:
  "sk_state (tsks (tcp_enter_time_wait k s) j) = (if j = k then TCP_TIME_WAIT else sk_state (tsks s j))"
  "next_sock (tcp_enter_time_wait k s) = next_sock s"
  by (simp_all add: tcp_enter_time_wait_def Let_def)

lemma tcp_rearm_user_timeout_state [simp]:
  "sk_state (tsks (tcp_rearm_user_timeout k s) j) = sk_state (tsks s j)"
  "next_sock (tcp_rearm_user_timeout k s) = next_sock s"
  by (simp_all add: tcp_rearm_user_timeout_def Let_def)

lemma tcp_done_state [simp]:
  "sk_state (tsks (snd (tcp_done k s)) j) = (if j = k then TCP_CLOSING else sk_state (tsks s j))"
  "next_sock (snd (tcp_done k s)) = next_sock s"
  by (simp_all add: tcp_done_def tcp_free_def tcp_clear_queues_def socket_delete_def Let_def upd_tsk_at)

lemma tcp_send_ack_state [simp]:
  "sk_state (tsks (snd (tcp_send_ack k s)) j) = sk_state (tsks s j)"
  "next_sock (snd (tcp_send_ack k s)) = next_sock s"
  "sk_write_queue (tsks (snd (tcp_send_ack k s)) j) = sk_write_queue (tsks s j)"
  by (simp_all add: tcp_send_ack_def Let_def case_prod_beta)

lemma tcp_send_reset_state [simp]:
  "sk_state (tsks (snd (tcp_send_reset k s)) j) = sk_state (tsks s j)"
  by (simp add: tcp_send_reset_def Let_def case_prod_beta)

lemma tcp_recv_notify_state [simp]: "tsks (snd (tcp_recv_notify k s)) = tsks s"
  "next_sock (snd (tcp_recv_notify k s)) = next_sock s"
  by (simp_all add: tcp_recv_notify_def)

lemma tcp_rtt_state [simp]: "sk_state (tsks (tcp_rtt k s) j) = sk_state (tsks s j)"
  by (simp add: tcp_rtt_def tcp_rtt_update_def Let_def upd_tsk_at split: option.split)

lemma tcp_acked_skb_state [simp]: "sk_state (tcp_acked_skb skb q t) = sk_state t"
  by (simp add: tcp_acked_skb_def tcp_cong_avoid_def Let_def)

lemma tcp_clean_loop_state [simp]: "sk_state (tsks (tcp_clean_loop k una s) j) = sk_state (tsks s j)"
proof (induction k una s rule: tcp_clean_loop.induct)
  case (1 k una s)
  then show ?case
    by (subst tcp_clean_loop.simps) (auto simp: upd_tsk_at split: option.split)
qed

lemma tcp_clean_rto_queue_state [simp]: "sk_state (tsks (tcp_clean_rto_queue k una s) j) = sk_state (tsks s j)"
  by (simp add: tcp_clean_rto_queue_def Let_def)

lemma tcp_fast_retransmit_state [simp]: "sk_state (tsks (snd (tcp_fast_retransmit k s)) j) = sk_state (tsks s j)"
  by (simp add: tcp_fast_retransmit_def tcp_reset_queued_def Let_def upd_tsk_at split: option.split)

lemma tcp_send_next_loop_state [simp]: "sk_state (tsks (tcp_send_next_loop k w js s) j) = sk_state (tsks s j)"
  by (induction js arbitrary: s) (simp_all add: Let_def case_prod_beta upd_tsk_at)

lemma tcp_send_next_state [simp]: "sk_state (tsks (snd (tcp_send_next k n x s)) j) = sk_state (tsks s j)"
  by (simp add: tcp_send_next_def Let_def)

lemma tcp_handle_dupack_state [simp]: "sk_state (tsks (tcp_handle_dupack k s) j) = sk_state (tsks s j)"
  unfolding tcp_handle_dupack_def tcp_enter_fast_recovery_def Let_def case_prod_beta
  by (simp add: upd_tsk_at)

lemma tcp_new_ack_state [simp]: "sk_state (tsks (tcp_new_ack k a s) j) = sk_state (tsks s j)"
  by (simp add: tcp_new_ack_def tcp_exit_fast_recovery_def Let_def upd_tsk_at)

lemma tcp_consume_ofo_state [simp]: "sk_state (tcp_consume_ofo_queue t) = sk_state t"
proof (induction t rule: tcp_consume_ofo_queue.induct)
  case (1 t)
  then show ?case by (subst tcp_consume_ofo_queue.simps) (auto split: option.split)
qed

lemma tcp_sacks_loop_state [simp]: "sk_state (tcp_sacks_loop a b q i t) = sk_state t"
  by (induction a b q i t rule: tcp_sacks_loop.induct) (simp_all add: Let_def)

lemma tcp_data_queue_state [simp]: "sk_state (tsks (snd (snd (tcp_data_queue k skb s))) j) = sk_state (tsks s j)"
  unfolding tcp_data_queue_def Let_def case_prod_beta
  by (simp add: upd_tsk_at tcp_queue_expected_def Let_def decrease_recv_win_def tcp_calculate_sacks_def)

lemma tcp_parse_loop_state [simp]: "sk_state (snd (tcp_parse_loop p n sack t)) = sk_state t"
proof (induction p n sack t rule: tcp_parse_loop.induct)
  case (1 p n sack t)
  then show ?case by (subst tcp_parse_loop.simps) (auto simp: Let_def)
qed

lemma tcp_parse_opts_state [simp]: "sk_state (tcp_parse_opts th opts t) = sk_state t"
  by (simp add: tcp_parse_opts_def Let_def case_prod_beta tcp_sack_mark_write_queue_def split: option.split)

end
