(* ===== verification/Tcp_Stream.thy ===== *)
theory Tcp_Stream
  imports Tcp_Input
begin

text \<open>
  What \<open>src/tcp_data.c\<close> promises to the user: the receive queue is a byte stream, arriving segments
  extend it without gaps, and the out-of-order queue is an ordered list.
\<close>

section \<open>The byte stream\<close>

text \<open>
  The receive queue as the byte stream the user still has to read. \<open>seg_ok\<close> says that a queued
  segment's payload lies inside its buffer, and keeps lengths below \<open>2 ^ 31\<close>.
\<close>

definition seg_ok :: "sk_buff \<Rightarrow> bool" where
  "seg_ok skb \<longleftrightarrow> unat (skb_dlen skb) < 2 ^ 31 \<and>
     (case skb_payload skb of None \<Rightarrow> False
      | Some p \<Rightarrow> 0 \<le> p \<and> nat p + unat (skb_dlen skb) \<le> length (skb_mem skb))"

definition seg_bytes :: "sk_buff \<Rightarrow> bytes" where
  "seg_bytes skb = skb_payload_bytes (unat (skb_dlen skb)) skb"

definition rcv_stream :: "tcp_sock \<Rightarrow> bytes" where
  "rcv_stream t = concat (map seg_bytes (skb_list (sk_receive_queue t)))"

definition rcv_ok :: "tcp_sock \<Rightarrow> bool" where
  "rcv_ok t \<longleftrightarrow> wf_queue (sk_receive_queue t) \<and> list_all seg_ok (skb_list (sk_receive_queue t))"

lemma length_seg_bytes: "seg_ok skb \<Longrightarrow> length (seg_bytes skb) = unat (skb_dlen skb)"
  by (auto simp: seg_ok_def seg_bytes_def skb_payload_bytes_def get_bytes_def split: option.splits)

lemma unat_add_small: "unat a + unat b < 2 ^ 32 \<Longrightarrow> unat (a + b :: u32) = unat a + unat b"
  by (simp add: unat_word_ariths)

lemma tcp_eat_whole:
  assumes "seg_ok skb" and "rlen + unat (skb_dlen skb) \<le> userlen" and "userlen < 2 ^ 31"
  shows "fst (tcp_eat userlen rlen skb) = unat (skb_dlen skb)"
    and "skb_dlen (snd (tcp_eat userlen rlen skb)) = 0"
proof -
  have u: "unat (of_nat rlen :: u32) = rlen" "unat (of_nat userlen :: u32) = userlen"
    using assms(2,3) by (simp_all add: unat_of_nat)
  have "unat (of_nat rlen + skb_dlen skb) = rlen + unat (skb_dlen skb)"
    using unat_add_small [of "of_nat rlen" "skb_dlen skb"] assms(2,3) u by simp
  then have "\<not> of_nat rlen + skb_dlen skb > (of_nat userlen :: u32)"
    using assms(2) u by (simp add: word_less_nat_alt)
  then show "fst (tcp_eat userlen rlen skb) = unat (skb_dlen skb)"
    and "skb_dlen (snd (tcp_eat userlen rlen skb)) = 0"
    by (simp_all add: tcp_eat_def)
qed

lemma tcp_eat_part:
  assumes "seg_ok skb" and "userlen < rlen + unat (skb_dlen skb)" and "rlen < userlen"
    and "userlen < 2 ^ 31"
  defines "skb' \<equiv> snd (tcp_eat userlen rlen skb)"
  shows "fst (tcp_eat userlen rlen skb) = userlen - rlen"
    and "skb_dlen skb' \<noteq> 0" and "seg_ok skb'"
    and "seg_bytes skb = skb_payload_bytes (userlen - rlen) skb @ seg_bytes skb'"
proof -
  have ok: "unat (skb_dlen skb) < 2 ^ 31" using assms(1) by (simp add: seg_ok_def)
  have u: "unat (of_nat rlen :: u32) = rlen" "unat (of_nat userlen :: u32) = userlen"
    using assms(3,4) by (simp_all add: unat_of_nat)
  have "unat (of_nat rlen + skb_dlen skb) = rlen + unat (skb_dlen skb)"
    using unat_add_small [of "of_nat rlen" "skb_dlen skb"] assms(3,4) ok u by simp
  then have gt: "of_nat rlen + skb_dlen skb > (of_nat userlen :: u32)"
    using assms(2) u by (simp add: word_less_nat_alt)
  then show fst: "fst (tcp_eat userlen rlen skb) = userlen - rlen" by (simp add: tcp_eat_def Let_def)
  define n where "n = userlen - rlen"
  have n: "n < unat (skb_dlen skb)" "n < 2 ^ 31" using assms(2-4) by (simp_all add: n_def)
  have skb': "skb' = skb\<lparr>skb_dlen := skb_dlen skb - of_nat n,
      skb_payload := map_option (\<lambda>p. p + int n) (skb_payload skb)\<rparr>"
    using gt by (simp add: skb'_def tcp_eat_def n_def Let_def)
  have un: "unat (of_nat n :: u32) = n" using n by (simp add: unat_of_nat)
  have d: "unat (skb_dlen skb - of_nat n) = unat (skb_dlen skb) - n"
    using n un by (simp add: unat_sub word_le_nat_alt)
  then show "skb_dlen skb' \<noteq> 0" using n(1) by (auto simp: skb' word_unat_eq_iff)
  obtain p where p: "skb_payload skb = Some p" "0 \<le> p" "nat p + unat (skb_dlen skb) \<le> length (skb_mem skb)"
    using assms(1) by (auto simp: seg_ok_def split: option.splits)
  have np: "nat (p + int n) = nat p + n" using p(2) by simp
  show "seg_ok skb'" using p ok n(1) by (simp add: seg_ok_def skb' d np)
  have "take n (drop (nat p) (skb_mem skb)) @ take (unat (skb_dlen skb) - n) (drop (nat p + n) (skb_mem skb)) =
      take (n + (unat (skb_dlen skb) - n)) (drop (nat p) (skb_mem skb))"
    by (simp add: take_add add.commute)
  then show "seg_bytes skb = skb_payload_bytes (userlen - rlen) skb @ seg_bytes skb'"
    using p n(1) by (simp add: seg_bytes_def skb_payload_bytes_def get_bytes_def skb' d np flip: n_def)
qed

lemma increase_recv_win_sel [simp]:
  "sk_receive_queue (increase_recv_win n t) = sk_receive_queue t"
  "tsk_flags (increase_recv_win n t) = tsk_flags t"
  by (simp_all add: increase_recv_win_def)

lemma tcp_dequeue_loop_stop:
  "skb_list (sk_receive_queue t) = [] \<and> rcv_ok t \<or> userlen \<le> rlen \<Longrightarrow> tcp_dequeue_loop userlen rlen t = ([], rlen, t)"
  by (subst tcp_dequeue_loop.simps) (auto simp: rcv_ok_def)

lemma tcp_dequeue_loop_step:
  assumes "rcv_ok t" and "skb_list (sk_receive_queue t) = skb # rest" and "rlen < userlen"
    and "userlen < 2 ^ 31"
  defines "n \<equiv> fst (tcp_eat userlen rlen skb)"
  shows "\<exists>t'. rcv_ok t' \<and>
    tcp_dequeue_loop userlen rlen t =
      (let (bs, r, t'') = tcp_dequeue_loop userlen (rlen + n) t' in (skb_payload_bytes n skb @ bs, r, t'')) \<and>
    skb_list (sk_receive_queue t') =
      (if rlen + unat (skb_dlen skb) \<le> userlen then rest else snd (tcp_eat userlen rlen skb) # rest)"
proof -
  have ok: "wf_queue (sk_receive_queue t)" "seg_ok skb" "list_all seg_ok rest"
    using assms(1,2) by (simp_all add: rcv_ok_def)
  define skb' where "skb' = snd (tcp_eat userlen rlen skb)"
  define psh where "psh = th_psh (skb_load dec_tcphdr (int (tcp_hdr_for_sk t)) skb)"
  define t1 where "t1 = increase_recv_win (of_nat n) t"
  define t2 where "t2 = (if skb_dlen skb' = 0 then
      (let t = (if psh then t1\<lparr>tsk_flags := tsk_flags t1 OR TCP_PSH\<rparr> else t1)
       in t\<lparr>sk_receive_queue := (case skb_dequeue (sk_receive_queue t) of
              None \<Rightarrow> sk_receive_queue t | Some (_, q) \<Rightarrow> q)\<rparr>)
      else t1\<lparr>sk_receive_queue := skb_queue_upd 0 (\<lambda>_. skb') (sk_receive_queue t1)\<rparr>)"
  have eq: "tcp_dequeue_loop userlen rlen t =
      (let (bs, r, t'') = tcp_dequeue_loop userlen (rlen + n) t2 in (skb_payload_bytes n skb @ bs, r, t''))"
    unfolding t2_def t1_def psh_def skb'_def n_def using assms(2,3) ok(1)
    by (subst tcp_dequeue_loop.simps) (simp add: Let_def case_prod_beta)
  obtain q' where q': "skb_dequeue (sk_receive_queue t) = Some (skb, q')" "wf_queue q'" "skb_list q' = rest"
    using skb_dequeue_Cons [OF ok(1) assms(2)] by auto
  show ?thesis
  proof (cases "rlen + unat (skb_dlen skb) \<le> userlen")
    case True
    have z: "skb_dlen skb' = 0"
      unfolding skb'_def by (rule tcp_eat_whole(2) [OF ok(2) True assms(4)])
    have "sk_receive_queue t2 = q'"
      using q'(1) by (simp add: t2_def z t1_def Let_def)
    then show ?thesis
      using q' ok(3) True by (intro exI [of _ t2] conjI eq) (simp_all add: rcv_ok_def)
  next
    case False
    then have z: "skb_dlen skb' \<noteq> 0" "seg_ok skb'"
      unfolding skb'_def using tcp_eat_part(2,3) [OF ok(2) _ assms(3,4)] by simp_all
    have "sk_receive_queue t2 = skb_queue_upd 0 (\<lambda>_. skb') (sk_receive_queue t)"
      by (simp add: t2_def z t1_def)
    then have "skb_list (sk_receive_queue t2) = skb' # rest" "wf_queue (sk_receive_queue t2)"
      using assms(2) ok(1) by (simp_all add: skb_queue_upd_def wf_queue_def)
    then show ?thesis
      using ok(3) z(2) False by (intro exI [of _ t2] conjI eq) (simp_all add: rcv_ok_def skb'_def)
  qed
qed

lemma tcp_dequeue_loop_stream:
  assumes "rcv_ok t" and "rlen \<le> userlen" and "userlen < 2 ^ 31"
    and "tcp_dequeue_loop userlen rlen t = (bs, r, t')"
  shows "bs = take (userlen - rlen) (rcv_stream t) \<and> r = rlen + length bs \<and>
     rcv_stream t' = drop (userlen - rlen) (rcv_stream t) \<and> rcv_ok t'"
  using assms(1,2,4)
proof (induction "skb_list (sk_receive_queue t)" arbitrary: t rlen bs r)
  case Nil
  then show ?case using tcp_dequeue_loop_stop [of t userlen rlen] by (simp add: rcv_stream_def)
next
  case (Cons skb rest)
  have q: "skb_list (sk_receive_queue t) = skb # rest" using Cons.hyps(2) by simp
  have ok: "seg_ok skb" using Cons.prems(1) q by (simp add: rcv_ok_def)
  have st: "rcv_stream t = seg_bytes skb @ concat (map seg_bytes rest)" using q by (simp add: rcv_stream_def)
  show ?case
  proof (cases "rlen < userlen")
    case False
    then show ?thesis using Cons.prems tcp_dequeue_loop_stop [of t userlen rlen] by simp
  next
    case lt: True
    define n where "n = fst (tcp_eat userlen rlen skb)"
    define skb' where "skb' = snd (tcp_eat userlen rlen skb)"
    obtain t1 where t1: "rcv_ok t1"
      "tcp_dequeue_loop userlen rlen t =
        (let (bs, r, t'') = tcp_dequeue_loop userlen (rlen + n) t1 in (skb_payload_bytes n skb @ bs, r, t''))"
      "skb_list (sk_receive_queue t1) = (if rlen + unat (skb_dlen skb) \<le> userlen then rest else skb' # rest)"
      using tcp_dequeue_loop_step [OF Cons.prems(1) q lt assms(3)] unfolding n_def skb'_def by blast
    obtain bs1 r1 t1' where run: "tcp_dequeue_loop userlen (rlen + n) t1 = (bs1, r1, t1')"
      by (metis prod_cases3)
    have res: "bs = skb_payload_bytes n skb @ bs1" "r = r1" "t' = t1'"
      using t1(2) run Cons.prems(3) by simp_all
    show ?thesis
    proof (cases "rlen + unat (skb_dlen skb) \<le> userlen")
      case True
      have n: "n = unat (skb_dlen skb)"
        unfolding n_def by (rule tcp_eat_whole(1) [OF ok True assms(3)])
      have sb: "skb_payload_bytes n skb = seg_bytes skb" by (simp add: seg_bytes_def n)
      have IH: "bs1 = take (userlen - (rlen + n)) (rcv_stream t1) \<and> r1 = rlen + n + length bs1 \<and>
          rcv_stream t1' = drop (userlen - (rlen + n)) (rcv_stream t1) \<and> rcv_ok t1'"
        using Cons.hyps(1) [of t1 "rlen + n" bs1 r1] t1(1,3) True n run res(3) by simp
      have l: "length (seg_bytes skb) = n" using ok n by (simp add: length_seg_bytes)
      have "rcv_stream t = seg_bytes skb @ rcv_stream t1" using st t1(3) True by (simp add: rcv_stream_def)
      then show ?thesis using IH res sb l True n by simp
    next
      case False
      then have gt: "userlen < rlen + unat (skb_dlen skb)" by simp
      have n: "n = userlen - rlen" unfolding n_def by (rule tcp_eat_part(1) [OF ok gt lt assms(3)])
      have sb: "seg_bytes skb = skb_payload_bytes n skb @ seg_bytes skb'"
        unfolding n skb'_def by (rule tcp_eat_part(4) [OF ok gt lt assms(3)])
      have "bs1 = []" "r1 = rlen + n" "t1' = t1"
        using run tcp_dequeue_loop_stop [of t1 userlen "rlen + n"] n lt by simp_all
      moreover have l: "length (skb_payload_bytes n skb) = n"
        using ok gt n by (auto simp: seg_ok_def skb_payload_bytes_def get_bytes_def split: option.splits)
      moreover have "rcv_stream t = skb_payload_bytes n skb @ rcv_stream t1"
        using st sb t1(3) False by (simp add: rcv_stream_def)
      ultimately show ?thesis using res n t1(1) by simp
    qed
  qed
qed

lemma dequeue_stream:
  assumes "rcv_ok t" and "userlen < 2 ^ 31" and "tcp_data_dequeue userlen t = (buf, n, t')"
  shows "buf = take userlen (rcv_stream t) \<and> n = length buf \<and>
     rcv_stream t' = drop userlen (rcv_stream t) \<and> rcv_ok t'"
proof -
  obtain bs r t1 where run: "tcp_dequeue_loop userlen 0 t = (bs, r, t1)" by (metis prod_cases3)
  have "buf = bs \<and> n = r \<and> sk_receive_queue t' = sk_receive_queue t1"
    using assms(3) run by (auto simp: tcp_data_dequeue_def)
  moreover have "rcv_stream t' = rcv_stream t1 \<and> rcv_ok t' = rcv_ok t1"
    using calculation by (simp add: rcv_stream_def rcv_ok_def)
  ultimately show ?thesis using tcp_dequeue_loop_stream [OF assms(1) _ assms(2) run] by simp
qed

text \<open>
  Property C11. Reading refines reading from a byte stream: \<open>tcp_data_dequeue\<close> gives the user the
  first bytes of the queued stream, as many as fit and are there, and leaves the rest of the stream.
\<close>
theorem tcp_dequeue_reads_stream:
  assumes "rcv_ok t" and "userlen < 2 ^ 31" and "tcp_data_dequeue userlen t = (buf, n, t')"
  shows "buf = take userlen (rcv_stream t) \<and> n = length buf \<and>
     rcv_stream t' = drop userlen (rcv_stream t) \<and> rcv_ok t'"
  using assms by (rule dequeue_stream)

definition text_skb :: "u32 \<Rightarrow> bytes \<Rightarrow> sk_buff" where
  "text_skb sq bs = (alloc_skb 54)\<lparr>skb_mem := replicate 54 0 @ bs, skb_payload := Some 54,
     skb_dlen := of_nat (length bs), skb_seq := sq, skb_end_seq := sq + of_nat (length bs)\<rparr>"

lemma text_skb_sel:
  "skb_seq (text_skb sq bs) = sq" "skb_end_seq (text_skb sq bs) = sq + of_nat (length bs)"
  "length bs < 2 ^ 31 \<Longrightarrow> seg_ok (text_skb sq bs)"
  "length bs < 2 ^ 31 \<Longrightarrow> seg_bytes (text_skb sq bs) = bs"
  by (simp_all add: text_skb_def seg_ok_def seg_bytes_def skb_payload_bytes_def get_bytes_def unat_of_nat)

lemma wf_queue_singleton: "wf_queue (skb_queue_tail skb_queue_init skb)"
  by (simp add: wf_queue_tail)

theorem tcp_dequeue_reads_stream_witness:
  "fst (tcp_data_dequeue 2 (tcp_alloc_sock
     \<lparr>sk_receive_queue := skb_queue_tail skb_queue_init (text_skb 7 [1, 2, 3])\<rparr>)) = [1, 2]"
proof -
  define t where "t = tcp_alloc_sock\<lparr>sk_receive_queue := skb_queue_tail skb_queue_init (text_skb 7 [1, 2, 3])\<rparr>"
  obtain buf n t' where r: "tcp_data_dequeue 2 t = (buf, n, t')" by (metis prod_cases3)
  have "rcv_ok t" "rcv_stream t = [1, 2, 3]"
    by (simp_all add: t_def rcv_ok_def rcv_stream_def wf_queue_singleton text_skb_sel)
  then have "buf = [1, 2]" using tcp_dequeue_reads_stream [OF _ _ r] by simp
  then show ?thesis using r by (simp flip: t_def)
qed

section \<open>Arriving text\<close>

text \<open>The part of the out-of-order queue that continues the stream at \<open>n\<close>, and the rest.\<close>

fun contig :: "u32 \<Rightarrow> sk_buff list \<Rightarrow> sk_buff list \<times> sk_buff list" where
  "contig n [] = ([], [])"
| "contig n (b # bs) =
     (if skb_seq b = n then (let (p, r) = contig (n + skb_dlen b) bs in (b # p, r)) else ([], b # bs))"

fun seg_end :: "u32 \<Rightarrow> sk_buff list \<Rightarrow> u32" where
  "seg_end n [] = n"
| "seg_end n (b # bs) = seg_end (n + skb_dlen b) bs"

lemma contig_gap: "contig n bs = (p, r) \<Longrightarrow> bs = p @ r \<and> (r = [] \<or> skb_seq (hd r) \<noteq> seg_end n p)"
  by (induction n bs arbitrary: p r rule: contig.induct) (auto split: if_splits prod.splits)

lemma seg_end_bytes:
  "list_all seg_ok bs \<Longrightarrow> seg_end n bs = n + of_nat (length (concat (map seg_bytes bs)))"
  by (induction n bs rule: seg_end.induct) (simp_all add: length_seg_bytes add_ac)

lemma tcp_consume_ofo:
  assumes "wf_queue (ofo_queue t)" and "wf_queue (sk_receive_queue t)"
    and "length (skb_list (sk_receive_queue t)) + length (skb_list (ofo_queue t)) < 2 ^ 32"
    and "contig (rcv_nxt (tcb_of t)) (skb_list (ofo_queue t)) = (p, r)"
  defines "t' \<equiv> tcp_consume_ofo_queue t"
  shows "skb_list (sk_receive_queue t') = skb_list (sk_receive_queue t) @ p \<and> skb_list (ofo_queue t') = r \<and>
    rcv_nxt (tcb_of t') = seg_end (rcv_nxt (tcb_of t)) p \<and> wf_queue (ofo_queue t') \<and>
    wf_queue (sk_receive_queue t')"
  unfolding t'_def using assms(1-4)
proof (induction "skb_list (ofo_queue t)" arbitrary: t p)
  case Nil
  then have "tcp_consume_ofo_queue t = t"
    by (subst tcp_consume_ofo_queue.simps) (simp add: skb_peek_wf)
  with Nil show ?case by simp
next
  case (Cons b bs)
  have q: "skb_list (ofo_queue t) = b # bs" using Cons.hyps(2) by simp
  have peek: "skb_peek (ofo_queue t) = Some b" using Cons.prems(1) q by (simp add: skb_peek_wf)
  show ?case
  proof (cases "rcv_nxt (tcb_of t) = skb_seq b")
    case False
    then have "tcp_consume_ofo_queue t = t"
      by (subst tcp_consume_ofo_queue.simps) (simp add: peek)
    with False Cons.prems q show ?thesis by auto
  next
    case True
    obtain q' where q': "skb_dequeue (ofo_queue t) = Some (b, q')" "wf_queue q'" "skb_list q' = bs"
      using skb_dequeue_Cons [OF Cons.prems(1) q] by auto
    define t1 where "t1 = t\<lparr>tcb_of := (tcb_of t)\<lparr>rcv_nxt := rcv_nxt (tcb_of t) + skb_dlen b\<rparr>,
      ofo_queue := q', sk_receive_queue := skb_queue_tail (sk_receive_queue t) b\<rparr>"
    have step: "tcp_consume_ofo_queue t = tcp_consume_ofo_queue t1"
      using True q'(1) by (subst tcp_consume_ofo_queue.simps) (simp add: peek t1_def)
    obtain p1 where p1: "contig (rcv_nxt (tcb_of t1)) bs = (p1, r)" "p = b # p1"
      using Cons.prems(4) q True by (auto simp: t1_def split: prod.splits)
    have "wf_queue (sk_receive_queue t1)"
      using Cons.prems(2,3) q by (simp add: t1_def wf_queue_tail)
    then show ?thesis
      using Cons.hyps(1) [of t1 p1] p1 q' Cons.prems(3) q step by (simp add: t1_def)
  qed
qed

lemma expected_contig:
  assumes "rcv_ok t" and "wf_queue (ofo_queue t)" and "list_all seg_ok (skb # skb_list (ofo_queue t))"
    and "length (skb_list (sk_receive_queue t)) + 1 + length (skb_list (ofo_queue t)) < 2 ^ 32"
    and pr: "contig (rcv_nxt (tcb_of t) + skb_dlen skb) (skb_list (ofo_queue t)) = (p, r)"
  shows "rcv_stream (tcp_queue_expected skb t) = rcv_stream t @ seg_bytes skb @ concat (map seg_bytes p) \<and>
    rcv_nxt (tcb_of (tcp_queue_expected skb t)) = seg_end (rcv_nxt (tcb_of t) + skb_dlen skb) p \<and>
    skb_list (ofo_queue (tcp_queue_expected skb t)) = r \<and> wf_queue (ofo_queue (tcp_queue_expected skb t)) \<and>
    length (skb_list (sk_receive_queue (tcp_queue_expected skb t))) = length (skb_list (sk_receive_queue t)) + 1 + length p \<and>
    rcv_ok (tcp_queue_expected skb t)"
proof -
  define t1 where "t1 = (let t = decrease_recv_win (skb_dlen skb) t in
    t\<lparr>tcb_of := (tcb_of t)\<lparr>rcv_nxt := rcv_nxt (tcb_of t) + skb_dlen skb\<rparr>,
      sk_receive_queue := skb_queue_tail (sk_receive_queue t) (skb\<lparr>skb_refcnt := skb_refcnt skb + 1\<rparr>)\<rparr>)"
  define t2 where "t2 = tcp_consume_ofo_queue t1"
  have t1: "ofo_queue t1 = ofo_queue t" "rcv_nxt (tcb_of t1) = rcv_nxt (tcb_of t) + skb_dlen skb"
    "skb_list (sk_receive_queue t1) = skb_list (sk_receive_queue t) @ [skb\<lparr>skb_refcnt := skb_refcnt skb + 1\<rparr>]"
    by (simp_all add: t1_def decrease_recv_win_def)
  have wf1: "wf_queue (sk_receive_queue t1)"
    using assms(1,4) by (simp add: t1_def decrease_recv_win_def rcv_ok_def wf_queue_tail)
  have t2: "skb_list (sk_receive_queue t2) = skb_list (sk_receive_queue t1) @ p" "skb_list (ofo_queue t2) = r"
    "rcv_nxt (tcb_of t2) = seg_end (rcv_nxt (tcb_of t1)) p" "wf_queue (sk_receive_queue t2)" "wf_queue (ofo_queue t2)"
    unfolding t2_def using tcp_consume_ofo [OF _ wf1, of p r] pr assms(2,4) t1 by simp_all
  have ok: "list_all seg_ok p" "seg_ok skb" using assms(3) contig_gap [OF pr] by auto
  have bytes: "seg_bytes (skb\<lparr>skb_refcnt := skb_refcnt skb + 1\<rparr>) = seg_bytes skb"
    and ok': "seg_ok (skb\<lparr>skb_refcnt := skb_refcnt skb + 1\<rparr>)"
    using ok(2) by (simp_all add: seg_bytes_def skb_payload_bytes_def seg_ok_def split: option.splits)
  have res: "tcp_queue_expected skb t = t2\<lparr>sk_poll_events := sk_poll_events t2 OR
      (POLLIN OR POLLPRI OR POLLRDNORM OR POLLRDBAND)\<rparr>"
    by (simp add: tcp_queue_expected_def t2_def t1_def Let_def)
  show ?thesis
    unfolding res using t1 t2 ok ok' bytes assms(1) by (simp add: rcv_stream_def rcv_ok_def)
qed

lemma expected_extends:
  assumes "rcv_ok t" and "wf_queue (ofo_queue t)" and "list_all seg_ok (skb # skb_list (ofo_queue t))"
    and "length (skb_list (sk_receive_queue t)) + 1 + length (skb_list (ofo_queue t)) < 2 ^ 32"
    and "skb_seq skb = rcv_nxt (tcb_of t)"
  shows "\<exists>new rest. skb_list (ofo_queue t) = new @ rest \<and>
    rcv_stream (tcp_queue_expected skb t) = rcv_stream t @ seg_bytes skb @ concat (map seg_bytes new) \<and>
    rcv_nxt (tcb_of (tcp_queue_expected skb t)) =
      rcv_nxt (tcb_of t) + of_nat (length (seg_bytes skb @ concat (map seg_bytes new))) \<and>
    skb_list (ofo_queue (tcp_queue_expected skb t)) = rest \<and>
    (rest = [] \<or> skb_seq (hd rest) \<noteq> rcv_nxt (tcb_of (tcp_queue_expected skb t))) \<and>
    rcv_ok (tcp_queue_expected skb t)"
proof -
  obtain p r where pr: "contig (rcv_nxt (tcb_of t) + skb_dlen skb) (skb_list (ofo_queue t)) = (p, r)" by fastforce
  have ok: "list_all seg_ok p" "seg_ok skb" using assms(3) contig_gap [OF pr] by auto
  then have "seg_end (rcv_nxt (tcb_of t) + skb_dlen skb) p =
      rcv_nxt (tcb_of t) + of_nat (length (seg_bytes skb @ concat (map seg_bytes p)))"
    by (simp add: seg_end_bytes length_seg_bytes add_ac)
  then show ?thesis using expected_contig [OF assms(1-4) pr] contig_gap [OF pr] by (intro exI [of _ p] exI [of _ r]) simp
qed



section \<open>The order of the out-of-order queue\<close>

abbreviation ofo_ordered :: "sk_buff list \<Rightarrow> bool" where
  "ofo_ordered xs \<equiv> sorted_wrt (\<lambda>a b. skb_seq a < skb_seq b) xs"

lemma tcp_insert_loop_insort:
  assumes "skb_list q = pre @ ns" and "\<forall>a \<in> set pre. skb_seq a < skb_seq skb" and "ofo_ordered ns"
    and "\<forall>b \<in> set ns. skb_seq skb < skb_seq b \<longrightarrow> skb_end_seq skb \<le> skb_seq b"
  shows "skb_list (fst (tcp_insert_loop q skb (length pre) ns)) =
    (if skb_seq skb \<in> skb_seq ` set ns then pre @ ns
     else pre @ insort_key skb_seq (skb\<lparr>skb_refcnt := skb_refcnt skb + 1\<rparr>) ns)"
  using assms
proof (induction ns arbitrary: pre)
  case Nil
  then show ?case by (simp add: skb_queue_tail_def Let_def)
next
  case (Cons nb ns)
  consider (lt) "skb_seq skb < skb_seq nb" | (eq) "skb_seq skb = skb_seq nb" | (gt) "skb_seq nb < skb_seq skb"
    by (meson linorder_neqE)
  then show ?case
  proof cases
    case lt
    then have "skb_seq skb \<notin> skb_seq ` set (nb # ns)" using Cons.prems(3) by auto
    moreover have "skb_end_seq skb \<le> skb_seq nb" using Cons.prems(4) lt by simp
    ultimately show ?thesis using lt Cons.prems(1) by (simp add: skb_queue_add_def Let_def less_imp_le leD)
  next
    case eq
    then show ?thesis using Cons.prems(1) by simp
  next
    case gt
    have "skb_list (fst (tcp_insert_loop q skb (length (pre @ [nb])) ns)) =
      (if skb_seq skb \<in> skb_seq ` set ns then (pre @ [nb]) @ ns
       else (pre @ [nb]) @ insort_key skb_seq (skb\<lparr>skb_refcnt := skb_refcnt skb + 1\<rparr>) ns)"
      using Cons.prems gt by (intro Cons.IH) auto
    with gt show ?thesis by (auto simp: leD)
  qed
qed

lemma ofo_insert_insort:
  assumes "ofo_ordered (skb_list q)"
    and "\<forall>b \<in> set (skb_list q). skb_seq skb < skb_seq b \<longrightarrow> skb_end_seq skb \<le> skb_seq b"
  shows "skb_list (fst (tcp_data_insert_ordered q skb)) =
    (if skb_seq skb \<in> skb_seq ` set (skb_list q) then skb_list q
     else insort_key skb_seq (skb\<lparr>skb_refcnt := skb_refcnt skb + 1\<rparr>) (skb_list q))"
  unfolding tcp_data_insert_ordered_def using tcp_insert_loop_insort [of q "[]" "skb_list q" skb] assms by simp

lemma tcp_insert_loop_wf:
  assumes "wf_queue q" and "length (skb_list q) + 1 < 2 ^ 32" and "i + length ns \<le> length (skb_list q)"
  shows "wf_queue (fst (tcp_insert_loop q skb i ns))"
  using assms
  by (induction q skb i ns rule: tcp_insert_loop.induct) (auto simp: Let_def wf_queue_tail wf_queue_add)

text \<open>
  On an ordered out-of-order queue, a segment that does not reach into a later one is
  inserted exactly as \<open>insort_key\<close> does, keeping the order; a second segment with a sequence
  number already queued is dropped.
\<close>
lemma ofo_insert_is_insort:
  assumes "ofo_ordered (skb_list q)"
    and "\<forall>b \<in> set (skb_list q). skb_seq skb < skb_seq b \<longrightarrow> skb_end_seq skb \<le> skb_seq b"
  shows "skb_list (fst (tcp_data_insert_ordered q skb)) =
      (if skb_seq skb \<in> skb_seq ` set (skb_list q) then skb_list q
       else insort_key skb_seq (skb\<lparr>skb_refcnt := skb_refcnt skb + 1\<rparr>) (skb_list q)) \<and>
    ofo_ordered (skb_list (fst (tcp_data_insert_ordered q skb)))"
proof -
  define skb' where "skb' = skb\<lparr>skb_refcnt := skb_refcnt skb + 1\<rparr>"
  have sq: "skb_seq skb' = skb_seq skb" by (simp add: skb'_def)
  note r = ofo_insert_insort [OF assms, folded skb'_def]
  have "ofo_ordered (insort_key skb_seq skb' xs)"
    if "ofo_ordered xs" "skb_seq skb' \<notin> skb_seq ` set xs" for xs
    using that by (induction xs) (auto simp: set_insort_key)
  then show ?thesis using r assms(1) sq by (simp flip: skb'_def)
qed

lemma ofo_insert_is_insort_example:
  "skb_list (fst (tcp_data_insert_ordered (skb_queue_tail skb_queue_init (text_skb 20 [1, 2])) (text_skb 10 [3]))) =
    [(text_skb 10 [3])\<lparr>skb_refcnt := skb_refcnt (text_skb 10 [3]) + 1\<rparr>, text_skb 20 [1, 2]]"
  using ofo_insert_is_insort [of "skb_queue_tail skb_queue_init (text_skb 20 [1, 2])" "text_skb 10 [3]"]
  by (simp add: text_skb_sel)

text \<open>
  A segment that reaches into a later one is put behind it: the queue loses its order, and
  when the gap in front of both is filled the stream stops at the earlier segment although it is queued.
\<close>
lemma ofo_overlap_stalls_stream:
  "\<exists>q early late fill.
     skb_list q = [late] \<and> seg_ok early \<and> seg_ok late \<and> seg_ok fill \<and>
     skb_seq early < skb_seq late \<and> skb_seq late < skb_end_seq early \<and>
     skb_seq fill = rcv_nxt (tcb_of tcp_alloc_sock) \<and> skb_end_seq fill = skb_seq early \<and>
     (let t = tcp_queue_expected fill (tcp_alloc_sock\<lparr>ofo_queue := fst (tcp_data_insert_ordered q early)\<rparr>)
      in rcv_nxt (tcb_of t) = skb_seq early \<and> skb_seq early \<in> skb_seq ` set (skb_list (ofo_queue t)))"
proof -
  define late early fill q where d: "late = text_skb 4 [5, 6]" "early = text_skb 2 [3, 4, 5]" "fill = text_skb 0 [1, 2]"
    "q = skb_queue_tail skb_queue_init late"
  have [simp]: "skb_seq late = 4" "skb_seq early = 2" "skb_end_seq early = 5" "skb_seq fill = 0"
    "skb_end_seq fill = 2" "skb_dlen fill = 2"
    by (simp_all add: d text_skb_def)
  define q' where "q' = fst (tcp_data_insert_ordered q early)"
  have l: "skb_list q' = [late, early\<lparr>skb_refcnt := skb_refcnt early + 1\<rparr>]" "qlen q' = 2"
    by (simp_all add: q'_def tcp_data_insert_ordered_def d(4) Let_def skb_queue_tail_def skb_queue_init_def)
  define t where "t = tcp_queue_expected fill (tcp_alloc_sock\<lparr>ofo_queue := q'\<rparr>)"
  have peek: "skb_peek q' = Some late"
    using l by (simp add: skb_peek_wf wf_queue_def)
  have "rcv_nxt (tcb_of t) = 2" "ofo_queue t = q'"
    by (simp_all add: t_def tcp_queue_expected_def Let_def decrease_recv_win_def tcp_alloc_sock_def
        tcp_consume_ofo_queue.simps [of "_\<lparr>sk_receive_queue := _\<rparr>"] peek)
  moreover have "seg_ok early \<and> seg_ok late \<and> seg_ok fill" by (simp add: d text_skb_sel)
  moreover have "skb_list q = [late]" by (simp add: d)
  ultimately show ?thesis
    using l by (intro exI [of _ q] exI [of _ early] exI [of _ late] exI [of _ fill])
      (simp add: Let_def flip: q'_def t_def, simp add: tcp_alloc_sock_def)
qed

end
