(* ===== verification/Boot.thy ===== *)
theory Boot
  imports Inet
begin

text \<open>
  Start and end of the stack (\<open>init_stack\<close> and \<open>free_stack\<close> of \<open>src/main.c\<close>), on the zero-initialised static
  data of the program. \<open>ret\<close> gives the results of the writes to the tap device, \<open>src\<close> the values of \<open>generate_iss\<close>,
  \<open>junk\<close> the content of uninitialised memory. \<open>tcp_init\<close> and \<open>arp_init\<close> are empty functions, and \<open>tun_init\<close>
  opens the device.
\<close>

definition socket_zero :: socket where
  "socket_zero = \<lparr>so_fd = 0, so_pid = 0, so_refcnt = 0, so_state = SS_FREE, so_type = 0, so_flags = 0,
     so_family = 0, so_dgram = False\<rparr>"

definition usock_zero :: "socket_state sock" where
  "usock_zero = \<lparr>sk_protocol = 0, sk_state = SS_FREE, sk_err = 0, sk_poll_events = 0, sk_sport = 0,
     sk_dport = 0, sk_addr_family = 0, sk_saddr = replicate 16 0, sk_daddr = replicate 16 0,
     sk_receive_queue = skb_queue_init, sk_write_queue = skb_queue_init\<rparr>"

definition stack_static :: "(nat \<Rightarrow> int) \<Rightarrow> (nat \<Rightarrow> u32) \<Rightarrow> tcpstate" where
  "stack_static ret src =
     \<lparr>devs = netdev_init, tun_tx = [], tun_ret = ret, routes = [], arp_cache = [],
      ndp_cache = [], ndp_entry_count = 0, timers = timers_init, dad_target = in6_zero,
      dad_state_ptr = None, dad_dev = None, dad_done = False, null_deref = False,
      tsks = (\<lambda>_. tcp_alloc_sock), usks = (\<lambda>_. usock_zero), socks = (\<lambda>_. socket_zero), sockets = [],
      freed_socks = [], next_sock = 0, next_fd = 4097, next_port = 40000, iss_src = src, iss_cnt = 0,
      wakes = []\<rparr>"

definition init_stack :: "bytes \<Rightarrow> u32 \<Rightarrow> (nat \<Rightarrow> int) \<Rightarrow> (nat \<Rightarrow> u32) \<Rightarrow> tcpstate" where
  "init_stack junk tapaddr ret src =
     (let s = stack_static ret src;
          s = route_init junk tapaddr s;
          s = ndp_init s
      in ipv6_addrconf_init s)"

definition free_stack :: "tcpstate \<Rightarrow> tcpstate" where
  "free_stack s = free_routes (free_arp (abort_sockets s))"

end
