(* ===== verification/Tcp_States.thy ===== *)
theory Tcp_States
  imports Tcp_Frame Tcp_Stream Boot
begin

text \<open>
  The states a TCP socket goes through when segments arrive, compared with RFC 793.
\<close>

section \<open>An established connection\<close>

definition snd_demo :: tcpstate where
  "snd_demo = (stack_static (\<lambda>_. 0) (\<lambda>_. 1))\<lparr>next_sock := 1, sockets := [0],
     tsks := (\<lambda>_. tcp_alloc_sock\<lparr>sk_state := TCP_ESTABLISHED, sk_addr_family := AF_INET6, sk_protocol := 6,
       tcb_of := (tcb_of tcp_alloc_sock)\<lparr>rcv_wnd := 100, snd_wnd := 1000\<rparr>, inflight := 5,
       sk_write_queue := foldl skb_queue_tail skb_queue_init [text_skb 10 [1, 2, 3], text_skb 13 [4, 5]]\<rparr>)\<rparr>"

lemma snd_demo_sel [simp]:
  "smss (tsks snd_demo k) = 536" "inflight (tsks snd_demo k) = 5" "cwnd (tsks snd_demo k) = 2144"
  "snd_wnd (tcb_of (tsks snd_demo k)) = 1000" "sk_state (tsks snd_demo k) = TCP_ESTABLISHED"
  "sockets snd_demo = [0]" "next_sock snd_demo = 1" "rcv_nxt (tcb_of (tsks snd_demo k)) = 0"
  "rcv_wnd (tcb_of (tsks snd_demo k)) = 100"
  "skb_list (sk_write_queue (tsks snd_demo k)) = [text_skb 10 [1, 2, 3], text_skb 13 [4, 5]]"
  by (simp_all add: snd_demo_def tcp_alloc_sock_def)


definition rst_hdr :: tcphdr where
  "rst_hdr = (dec_tcphdr (replicate 20 0))\<lparr>th_rst := True, th_seq := 0\<rparr>"

lemma rst_demo_verify: "tcp_verify_segment rst_hdr (text_skb 0 []) (tsks snd_demo 0)"
  by (simp add: tcp_verify_segment_def rst_hdr_def text_skb_def)

section \<open>Transitions\<close>

text \<open>The edges of RFC 793 that an arriving segment can take, with the combined steps of one segment
  that acknowledges and carries a FIN.\<close>

inductive rfc793_edge :: "tcp_states \<Rightarrow> tcp_states \<Rightarrow> bool" where
  "rfc793_edge TCP_SYN_SENT TCP_ESTABLISHED"
| "rfc793_edge TCP_SYN_SENT TCP_SYN_RECEIVED"
| "rfc793_edge TCP_SYN_RECEIVED TCP_ESTABLISHED"
| "rfc793_edge TCP_SYN_RECEIVED TCP_CLOSE_WAIT"
| "rfc793_edge TCP_ESTABLISHED TCP_CLOSE_WAIT"
| "rfc793_edge TCP_FIN_WAIT_1 TCP_FIN_WAIT_2"
| "rfc793_edge TCP_FIN_WAIT_1 TCP_CLOSING"
| "rfc793_edge TCP_FIN_WAIT_1 TCP_TIME_WAIT"
| "rfc793_edge TCP_FIN_WAIT_2 TCP_TIME_WAIT"
| "rfc793_edge TCP_CLOSING TCP_TIME_WAIT"

text \<open>The edges of the program where RFC 793 goes to CLOSED: a reset connection waits in TIME-WAIT, a
  refused one and one in LAST-ACK are left in CLOSING by \<open>tcp_done\<close> until they are collected.\<close>

inductive abort_edge :: "bool \<Rightarrow> tcp_states \<Rightarrow> tcp_states \<Rightarrow> bool" for rst :: bool where
  "rst \<Longrightarrow> abort_edge rst TCP_SYN_SENT TCP_CLOSING"
| "rst \<Longrightarrow> st \<notin> {TCP_CLOSE, TCP_LISTEN, TCP_SYN_SENT} \<Longrightarrow> abort_edge rst st TCP_TIME_WAIT"
| "\<not> rst \<Longrightarrow> abort_edge rst TCP_LAST_ACK TCP_CLOSING"

inductive_simps rfc793_edge_simps: "rfc793_edge a b"
inductive_simps abort_edge_simps: "abort_edge r a b"

definition input_edge :: "bool \<Rightarrow> tcp_states \<Rightarrow> tcp_states \<Rightarrow> bool" where
  "input_edge rst a b \<longleftrightarrow> b = a \<or> rfc793_edge a b \<or> abort_edge rst a b"

abbreviation state_of :: "tcpstate \<Rightarrow> nat \<Rightarrow> tcp_states" where
  "state_of s j \<equiv> sk_state (tsks s j)"

text \<open>Other threads, while this one sleeps, leave the states of the sockets alone.\<close>

definition env_quiet :: "sched \<Rightarrow> bool" where
  "env_quiet env \<longleftrightarrow> (\<forall>e \<in> set env. \<forall>s j. state_of (e s) j = state_of s j)"

lemma tcp_wait_snd_wnd_state:
  assumes "tcp_wait_snd_wnd k n env s = Some (env', s')" and "env_quiet env"
  shows "state_of s' j = state_of s j"
  using assms
proof (induction env arbitrary: s)
  case Nil
  then show ?case by (simp add: tcp_wait_snd_wnd.simps [of k n "[]"] split: if_splits)
next
  case (Cons e es)
  have "state_of s' j = state_of (e s) j" if "tcp_wait_snd_wnd k n es (e s) = Some (env', s')"
    using Cons.IH [OF that] Cons.prems(2) by (simp add: env_quiet_def)
  moreover have "state_of (e s) j = state_of s j" using Cons.prems(2) by (simp add: env_quiet_def)
  ultimately show ?case
    using Cons.prems(1) by (simp add: tcp_wait_snd_wnd.simps [of k n "e # es"] split: if_splits)
qed

lemma tcp_queue_transmit_state:
  assumes "tcp_queue_transmit_skb k skb env s = Some (rc, env', s')" and "env_quiet env"
  shows "state_of s' j = state_of s j"
proof -
  obtain env1 s1 where w: "tcp_wait_snd_wnd k (skb_dlen skb) env s = Some (env1, s1)"
    using assms(1) by (auto simp: tcp_queue_transmit_skb_def split: option.splits)
  have "state_of s' j = state_of s1 j"
    using assms(1) unfolding tcp_queue_transmit_skb_def w Let_def case_prod_beta
    by (auto simp: tcp_enqueue_skb_def Let_def upd_tsk_at)
  with tcp_wait_snd_wnd_state [OF w assms(2)] show ?thesis by simp
qed

lemma tcp_send_synack_state:
  "tcp_send_synack k env s = Some (rc, env', s') \<Longrightarrow> env_quiet env \<Longrightarrow> state_of s' j = state_of s j"
  by (auto simp: tcp_send_synack_def Let_def tcp_queue_transmit_state split: if_splits option.splits)

lemma tcp_listen_state:
  assumes "tcp_listen k th opts skb sa fam env s = Some (rc, skb', env', s')" and "env_quiet env"
    and "j < next_sock s"
  shows "state_of s' j = state_of s j"
proof (cases "th_syn th")
  case False
  with assms(1) show ?thesis by (simp add: tcp_listen_def)
next
  case True
  define r where "r = fork_socket (so_pid (socks s k)) th opts fam (sk_saddr (tsks s k)) (sk_sport (tsks s k)) sa s"
  have f: "state_of (snd r) j = state_of s j"
    using assms(3) unfolding r_def fork_socket_def socket_stream_def alloc_socket_def generate_iss_def Let_def case_prod_beta
    by (simp add: upd_tsk_at)
  obtain rc1 env1 s1 where k: "tcp_send_synack (fst r) env (upd_tsk (fst r) (\<lambda>t. t\<lparr>ptsk := Some k\<rparr>) (snd r)) = Some (rc1, env1, s1)"
    "s' = upd_tcb (fst r) (\<lambda>b. b\<lparr>snd_nxt := snd_nxt b + 1\<rparr>) s1"
    using assms(1) True unfolding tcp_listen_def Let_def case_prod_beta
    by (auto simp flip: r_def split: option.splits)
  show ?thesis using tcp_send_synack_state [OF k(1) assms(2), of j] f k(2) by (simp add: upd_tsk_at split: if_splits)
qed

lemma tcp_reset_state:
  "state_of (tcp_reset k s) j =
    (if j = k \<and> state_of s k \<noteq> TCP_CLOSE then TCP_CLOSING else state_of s j)"
  by (simp add: tcp_reset_def Let_def upd_tsk_at split: tcp_states.split)

lemma tcp_synsent_syn_state:
  assumes "tcp_synsent_syn k th opts env s = Some (env', s')" and "env_quiet env"
  shows "(if j = k then state_of s' k \<in> {TCP_ESTABLISHED, TCP_SYN_RECEIVED} else state_of s' j = state_of s j)"
proof -
  let ?P = "\<lambda>s'. if j = k then state_of s' k \<in> {TCP_ESTABLISHED, TCP_SYN_RECEIVED} else state_of s' j = state_of s j"
  have 1: "?P s''" if "tcp_send_synack k env s1 = Some (rc, env'', s'')"
    "\<And>j. state_of s1 j = (if j = k then TCP_SYN_RECEIVED else state_of s j)" for rc env'' s'' s1
    using tcp_send_synack_state [OF that(1) assms(2)] that(2) by simp
  show ?thesis
    using assms(1) unfolding tcp_synsent_syn_def Let_def case_prod_beta
    by (auto simp: sock_connected_def update_snd_win_def Let_def upd_tsk_at split: if_splits option.splits
        dest!: 1)
qed

lemma tcp_synsent_state:
  assumes "tcp_synsent k th opts skb env s = Some (rc, skb', env', s')" and "env_quiet env"
    and "state_of s k = TCP_SYN_SENT"
  shows "(if j = k then input_edge (th_rst th) TCP_SYN_SENT (state_of s' k) else state_of s' j = state_of s j)"
proof -
  have e: "input_edge r TCP_SYN_SENT st"
    if "st \<in> {TCP_ESTABLISHED, TCP_SYN_RECEIVED, TCP_SYN_SENT} \<or> r \<and> st = TCP_CLOSING" for r st
    using that by (auto simp: input_edge_def rfc793_edge_simps abort_edge_simps)
  show ?thesis
    using assms(1,3) unfolding tcp_synsent_def Let_def
    by (auto simp: tcp_reset_state intro!: e split: if_splits option.splits
        dest: tcp_synsent_syn_state [where j = j, OF _ assms(2)])
qed

definition result_state :: "(int \<times> sk_buff \<times> tcpstate) + tcpstate \<Rightarrow> tcpstate" where
  "result_state r = (case r of Inl (_, _, s) \<Rightarrow> s | Inr s \<Rightarrow> s)"

lemma result_state_simps [simp]: "result_state (Inl (a, b, s)) = s" "result_state (Inr s) = s"
  by (simp_all add: result_state_def)

lemma tcp_ack_common_state [simp]: "state_of (result_state (tcp_ack_common k th skb s)) j = state_of s j"
  unfolding tcp_ack_common_def Let_def
  by (simp add: upd_tsk_at update_snd_win_def)

lemma add_parent_state [simp]: "state_of (add_tsk_to_parent_establied_conn_list k s) j = state_of s j"
  by (simp add: add_tsk_to_parent_establied_conn_list_def Let_def upd_tsk_at split: option.split)

lemma tcp_ack_stage_state:
  "state_of (result_state (tcp_ack_stage k th skb s)) j = state_of s j \<or>
   j = k \<and> state_of s k = TCP_SYN_RECEIVED \<and> state_of (result_state (tcp_ack_stage k th skb s)) k = TCP_ESTABLISHED"
  by (cases "state_of s k") (simp_all add: tcp_ack_stage_def Let_def)

lemma tcp_ack_common_Inr: "tcp_ack_common k th skb s = Inr s' \<Longrightarrow> state_of s' j = state_of s j"
  using tcp_ack_common_state [of k th skb s j] by simp

lemma tcp_ack_stage_synchronized:
  assumes "tcp_ack_stage k th skb s = Inr s'"
  shows "state_of s' k \<noteq> TCP_SYN_RECEIVED"
  using assms
  by (cases "state_of s k")
    (auto simp: tcp_ack_stage_def Let_def split: if_splits dest: tcp_ack_common_Inr [where j = k])

lemma tcp_fin_stage_state:
  "state_of (tcp_fin_stage k s) j =
    (if j \<noteq> k then state_of s j
     else case state_of s k of
        TCP_SYN_RECEIVED \<Rightarrow> TCP_CLOSE_WAIT | TCP_ESTABLISHED \<Rightarrow> TCP_CLOSE_WAIT
      | TCP_FIN_WAIT_1 \<Rightarrow> if skb_queue_empty (sk_write_queue (tsks s k)) then TCP_TIME_WAIT else TCP_CLOSING
      | TCP_FIN_WAIT_2 \<Rightarrow> TCP_TIME_WAIT | st \<Rightarrow> st)"
  unfolding tcp_fin_stage_def Let_def case_prod_beta
  by (simp add: upd_tsk_at upd_tcb_at split: tcp_states.split)

lemma tcp_delack_stage_state [simp]: "state_of (tcp_delack_stage k th skb e s) j = state_of s j"
  unfolding tcp_delack_stage_def Let_def case_prod_beta
  by (simp add: upd_tsk_at)

lemma tcp_text_stage_state [simp]: "state_of (snd (tcp_text_stage k th skb s)) j = state_of s j"
  by (simp add: tcp_text_stage_def case_prod_beta)


lemma tcp_fin_acked_stage_state:
  "state_of (result_state (tcp_fin_acked_stage k th skb s)) j =
    (if j = k \<and> skb_queue_empty (sk_write_queue (tsks s k)) then
       (case state_of s k of TCP_FIN_WAIT_1 \<Rightarrow> TCP_FIN_WAIT_2 | TCP_CLOSING \<Rightarrow> TCP_TIME_WAIT
        | TCP_LAST_ACK \<Rightarrow> TCP_CLOSING | st \<Rightarrow> st)
     else state_of s j)"
  unfolding tcp_fin_acked_stage_def
  by (simp add: case_prod_beta upd_tsk_at split: tcp_states.split)

lemma tcp_input_tail_state:
  "state_of (snd (snd (tcp_input_tail k th skb s))) j =
    (let r = result_state (tcp_fin_acked_stage k th skb s) in
     if j = k \<and> th_fin th \<and> (\<exists>s'. tcp_fin_acked_stage k th skb s = Inr s') \<and>
       skb_seq skb = rcv_nxt (tcb_of (tsks r k)) \<and> state_of r k \<notin> {TCP_CLOSE, TCP_LISTEN, TCP_SYN_SENT}
     then state_of (tcp_fin_stage k (snd (tcp_text_stage k th skb r))) k else state_of r j)"
proof (cases "tcp_fin_acked_stage k th skb s")
  case (Inl r)
  then show ?thesis by (cases r) (simp add: tcp_input_tail_def)
next
  case (Inr s1)
  show ?thesis
    unfolding tcp_input_tail_def Inr sum.case Let_def case_prod_beta result_state_simps
    by (auto simp: tcp_fin_stage_state)
qed

lemma tcp_input_tail_edge:
  assumes "state_of s k \<notin> {TCP_CLOSE, TCP_LISTEN, TCP_SYN_SENT, TCP_SYN_RECEIVED}"
  shows "input_edge False (state_of s k) (state_of (snd (snd (tcp_input_tail k th skb s))) k)"
    and "j \<noteq> k \<Longrightarrow> state_of (snd (snd (tcp_input_tail k th skb s))) j = state_of s j"
  using assms
  by (auto simp: tcp_input_tail_state Let_def tcp_fin_acked_stage_state tcp_fin_stage_state input_edge_def
      rfc793_edge_simps abort_edge_simps split: tcp_states.splits)


definition tcp_pass ::
  "nat \<Rightarrow> tcphdr \<Rightarrow> sk_buff \<Rightarrow> tcpstate \<Rightarrow> tcpstate" where
  "tcp_pass k th skb s =
     (case tcp_ack_stage k th skb s of
        Inl r \<Rightarrow> snd (snd r) | Inr s \<Rightarrow> snd (snd (tcp_input_tail k th skb s)))"

lemma tcp_pass_edge:
  assumes "state_of s k \<notin> {TCP_CLOSE, TCP_LISTEN, TCP_SYN_SENT}"
  shows "input_edge False (state_of s k) (state_of (tcp_pass k th skb s) k)"
    and "j \<noteq> k \<Longrightarrow> state_of (tcp_pass k th skb s) j = state_of s j"
proof -
  let ?r = "tcp_ack_stage k th skb s"
  have a: "state_of (result_state ?r) i = state_of s i \<or>
     i = k \<and> state_of s k = TCP_SYN_RECEIVED \<and> state_of (result_state ?r) k = TCP_ESTABLISHED" for i
    by (rule tcp_ack_stage_state)
  have syn: "input_edge False TCP_SYN_RECEIVED st" if "input_edge False TCP_ESTABLISHED st" for st
    using that by (auto simp: input_edge_def rfc793_edge_simps abort_edge_simps)
  show "input_edge False (state_of s k) (state_of (tcp_pass k th skb s) k)"
  proof (cases ?r)
    case (Inl r)
    then show ?thesis using a [of k]
      by (cases r) (auto simp: tcp_pass_def input_edge_def rfc793_edge_simps)
  next
    case (Inr s1)
    have "state_of s1 k \<notin> {TCP_CLOSE, TCP_LISTEN, TCP_SYN_SENT, TCP_SYN_RECEIVED}"
      using a [of k] assms Inr tcp_ack_stage_synchronized [OF Inr] by auto
    from tcp_input_tail_edge(1) [OF this, of th skb] show ?thesis
      using a [of k] Inr syn by (auto simp: tcp_pass_def)
  qed
  assume "j \<noteq> k"
  show "state_of (tcp_pass k th skb s) j = state_of s j"
  proof (cases ?r)
    case (Inl r)
    then show ?thesis using a [of j] \<open>j \<noteq> k\<close> by (cases r) (auto simp: tcp_pass_def)
  next
    case (Inr s1)
    have "state_of s1 k \<notin> {TCP_CLOSE, TCP_LISTEN, TCP_SYN_SENT, TCP_SYN_RECEIVED}"
      using a [of k] assms Inr tcp_ack_stage_synchronized [OF Inr] by auto
    from tcp_input_tail_edge(2) [OF this \<open>j \<noteq> k\<close>, of th skb] show ?thesis
      using a [of j] \<open>j \<noteq> k\<close> Inr by (simp add: tcp_pass_def)
  qed
qed

lemma tcp_input_state_pass:
  assumes "tcp_input_state k th opts skb sa fam env s = Some (rc, skb', env', s')"
    and "state_of s k \<notin> {TCP_CLOSE, TCP_LISTEN, TCP_SYN_SENT}"
  shows "s' \<in> {s, snd (tcp_send_ack k s)} \<or>
     (if th_rst th then s' = snd (tcp_recv_notify k (tcp_enter_time_wait k s)) else s' = tcp_pass k th skb s)"
proof -
  have eq: "tcp_input_state k th opts skb sa fam env s =
     (if \<not> tcp_verify_segment th skb (tsks s k) then
            Some (0, free_skb skb, env, if th_rst th then s else snd (tcp_send_ack k s))
          else if th_rst th then
            Some (0, free_skb skb, env, snd (tcp_recv_notify k (tcp_enter_time_wait k s)))
          else if th_syn th then
            Some (0, free_skb skb, env, snd (tcp_send_challenge_ack s))
          else if \<not> th_ack th then Some (0, free_skb skb, env, s)
          else case tcp_ack_stage k th skb s of
                 Inl (rc, skb, s) \<Rightarrow> Some (rc, skb, env, s)
               | Inr s \<Rightarrow> (let (rc, skb, s) = tcp_input_tail k th skb s in Some (rc, skb, env, s)))"
    using assms(2) unfolding tcp_input_state_def by (cases "state_of s k") simp_all
  show ?thesis
    using assms(1) unfolding eq tcp_pass_def
    by (auto simp: tcp_send_challenge_ack_def case_prod_beta split: if_splits sum.splits)
qed

text \<open>
  Property C4. Whatever segment arrives, the state of the socket stays or moves along an edge of
  RFC 793 or one of the program's three ways to abandon a connection, and the state of every other
  existing socket stays.
\<close>
theorem tcp_input_transitions:
  assumes "tcp_input_state k th opts skb saddr family env s = Some (rc, skb', env', s')"
    and "env_quiet env" and "k < next_sock s"
  shows "input_edge (th_rst th) (state_of s k) (state_of s' k) \<and>
    (\<forall>j < next_sock s. j \<noteq> k \<longrightarrow> state_of s' j = state_of s j)"
proof -
  have refl: "input_edge r st st" for r st by (simp add: input_edge_def)
  consider (closed) "state_of s k = TCP_CLOSE" | (listen) "state_of s k = TCP_LISTEN"
    | (synsent) "state_of s k = TCP_SYN_SENT" | (other) "state_of s k \<notin> {TCP_CLOSE, TCP_LISTEN, TCP_SYN_SENT}"
    by blast
  then show ?thesis
  proof cases
    case closed
    then show ?thesis using assms(1) refl
      by (auto simp: tcp_input_state_def tcp_closed_def case_prod_beta split: if_splits)
  next
    case listen
    then show ?thesis using assms(1,3) refl tcp_listen_state [OF _ assms(2)]
      by (auto simp: tcp_input_state_def)
  next
    case synsent
    then have "tcp_synsent k th opts skb env s = Some (rc, skb', env', s')"
      using assms(1) by (simp add: tcp_input_state_def)
    from tcp_synsent_state [OF this assms(2) synsent] show ?thesis using synsent by (auto split: if_splits)
  next
    case other
    have tw: "input_edge True (state_of s k) TCP_TIME_WAIT"
      using other by (auto simp: input_edge_def abort_edge_simps)
    show ?thesis
      using tcp_input_state_pass [OF assms(1) other] refl tcp_pass_edge [where th = th and skb = skb, OF other] tw
      by (auto split: if_splits)
  qed
qed

theorem tcp_input_transitions_witness:
  "\<exists>rc skb' env' s'. tcp_input_state 0 rst_hdr [] (text_skb 0 []) (replicate 16 0) AF_INET6 [] snd_demo =
      Some (rc, skb', env', s') \<and> input_edge True TCP_ESTABLISHED (sk_state (tsks s' 0))"
proof -
  have "th_rst rst_hdr" by (simp add: rst_hdr_def)
  then obtain s' where r: "tcp_input_state 0 rst_hdr [] (text_skb 0 []) (replicate 16 0) AF_INET6 [] snd_demo =
      Some (0, free_skb (text_skb 0 []), [], s')"
    using rst_demo_verify by (auto simp: tcp_input_state_def)
  then show ?thesis
    using tcp_input_transitions [OF r] \<open>th_rst rst_hdr\<close> by (auto simp: env_quiet_def)
qed

text \<open>
  A reset in a synchronized state does not close the connection: it puts the socket into
  TIME-WAIT with the 2MSL timer running, keeps \<open>sk_err\<close>, and lets readers continue.
\<close>
lemma rst_enters_time_wait:
  assumes "state_of s k \<notin> {TCP_CLOSE, TCP_LISTEN, TCP_SYN_SENT}"
    and "tcp_verify_segment th skb (tsks s k)" and "th_rst th"
  shows "\<exists>s'. tcp_input_state k th opts skb saddr family env s = Some (0, free_skb skb, env, s') \<and>
    state_of s' k = TCP_TIME_WAIT \<and> sk_err (tsks s' k) = sk_err (tsks s k) \<and> linger (tsks s' k) \<noteq> None \<and>
    (k, Wait_recv) \<in> set (wakes s')"
proof -
  have eq: "tcp_input_state k th opts skb saddr family env s =
      Some (0, free_skb skb, env, snd (tcp_recv_notify k (tcp_enter_time_wait k s)))"
    using assms unfolding tcp_input_state_def by (cases "state_of s k") simp_all
  show ?thesis
    unfolding eq
    by (simp add: tcp_enter_time_wait_def tcp_add_linger_def tcp_recv_notify_def case_prod_beta Let_def
        wait_wakeup_def)
      (simp add: tcp_clear_timers_def tcp_stop_rto_timer_def tcp_stop_delack_timer_def tcp_cancel_linger_def
        tcp_set_state_def Let_def)
qed

lemma rst_enters_time_wait_example:
  "\<exists>s'. tcp_input_state 0 rst_hdr [] (text_skb 0 []) (replicate 16 0) AF_INET6 [] snd_demo =
      Some (0, free_skb (text_skb 0 []), [], s') \<and> state_of s' 0 = TCP_TIME_WAIT"
  using rst_enters_time_wait [OF _ rst_demo_verify, of "[]" "replicate 16 0" AF_INET6 "[]"]
  by (auto simp: rst_hdr_def)

end
