(* ===== verification/Tcp_Send.thy ===== *)
theory Tcp_Send
  imports Tcp_States
begin

text \<open>
  Sending data: the retransmission queue and its invariant, the loop of \<open>tcp_send\<close>, and the effect of path
  MTU messages on it.
\<close>

section \<open>The retransmission queue\<close>

text \<open>The write queue holds what is sent and not acknowledged: \<open>inflight\<close> is its length in bytes, and every
  buffer has a sequence number.\<close>

definition seg_sent :: "sk_buff \<Rightarrow> bool" where
  "seg_sent b \<longleftrightarrow> skb_seq b \<noteq> 0 \<and> skb_end_seq b = skb_seq b + skb_dlen b"

definition queue_bytes :: "sk_buff list \<Rightarrow> nat" where
  "queue_bytes bs = (\<Sum>b \<leftarrow> bs. unat (skb_dlen b))"

definition snd_ok :: "tcp_sock \<Rightarrow> bool" where
  "snd_ok t \<longleftrightarrow> wf_queue (sk_write_queue t) \<and> list_all seg_sent (skb_list (sk_write_queue t)) \<and>
     unat (inflight t) = queue_bytes (skb_list (sk_write_queue t))"

lemma queue_bytes_simps [simp]:
  "queue_bytes [] = 0" "queue_bytes (b # bs) = unat (skb_dlen b) + queue_bytes bs"
  "queue_bytes (as @ bs) = queue_bytes as + queue_bytes bs"
  by (simp_all add: queue_bytes_def)

lemma same_segs_props:
  assumes "same_segs xs ys"
  shows "queue_bytes xs = queue_bytes ys" "list_all seg_sent xs = list_all seg_sent ys" "length xs = length ys"
proof -
  have *: "list_all2 same_seg xs ys" using assms by (simp add: same_segs_def)
  from * show "queue_bytes xs = queue_bytes ys" by induction (simp_all add: same_seg_def)
  from * show "list_all seg_sent xs = list_all seg_sent ys" by induction (simp_all add: same_seg_def seg_sent_def)
  from * show "length xs = length ys" by (rule list_all2_lengthD)
qed

lemma snd_ok_segs:
  assumes "same_segs (skb_list (sk_write_queue t')) (skb_list (sk_write_queue t))"
    and "qlen (sk_write_queue t') = qlen (sk_write_queue t)" and "inflight t' = inflight t"
  shows "snd_ok t' = snd_ok t"
  using assms(2,3) same_segs_props [OF assms(1)] by (simp add: snd_ok_def wf_queue_def)

lemma same_segs_refl [simp]: "same_segs xs xs" by (simp add: same_segs_def list_all2_refl)

lemma snd_ok_cong: "sk_write_queue t' = sk_write_queue t \<Longrightarrow> inflight t' = inflight t \<Longrightarrow> snd_ok t' = snd_ok t"
  by (simp add: snd_ok_def)

lemma snd_ok_fields [simp]:
  "snd_ok (t\<lparr>cwnd := x0\<rparr>) = snd_ok t"
  "snd_ok (t\<lparr>ssthresh := x1\<rparr>) = snd_ok t"
  "snd_ok (t\<lparr>bytes_acked := x2\<rparr>) = snd_ok t"
  "snd_ok (t\<lparr>in_recovery := x3\<rparr>) = snd_ok t"
  "snd_ok (t\<lparr>dupacks := x4\<rparr>) = snd_ok t"
  "snd_ok (t\<lparr>backoff := x5\<rparr>) = snd_ok t"
  "snd_ok (t\<lparr>rto := x6\<rparr>) = snd_ok t"
  "snd_ok (t\<lparr>sk_err := x7\<rparr>) = snd_ok t"
  "snd_ok (t\<lparr>sk_poll_events := x8\<rparr>) = snd_ok t"
  "snd_ok (t\<lparr>sk_state := x9\<rparr>) = snd_ok t"
  "snd_ok (t\<lparr>tcb_of := x10\<rparr>) = snd_ok t"
  "snd_ok (t\<lparr>last_ack_win := x11\<rparr>) = snd_ok t"
  by (simp_all add: snd_ok_def)

subsection \<open>Acknowledgement\<close>

definition acked_by :: "u32 \<Rightarrow> sk_buff \<Rightarrow> bool" where
  "acked_by una b \<longleftrightarrow> skb_seq b > 0 \<and> skb_end_seq b \<le> una"

lemma tcp_acked_skb_inflight:
  "inflight (tcp_acked_skb skb q t) = (if inflight t \<ge> skb_dlen skb then inflight t - skb_dlen skb else 0)"
  by (simp add: tcp_acked_skb_def tcp_cong_avoid_def Let_def)

lemma tcp_clean_loop_prefix:
  assumes "wf_queue (sk_write_queue (tsks s k))"
  shows "skb_list (sk_write_queue (tsks (tcp_clean_loop k una s) k)) =
      dropWhile (acked_by una) (skb_list (sk_write_queue (tsks s k))) \<and>
    (snd_ok (tsks s k) \<longrightarrow> snd_ok (tsks (tcp_clean_loop k una s) k))"
  using assms
proof (induction "skb_list (sk_write_queue (tsks s k))" arbitrary: s)
  case Nil
  then have "tcp_clean_loop k una s = s" by (subst tcp_clean_loop.simps) (simp add: skb_peek_wf)
  with Nil show ?case by simp
next
  case (Cons b bs)
  let ?t = "tsks s k"
  have l: "skb_list (sk_write_queue ?t) = b # bs" using Cons.hyps(2) by simp
  have peek: "skb_peek (sk_write_queue ?t) = Some b" using Cons.prems l by (simp add: skb_peek_wf)
  obtain q where q: "skb_dequeue (sk_write_queue ?t) = Some (b, q)" "wf_queue q" "skb_list q = bs"
    using skb_dequeue_Cons [OF Cons.prems l] by auto
  define s1 where "s1 = upd_tsk k (tcp_acked_skb b q) (wait_wakeup k Wait_write s)"
  have s1: "tsks s1 k = tcp_acked_skb b q ?t" by (simp add: s1_def)
  have step: "tcp_clean_loop k una s = (if acked_by una b then tcp_clean_loop k una s1 else s)"
    by (subst tcp_clean_loop.simps) (simp add: peek q(1) s1_def acked_by_def)
  have ok: "snd_ok (tsks s1 k)" if "snd_ok ?t"
    using that q l by (simp add: s1 snd_ok_def tcp_acked_skb_inflight word_le_nat_alt unat_sub)
  show ?case
    using Cons.hyps(1) [of s1] q s1 ok l by (simp add: step)
qed

lemma tcp_ack_cleans:
  assumes "snd_ok (tsks s k)"
  shows "skb_list (sk_write_queue (tsks (tcp_clean_rto_queue k una s) k)) =
      dropWhile (acked_by una) (skb_list (sk_write_queue (tsks s k))) \<and>
    unat (inflight (tsks (tcp_clean_rto_queue k una s) k)) =
      queue_bytes (dropWhile (acked_by una) (skb_list (sk_write_queue (tsks s k)))) \<and>
    snd_ok (tsks (tcp_clean_rto_queue k una s) k)"
proof -
  define s1 where "s1 = tcp_clean_loop k una s"
  have "wf_queue (sk_write_queue (tsks s k))" using assms by (simp add: snd_ok_def)
  from tcp_clean_loop_prefix [OF this, of una] assms
  have "skb_list (sk_write_queue (tsks s1 k)) = dropWhile (acked_by una) (skb_list (sk_write_queue (tsks s k)))"
    "snd_ok (tsks s1 k)" by (simp_all add: s1_def)
  moreover have "sk_write_queue (tsks (tcp_clean_rto_queue k una s) k) = sk_write_queue (tsks s1 k)"
    "inflight (tsks (tcp_clean_rto_queue k una s) k) = inflight (tsks s1 k)"
    by (simp_all add: tcp_clean_rto_queue_def s1_def Let_def tcp_stop_rto_timer_def)
  ultimately show ?thesis by (simp add: snd_ok_def)
qed

text \<open>
  Property C32. An acknowledgement of \<open>una\<close> takes exactly the leading fully acknowledged buffers off the
  retransmission queue, and \<open>inflight\<close> remains the number of bytes still queued.
\<close>
theorem tcp_ack_cleans_prefix:
  assumes "snd_ok (tsks s k)"
  shows "skb_list (sk_write_queue (tsks (tcp_clean_rto_queue k una s) k)) =
      dropWhile (acked_by una) (skb_list (sk_write_queue (tsks s k))) \<and>
    unat (inflight (tsks (tcp_clean_rto_queue k una s) k)) =
      queue_bytes (dropWhile (acked_by una) (skb_list (sk_write_queue (tsks s k)))) \<and>
    snd_ok (tsks (tcp_clean_rto_queue k una s) k)"
  using assms by (rule tcp_ack_cleans)

lemma snd_demo_ok: "snd_ok (tsks snd_demo k)"
  by (simp add: snd_ok_def wf_queue_def seg_sent_def text_skb_sel)
    (simp add: snd_demo_def skb_queue_tail_def skb_queue_init_def text_skb_def)

theorem tcp_ack_cleans_prefix_witness:
  "skb_list (sk_write_queue (tsks (tcp_clean_rto_queue 0 13 snd_demo) 0)) = [text_skb 13 [4, 5]]"
  using tcp_ack_cleans_prefix [OF snd_demo_ok, of 0 13] by (simp add: acked_by_def text_skb_sel)


subsection \<open>The invariant\<close>

lemma wq_frames [simp]:
  "sk_write_queue (tsks (tcp_release_rto_timer k s) j) = sk_write_queue (tsks s j)"
  "inflight (tsks (tcp_release_rto_timer k s) j) = inflight (tsks s j)"
  "sk_write_queue (tsks (tcp_rearm_rto_timer k s) j) = sk_write_queue (tsks s j)"
  "inflight (tsks (tcp_rearm_rto_timer k s) j) = inflight (tsks s j)"
  "sk_write_queue (tsks (tcp_handle_fin_state k s) j) = sk_write_queue (tsks s j)"
  "inflight (tsks (tcp_handle_fin_state k s) j) = inflight (tsks s j)"
  "sk_write_queue (tsks (tcp_rtt k s) j) = sk_write_queue (tsks s j)"
  "inflight (tsks (tcp_rtt k s) j) = inflight (tsks s j)"
  "inflight (tsks (tcp_set_state k st s) j) = inflight (tsks s j)"
  by (simp_all add: tcp_release_rto_timer_def tcp_rearm_rto_timer_def tcp_handle_fin_state_def tcp_rtt_def
      tcp_rtt_update_def tcp_set_state_def Let_def case_prod_beta upd_tsk_at split: tcp_states.split option.split)

lemma tcp_clear_timers_wq [simp]:
  "sk_write_queue (tsks (tcp_clear_timers k s) j) = sk_write_queue (tsks s j)"
  "inflight (tsks (tcp_clear_timers k s) j) = inflight (tsks s j)"
  by (simp_all add: tcp_clear_timers_def tcp_stop_rto_timer_def tcp_stop_delack_timer_def
      tcp_cancel_linger_def Let_def upd_tsk_at)

lemma tcp_done_wq [simp]:
  "sk_write_queue (tsks (snd (tcp_done k s)) j) = sk_write_queue (tsks s j)"
  "inflight (tsks (snd (tcp_done k s)) j) = inflight (tsks s j)"
  by (simp_all add: tcp_done_def tcp_free_def tcp_clear_queues_def socket_delete_def Let_def upd_tsk_at)

lemma snd_ok_transmit [simp]: "snd_ok (tsks (snd (tcp_transmit_queued k i seq s)) j) = snd_ok (tsks s j)"
  by (rule snd_ok_segs) (simp_all add: tcp_transmit_queued_segs)

lemma snd_ok_reset [simp]: "snd_ok (tsks (tcp_reset_queued k i s) j) = snd_ok (tsks s j)"
  by (rule snd_ok_segs) (auto simp: tcp_reset_queued_def upd_tsk_at skb_queue_upd_def same_segs_def
      list_all2_conv_all_nth nth_list_update same_seg_def skb_reset_header_def)

lemma snd_ok_sack_clear [simp]: "snd_ok (tsks (tcp_sack_clear k s) j) = snd_ok (tsks s j)"
  by (rule snd_ok_segs) (auto simp: tcp_sack_clear_def upd_tsk_at same_segs_def
      list_all2_conv_all_nth same_seg_def)

lemma snd_ok_fast_retransmit [simp]: "snd_ok (tsks (snd (tcp_fast_retransmit k s)) j) = snd_ok (tsks s j)"
  by (simp add: tcp_fast_retransmit_def Let_def split: option.split)

text \<open>Nothing is left to send: every queued buffer has its sequence number.\<close>

lemma tcp_send_next_idle:
  assumes "snd_ok (tsks s k)"
  shows "snd (tcp_send_next k n extra s) = s"
proof -
  have "tcp_send_next_loop k w js s = s" if "\<forall>i \<in> set js. i < length (skb_list (sk_write_queue (tsks s k)))" for w js
    using that assms
    by (induction js) (auto simp: Let_def snd_ok_def seg_sent_def list_all_length)
  then show ?thesis by (simp add: tcp_send_next_def Let_def)
qed

inductive snd_step :: "nat \<Rightarrow> tcpstate \<Rightarrow> tcpstate \<Rightarrow> bool" for k :: nat where
  snd_send: "tcp_queue_transmit_skb k skb [] s = Some (rc, env, s') \<Longrightarrow> snd_nxt (tcb_of (tsks s k)) \<noteq> 0
    \<Longrightarrow> unat (inflight (tsks s k)) + unat (skb_dlen skb) < 2 ^ 32
    \<Longrightarrow> length (skb_list (sk_write_queue (tsks s k))) + 1 < 2 ^ 32 \<Longrightarrow> snd_step k s s'"
| snd_ack: "snd_step k s (tcp_new_ack k ack s)"
| snd_dupack: "snd_step k s (tcp_handle_dupack k s)"
| snd_timeout: "snd_step k s (tcp_retransmission_timeout k epoch s)"

lemma snd_ok_send:
  assumes "tcp_queue_transmit_skb k skb [] s = Some (rc, env, s')" and "snd_nxt (tcb_of (tsks s k)) \<noteq> 0"
    and "unat (inflight (tsks s k)) + unat (skb_dlen skb) < 2 ^ 32"
    and "length (skb_list (sk_write_queue (tsks s k))) + 1 < 2 ^ 32" and "snd_ok (tsks s k)"
  shows "snd_ok (tsks s' k)"
proof -
  have w: "tcp_wait_snd_wnd k (skb_dlen skb) [] s = Some ([], s)"
    using assms(1) by (auto simp: tcp_queue_transmit_skb_def tcp_wait_snd_wnd.simps [of k _ "[]"] split: if_splits)
  have e: "snd_ok (tsks (tcp_enqueue_skb k skb s) k)"
    using assms(2-5)
    by (simp add: tcp_enqueue_skb_def Let_def upd_tsk_at upd_tcb_at snd_ok_def wf_queue_tail seg_sent_def
        unat_word_ariths)
  define s2 where "s2 = (if skb_queue_empty (sk_write_queue (tsks s k))
     then tcp_rearm_rto_timer k (tcp_enqueue_skb k skb s) else tcp_enqueue_skb k skb s)"
  have "snd_ok (tsks (tcp_rearm_rto_timer k s1) k) = snd_ok (tsks s1 k)" for s1
    by (rule snd_ok_cong) simp_all
  then have "snd_ok (tsks s2 k)" using e by (simp add: s2_def)
  moreover have "\<exists>i sq. s' = snd (tcp_transmit_queued k i sq s2)"
    using assms(1) unfolding tcp_queue_transmit_skb_def w Let_def case_prod_beta option.case prod.sel
    by (simp only: option.inject prod.inject flip: s2_def) blast
  ultimately show ?thesis by auto
qed

lemma snd_ok_ack:
  assumes "snd_ok (tsks s k)"
  shows "snd_ok (tsks (tcp_new_ack k ack s) k)"
proof -
  define s1 where "s1 = tcp_rtt k (upd_tcb k (\<lambda>b. b\<lparr>snd_una := ack\<rparr>) s)"
  have "snd_ok (tsks s1 k)" using assms by (simp add: s1_def upd_tcb_at snd_ok_def)
  then have c: "snd_ok (tsks (tcp_clean_rto_queue k ack s1) k)" 
    using tcp_ack_cleans [of s1 k ack] by simp
  moreover have "snd_ok (tcp_exit_fast_recovery t) = snd_ok t" for t
    by (rule snd_ok_cong) (simp_all add: tcp_exit_fast_recovery_def)
  ultimately show ?thesis by (simp add: tcp_new_ack_def Let_def flip: s1_def)
qed


lemma snd_ok_dupack:
  assumes "snd_ok (tsks s k)"
  shows "snd_ok (tsks (tcp_handle_dupack k s) k)"
proof -
  have r: "snd_ok (tsks (tcp_rearm_rto_timer k s) k) = snd_ok (tsks s k)" for s
    by (rule snd_ok_cong) simp_all
  have f: "snd_ok (tsks (tcp_enter_fast_recovery k s) k) = snd_ok (tsks s k)" for s
    unfolding tcp_enter_fast_recovery_def Let_def case_prod_beta r by simp
  define s1 where "s1 = upd_tsk k (\<lambda>t. t\<lparr>dupacks := dupacks t + 1\<rparr>) s"
  define p :: "u32 \<times> tcpstate" where "p = (let d = dupacks (tsks s1 k) in
     if d < 3 then (ucast d * ucast (smss (tsks s1 k)), s1)
     else if d = 3 then (0, tcp_enter_fast_recovery k s1)
     else (0, upd_tsk k (\<lambda>t. t\<lparr>cwnd := cwnd t + ucast (smss t)\<rparr>) s1))"
  have "snd_ok (tsks s1 k)" using assms by (simp add: s1_def)
  then have p: "snd_ok (tsks (snd p) k)" by (simp add: p_def Let_def f)
  have "tcp_handle_dupack k s = (let pending = skb_queue_len (sk_write_queue (tsks (snd p) k))
      in if sint pending > 0 then snd (tcp_send_next k (unat pending) (fst p) (snd p)) else snd p)"
    unfolding tcp_handle_dupack_def Let_def case_prod_beta p_def s1_def by (rule refl)
  then show ?thesis using p by (simp add: Let_def tcp_send_next_idle)
qed

lemma snd_ok_timeout:
  assumes "snd_ok (tsks s k)"
  shows "snd_ok (tsks (tcp_retransmission_timeout k epoch s) k)"
proof -
  have r: "snd_ok (tsks (tcp_rearm_rto_timer k s) k) = snd_ok (tsks s k)"
    "snd_ok (tsks (tcp_release_rto_timer k s) k) = snd_ok (tsks s k)"
    "snd_ok (tsks (tcp_handle_fin_state k s) k) = snd_ok (tsks s k)"
    "snd_ok (tsks (snd (tcp_done k s)) k) = snd_ok (tsks s k)"
    "snd_ok (tsks (tcp_notify_user k s) k) = snd_ok (tsks s k)" for s
    by (rule snd_ok_cong; simp add: tcp_notify_user_def)+
  show ?thesis
    unfolding tcp_retransmission_timeout_def Let_def case_prod_beta
    using assms by (simp add: r tcp_rto_congestion_def split: option.split)
qed

lemma snd_step_ok: "snd_step k s s' \<Longrightarrow> snd_ok (tsks s k) \<Longrightarrow> snd_ok (tsks s' k)"
  by (cases rule: snd_step.cases) (auto intro: snd_ok_send snd_ok_ack snd_ok_dupack snd_ok_timeout)

text \<open>
  Property C5. Along every sequence of sends, acknowledgements, duplicate acknowledgements and
  retransmission timeouts the retransmission queue is well formed, all its buffers carry their sequence
  numbers, and \<open>inflight\<close> is the number of bytes queued.
\<close>
theorem snd_invariant:
  assumes "(snd_step k)\<^sup>*\<^sup>* s s'" and "snd_ok (tsks s k)"
  shows "snd_ok (tsks s' k)"
  using assms by (induction rule: rtranclp_induct) (auto intro: snd_step_ok)

theorem snd_invariant_witness: "snd_ok (tsks (tcp_new_ack 0 13 snd_demo) 0)"
  using snd_invariant [OF r_into_rtranclp [of "snd_step 0", OF snd_step.snd_ack [of 0 snd_demo 13]] snd_demo_ok] .

section \<open>Sending\<close>

lemma tcp_data_skb_dlen [simp]: "skb_dlen (tcp_data_skb t chunk l) = of_nat (length chunk)"
  by (simp add: tcp_data_skb_def tcp_set_hdr_def tcp_alloc_skb_def skb_store_def Let_def skb_reserve_def)


lemma tcp_rearm_rto_timer_sel [simp]:
  "cwnd (tsks (tcp_rearm_rto_timer k s) j) = cwnd (tsks s j)" "tcb_of (tsks (tcp_rearm_rto_timer k s) j) = tcb_of (tsks s j)"
  "smss (tsks (tcp_rearm_rto_timer k s) j) = smss (tsks s j)"
  by (simp_all add: tcp_rearm_rto_timer_def tcp_release_rto_timer_def Let_def case_prod_beta upd_tsk_at)

text \<open>One segment goes out at once when the window has room.\<close>

lemma tcp_queue_transmit_open:
  assumes "inflight (tsks s k) + skb_dlen skb \<le> umin (cwnd (tsks s k)) (snd_wnd (tcb_of (tsks s k)))"
  shows "\<exists>rc s'. tcp_queue_transmit_skb k skb env s = Some (rc, env, s') \<and>
    inflight (tsks s' k) = inflight (tsks s k) + skb_dlen skb \<and> cwnd (tsks s' k) = cwnd (tsks s k) \<and>
    snd_wnd (tcb_of (tsks s' k)) = snd_wnd (tcb_of (tsks s k)) \<and>
    length (skb_list (sk_write_queue (tsks s' k))) = length (skb_list (sk_write_queue (tsks s k))) + 1"
proof -
  have w: "tcp_wait_snd_wnd k (skb_dlen skb) env s = Some (env, s)"
    using assms unfolding not_less [symmetric] by (subst tcp_wait_snd_wnd.simps) (simp only: if_False)
  define s2 where "s2 = (if skb_queue_empty (sk_write_queue (tsks s k))
     then tcp_rearm_rto_timer k (tcp_enqueue_skb k skb s) else tcp_enqueue_skb k skb s)"
  have "inflight (tsks s2 k) = inflight (tsks s k) + skb_dlen skb" "cwnd (tsks s2 k) = cwnd (tsks s k)"
    "snd_wnd (tcb_of (tsks s2 k)) = snd_wnd (tcb_of (tsks s k))"
    "length (skb_list (sk_write_queue (tsks s2 k))) = length (skb_list (sk_write_queue (tsks s k))) + 1"
    by (simp_all add: s2_def tcp_enqueue_skb_def Let_def upd_tsk_at upd_tcb_at)
  moreover have "\<exists>i sq. tcp_queue_transmit_skb k skb env s =
     Some (fst (tcp_transmit_queued k i sq s2), env, snd (tcp_transmit_queued k i sq s2))"
    unfolding tcp_queue_transmit_skb_def w Let_def case_prod_beta option.case prod.sel
    by (simp only: option.inject prod.inject flip: s2_def) blast
  ultimately show ?thesis by auto
qed

lemma ceiling_div_step:
  assumes "0 < m" and "n \<noteq> (0 :: nat)"
  shows "(n + m - 1) div m = 1 + (n - m + m - 1) div m"
proof (cases "m \<le> n")
  case True
  then obtain d where d: "n = m + d" using le_Suc_ex by blast
  have "(m + (m + d - 1)) div m = 1 + (m + d - 1) div m" using assms(1) by (subst div_add_self1) simp_all
  moreover have "m + d + m - 1 = m + (m + d - 1)" using assms(1) by simp
  ultimately show ?thesis using d by (simp add: add.commute)
next
  case False
  then have "(n + m - 1) div m = 1" using assms by (intro div_nat_eqI) auto
  with False assms(1) show ?thesis by simp
qed

lemma tcp_send_loop_open:
  assumes "0 < mss" and "unat (inflight (tsks s k)) + length buf \<le>
     unat (umin (cwnd (tsks s k)) (snd_wnd (tcb_of (tsks s k))))"
  shows "\<exists>s'. tcp_send_loop k mss buf env s = Some (env, s') \<and>
    unat (inflight (tsks s' k)) = unat (inflight (tsks s k)) + length buf \<and>
    length (skb_list (sk_write_queue (tsks s' k))) =
      length (skb_list (sk_write_queue (tsks s k))) + (length buf + mss - 1) div mss"
  using assms(2)
proof (induction "length buf" arbitrary: buf s rule: less_induct)
  case less
  show ?case
  proof (cases "buf = []")
    case True
    then show ?thesis using assms(1) by (subst tcp_send_loop.simps) simp
  next
    case False
    define c where "c = take mss buf"
    define skb where "skb = tcp_data_skb (tsks s k) c (length buf \<le> mss)"
    let ?w = "umin (cwnd (tsks s k)) (snd_wnd (tcb_of (tsks s k)))"
    have lc: "length c = min mss (length buf)" by (simp add: c_def)
    have small: "unat (inflight (tsks s k)) + length c < 2 ^ 32"
      using less.prems lc unsigned_less [of ?w, where ?'a = nat] by simp
    then have dl: "unat (skb_dlen skb) = length c" by (simp add: skb_def unat_of_nat)
    have inf: "unat (inflight (tsks s k) + skb_dlen skb) = unat (inflight (tsks s k)) + length c"
      using small dl by (simp add: unat_word_ariths)
    have "inflight (tsks s k) + skb_dlen skb \<le> ?w"
      using less.prems inf lc by (simp add: word_le_nat_alt)
    then obtain rc s1 where s1: "tcp_queue_transmit_skb k skb env s = Some (rc, env, s1)"
      "inflight (tsks s1 k) = inflight (tsks s k) + skb_dlen skb" "cwnd (tsks s1 k) = cwnd (tsks s k)"
      "snd_wnd (tcb_of (tsks s1 k)) = snd_wnd (tcb_of (tsks s k))"
      "length (skb_list (sk_write_queue (tsks s1 k))) = length (skb_list (sk_write_queue (tsks s k))) + 1"
      using tcp_queue_transmit_open by blast
    have ld: "length (drop mss buf) < length buf" using False assms(1) by (cases buf) auto
    have "unat (inflight (tsks s1 k)) + length (drop mss buf) \<le> unat (umin (cwnd (tsks s1 k)) (snd_wnd (tcb_of (tsks s1 k))))"
      using less.prems s1 inf lc by simp
    from less.hyps [OF ld this] obtain s' where s': "tcp_send_loop k mss (drop mss buf) env s1 = Some (env, s')"
      "unat (inflight (tsks s' k)) = unat (inflight (tsks s1 k)) + length (drop mss buf)"
      "length (skb_list (sk_write_queue (tsks s' k))) =
        length (skb_list (sk_write_queue (tsks s1 k))) + (length (drop mss buf) + mss - 1) div mss" by auto
    have "tcp_send_loop k mss buf env s = Some (env, s')"
      using False s1(1) s'(1) by (subst tcp_send_loop.simps) (simp flip: c_def skb_def)
    moreover have "(length buf + mss - 1) div mss = 1 + (length buf - mss + mss - 1) div mss"
      using ceiling_div_step assms(1) False by simp
    ultimately show ?thesis using s' s1 inf lc by (auto simp: min_def)
  qed
qed

text \<open>
  Property C13. \<open>tcp_send\<close> ends: when the segment size is positive and the congestion and send windows have
  room for the data, it returns the number of bytes given, without sleeping, after queueing
  \<open>\<lceil>len / mss\<rceil>\<close> segments with all the bytes in flight.
\<close>
theorem tcp_send_terminates:
  assumes "0 < smss (tsks s k)"
    and "unat (inflight (tsks s k)) + length buf \<le> unat (umin (cwnd (tsks s k)) (snd_wnd (tcb_of (tsks s k))))"
  shows "\<exists>s'. tcp_send k buf env s = Some (int (length buf), env, s') \<and>
    unat (inflight (tsks s' k)) = unat (inflight (tsks s k)) + length buf \<and>
    length (skb_list (sk_write_queue (tsks s' k))) = length (skb_list (sk_write_queue (tsks s k))) +
      (length buf + unat (smss (tsks s k)) - 1) div unat (smss (tsks s k))"
proof -
  have "0 < unat (smss (tsks s k))" using assms(1) by (simp add: word_less_nat_alt)
  from tcp_send_loop_open [OF this assms(2), of env] obtain s' where
    "tcp_send_loop k (unat (smss (tsks s k))) buf env s = Some (env, s')"
    "unat (inflight (tsks s' k)) = unat (inflight (tsks s k)) + length buf"
    "length (skb_list (sk_write_queue (tsks s' k))) = length (skb_list (sk_write_queue (tsks s k))) +
      (length buf + unat (smss (tsks s k)) - 1) div unat (smss (tsks s k))" by blast
  then show ?thesis
    by (simp add: tcp_send_def tcp_rearm_user_timeout_def tcp_add_linger_def Let_def case_prod_beta)
qed

theorem tcp_send_terminates_witness:
  "\<exists>s'. tcp_send 0 (replicate 600 0) [] snd_demo = Some (600, [], s')"
  using tcp_send_terminates [of snd_demo 0 "replicate 600 0" "[]"] by auto

lemma tcp_send_loop_zero:
  assumes "tcp_send_loop k mss buf env s = Some r"
  shows "mss = 0 \<longrightarrow> buf = []"
proof (rule tcp_send_loop.raw_induct [of "\<lambda>k mss buf env s r. mss = 0 \<longrightarrow> buf = []", OF _ assms])
  fix rec :: "nat \<Rightarrow> nat \<Rightarrow> bytes \<Rightarrow> sched \<Rightarrow> tcpstate \<Rightarrow> (sched \<times> tcpstate) option"
    and k mss buf env s r
  assume IH: "\<And>k mss buf env s r. rec k mss buf env s = Some r \<Longrightarrow> mss = 0 \<longrightarrow> buf = []"
    and eq: "(if buf = [] then Some (env, s)
      else Option.bind
        (tcp_queue_transmit_skb k (tcp_data_skb (tsks s k) (take mss buf) (drop mss buf = [])) env s)
        (\<lambda>r. rec k mss (drop mss buf) (fst (snd r)) (snd (snd r)))) = Some r"
  show "mss = 0 \<longrightarrow> buf = []"
  proof
    assume "mss = 0"
    show "buf = []"
    proof (rule ccontr)
      assume ne: "buf \<noteq> []"
      with eq \<open>mss = 0\<close> obtain x where "rec k mss buf (fst (snd x)) (snd (snd x)) = Some r"
        by (auto simp: bind_eq_Some_conv)
      with IH \<open>mss = 0\<close> ne show False by blast
    qed
  qed
qed

lemma tcp_send_zero_mss:
  assumes "smss (tsks s k) = 0" and "buf \<noteq> []"
  shows "tcp_send k buf env s = None"
  using tcp_send_loop_zero [where mss = 0 and buf = buf] assms by (auto simp: tcp_send_def split: option.split)

definition pmtu_matches :: "in6_addr \<Rightarrow> tcpstate \<Rightarrow> nat \<Rightarrow> bool" where
  "pmtu_matches daddr s k \<longleftrightarrow> \<not> so_dgram (socks s k) \<and> sk_addr_family (tsks s k) = AF_INET6 \<and>
     sk_protocol (tsks s k) = 6 \<and> ipv6_addr_equal (sk_daddr (tsks s k)) daddr"

lemma clamp_zero:
  assumes "j \<in> set js \<and> pmtu_matches daddr s j \<or> smss (tsks s j) = 0"
  shows "smss (tsks (fold (\<lambda>k s. if pmtu_matches daddr s k then upd_tsk k (tcp_clamp_mss 0) s else s) js s) j) = 0"
  using assms
proof (induction js arbitrary: s)
  case (Cons i js)
  define s1 where "s1 = (if pmtu_matches daddr s i then upd_tsk i (tcp_clamp_mss 0) s else s)"
  have "pmtu_matches daddr s1 j = pmtu_matches daddr s j"
    by (simp add: s1_def pmtu_matches_def upd_tsk_def tcp_clamp_mss_def)
  moreover have "smss (tsks s1 j) = 0" if "smss (tsks s j) = 0 \<or> i = j \<and> pmtu_matches daddr s j"
    using that by (auto simp: s1_def upd_tsk_def tcp_clamp_mss_def word_gt_0)
  ultimately show ?case
    using Cons.IH [of s1] Cons.prems by (auto simp flip: s1_def)
qed simp



end
