(* ===== verification/Tcp_Cong.thy ===== *)
theory Tcp_Cong
  imports Tcp_Send
begin

text \<open>
  The round-trip estimator, the congestion window, the options of outgoing segments, and retransmission
  handlers that come too late.
\<close>

section \<open>Round-trip time\<close>

text \<open>
  Property C33. The round-trip estimator stays within the measurements: with measurements and estimates
  in \<open>0..m\<close> the smoothed values stay in \<open>0..m\<close>, and the retransmission timeout is
  \<open>srtt + max 200 (4 * rttvar)\<close> without overflow, at least 200 and at most \<open>5 * m + 200\<close>.
\<close>
theorem rtt_estimate_bounds:
  assumes "0 \<le> r" "r \<le> m" "0 \<le> srtt t" "srtt t \<le> m" "0 \<le> rttvar t" "rttvar t \<le> m" "m < 2 ^ 29"
  defines "t' \<equiv> tcp_rtt_update r t"
  shows "0 \<le> srtt t' \<and> srtt t' \<le> m \<and> 0 \<le> rttvar t' \<and> rttvar t' \<le> m \<and>
    uint (rto t') = srtt t' + max 200 (4 * rttvar t') \<and> 200 \<le> uint (rto t') \<and> uint (rto t') \<le> 5 * m + 200"
proof -
  have s: "0 \<le> srtt t' \<and> srtt t' \<le> m" "0 \<le> rttvar t' \<and> rttvar t' \<le> m"
    using assms(1-6) by (auto simp: t'_def tcp_rtt_update_def Let_def trunc_div_def)
  have "rto t' = word_of_int (srtt t' + max 200 (4 * rttvar t'))"
    by (simp add: t'_def tcp_rtt_update_def Let_def max_def)
  moreover have "0 \<le> srtt t' + max 200 (4 * rttvar t')" "srtt t' + max 200 (4 * rttvar t') < 2 ^ 32"
    using s assms(7) by (auto simp: max_def)
  ultimately have "uint (rto t') = srtt t' + max 200 (4 * rttvar t')"
    by (simp only: uint_word_of_int_eq take_bit_int_eq_self len_num1 len_bit0) (simp add: take_bit_int_eq_self)
  with s show ?thesis by (auto simp: max_def)
qed

theorem rtt_estimate_bounds_witness:
  "uint (rto (tcp_rtt_update 100 tcp_alloc_sock)) \<le> 700"
  using rtt_estimate_bounds [of 100 100 tcp_alloc_sock] by (simp add: tcp_alloc_sock_def)

section \<open>Congestion window\<close>

text \<open>
  Acknowledging \<open>acked\<close> bytes never shrinks the congestion window, widens it by at most one
  segment (by at most \<open>acked\<close> in slow start), and leaves it alone during fast recovery.
\<close>
lemma cong_avoid_bounds:
  fixes acked :: u32
  assumes "unat (cwnd t) + unat (smss t) < 2 ^ 32"
  defines "t' \<equiv> tcp_cong_avoid acked t"
  shows "unat (cwnd t) \<le> unat (cwnd t') \<and> unat (cwnd t') \<le> unat (cwnd t) + unat (smss t) \<and>
    (cwnd t < ssthresh t \<longrightarrow> unat (cwnd t') \<le> unat (cwnd t) + unat acked) \<and>
    (in_recovery t \<longrightarrow> t' = t)"
proof -
  have sm: "unat (ucast (smss t) :: u32) = unat (smss t)"
    using unsigned_less [of "smss t", where ?'a = nat] by (simp add: unsigned_ucast_eq take_bit_nat_eq_self)
  have mn: "unat (umin acked (ucast (smss t))) \<le> unat (smss t)" "unat (umin acked (ucast (smss t))) \<le> unat acked"
    using sm by (simp_all add: min_def word_le_nat_alt)
  have "unat (cwnd t + umin acked (ucast (smss t))) = unat (cwnd t) + unat (umin acked (ucast (smss t)))"
    "unat (cwnd t + ucast (smss t)) = unat (cwnd t) + unat (smss t)"
    using assms(1) mn sm by (simp_all add: unat_word_ariths)
  then show ?thesis using mn sm unfolding t'_def tcp_cong_avoid_def Let_def by auto
qed

lemma cong_avoid_bounds_example:
  "unat (cwnd (tcp_cong_avoid 100 tcp_alloc_sock)) \<le> 2680"
  using cong_avoid_bounds [of tcp_alloc_sock 100] by (simp add: tcp_alloc_sock_def)

section \<open>Options\<close>

lemma tcp_sacks_loop_len:
  fixes a b :: u32 and q :: "sk_buff list" and j :: nat
  assumes "length (sacks t) = 4" "1 \<le> sacklen t" "sacklen t \<le> max 1 (sacks_allowed t)" "sacks_allowed t \<le> 4" 
  defines "t' \<equiv> tcp_sacks_loop a b q j t"
  shows "length (sacks t') = 4 \<and> 1 \<le> sacklen t' \<and> sacklen t' \<le> max 1 (sacks_allowed t) \<and>
    sacks_allowed t' = sacks_allowed t \<and> sackok t' = sackok t \<and> wso_allowed t' = wso_allowed t"
  unfolding t'_def using assms(1-4)
proof (induction a b q j t rule: tcp_sacks_loop.induct)
  case (2 a b nb q j t)
  have inc: "1 \<le> sacklen t + 1 \<and> sacklen t + 1 \<le> max 1 (sacks_allowed t)" if "\<not> sacks_allowed t \<le> sacklen t"
    using that 2(6,8) by (auto simp: word_le_nat_alt unat_word_ariths max_def)
  show ?case
    unfolding tcp_sacks_loop.simps Let_def using 2 inc by simp
qed simp


lemma word_le_4: "(x :: u8) \<le> 4 \<Longrightarrow> x \<in> {0, 1, 2, 3, 4}"
proof -
  assume "x \<le> 4"
  then have "unat x \<in> {0, 1, 2, 3, 4}" by (auto simp: word_le_nat_alt)
  then show ?thesis by (auto simp: word_unat_eq_iff)
qed

lemma tcp_pad_aligned: "unat n mod 4 = 0 \<Longrightarrow> tcp_pad_optlen (Suc fuel) n = n"
  by simp

lemma length_sack_bytes: "length (concat (map (\<lambda>i. le32 (f i) @ le32 (g i)) [0..<n])) = 8 * n"
  by (induction n) simp_all

lemma tcp_write_options_len:
  assumes "sacklen t \<le> 4"
  shows "length (fst (tcp_write_options t)) = tcp_options_len t \<and> tcp_options_len t mod 4 = 0 \<and>
    tcp_options_len t \<le> 40"
proof -
  define w where "w = (if wso_allowed t then 4 else 0 :: nat)"
  define n where "n = (if sackok t \<and> sacklen t > 0 \<and> fst (sacks t ! 0) \<noteq> 0 then 4 + 8 * unat (sacklen t) else 0)"
  have n: "n mod 4 = 0" "w mod 4 = 0" "n \<le> 36" "w \<le> 4"
    using assms by (auto simp: n_def w_def word_le_nat_alt)
  have len: "length (fst (tcp_write_options t)) = w + n"
    by (simp add: tcp_write_options_def Let_def w_def n_def length_sack_bytes)
  define x :: u8 where "x = (let n = (0 :: u8);
          n = (if wso_allowed t then n + 1 + 3 else n)
      in if sackok t \<and> sacklen t > 0 \<and> fst (sacks t ! 0) \<noteq> 0 then n + 2 + 2 + sacklen t * 8 else n)"
  have "unat (4 + sacklen t * 8) = 4 + 8 * unat (sacklen t)" "unat (8 + sacklen t * 8) = 8 + 8 * unat (sacklen t)"
    using word_le_4 [OF assms] by auto
  then have x: "unat x = w + n" by (auto simp: x_def w_def n_def Let_def)
  then have "unat x mod 4 = 0" using n by (simp add: mod_add_eq flip: mod_add_left_eq)
  then have "tcp_options_len t = unat x"
    by (simp only: tcp_options_len_def numeral_3_eq_3 tcp_pad_aligned Let_def x_def)
  with x n len show ?thesis by (simp add: mod_add_eq flip: mod_add_left_eq)
qed

text \<open>
  Property C34. The option bytes \<open>tcp_write_options\<close> puts into a segment are exactly as many as
  \<open>tcp_options_len\<close> made room for, a multiple of 4 and at most 40, whatever out-of-order segments
  are queued; at most \<open>max 1 sacks_allowed\<close> SACK blocks are among them.
\<close>
theorem sack_options_fit:
  assumes "sacks_allowed t \<le> 4"
  shows "length (fst (tcp_write_options (tcp_calculate_sacks a b t))) = tcp_options_len (tcp_calculate_sacks a b t) \<and>
    tcp_options_len (tcp_calculate_sacks a b t) mod 4 = 0 \<and>
    tcp_options_len (tcp_calculate_sacks a b t) \<le> 40 \<and>
    sacklen (tcp_calculate_sacks a b t) \<le> max 1 (sacks_allowed t)"
proof -
  define t1 where "t1 = t\<lparr>sacks := [(a, b), (0, 0), (0, 0), (0, 0)], sacklen := 1\<rparr>"
  have eq: "tcp_calculate_sacks a b t = tcp_sacks_loop a b (skb_list (ofo_queue t)) 1 t1"
    by (simp add: tcp_calculate_sacks_def t1_def)
  have "length (sacks t1) = 4" "1 \<le> sacklen t1" "sacklen t1 \<le> max 1 (sacks_allowed t1)" "sacks_allowed t1 \<le> 4"
    using assms by (simp_all add: t1_def)
  from tcp_sacks_loop_len [OF this, of a b "skb_list (ofo_queue t)" 1]
  have l: "sacklen (tcp_calculate_sacks a b t) \<le> max 1 (sacks_allowed t)" by (simp add: eq t1_def)
  have "sacklen (tcp_calculate_sacks a b t) \<le> 4" using l by (rule order_trans) (simp add: assms)
  from tcp_write_options_len [OF this] l show ?thesis by simp
qed

theorem sack_options_fit_witness:
  "sacklen (tcp_calculate_sacks 100 200 tcp_alloc_sock) \<le> 1"
  using sack_options_fit [of tcp_alloc_sock 100 200] by (simp add: tcp_alloc_sock_def)

section \<open>Late handlers\<close>

text \<open>
  A retransmission handler that was started before its timer was rearmed or stopped does
  nothing when it gets the lock afterwards.
\<close>
lemma stale_rto_ignored:
  "tcp_retransmission_timeout k (rto_epoch (tsks s k)) (tcp_rearm_rto_timer k s) = tcp_rearm_rto_timer k s \<and>
   tcp_connect_rto k (rto_epoch (tsks s k)) (tcp_rearm_rto_timer k s) = tcp_rearm_rto_timer k s \<and>
   tcp_retransmission_timeout k (rto_epoch (tsks s k)) (tcp_stop_rto_timer k s) = tcp_stop_rto_timer k s \<and>
   tcp_connect_rto k (rto_epoch (tsks s k)) (tcp_stop_rto_timer k s) = tcp_stop_rto_timer k s"
proof -
  have ne: "e \<noteq> e + (1 :: u64)" for e by simp
  have "rto_epoch (tsks (tcp_rearm_rto_timer k s) k) = rto_epoch (tsks s k) + 1"
    "rto_epoch (tsks (tcp_stop_rto_timer k s) k) = rto_epoch (tsks s k) + 1"
    by (simp_all add: tcp_rearm_rto_timer_def tcp_stop_rto_timer_def tcp_release_rto_timer_def Let_def case_prod_beta)
  then show ?thesis by (simp add: tcp_retransmission_timeout_def tcp_connect_rto_def ne)
qed

end
