(* ===== verification/Tcp_Checksum.thy ===== *)
theory Tcp_Checksum
  imports Tcp_Cong
begin

text \<open>
  The checksum of a TCP segment is computed in two parts, the segment (\<open>src/tcp.c\<close>) when it is
  built and the addresses (\<open>src/ip_output.c\<close>, \<open>src/ipv6_output.c\<close>) when it is routed. The two parts together are the checksum of RFC 1071 over pseudo
  header and segment, and a segment with it passes the check of a receiver.
\<close>

section \<open>The transport checksum\<close>

text \<open>The pseudo headers of RFC 793 and RFC 8200 in front of the segment.\<close>

definition tcp_pseudo4 :: "u32 \<Rightarrow> u32 \<Rightarrow> u32 \<Rightarrow> bytes" where
  "tcp_pseudo4 saddr daddr len =
     (le32 saddr @ le32 daddr) @ [0, IP_TCP, ucast (drop_bit 8 len), ucast len]"

definition tcp_pseudo6 :: "in6_addr \<Rightarrow> in6_addr \<Rightarrow> u32 \<Rightarrow> bytes" where
  "tcp_pseudo6 saddr daddr len = (take 16 saddr @ take 16 daddr) @
     [ucast (drop_bit 24 len), ucast (drop_bit 16 len), ucast (drop_bit 8 len), ucast len, 0, 0, 0, IP_TCP]"

lemma ucast_low8: "(ucast (x AND 0xFF :: u32) :: u8) = ucast x"
proof -
  have "x AND 0xFF = x AND mask 8" by (simp add: mask_eq_exp_minus_1)
  then have "x AND 0xFF = take_bit 8 x" unfolding take_bit_eq_mask .
  moreover have "(ucast (take_bit 8 x) :: u8) = ucast x" by (rule bit_word_eqI) (simp add: bit_simps)
  ultimately show ?thesis by (simp only:)
qed

lemma checksum_parts:
  assumes "even (length a)" and "even (length p)"
  shows "checksum a (0 + sum_every_16bits p + sum_every_16bits b) = checksum ((a @ p) @ b) 0"
  using assms by (simp add: checksum_def sum_every_16bits_append add_ac)

lemma split_checksum4:
  "tcp_v4_ip_partion_checksum saddr daddr (tcp_v4_tcp_partion_checksum skb) =
    checksum (tcp_pseudo4 saddr daddr (skb_len skb) @ skb_bytes skb) 0"
  unfolding tcp_v4_ip_partion_checksum_def tcp_v4_tcp_partion_checksum_def tcp_pseudo4_def Let_def ucast_low8
  by (rule checksum_parts) simp_all

lemma split_checksum6:
  assumes "length saddr = 16" and "length daddr = 16"
  shows "tcp_v6_ip_partion_checksum saddr daddr (tcp_v6_tcp_partion_checksum skb) =
    checksum (tcp_pseudo6 saddr daddr (skb_len skb) @ skb_bytes skb) 0"
  unfolding tcp_v6_ip_partion_checksum_def tcp_v6_tcp_partion_checksum_def tcp_pseudo6_def Let_def ucast_low8
  by (rule checksum_parts) (simp_all add: assms)

lemma stored_checksum:
  assumes "even (length p)" and "length p \<le> 40" and "18 \<le> length seg" and "length seg \<le> 65535"
    and "get_bytes 16 2 seg = [0, 0]"
  shows "checksum (p @ put_bytes 16 (le16 (checksum (p @ seg) 0)) seg) 0 = 0"
proof -
  have "p @ put_bytes 16 x seg = put_bytes (length p + 16) x (p @ seg)" for x
    by (simp add: put_bytes_def)
  moreover have "get_bytes (length p + 16) 2 (p @ seg) = [0, 0]" using assms(5) by (simp add: get_bytes_def)
  moreover have "sum16 (p @ seg) \<le> 65535 * 32788"
    by (rule order_trans [OF sum16_bound]) (use assms(2,4) in simp)
  ultimately show ?thesis
    using checksum_store_zero [of "length p + 16" "p @ seg" 0] assms(1,3) by simp
qed

text \<open>
  Property C10. The checksum of a TCP segment, computed in two parts (the segment in TCP, the addresses
  in IP), is the checksum over the complete pseudo header and segment, for both IP versions; stored in the
  segment it makes the receiver's check succeed.
\<close>
theorem tcp_checksum_verifies:
  assumes "skb_bytes skb = seg" and "18 \<le> length seg" and "length seg \<le> 65535" and "get_bytes 16 2 seg = [0, 0]"
    and "length sa6 = 16" and "length da6 = 16"
  shows "tcp_v4_ip_partion_checksum sa da (tcp_v4_tcp_partion_checksum skb) =
      checksum (tcp_pseudo4 sa da (skb_len skb) @ seg) 0 \<and>
    checksum (tcp_pseudo4 sa da (skb_len skb) @
      put_bytes 16 (le16 (tcp_v4_ip_partion_checksum sa da (tcp_v4_tcp_partion_checksum skb))) seg) 0 = 0 \<and>
    tcp_v6_ip_partion_checksum sa6 da6 (tcp_v6_tcp_partion_checksum skb) =
      checksum (tcp_pseudo6 sa6 da6 (skb_len skb) @ seg) 0 \<and>
    checksum (tcp_pseudo6 sa6 da6 (skb_len skb) @
      put_bytes 16 (le16 (tcp_v6_ip_partion_checksum sa6 da6 (tcp_v6_tcp_partion_checksum skb))) seg) 0 = 0"
proof -
  have "even (length (tcp_pseudo4 sa da (skb_len skb)))" "length (tcp_pseudo4 sa da (skb_len skb)) \<le> 40"
    "even (length (tcp_pseudo6 sa6 da6 (skb_len skb)))" "length (tcp_pseudo6 sa6 da6 (skb_len skb)) \<le> 40"
    using assms(5,6) by (simp_all add: tcp_pseudo4_def tcp_pseudo6_def)
  then show ?thesis
    unfolding split_checksum4 split_checksum6 [OF assms(5,6)] assms(1)
    using stored_checksum assms(2-4) by blast
qed

lemma zero_segment:
  "skb_bytes ((alloc_skb 20)\<lparr>skb_len := 20\<rparr>) = replicate 20 0" "get_bytes 16 2 (replicate 20 0) = [0, 0]"
  by (simp_all add: skb_bytes_def alloc_skb_def get_bytes_def) (simp add: numeral_2_eq_2)

theorem tcp_checksum_verifies_witness:
  "checksum (tcp_pseudo4 1 2 (skb_len ((alloc_skb 20)\<lparr>skb_len := 20\<rparr>)) @
     put_bytes 16 (le16 (tcp_v4_ip_partion_checksum 1 2 (tcp_v4_tcp_partion_checksum
       ((alloc_skb 20)\<lparr>skb_len := 20\<rparr>)))) (replicate 20 0)) 0 = 0"
  by (rule tcp_checksum_verifies [OF zero_segment(1) _ _ zero_segment(2), of "replicate 16 0" "replicate 16 0",
      THEN conjunct2, THEN conjunct1]) simp_all

end
