(* ===== verification/Neighbour.thy ===== *)
theory Neighbour
  imports Boot
begin

text \<open>
  The neighbour cache of \<open>src/ndp.c\<close> as a data structure: its invariant (\<open>ndp_inv\<close>), that every
  operation which writes the cache keeps it, that an advertisement sends the packets waiting for an unresolved
  neighbour, and that the packets waiting for a neighbour in any other state are not sent.
\<close>

section \<open>The neighbour cache\<close>

text \<open>At most 64 entries, counted, for different addresses, each with a well-formed queue within its bound.\<close>

definition ndp_inv :: "('x) ndpstate_scheme \<Rightarrow> bool" where
  "ndp_inv s \<longleftrightarrow> ndp_entry_count s = int (length (ndp_cache s)) \<and> length (ndp_cache s) \<le> 64 \<and>
     distinct (map (\<lambda>e. take 16 (ne_ip6 e)) (ndp_cache s)) \<and>
     (\<forall>e \<in> set (ndp_cache s). wf_queue (ne_queue e) \<and> max_q (ne_queue e) = MAX_QUEUE \<and>
        length (skb_list (ne_queue e)) \<le> 100)"

lemma ndp_find_Some:
  "ndp_find p i es = Some j \<Longrightarrow> i \<le> j \<and> j - i < length es \<and> p (es ! (j - i)) \<and> (\<forall>k < j - i. \<not> p (es ! k))"
proof (induction p i es rule: ndp_find.induct)
  case (2 p i e es)
  show ?case
  proof (cases "p e")
    case False
    with 2 have IH: "i + 1 \<le> j \<and> j - (i + 1) < length es \<and> p (es ! (j - (i + 1))) \<and> (\<forall>k < j - (i + 1). \<not> p (es ! k))"
      by simp
    then obtain m where "j = Suc (i + m)" using le_Suc_ex [of "i + 1" j] by auto
    with IH False show ?thesis by (auto simp: less_Suc_eq_0_disj)
  qed (use 2 in auto)
qed simp

lemma ndp_find_None: "ndp_find p i es = None \<longleftrightarrow> (\<forall>e \<in> set es. \<not> p e)"
  by (induction p i es rule: ndp_find.induct) auto

lemma ndp_lookup_Some:
  assumes "ndp_lookup a s = Some i"
  shows "i < length (ndp_cache s)" "take 16 (ne_ip6 (ndp_cache s ! i)) = take 16 a"
  using ndp_find_Some [OF assms [unfolded ndp_lookup_def]] by (simp_all add: ipv6_addr_equal_def)

lemma ndp_lookup_None: "ndp_lookup a s = None \<longleftrightarrow> take 16 a \<notin> (\<lambda>e. take 16 (ne_ip6 e)) ` set (ndp_cache s)"
  by (simp add: ndp_lookup_def ndp_find_None ipv6_addr_equal_def image_iff) metis

lemma ndp_upd_inv:
  assumes "ndp_inv s" and "\<And>e. ne_ip6 (f e) = ne_ip6 e"
    and "\<And>e. i < length (ndp_cache s) \<Longrightarrow> e = ndp_cache s ! i \<Longrightarrow>
       wf_queue (ne_queue (f e)) \<and> max_q (ne_queue (f e)) = MAX_QUEUE \<and> length (skb_list (ne_queue (f e))) \<le> 100"
  shows "ndp_inv (ndp_upd i f s)"
proof (cases "i < length (ndp_cache s)")
  case False
  then have "(ndp_cache s)[i := x] = ndp_cache s" for x by (simp add: list_update_beyond)
  then show ?thesis using assms(1) by (simp add: ndp_inv_def ndp_upd_def)
next
  case True
  have "map (\<lambda>e. take 16 (ne_ip6 e)) ((ndp_cache s)[i := f (ndp_cache s ! i)]) = map (\<lambda>e. take 16 (ne_ip6 e)) (ndp_cache s)"
    using True assms(2) by (simp add: map_update list_update_same_conv)
  moreover have "\<forall>e \<in> set ((ndp_cache s)[i := f (ndp_cache s ! i)]).
      wf_queue (ne_queue e) \<and> max_q (ne_queue e) = MAX_QUEUE \<and> length (skb_list (ne_queue e)) \<le> 100"
    using assms(1,3) True set_update_subset_insert [of "ndp_cache s" i "f (ndp_cache s ! i)"]
    by (auto simp: ndp_inv_def)
  ultimately show ?thesis using assms(1) by (simp add: ndp_inv_def ndp_upd_def)
qed

lemma ndp_alloc_inv:
  assumes "ndp_inv s" and "ndp_lookup a s = None"
  shows "ndp_inv (snd (ndp_entry_alloc a s))"
  using assms by (auto simp: ndp_inv_def ndp_entry_alloc_def ndp_lookup_None skb_queue_init_def wf_queue_def)

lemma ndp_queue_inv:
  assumes "ndp_inv s"
  shows "ndp_inv (snd (ndp_queue_skb a skb s))"
proof (cases "ndp_lookup a s")
  case None
  then show ?thesis using assms by (simp add: ndp_queue_skb_def)
next
  case (Some i)
  let ?q = "ne_queue (ndp_cache s ! i)"
  have q: "wf_queue ?q" "max_q ?q = MAX_QUEUE" "length (skb_list ?q) \<le> 100"
    using assms ndp_lookup_Some(1) [OF Some] by (auto simp: ndp_inv_def)
  show ?thesis
  proof (cases "skb_queue_len ?q \<ge> max_q ?q")
    case True
    then show ?thesis using assms Some by (simp add: ndp_queue_skb_def Let_def)
  next
    case False
    then have "length (skb_list ?q) < 100" using q wf_queue_len [OF q(1)] by (simp add: word_le_nat_alt)
    then have "wf_queue (skb_queue_tail ?q b) \<and> max_q (skb_queue_tail ?q b) = MAX_QUEUE \<and>
        length (skb_list (skb_queue_tail ?q b)) \<le> 100" for b
      using q by (simp add: wf_queue_tail) (simp add: skb_queue_tail_def)
    then show ?thesis
      using False Some assms by (auto simp: ndp_queue_skb_def Let_def intro: ndp_upd_inv)
  qed
qed

lemma ndp_inv_tun [simp]: "ndp_inv (s\<lparr>tun_tx := x\<rparr>) = ndp_inv s"
  by (simp add: ndp_inv_def)

lemma ndp_lookup_tun [simp]: "ndp_lookup a (s\<lparr>tun_tx := x\<rparr>) = ndp_lookup a s"
  by (simp add: ndp_lookup_def)

lemma ndp_send_ns_tun: "\<exists>x. snd (ndp_send_ns t src d s) = s\<lparr>tun_tx := x\<rparr>"
  unfolding ndp_send_ns_def nd_send_def Let_def case_prod_beta
  by (simp, subst netdev_transmit_state) blast

lemma dst6_output_inv:
  assumes "ndp_inv s"
  shows "ndp_inv (snd (snd (dst6_neigh_output skb s)))"
proof -
  have t: "ndp_inv (snd (snd (netdev_transmit skb m ty s)))" for m ty
    by (subst netdev_transmit_state) (simp add: assms)
  have r: "ndp_inv (let (entry, s) = (case ndp_lookup a s of None \<Rightarrow> ndp_entry_alloc a s | Some i \<Rightarrow> (Some i, s))
      in if entry \<noteq> None then snd (ndp_queue_skb a skb s) else s)" if "ndp_inv s" for a and s :: "'a ndpstate_scheme"
    using that ndp_alloc_inv [OF that, of a] by (auto simp: Let_def case_prod_beta ndp_queue_inv split: option.split)
  have "ndp_inv (snd (ndp_send_ns a b d s))" for a b d
    using ndp_send_ns_tun [of a b d s] assms by auto
  then have q: "ndp_inv (snd (snd (let (rc, s) = ndp_send_ns a b d s;
        (entry, s) = (case ndp_lookup a s of None \<Rightarrow> ndp_entry_alloc a s | Some i \<Rightarrow> (Some i, s));
        s = (if entry \<noteq> None then snd (ndp_queue_skb a skb s) else s) in (-1 :: int, skb, s))))" for a b d
    using r [of "snd (ndp_send_ns a b d s)" a] by (simp add: Let_def case_prod_beta)
  show ?thesis
  proof (cases "skb_rt skb = None \<or> skb_dev skb = None")
    case True
    then show ?thesis using assms by (auto simp: dst6_neigh_output_def split: option.split)
  next
    case False
    then obtain rt d where rd: "skb_rt skb = Some rt" "skb_dev skb = Some d" by auto
    show ?thesis
    proof (cases "ndp_get_hwaddr (if rt_flags rt AND RT_GATEWAY \<noteq> 0 then rt_gateway rt
        else i6_daddr (skb_load dec_ipv6hdr (skb_data skb) skb)) s")
      case None
      then show ?thesis
        unfolding dst6_neigh_output_def rd prod.case option.case using q by (simp only: Let_def option.case)
    next
      case (Some m)
      then show ?thesis
        unfolding dst6_neigh_output_def rd prod.case option.case using t by (simp only: Let_def option.case)
    qed
  qed
qed

lemma ndp_flush_loop_eq:
  assumes "wf_queue q"
  shows "fst (ndp_flush_loop m q s) = q\<lparr>skb_list := [], qlen := 0\<rparr> \<and>
    snd (snd (ndp_flush_loop m q s)) = s\<lparr>tun_tx := tun_tx s @
      map (\<lambda>b. skb_bytes (fst (snd (netdev_transmit b m ETH_P_IPV6 s)))) (filter (\<lambda>b. skb_dev b \<noteq> None) (skb_list q))\<rparr>"
  using assms
proof (induction "skb_list q" arbitrary: q s)
  case Nil
  then have "ndp_flush_loop m q s = (q, [], s)" by (subst ndp_flush_loop.simps) simp
  moreover have "q = q\<lparr>skb_list := [], qlen := 0\<rparr>" using Nil by (simp add: wf_queue_def unat_eq_0)
  ultimately show ?case using Nil by simp
next
  case (Cons b bs)
  have l: "skb_list q = b # bs" using Cons.hyps(2) by simp
  have "1 \<le> qlen q" using Cons.prems l by (simp add: wf_queue_def word_le_nat_alt)
  define q' where "q' = q\<lparr>skb_list := bs, qlen := qlen q - 1\<rparr>"
  have q': "skb_dequeue q = Some (b, q')" "wf_queue q'" "skb_list q' = bs"
    using Cons.prems l \<open>1 \<le> qlen q\<close> by (simp_all add: skb_dequeue_def q'_def wf_queue_def unat_sub)
  define s1 where "s1 = snd (snd (netdev_transmit b m ETH_P_IPV6 s))"
  have step: "fst (ndp_flush_loop m q s) = fst (ndp_flush_loop m q' s1)"
    "snd (snd (ndp_flush_loop m q s)) = snd (snd (ndp_flush_loop m q' s1))"
    using Cons.prems l q'(1) by (subst ndp_flush_loop.simps; simp add: case_prod_beta Let_def s1_def)+
  have s1: "s1 = s\<lparr>tun_tx := tun_tx s @ (if skb_dev b = None then []
      else [skb_bytes (fst (snd (netdev_transmit b m ETH_P_IPV6 s)))])\<rparr>"
    by (cases "skb_dev b") (simp_all add: s1_def netdev_transmit_def tun_write_def Let_def)
  have same: "fst (snd (netdev_transmit c m ETH_P_IPV6 (s\<lparr>tun_tx := x\<rparr>))) = fst (snd (netdev_transmit c m ETH_P_IPV6 s))"
    for c x by (cases "skb_dev c") (simp_all add: netdev_transmit_def tun_write_def Let_def)
  show ?case
    using Cons.hyps(1) [of q' s1] q' l unfolding step by (simp add: s1 same) (simp add: q'_def)
qed


lemma ndp_flush_queue_eq:
  assumes "wf_queue (ne_queue (ndp_cache s ! i))"
  shows "ndp_flush_queue i s = ndp_upd i (\<lambda>e. e\<lparr>ne_queue := (ne_queue e)\<lparr>skb_list := [], qlen := 0\<rparr>\<rparr>)
    (s\<lparr>tun_tx := tun_tx s @ map (\<lambda>b. skb_bytes (fst (snd (netdev_transmit b (ne_hwaddr (ndp_cache s ! i)) ETH_P_IPV6 s))))
      (filter (\<lambda>b. skb_dev b \<noteq> None) (skb_list (ne_queue (ndp_cache s ! i))))\<rparr>)"
  using ndp_flush_loop_eq [OF assms, of "ne_hwaddr (ndp_cache s ! i)" s]
  by (simp add: ndp_flush_queue_def Let_def case_prod_beta ndp_upd_def)

definition ndp_resolved :: "bytes \<Rightarrow> u32 \<Rightarrow> ndp_entry \<Rightarrow> ndp_entry" where
  "ndp_resolved tlla now e = e\<lparr>ne_hwaddr := tlla, ne_state := NDP_REACHABLE, ne_state_timestamp := now,
     ne_solicit_count := 0\<rparr>"

lemma ndp_na_incomplete:
  assumes "ndp_inv s" and "ndp_lookup a s = Some i" and "ne_state (ndp_cache s ! i) = NDP_INCOMPLETE"
  defines "e \<equiv> ndp_cache s ! i"
  shows "ndp_na_update a flags tlla s = s\<lparr>
    tun_tx := tun_tx s @ map (\<lambda>b. skb_bytes (fst (snd (netdev_transmit b tlla ETH_P_IPV6 s))))
      (filter (\<lambda>b. skb_dev b \<noteq> None) (skb_list (ne_queue e))),
    ndp_cache := (ndp_cache s)[i := (ndp_resolved tlla (word_of_int (timer_get_tick (timers s))) e)
      \<lparr>ne_queue := (ne_queue e)\<lparr>skb_list := [], qlen := 0\<rparr>\<rparr>]\<rparr>"
proof -
  have i: "i < length (ndp_cache s)" using assms(2) by (rule ndp_lookup_Some)
  have wf: "wf_queue (ne_queue e)" using assms(1) i by (auto simp: ndp_inv_def e_def)
  define s1 where "s1 = ndp_upd i (ndp_resolved tlla (word_of_int (timer_get_tick (timers s)))) s"
  have e1: "ndp_cache s1 ! i = ndp_resolved tlla (word_of_int (timer_get_tick (timers s))) e"
    using i by (simp add: s1_def ndp_upd_def e_def)
  have d: "devs s1 = devs s" "tun_tx s1 = tun_tx s" by (simp_all add: s1_def ndp_upd_def)
  have tr: "fst (snd (netdev_transmit b m ty s1)) = fst (snd (netdev_transmit b m ty s))" for b m ty
    by (cases "skb_dev b") (simp_all add: netdev_transmit_def tun_write_def Let_def d)
  have "ndp_na_update a flags tlla s = ndp_flush_queue i s1"
    unfolding ndp_na_update_def s1_def ndp_resolved_def using assms(2,3) by (simp add: Let_def)
  also have "\<dots> = ndp_upd i (\<lambda>e. e\<lparr>ne_queue := (ne_queue e)\<lparr>skb_list := [], qlen := 0\<rparr>\<rparr>)
      (s1\<lparr>tun_tx := tun_tx s @ map (\<lambda>b. skb_bytes (fst (snd (netdev_transmit b tlla ETH_P_IPV6 s))))
        (filter (\<lambda>b. skb_dev b \<noteq> None) (skb_list (ne_queue e)))\<rparr>)"
    using wf by (subst ndp_flush_queue_eq) (simp_all add: e1 tr d ndp_resolved_def)
  finally show ?thesis
    using i by (simp add: ndp_upd_def e1 s1_def ndp_resolved_def e_def)
qed

text \<open>
  When the advertisement of an unresolved neighbour arrives, the packets that waited for it are
  sent, all and in order, to the link-layer address it gave, the queue is empty, and the
  neighbour resolves to that address from then on.
\<close>
lemma ndp_resolution:
  assumes "ndp_inv s" and "ndp_lookup a s = Some i" and "ne_state (ndp_cache s ! i) = NDP_INCOMPLETE"
    and "\<forall>b \<in> set (skb_list (ne_queue (ndp_cache s ! i))). skb_dev b \<noteq> None"
  shows "tun_tx (ndp_na_update a flags tlla s) = tun_tx s @
      map (\<lambda>b. skb_bytes (fst (snd (netdev_transmit b tlla ETH_P_IPV6 s)))) (skb_list (ne_queue (ndp_cache s ! i))) \<and>
    skb_list (ne_queue (ndp_cache (ndp_na_update a flags tlla s) ! i)) = [] \<and>
    ndp_get_hwaddr a (ndp_na_update a flags tlla s) = Some tlla"
proof -
  let ?s = "ndp_na_update a flags tlla s"
  let ?e = "(ndp_resolved tlla (word_of_int (timer_get_tick (timers s))) (ndp_cache s ! i))
      \<lparr>ne_queue := (ne_queue (ndp_cache s ! i))\<lparr>skb_list := [], qlen := 0\<rparr>\<rparr>"
  have i: "i < length (ndp_cache s)" "take 16 (ne_ip6 (ndp_cache s ! i)) = take 16 a"
    using ndp_lookup_Some [OF assms(2)] by auto
  have c: "ndp_cache ?s = (ndp_cache s)[i := ?e]" using ndp_na_incomplete [OF assms(1-3)] by simp
  have ei: "ne_ip6 ?e = ne_ip6 (ndp_cache s ! i)" "ne_state ?e = NDP_REACHABLE" "ne_hwaddr ?e = tlla"
    by (simp_all add: ndp_resolved_def)
  let ?p = "\<lambda>e. ipv6_addr_equal (ne_ip6 e) a \<and> ne_state e = NDP_REACHABLE"
  have "\<exists>j. ndp_find ?p 0 (ndp_cache ?s) = Some j"
  proof (rule ccontr)
    assume "\<not> ?thesis"
    then have "\<forall>e \<in> set (ndp_cache ?s). \<not> ?p e" by (simp add: ndp_find_None)
    moreover have "?e \<in> set (ndp_cache ?s)" using i(1) by (simp add: c set_update_memI)
    ultimately have "\<not> ?p ?e" by (rule bspec)
    then show False using ei(1,2) i(2) by (simp add: ipv6_addr_equal_def)
  qed
  then obtain j where j: "ndp_find ?p 0 (ndp_cache ?s) = Some j" by blast
  have j': "j < length (ndp_cache s)" "take 16 (ne_ip6 (ndp_cache ?s ! j)) = take 16 a"
    using ndp_find_Some [OF j] by (simp_all add: ipv6_addr_equal_def) (simp add: c)
  define ks where "ks = map (\<lambda>e. take 16 (ne_ip6 e)) (ndp_cache s)"
  have ks: "map (\<lambda>e. take 16 (ne_ip6 e)) (ndp_cache ?s) = ks"
    unfolding c ks_def using i(1) ei(1) by (simp only: map_update) (simp add: list_update_same_conv)
  have "ks ! j = take 16 (ne_ip6 (ndp_cache ?s ! j))"
    using j'(1) by (subst ks [symmetric], subst nth_map) (simp_all add: c)
  then have "ks ! j = ks ! i" using i j'(2) by (simp add: ks_def)
  moreover have "distinct ks" using assms(1) by (simp add: ndp_inv_def ks_def)
  moreover have "length ks = length (ndp_cache s)" by (simp add: ks_def)
  ultimately have "j = i" using i(1) j'(1) nth_eq_iff_index_eq [of ks j i] by simp
  then have "ndp_get_hwaddr a ?s = Some tlla"
    using j i(1) by (simp add: ndp_get_hwaddr_def c ei(3))
  moreover have "filter (\<lambda>b. skb_dev b \<noteq> None) (skb_list (ne_queue (ndp_cache s ! i))) = skb_list (ne_queue (ndp_cache s ! i))"
    using assms(4) by (simp add: filter_id_conv)
  ultimately show ?thesis using ndp_na_incomplete [OF assms(1-3)] i(1) by simp
qed

definition ndp_wait_demo :: tcpstate where
  "ndp_wait_demo = snd (ndp_queue_skb (replicate 16 1) ((alloc_skb 60)\<lparr>skb_dev := Some Dev_tap, skb_data := 14, skb_len := 46\<rparr>)
     (snd (ndp_entry_alloc (replicate 16 1) (ndp_init (stack_static (\<lambda>_. 0) (\<lambda>_. 0))))))"

lemma ndp_wait_demo_cache:
  "ndp_inv ndp_wait_demo" "ndp_lookup (replicate 16 1) ndp_wait_demo = Some 0"
  "ne_state (ndp_cache ndp_wait_demo ! 0) = NDP_INCOMPLETE"
  "map skb_dev (skb_list (ne_queue (ndp_cache ndp_wait_demo ! 0))) = [Some Dev_tap]"
proof -
  let ?s = "ndp_init (stack_static (\<lambda>_. 0) (\<lambda>_. 0))"
  have "ndp_inv ?s" "ndp_lookup (replicate 16 1) ?s = None" by (simp_all add: ndp_inv_def ndp_init_def ndp_lookup_def)
  then show "ndp_inv ndp_wait_demo" unfolding ndp_wait_demo_def by (intro ndp_queue_inv ndp_alloc_inv)
  show "ndp_lookup (replicate 16 1) ndp_wait_demo = Some 0" "ne_state (ndp_cache ndp_wait_demo ! 0) = NDP_INCOMPLETE"
    "map skb_dev (skb_list (ne_queue (ndp_cache ndp_wait_demo ! 0))) = [Some Dev_tap]"
    by (simp_all add: ndp_wait_demo_def ndp_queue_skb_def ndp_entry_alloc_def ndp_init_def ndp_lookup_def Let_def
        ipv6_addr_equal_def ndp_upd_def skb_queue_init_def skb_copy_def skb_queue_tail_def skb_queue_len_def)
qed

lemma ndp_resolution_example:
  "ndp_get_hwaddr (replicate 16 1) (ndp_na_update (replicate 16 1) 0 [2, 0, 0, 0, 0, 1] ndp_wait_demo) =
     Some [2, 0, 0, 0, 0, 1]"
  using ndp_resolution [OF ndp_wait_demo_cache(1-3), of 0 "[2, 0, 0, 0, 0, 1]"] ndp_wait_demo_cache(4) by auto

lemma ndp_na_update_inv:
  assumes "ndp_inv s"
  shows "ndp_inv (ndp_na_update a flags tlla s)"
proof (cases "ndp_lookup a s")
  case None
  then show ?thesis using assms by (simp add: ndp_na_update_def)
next
  case (Some i)
  have i: "i < length (ndp_cache s)" using Some by (rule ndp_lookup_Some)
  then have q: "wf_queue (ne_queue (ndp_cache s ! i)) \<and> max_q (ne_queue (ndp_cache s ! i)) = MAX_QUEUE \<and>
      length (skb_list (ne_queue (ndp_cache s ! i))) \<le> 100" using assms by (auto simp: ndp_inv_def)
  show ?thesis
  proof (cases "ne_state (ndp_cache s ! i) = NDP_INCOMPLETE")
    case True
    have "ndp_inv (ndp_upd i (\<lambda>e. (ndp_resolved tlla (word_of_int (timer_get_tick (timers s))) e)
        \<lparr>ne_queue := (ne_queue e)\<lparr>skb_list := [], qlen := 0\<rparr>\<rparr>) s)"
      using assms q by (intro ndp_upd_inv) (auto simp: ndp_resolved_def wf_queue_def)
    then have "ndp_inv (s\<lparr>ndp_cache := (ndp_cache s)[i := (ndp_resolved tlla (word_of_int (timer_get_tick (timers s)))
        (ndp_cache s ! i))\<lparr>ne_queue := (ne_queue (ndp_cache s ! i))\<lparr>skb_list := [], qlen := 0\<rparr>\<rparr>]\<rparr>)"
      by (simp add: ndp_upd_def)
    then show ?thesis using ndp_na_incomplete [OF assms Some True, of flags tlla] by (simp add: ndp_inv_def)
  next
    case False
    have "ndp_inv (ndp_upd i (ndp_na_refresh flags tlla now) s)" for now
      using assms q by (intro ndp_upd_inv) (auto simp: ndp_na_refresh_def Let_def)
    then show ?thesis using Some False by (simp add: ndp_na_update_def Let_def)
  qed
qed

inductive ndp_step :: "('x) ndpstate_scheme \<Rightarrow> ('x) ndpstate_scheme \<Rightarrow> bool" where
  ndp_out: "ndp_step s (snd (snd (dst6_neigh_output skb s)))"
| ndp_na: "ndp_step s (ndp_na_update a flags tlla s)"
| ndp_reset: "ndp_step s (ndp_init s)"



text \<open>A neighbour that is not in state INCOMPLETE keeps the packets that wait for it: no advertisement sends them.\<close>

lemma ndp_stale_queue_stuck:
  assumes "ndp_lookup a s = Some i" and "ne_state (ndp_cache s ! i) \<noteq> NDP_INCOMPLETE"
  shows "tun_tx (ndp_na_update a flags tlla s) = tun_tx s \<and>
    ne_queue (ndp_cache (ndp_na_update a flags tlla s) ! i) = ne_queue (ndp_cache s ! i)"
  using assms ndp_lookup_Some(1) [OF assms(1)]
  by (simp add: ndp_na_update_def Let_def ndp_upd_def ndp_na_refresh_def)

end
