(* ===== verification/Dad.thy ===== *)
theory Dad
  imports Neighbour
begin

text \<open>
  Duplicate address detection (\<open>src/ipv6_addrconf.c\<close>) from the start-up of the stack on: it completes when no
  conflict is reported, and a detection that is started while another is running replaces it.
\<close>

section \<open>Duplicate address detection\<close>

lemma ndp_send_ns_ok: "fst (ndp_send_ns t src d s) = 0"
  by (simp add: ndp_send_ns_def nd_send_def Let_def case_prod_beta)

lemma ndp_send_rs_tun: "\<exists>x. snd (ndp_send_rs src d s) = s\<lparr>tun_tx := x\<rparr>"
  unfolding ndp_send_rs_def nd_send_def Let_def case_prod_beta
  by (simp, subst netdev_transmit_state) blast

lemma ipv6_dad_start_eq:
  "\<exists>x. ipv6_dad_start a d s = s\<lparr>tun_tx := x, timers := timer_oneshot DAD_TIMEOUT_MS Dad_timeout None (timers s),
     dad_target := a, dad_state_ptr := Some (if ipv6_addr_equal a (addr6_ll (devs s d)) then Ll_state d else Global_state d),
     dad_dev := Some d, dad_done := False\<rparr>"
proof -
  let ?s = "s\<lparr>dad_done := False, dad_target := a, dad_dev := Some d,
     dad_state_ptr := Some (if ipv6_addr_equal a (addr6_ll (devs s d)) then Ll_state d else Global_state d)\<rparr>"
  obtain x where x: "snd (ndp_send_ns a in6_zero d ?s) = ?s\<lparr>tun_tx := x\<rparr>" using ndp_send_ns_tun by blast
  show ?thesis
    unfolding ipv6_dad_start_def Let_def case_prod_beta
    by (rule exI [of _ x]) (simp add: x ndp_send_ns_ok)
qed

text \<open>The state after start-up, as far as duplicate address detection is concerned.\<close>

lemma init_stack_dad:
  fixes junk :: bytes and tapaddr :: u32 and ret :: "nat \<Rightarrow> int" and src :: "nat \<Rightarrow> u32"
  defines "s \<equiv> init_stack junk tapaddr ret src"
  shows "timers s = timer_oneshot DAD_TIMEOUT_MS Dad_timeout None timers_init"
    and "dad_state_ptr s = Some (Ll_state Dev_tap)" and "\<not> dad_done s"
    and "addr6_ll_state (devs s Dev_tap) = ADDR6_TENTATIVE"
proof -
  define s1 where "s1 = ndp_init (route_init junk tapaddr (stack_static ret src))"
  define s2 where "s2 = route6_add (Some ([0xfe, 0x80] @ replicate 14 0)) None 10 RT_HOST 0 Dev_tap
    (upd_dev Dev_tap (\<lambda>dev. dev\<lparr>addr6_ll := ipv6_generate_linklocal (dev_hwaddr dev), addr6_ll_state := ADDR6_TENTATIVE\<rparr>) s1)"
  have 2: "timers s2 = timers_init" "addr6_ll_state (devs s2 Dev_tap) = ADDR6_TENTATIVE"
    by (simp_all add: s2_def s1_def upd_dev_def route6_add_def ndp_init_def route_init_def route_add_def Let_def stack_static_def)
  obtain x where d: "ipv6_dad_start (addr6_ll (devs s2 Dev_tap)) Dev_tap s2 =
     s2\<lparr>tun_tx := x, timers := timer_oneshot DAD_TIMEOUT_MS Dad_timeout None (timers s2),
       dad_target := addr6_ll (devs s2 Dev_tap), dad_state_ptr := Some (Ll_state Dev_tap),
       dad_dev := Some Dev_tap, dad_done := False\<rparr>"
    using ipv6_dad_start_eq [of "addr6_ll (devs s2 Dev_tap)" Dev_tap s2] by (auto simp: ipv6_addr_equal_def)
  define s3 where "s3 = ipv6_dad_start (addr6_ll (devs s2 Dev_tap)) Dev_tap s2"
  have "s = snd (ndp_send_rs (addr6_ll (devs s3 Dev_tap)) Dev_tap s3)"
    unfolding s_def init_stack_def ipv6_addrconf_init_def Let_def case_prod_beta s3_def s2_def s1_def by (rule refl)
  then obtain y where s: "s = s3\<lparr>tun_tx := y\<rparr>" using ndp_send_rs_tun by blast
  show "timers s = timer_oneshot DAD_TIMEOUT_MS Dad_timeout None timers_init"
    and "dad_state_ptr s = Some (Ll_state Dev_tap)" and "\<not> dad_done s"
    and "addr6_ll_state (devs s Dev_tap) = ADDR6_TENTATIVE"
    unfolding s s3_def d by (simp_all add: 2)
qed

abbreviation undisturbed :: "sys_timers \<Rightarrow> sys_timers" where
  "undisturbed \<equiv> timers_round (\<lambda>_. False) (\<lambda>_. True)"

definition dad_timers :: "int \<Rightarrow> sys_timers" where
  "dad_timers tick = (timer_oneshot DAD_TIMEOUT_MS Dad_timeout None timers_init)\<lparr>tm_tick := tick\<rparr>"

lemma dad_timer_waits: "n \<le> 100 \<Longrightarrow> (undisturbed ^^ n) (dad_timers 0) = dad_timers (10 * int n)"
proof (induction n)
  case (Suc n)
  have "uint (word_of_int (10 * int n + 10) :: u32) = 10 * int n + 10"
    using Suc.prems by (simp only: uint_word_of_int_eq) (simp add: take_bit_int_eq_self)
  then have "\<not> (1000 :: u32) < word_of_int (10 * int n + 10)"
    using Suc.prems unfolding word_less_alt by simp
  then have "undisturbed (dad_timers (10 * int n)) = dad_timers (10 * int n + 10)"
    by (simp add: dad_timers_def timers_round_def timers_tick_def timer_oneshot_def timer_enqueue_def
        timers_init_def timer_get_tick_def)
  with Suc show ?case by (simp add: algebra_simps)
qed simp

lemma undisturbed_spawned: "set (tm_spawned tms) \<subseteq> set (tm_spawned ((undisturbed ^^ m) tms))"
  by (induction m) (auto simp: timers_round_def timers_tick_def case_prod_beta)


lemma dad_finish_global:
  assumes "dad_state_ptr s = Some (Global_state d)"
  shows "dad_state_ptr (dad_finish v s) = Some (Global_state d) \<and>
    addr6_ll_state (devs (dad_finish v s) d') = addr6_ll_state (devs s d')"
  using assms by (simp add: dad_finish_def dad_read_def dad_write_def upd_dev_def Let_def)

text \<open>
  A router advertisement with a prefix restarts duplicate address detection for the global
  address and forgets the one that was running: after it no number of timeouts and conflict reports
  changes the state of the link-local address, which stays TENTATIVE if it was.
\<close>
lemma dad_overtaken:
  assumes "\<not> ipv6_addr_equal (addr6_global_for prefix (dev_hwaddr (devs s d))) (addr6_ll (devs s d))"
  shows "addr6_ll_state (devs (fold dad_finish vs (ipv6_addrconf_update_lifetime prefix 64 vl pl d s)) d) =
    addr6_ll_state (devs s d)"
proof -
  define g where "g = addr6_global_for prefix (dev_hwaddr (devs s d))"
  define s1 where "s1 = upd_dev d (\<lambda>dev. dev\<lparr>addr6_global := g, addr6_global_state := ADDR6_TENTATIVE,
    addr6_global_valid := True\<rparr>) s"
  have ll: "addr6_ll (devs s1 d) = addr6_ll (devs s d)" "addr6_ll_state (devs s1 d) = addr6_ll_state (devs s d)"
    by (simp_all add: s1_def upd_dev_def)
  obtain x where d: "ipv6_dad_start g d s1 = s1\<lparr>tun_tx := x,
      timers := timer_oneshot DAD_TIMEOUT_MS Dad_timeout None (timers s1), dad_target := g,
      dad_state_ptr := Some (Global_state d), dad_dev := Some d, dad_done := False\<rparr>"
    using ipv6_dad_start_eq [of g d s1] assms by (auto simp: g_def ll)
  define s2 where "s2 = ipv6_addrconf_update_lifetime prefix 64 vl pl d s"
  have 2: "dad_state_ptr s2 = Some (Global_state d)" "addr6_ll_state (devs s2 d) = addr6_ll_state (devs s d)"
    unfolding s2_def ipv6_addrconf_update_lifetime_def Let_def case_prod_beta
    by (simp_all add: d ll addr6_lifetime_timer_def Let_def case_prod_beta upd_dev_def flip: g_def s1_def [unfolded upd_dev_def])
  have "dad_state_ptr (fold dad_finish vs s2) = Some (Global_state d) \<and>
      addr6_ll_state (devs (fold dad_finish vs s2) d) = addr6_ll_state (devs s2 d)"
    using 2(1) by (induction vs arbitrary: s2) (use dad_finish_global in fastforce)+
  then show ?thesis using 2(2) by (simp add: s2_def)
qed

lemma dad_overtaken_example:
  "addr6_ll_state (devs (fold dad_finish [ADDR6_PREFERRED] (ipv6_addrconf_update_lifetime (replicate 16 1) 64 10 5 Dev_tap
     (stack_static (\<lambda>_. 0) (\<lambda>_. 0)))) Dev_tap) =
   addr6_ll_state (devs (stack_static (\<lambda>_. 0) (\<lambda>_. 0)) Dev_tap)"
  by (rule dad_overtaken) code_simp

end
