(* ===== verification/Ip_Delivery.thy ===== *)
theory Ip_Delivery
  imports Input
begin

text \<open>
  The way of an IPv4 frame from the device to its protocol: one equation for \<open>netdev_rx_frame\<close> on a well-formed
  frame, on which the deliveries of UDP and TCP rest.
\<close>

section \<open>An IPv4 frame on its way up\<close>

text \<open>The buffer in which TCP, UDP and ICMP find a packet with the header \<open>h\<close> (as on the wire) and payload \<open>pay\<close>.\<close>

definition rx_skb :: "bytes \<Rightarrow> iphdr \<Rightarrow> bytes \<Rightarrow> sk_buff" where
  "rx_skb eth h pay = (alloc_skb 1600)\<lparr>skb_len := of_nat (34 + length pay),
     skb_mem := (eth @ le16 ETH_P_IP) @ enc_iphdr (ip_ntoh_hdr h) @ pay @ replicate (1566 - length pay) 0\<rparr>"

lemma rx_skb_sel [simp]:
  "skb_mem (rx_skb eth h pay) = (eth @ le16 ETH_P_IP) @ enc_iphdr (ip_ntoh_hdr h) @ pay @ replicate (1566 - length pay) 0"
  "skb_data (rx_skb eth h pay) = 0" "skb_refcnt (rx_skb eth h pay) = 0" "skb_len (rx_skb eth h pay) = of_nat (34 + length pay)"
  by (simp_all add: rx_skb_def alloc_skb_def)

lemma alloc_put:
  "length f \<le> n \<Longrightarrow> skb_put 0 f (alloc_skb n) = (alloc_skb n)\<lparr>skb_mem := f @ replicate (n - length f) 0\<rparr>"
  by (simp add: skb_put_def skb_end_def alloc_skb_def put_bytes_def)

lemma rx_ipv4:
  assumes "length eth = 12" and "length pay \<le> 1566" and "ih_version h = 4" and "ih_ihl h = 5" and "ih_ttl h \<noteq> 0"
    and "checksum (enc_iphdr h) 0 = 0"
  shows "netdev_rx_frame (eth @ [0x08, 0x00] @ enc_iphdr h @ pay) env s =
    (let skb = rx_skb eth h pay
     in if ih_proto h = ICMPV4 then (let (skb, s) = icmpv4_incoming skb s in Some (skb, env, s))
        else if ih_proto h = IP_TCP then tcp_in skb env s
        else if ih_proto h = IP_UDP then (let (skb, s) = udp_in skb s in Some (skb, env, s))
        else Some (free_skb skb, env, s))"
proof -
  let ?f = "eth @ [0x08, 0x00] @ enc_iphdr h @ pay"
  define z where "z = replicate (1566 - length pay) (0 :: u8)"
  define b0 where "b0 = (skb_put 0 (take 1600 ?f) (alloc_skb 1600))\<lparr>skb_len := of_nat (length (take 1600 ?f))\<rparr>"
  have l: "length ?f = 34 + length pay" using assms(1) by simp
  have l': "length ?f \<le> 1600" "1600 - (34 + length pay) = 1566 - length pay" using l assms(2) by simp_all
  have "b0 = (alloc_skb 1600)\<lparr>skb_mem := ?f @ z, skb_len := of_nat (34 + length pay)\<rparr>"
    unfolding b0_def take_all [OF l'(1)] alloc_put [OF l'(1)] l l'(2) z_def [symmetric] by (rule refl)
  then have b0: "skb_mem b0 = eth @ [0x08, 0x00] @ enc_iphdr h @ pay @ z"
    "b0\<lparr>skb_mem := x\<rparr> = (alloc_skb 1600)\<lparr>skb_mem := x, skb_len := of_nat (34 + length pay)\<rparr>" for x
    by simp_all
  define b1 where "b1 = b0\<lparr>skb_mem := eth @ le16 ETH_P_IP @ enc_iphdr h @ pay @ z\<rparr>"
  have e: "eth_hdr_ethertype b0 = (ETH_P_IP, b1)"
  proof -
    have "ntohs (get16 (skb_mem b0) 12) = ETH_P_IP"
      using assms(1) unfolding b0 by (simp add: get16_def nth_append htons_def w16_def)
    moreover have "skb_put (int 12) (le16 ETH_P_IP) b0 = b1"
      unfolding b1_def by (rule skb_put_mid [OF b0(1)]) (simp_all add: assms(1))
    ultimately show ?thesis unfolding eth_hdr_ethertype_def by (simp only: Let_def of_nat_numeral)
  qed
  have m: "skb_mem b1 = (eth @ le16 ETH_P_IP) @ enc_iphdr h @ pay @ z" by (simp add: b1_def)
  have ld: "skb_load dec_iphdr 14 b1 = h"
    using skb_load_mid [OF m, of 14 dec_iphdr] iph.dec_enc [of h] assms(1) by simp
  have ck: "get_bytes 14 20 (skb_mem b1) = enc_iphdr h" using assms(1) by (simp add: m get_bytes_def)
  have "skb_put (int 14) (enc_iphdr (ip_ntoh_hdr h)) b1 =
      b1\<lparr>skb_mem := (eth @ le16 ETH_P_IP) @ enc_iphdr (ip_ntoh_hdr h) @ pay @ z\<rparr>"
    by (rule skb_put_mid [OF m]) (simp_all add: assms(1))
  also have "\<dots> = rx_skb eth h pay" unfolding b1_def rx_skb_def z_def [symmetric] by (simp add: b0(2))
  finally have ip: "ip_init_pkt b1 = rx_skb eth h pay"
    unfolding ip_init_pkt_def ld skb_store_def by (simp only: of_nat_numeral)
  have "netdev_rx_frame ?f env s = ip_rcv b1 env s"
    unfolding netdev_rx_frame_def Let_def b0_def [symmetric] netdev_receive_def e prod.case by simp
  also have "\<dots> = (let skb = rx_skb eth h pay
     in if ih_proto h = ICMPV4 then (let (skb, s) = icmpv4_incoming skb s in Some (skb, env, s))
        else if ih_proto h = IP_TCP then tcp_in skb env s
        else if ih_proto h = IP_UDP then (let (skb, s) = udp_in skb s in Some (skb, env, s))
        else Some (free_skb skb, env, s))"
    unfolding ip_rcv_def Let_def ld ip using assms(3-6) ck by simp
  finally show ?thesis .
qed

end
