(* ===== verification/Ndp_Delivery.thy ===== *)
theory Ndp_Delivery
  imports Dad Ip_Delivery
begin

text \<open>
  Neighbour discovery between two stacks, from frame to frame: the way of an ICMPv6 message up to \<open>ndp_incoming\<close>, the frames that
  \<open>nd_send\<close> writes and that their checksum verifies, the answer to a solicitation and the effect of an advertisement. Shown are that
  an unknown neighbour is found and the waiting packet sent, and that duplicate address detection does not notice a conflict.
\<close>

section \<open>An ICMPv6 frame on its way up\<close>

text \<open>The buffer in which ICMPv6 finds a packet with the header \<open>h\<close> and the payload \<open>pay\<close>.\<close>

definition rx6_skb :: "bytes \<Rightarrow> ipv6hdr \<Rightarrow> bytes \<Rightarrow> sk_buff" where
  "rx6_skb eth h pay = (alloc_skb 1600)\<lparr>skb_len := of_nat (54 + length pay),
     skb_mem := (eth @ le16 ETH_P_IPV6) @ enc_ipv6hdr h @ pay @ replicate (1546 - length pay) 0\<rparr>"

lemma rx6_skb_mem:
  "skb_mem (rx6_skb eth h pay) = (eth @ le16 ETH_P_IPV6) @ enc_ipv6hdr h @ pay @ replicate (1546 - length pay) 0"
  by (simp add: rx6_skb_def)

lemma rx_icmpv6:
  assumes "length eth = 12" and "length pay \<le> 1546" and "ok_ipv6hdr h" and "ipv6_hdr_version h = IPV6_VERSION"
    and "unat (ntohs (i6_payload_len h)) = length pay" and "i6_nexthdr h = NEXTHDR_ICMPV6" and "i6_hop_limit h \<noteq> 0"
  shows "netdev_rx_frame (eth @ [0x86, 0xdd] @ enc_ipv6hdr h @ pay) env s =
    (let (skb, s) = icmpv6_incoming (rx6_skb eth h pay) 54 s in Some (skb, env, s))"
proof -
  let ?f = "eth @ [0x86, 0xdd] @ enc_ipv6hdr h @ pay"
  define z where "z = replicate (1546 - length pay) (0 :: u8)"
  define b0 where "b0 = (skb_put 0 (take 1600 ?f) (alloc_skb 1600))\<lparr>skb_len := of_nat (length (take 1600 ?f))\<rparr>"
  have l: "length ?f = 54 + length pay" using assms(1,3) ip6h.enc_length by simp
  have l': "length ?f \<le> 1600" "1600 - (54 + length pay) = 1546 - length pay" using l assms(2) by simp_all
  have "b0 = (alloc_skb 1600)\<lparr>skb_mem := ?f @ z, skb_len := of_nat (54 + length pay)\<rparr>"
    unfolding b0_def take_all [OF l'(1)] alloc_put [OF l'(1)] l l'(2) z_def [symmetric] by (rule refl)
  then have b0: "skb_mem b0 = eth @ [0x86, 0xdd] @ enc_ipv6hdr h @ pay @ z"
    "b0\<lparr>skb_mem := x\<rparr> = (alloc_skb 1600)\<lparr>skb_mem := x, skb_len := of_nat (54 + length pay)\<rparr>" for x
    by simp_all
  have "ntohs (get16 (skb_mem b0) 12) = ETH_P_IPV6"
    using assms(1) unfolding b0 by (simp add: get16_def nth_append) code_simp
  moreover have "skb_put (int 12) (le16 ETH_P_IPV6) b0 = b0\<lparr>skb_mem := eth @ le16 ETH_P_IPV6 @ enc_ipv6hdr h @ pay @ z\<rparr>"
    by (rule skb_put_mid [OF b0(1)]) (simp_all add: assms(1))
  moreover have "\<dots> = rx6_skb eth h pay" unfolding b0(2) by (simp add: rx6_skb_def z_def)
  ultimately have e: "eth_hdr_ethertype b0 = (ETH_P_IPV6, rx6_skb eth h pay)"
    unfolding eth_hdr_ethertype_def by (simp only: Let_def of_nat_numeral)
  have ld: "skb_load dec_ipv6hdr 14 (rx6_skb eth h pay) = h"
    using skb_load_mid [OF rx6_skb_mem, of eth 14 dec_ipv6hdr h pay] ip6h.dec_enc [OF assms(3)] assms(1) by simp
  have "unat (of_nat (54 + length pay) :: u32) = 54 + length pay" unfolding unat_of_nat using assms(2) by simp
  then have len: "unat (skb_len (rx6_skb eth h pay)) = 54 + length pay" by (simp add: rx6_skb_def)
  have ext: "ipv6_parse_exthdrs NEXTHDR_ICMPV6 p plen = (0, \<lparr>er_final_nexthdr = NEXTHDR_ICMPV6, er_has_frag = False, er_frag_off = 0,
      er_frag_id = 0, er_consumed = 0\<rparr>)" for p plen
    by (simp add: ipv6_parse_exthdrs_def numeral_eq_Suc ext_loop)
  have "netdev_rx_frame ?f env s = ipv6_rcv (rx6_skb eth h pay) env s"
    unfolding netdev_rx_frame_def Let_def b0_def [symmetric] netdev_receive_def e prod.case by simp
  also have "\<dots> = (let (skb, s) = icmpv6_incoming (rx6_skb eth h pay) 54 s in Some (skb, env, s))"
    unfolding ipv6_rcv_def Let_def ld len using assms(4-7) by (simp add: ext ipv6_dispatch_def)
  finally show ?thesis .
qed

section \<open>The frames of neighbour discovery\<close>

text \<open>A message with its checksum, and its frame.\<close>

definition nd_msg :: "in6_addr \<Rightarrow> in6_addr \<Rightarrow> bytes \<Rightarrow> bytes" where
  "nd_msg src dst msg = put_bytes 2 (le16 (icmpv6_checksum src dst msg (of_nat (length msg)))) msg"

definition nd_frame :: "bytes \<Rightarrow> bytes \<Rightarrow> in6_addr \<Rightarrow> in6_addr \<Rightarrow> bytes \<Rightarrow> bytes" where
  "nd_frame mac hw src dst msg =
     mac @ hw @ [0x86, 0xdd] @ enc_ipv6hdr (nd_ipv6hdr (length msg) src dst) @ nd_msg src dst msg"

lemma length_nd_msg [simp]: "4 \<le> length msg \<Longrightarrow> length (nd_msg src dst msg) = length msg"
  by (simp add: nd_msg_def)

lemma nd_send_wire:
  assumes "wf_netdev (devs s d)" and "length mac = 6" and "length src = 16" and "length dst = 16"
    and "4 \<le> length msg" and "length msg \<le> 1500"
  shows "nd_send msg src dst mac d s = (0, s\<lparr>tun_tx := tun_tx s @ [nd_frame mac (dev_hwaddr (devs s d)) src dst msg]\<rparr>)"
proof -
  define n where "n = length msg"
  let ?h = "nd_ipv6hdr n src dst"
  have ok: "ok_ipv6hdr ?h" using assms(3,4) by (simp add: ok_ipv6hdr_def nd_ipv6hdr_def ipv6_hdr_set_vtc_flow_def Let_def)
  define H where "H = enc_ipv6hdr ?h"
  have lH: "length H = 40" unfolding H_def by (rule ip6h.enc_length [OF ok])
  define b0 where "b0 = skb_push ((skb_reserve (alloc_skb (54 + n)) (54 + n))\<lparr>skb_dev := Some d\<rparr>) n"
  have b0: "skb_data b0 = int 54" "skb_len b0 = of_nat n" "skb_mem b0 = replicate 54 0 @ replicate n 0 @ []" "skb_dev b0 = Some d"
    by (simp_all add: b0_def skb_push_def skb_reserve_def alloc_skb_def replicate_add)
  have b1: "skb_put (int 54) msg b0 = b0\<lparr>skb_mem := replicate 54 0 @ msg @ []\<rparr>"
    by (rule skb_put_mid [OF b0(3)]) (simp_all add: n_def)
  define b2 where "b2 = skb_push (b0\<lparr>skb_mem := replicate 54 0 @ msg @ []\<rparr>) 40"
  have b2: "skb_data b2 = int 14" "skb_len b2 = of_nat (n + 40)" "skb_mem b2 = replicate 14 0 @ replicate 40 0 @ msg" "skb_dev b2 = Some d"
    using b0 by (simp_all add: b2_def skb_push_def flip: replicate_add append_assoc)
  have b3: "skb_put (int 14) (H) b2 = b2\<lparr>skb_mem := replicate 14 0 @ H @ msg\<rparr>"
    by (rule skb_put_mid [OF b2(3)]) (simp_all add: lH)
  define b3 where "b3 = b2\<lparr>skb_mem := replicate 14 0 @ H @ msg\<rparr>"
  have g: "get_bytes 54 n (skb_mem b3) = msg" by (simp add: b3_def get_bytes_def lH n_def)
  define b4 where "b4 = b3\<lparr>skb_mem := replicate 14 0 @ H @ nd_msg src dst msg\<rparr>"
  have c: "skb_put (int 56) (le16 (icmpv6_checksum src dst msg (of_nat n))) b3 = b4"
  proof -
    have "msg = take 2 msg @ take 2 (drop 2 msg) @ drop 2 (drop 2 msg)" by (simp only: append_take_drop_id)
    then have sp: "msg = take 2 msg @ take 2 (drop 2 msg) @ drop 4 msg" by simp
    have m: "skb_mem b3 = (replicate 14 0 @ H @ take 2 msg) @ take 2 (drop 2 msg) @ drop 4 msg"
      using sp by (simp add: b3_def)
    show ?thesis
      unfolding b4_def nd_msg_def put_bytes_def n_def [symmetric]
      by (subst skb_put_mid [OF m]) (use assms(5) in \<open>simp_all add: lH\<close>)
  qed
  have b4: "skb_data b4 = int 14" "skb_len b4 = of_nat (n + 40)" "skb_dev b4 = Some d"
    "skb_mem b4 = replicate 14 0 @ H @ nd_msg src dst msg"
    using b2 by (simp_all add: b4_def b3_def)
  have l: "unat (skb_len b4) = n + 40" unfolding b4(2) unat_of_nat using assms(6) by (simp add: n_def)
  have bytes: "skb_bytes b4 = H @ nd_msg src dst msg"
    unfolding skb_bytes_def l using assms(5) by (simp add: b4 get_bytes_def lH n_def)
  have fits: "skb_fits 14 b4"
    unfolding skb_fits_def l using assms(5,6) by (simp add: b4 lH n_def)
  have t: "netdev_transmit b4 mac ETH_P_IPV6 s = (tun_ret s (length (tun_tx s)),
     skb_put (skb_data b4 - 14) (mac @ dev_hwaddr (devs s d) @ le16 (htons ETH_P_IPV6)) (skb_push b4 14),
     s\<lparr>tun_tx := tun_tx s @ [mac @ dev_hwaddr (devs s d) @ le16 (htons ETH_P_IPV6) @ H @ nd_msg src dst msg]\<rparr>)"
    using netdev_transmit_sends [OF b4(3) assms(1,2) fits, of ETH_P_IPV6] unfolding bytes .
  have e: "le16 (htons ETH_P_IPV6) = [0x86, 0xdd]" by code_simp
  have i: "int 54 + 2 = int 56" "ETH_HDR_LEN + IPV6_HDR_LEN + n = 54 + n" by simp_all
  show ?thesis
    unfolding nd_send_def Let_def n_def [symmetric] skb_store_def i b0_def [symmetric] b0(1) b1 b2_def [symmetric] b2(1)
      H_def [symmetric] b3 b3_def [symmetric] nat_int g c t prod.case
    by (simp add: nd_frame_def e H_def n_def)
qed

lemma nd_msg_verifies:
  assumes "4 \<le> length msg" and "length msg \<le> 1500" and "get_bytes 2 2 msg = [0, 0]" and "length src = 16" and "length dst = 16"
  shows "icmpv6_checksum src dst (nd_msg src dst msg @ z) (of_nat (length msg)) = 0"
proof -
  have n: "unat (of_nat (length msg) :: u16) = length msg" unfolding unat_of_nat using assms(2) by simp
  define p where "p = take 16 src @ take 16 dst @ [0, 0, ucast (drop_bit 8 (of_nat (length msg) :: u16)),
    ucast ((of_nat (length msg) :: u16) AND 0xFF), 0, 0, 0, NEXTHDR_ICMPV6]"
  have "length p = 40" using assms(4,5) by (simp add: p_def)
  then have p: "sum16 p \<le> 65535 * 20" using sum16_bound [of p] by simp
  have m: "sum16 msg \<le> 65535 * 750" by (rule order_trans [OF sum16_bound]) (use assms(2) in simp)
  have s: "unat (0 + sum_every_16bits p) = sum16 p" using p by (simp add: sum_every_16bits_of_nat unat_of_nat)
  have "checksum (put_bytes 2 (le16 (checksum msg (0 + sum_every_16bits p))) msg) (0 + sum_every_16bits p) = 0"
    by (rule checksum_store_zero) (use assms(1,3) p m s in simp_all)
  then show ?thesis
    using assms(1) by (simp add: icmpv6_checksum_def Let_def nd_msg_def n flip: p_def)
qed

lemma rx_nd_frame:
  assumes "length mac = 6" and "length hw = 6" and "length src = 16" and "length dst = 16"
    and "8 \<le> length msg" and "length msg \<le> 1500" and "get_bytes 2 2 msg = [0, 0]"
    and "msg ! 0 \<in> {ICMPV6_ROUTER_SOLICIT, ICMPV6_ROUTER_ADVERT, ICMPV6_NEIGHBOR_SOLICIT, ICMPV6_NEIGHBOR_ADVERT, ICMPV6_REDIRECT}"
  shows "netdev_rx_frame (nd_frame mac hw src dst msg) env s =
    (let h = nd_ipv6hdr (length msg) src dst;
         (skb, s) = ndp_incoming (rx6_skb (mac @ hw) h (nd_msg src dst msg)) h 54 s
     in Some (skb, env, s))"
proof -
  define h where "h = nd_ipv6hdr (length msg) src dst"
  define b where "b = rx6_skb (mac @ hw) h (nd_msg src dst msg)"
  have h: "ok_ipv6hdr h" "i6_nexthdr h = NEXTHDR_ICMPV6" "i6_hop_limit h = 255" "i6_saddr h = src" "i6_daddr h = dst"
    "i6_payload_len h = htons (of_nat (length msg))"
    using assms(3,4) by (simp_all add: h_def ok_ipv6hdr_def nd_ipv6hdr_def ipv6_hdr_set_vtc_flow_def Let_def)
  have v: "ipv6_hdr_version h = IPV6_VERSION" unfolding h_def nd_ipv6hdr_def by (rule vtc_flow_fields(1)) simp
  have n: "unat (of_nat (length msg) :: u16) = length msg" unfolding unat_of_nat using assms(6) by simp
  have f: "nd_frame mac hw src dst msg = (mac @ hw) @ [0x86, 0xdd] @ enc_ipv6hdr h @ nd_msg src dst msg"
    by (simp add: nd_frame_def h_def)
  have ld: "skb_load dec_ipv6hdr 14 b = h"
    using skb_load_mid [OF rx6_skb_mem, of "mac @ hw" 14 dec_ipv6hdr h] ip6h.dec_enc [OF h(1)] assms(1,2) by (simp add: b_def)
  have d: "drop 54 (skb_mem b) = nd_msg src dst msg @ replicate (1546 - length msg) 0"
    using assms(1,2,5) ip6h.enc_length [OF h(1)] by (simp add: b_def rx6_skb_mem)
  have ck: "icmpv6_checksum src dst (drop 54 (skb_mem b)) (of_nat (length msg)) = 0"
    unfolding d by (rule nd_msg_verifies) (use assms in simp_all)
  have ty: "ic6_type (skb_load dec_icmpv6_hdr (int 54) b) = msg ! 0"
    using assms(5) by (simp add: skb_load_def load_def d dec_icmpv6_hdr_def nd_msg_def put_bytes_def nth_append)
  have "netdev_rx_frame (nd_frame mac hw src dst msg) env s = (let (skb, s) = icmpv6_incoming b 54 s in Some (skb, env, s))"
    unfolding f b_def by (rule rx_icmpv6) (use assms h v n in simp_all)
  also have "icmpv6_incoming b 54 s = ndp_incoming b h 54 s"
    unfolding icmpv6_incoming_def Let_def ld h(4-6) ty using assms(8) ck n by auto
  finally show ?thesis by (simp add: h_def b_def Let_def)
qed


section \<open>Solicitation and advertisement\<close>

definition ns_msg :: "in6_addr \<Rightarrow> bytes \<Rightarrow> bytes" where
  "ns_msg target hw = enc_ndp_ns \<lparr>ns_type = ICMPV6_NEIGHBOR_SOLICIT, ns_code = 0, ns_csum = 0, ns_reserved = 0, ns_target = target\<rparr> @
     [NDP_OPT_SLLA, 1] @ hw"

definition na_msg :: "in6_addr \<Rightarrow> bytes \<Rightarrow> bytes" where
  "na_msg target hw = enc_ndp_na \<lparr>na_type = ICMPV6_NEIGHBOR_ADVERT, na_code = 0, na_csum = 0, na_flags = SET_NA_O (SET_NA_S (CLR_NA_R 0)),
     na_reserved = [0, 0, 0], na_target = target\<rparr> @ [NDP_OPT_TLLA, 1] @ hw"

lemma nd_msg_fields:
  assumes "length target = 16" and "length hw = 6"
  shows "length (ns_msg target hw) = 32" "get_bytes 2 2 (ns_msg target hw) = [0, 0]" "ns_msg target hw ! 0 = ICMPV6_NEIGHBOR_SOLICIT"
    "length (na_msg target hw) = 32" "get_bytes 2 2 (na_msg target hw) = [0, 0]" "na_msg target hw ! 0 = ICMPV6_NEIGHBOR_ADVERT"
    "dec_ndp_ns (nd_msg src dst (ns_msg target hw) @ z) = \<lparr>ns_type = ICMPV6_NEIGHBOR_SOLICIT, ns_code = 0,
       ns_csum = icmpv6_checksum src dst (ns_msg target hw) 32, ns_reserved = 0, ns_target = target\<rparr>"
    "dec_ndp_na (nd_msg src dst (na_msg target hw) @ z) = \<lparr>na_type = ICMPV6_NEIGHBOR_ADVERT, na_code = 0,
       na_csum = icmpv6_checksum src dst (na_msg target hw) 32, na_flags = SET_NA_O (SET_NA_S (CLR_NA_R 0)), na_reserved = [0, 0, 0],
       na_target = target\<rparr>"
    "drop 24 (nd_msg src dst (na_msg target hw) @ z) = [NDP_OPT_TLLA, 1] @ hw @ z"
proof -
  define n s where "n = icmpv6_checksum src dst (na_msg target hw) 32" and "s = icmpv6_checksum src dst (ns_msg target hw) 32"
  show l: "length (ns_msg target hw) = 32" "length (na_msg target hw) = 32"
    using assms by (simp_all add: ns_msg_def na_msg_def enc_ndp_ns_def enc_ndp_na_def)
  show "get_bytes 2 2 (ns_msg target hw) = [0, 0]" "get_bytes 2 2 (na_msg target hw) = [0, 0]"
    by (simp_all add: ns_msg_def na_msg_def enc_ndp_ns_def enc_ndp_na_def get_bytes_def le16_def)
  show "ns_msg target hw ! 0 = ICMPV6_NEIGHBOR_SOLICIT" "na_msg target hw ! 0 = ICMPV6_NEIGHBOR_ADVERT"
    by (simp_all add: ns_msg_def na_msg_def enc_ndp_ns_def enc_ndp_na_def)
  have ns: "nd_msg src dst (ns_msg target hw) = enc_ndp_ns \<lparr>ns_type = ICMPV6_NEIGHBOR_SOLICIT, ns_code = 0, ns_csum = s, ns_reserved = 0,
      ns_target = target\<rparr> @ [NDP_OPT_SLLA, 1] @ hw"
    by (simp add: nd_msg_def l s_def [symmetric]) (simp add: ns_msg_def put_bytes_def enc_ndp_ns_def le16_def)
  have na: "nd_msg src dst (na_msg target hw) = enc_ndp_na \<lparr>na_type = ICMPV6_NEIGHBOR_ADVERT, na_code = 0, na_csum = n,
      na_flags = SET_NA_O (SET_NA_S (CLR_NA_R 0)), na_reserved = [0, 0, 0], na_target = target\<rparr> @ [NDP_OPT_TLLA, 1] @ hw"
    by (simp add: nd_msg_def l n_def [symmetric]) (simp add: na_msg_def put_bytes_def enc_ndp_na_def le16_def)
  show "dec_ndp_ns (nd_msg src dst (ns_msg target hw) @ z) = \<lparr>ns_type = ICMPV6_NEIGHBOR_SOLICIT, ns_code = 0,
       ns_csum = icmpv6_checksum src dst (ns_msg target hw) 32, ns_reserved = 0, ns_target = target\<rparr>"
    unfolding s_def [symmetric] ns append_assoc by (rule ns.dec_enc) (simp add: assms)
  show "dec_ndp_na (nd_msg src dst (na_msg target hw) @ z) = \<lparr>na_type = ICMPV6_NEIGHBOR_ADVERT, na_code = 0,
       na_csum = icmpv6_checksum src dst (na_msg target hw) 32, na_flags = SET_NA_O (SET_NA_S (CLR_NA_R 0)), na_reserved = [0, 0, 0],
       na_target = target\<rparr>"
    unfolding n_def [symmetric] na append_assoc by (rule na.dec_enc) (simp add: assms)
  show "drop 24 (nd_msg src dst (na_msg target hw) @ z) = [NDP_OPT_TLLA, 1] @ hw @ z"
    unfolding na using assms by (simp add: enc_ndp_na_def)
qed

lemma rx6_drop:
  assumes "length eth = 12" and "ok_ipv6hdr h"
  shows "drop (54 + k) (skb_mem (rx6_skb eth h pay)) = drop k (pay @ replicate (1546 - length pay) 0)"
  using assms ip6h.enc_length [OF assms(2)] by (simp add: rx6_skb_mem)

lemma rx6_nth:
  assumes "length eth = 12" and "ok_ipv6hdr h" and "4 \<le> length msg"
  shows "skb_mem (rx6_skb eth h (nd_msg src dst msg)) ! 54 = msg ! 0"
  using assms(1,3) ip6h.enc_length [OF assms(2)] by (simp add: rx6_skb_mem nth_append nd_msg_def put_bytes_def)

lemma ok_nd_ipv6hdr [simp]: "length src = 16 \<Longrightarrow> length dst = 16 \<Longrightarrow> ok_ipv6hdr (nd_ipv6hdr n src dst)"
  by (simp add: ok_ipv6hdr_def nd_ipv6hdr_def ipv6_hdr_set_vtc_flow_def Let_def)

lemma nd_ipv6hdr_sel [simp]:
  "i6_saddr (nd_ipv6hdr n src dst) = src" "i6_hop_limit (nd_ipv6hdr n src dst) = 255"
  "i6_payload_len (nd_ipv6hdr n src dst) = htons (of_nat n)"
  by (simp_all add: nd_ipv6hdr_def ipv6_hdr_set_vtc_flow_def Let_def)

lemma length_solnode [simp]: "length (ipv6_solnode_addr t) = 16" "length (ipv6_multicast_mac m) = 6"
  by (simp_all add: ipv6_solnode_addr_def ipv6_multicast_mac_def)

text \<open>Where the answer to a solicitation from \<open>src\<close> goes.\<close>

definition na_dst :: "in6_addr \<Rightarrow> in6_addr" where
  "na_dst src = (if ipv6_addr_is_unspecified src then [0xff, 0x02, 0, 0, 0, 0, 0, 0, 0, 0, 0, 0, 0, 0, 0, 0x01] else src)"

definition na_mac :: "in6_addr \<Rightarrow> bytes \<Rightarrow> bytes" where
  "na_mac src hw = (if ipv6_addr_is_multicast (na_dst src) then ipv6_multicast_mac (na_dst src) else hw)"

lemma ns_answered:
  assumes "wf_netdev (devs b Dev_tap)" and "length mac = 6" and "length hw = 6" and "length src = 16" and "length dst = 16"
    and "length target = 16" and "ndp_is_ours target (devs b Dev_tap)"
  shows "\<exists>skb. netdev_rx_frame (nd_frame mac hw src dst (ns_msg target hw)) env b =
    Some (skb, env, b\<lparr>tun_tx := tun_tx b @ [nd_frame (na_mac src hw) (dev_hwaddr (devs b Dev_tap)) target (na_dst src)
      (na_msg target (dev_hwaddr (devs b Dev_tap)))]\<rparr>)"
proof -
  define h where "h = nd_ipv6hdr 32 src dst"
  define skb where "skb = rx6_skb (mac @ hw) h (nd_msg src dst (ns_msg target hw))"
  note f = nd_msg_fields [OF assms(6,3)]
  have ok: "ok_ipv6hdr h" using assms(4,5) by (simp add: h_def)
  have d: "drop 54 (skb_mem skb) = nd_msg src dst (ns_msg target hw) @ replicate (1546 - 32) 0"
    using rx6_drop [OF _ ok, of "mac @ hw" 0] assms(2,3) f(1) by (simp add: skb_def)
  have ns: "ns_target (skb_load dec_ndp_ns (int 54) skb) = target" by (simp add: skb_load_def load_def d f(7))
  have ty: "skb_mem skb ! 54 = ICMPV6_NEIGHBOR_SOLICIT"
    using rx6_nth [OF _ ok] assms f by (simp add: skb_def)
  have mac: "get_bytes 6 6 (skb_mem skb) = hw" using assms(2,3) by (simp add: skb_def rx6_skb_mem get_bytes_def)
  define dst' where "dst' = na_dst src"
  have hw: "length (dev_hwaddr (devs b Dev_tap)) = 6" using assms(1) by (simp add: wf_netdev_def)
  have tk: "take 6 (dev_hwaddr (devs b Dev_tap)) = dev_hwaddr (devs b Dev_tap)" and hs: "i6_saddr h = src"
    by (simp_all add: hw h_def)
  have w: "nd_send (na_msg target (dev_hwaddr (devs b Dev_tap))) target dst' (na_mac src hw) Dev_tap b =
      (0, b\<lparr>tun_tx := tun_tx b @ [nd_frame (na_mac src hw) (dev_hwaddr (devs b Dev_tap)) target dst'
        (na_msg target (dev_hwaddr (devs b Dev_tap)))]\<rparr>)"
    by (rule nd_send_wire) (use assms nd_msg_fields [OF assms(6) hw] in \<open>simp_all add: na_mac_def na_dst_def dst'_def\<close>)
  have "ndp_ns_process skb h 54 b = (free_skb skb, b\<lparr>tun_tx := tun_tx b @ [nd_frame (na_mac src hw) (dev_hwaddr (devs b Dev_tap)) target dst'
        (na_msg target (dev_hwaddr (devs b Dev_tap)))]\<rparr>)"
    unfolding ndp_ns_process_def Let_def ns mac hs tk na_dst_def [symmetric] na_mac_def [symmetric] na_msg_def [symmetric]
      w [unfolded dst'_def] prod.case using assms(7) by (simp add: dst'_def)
  then have "ndp_incoming skb h 54 b = (free_skb skb, b\<lparr>tun_tx := tun_tx b @ [nd_frame (na_mac src hw) (dev_hwaddr (devs b Dev_tap)) target dst'
        (na_msg target (dev_hwaddr (devs b Dev_tap)))]\<rparr>)"
    by (simp add: ndp_incoming_def Let_def ty) (simp add: h_def)
  then show ?thesis
    using rx_nd_frame [OF assms(2-5), of "ns_msg target hw" env b] f(1-3) by (simp add: Let_def dst'_def skb_def h_def)
qed

lemma na_received:
  assumes "length mac = 6" and "length hw = 6" and "length target = 16" and "length dst = 16" and "\<not> ipv6_addr_is_unspecified target"
  shows "\<exists>skb. netdev_rx_frame (nd_frame mac hw target dst (na_msg target hw)) env s =
    Some (skb, env, ndp_na_update target (SET_NA_O (SET_NA_S (CLR_NA_R 0))) hw s)"
proof -
  define h where "h = nd_ipv6hdr 32 target dst"
  define skb where "skb = rx6_skb (mac @ hw) h (nd_msg target dst (na_msg target hw))"
  note f = nd_msg_fields [OF assms(3,2)]
  have ok: "ok_ipv6hdr h" using assms(3,4) by (simp add: h_def)
  have d: "drop (54 + k) (skb_mem skb) = drop k (nd_msg target dst (na_msg target hw) @ replicate (1546 - 32) 0)" for k
    using rx6_drop [OF _ ok, of "mac @ hw" k] assms(1,2) f(4) by (simp add: skb_def)
  have na: "na_target (skb_load dec_ndp_na (int 54) skb) = target"
    "na_flags (skb_load dec_ndp_na (int 54) skb) = SET_NA_O (SET_NA_S (CLR_NA_R 0))"
    using d [of 0] by (simp_all add: skb_load_def load_def f(8))
  have ty: "skb_mem skb ! 54 = ICMPV6_NEIGHBOR_ADVERT"
    using rx6_nth [OF _ ok] assms f by (simp add: skb_def)
  have p: "int (unat (ntohs (i6_payload_len h))) - 24 = 8" by (simp add: h_def)
  have opt: "ndp_na_opts ([NDP_OPT_TLLA, 1] @ hw @ z) 8 None = Some hw" for z
    using assms(2) by (subst ndp_na_opts.simps) (simp add: Let_def get_bytes_def ndp_na_opts.simps)
  have "ndp_incoming skb h 54 s = (free_skb skb, ndp_na_update target (SET_NA_O (SET_NA_S (CLR_NA_R 0))) hw s)"
    unfolding ndp_incoming_def ndp_na_process_def Let_def ty na p d f(9) opt
    using assms(5) by (simp add: h_def)
  then show ?thesis
    using rx_nd_frame [OF assms(1-4), of "na_msg target hw" env s] f(4-6) by (simp add: Let_def skb_def h_def)
qed


section \<open>Resolution between two stacks\<close>

lemma ndp_find_append:
  "ndp_find p i (xs @ ys) = (case ndp_find p i xs of None \<Rightarrow> ndp_find p (i + length xs) ys | Some j \<Rightarrow> Some j)"
  by (induction xs arbitrary: i) (auto split: option.split)

text \<open>A packet for a neighbour that is not in the cache: it is solicited, and the packet waits alone in a new entry.\<close>

lemma dst6_output_miss:
  fixes a :: tcpstate
  assumes "skb_rt skb = Some rt" and "skb_dev skb = Some d" and "wf_netdev (devs a d)"
    and "hop = (if rt_flags rt AND RT_GATEWAY \<noteq> 0 then rt_gateway rt else i6_daddr (skb_load dec_ipv6hdr (skb_data skb) skb))"
    and "src = i6_saddr (skb_load dec_ipv6hdr (skb_data skb) skb)" and "length src = 16" and "length hop = 16"
    and "ndp_lookup hop a = None" and "ndp_entry_count a < 64"
    and "e = \<lparr>ne_ip6 = hop, ne_hwaddr = replicate 6 0, ne_state = NDP_INCOMPLETE,
      ne_state_timestamp = word_of_int (timer_get_tick (timers a)), ne_solicit_count = 0,
      ne_queue = skb_queue_tail skb_queue_init (skb_copy skb)\<rparr>"
  shows "snd (snd (dst6_neigh_output skb a)) = a\<lparr>
    tun_tx := tun_tx a @ [nd_frame (ipv6_multicast_mac (ipv6_solnode_addr hop)) (dev_hwaddr (devs a d)) src (ipv6_solnode_addr hop)
      (ns_msg hop (dev_hwaddr (devs a d)))],
    ndp_cache := ndp_cache a @ [e], ndp_entry_count := ndp_entry_count a + 1\<rparr>"
    "ndp_lookup hop (snd (snd (dst6_neigh_output skb a))) = Some (length (ndp_cache a))"
proof -
  define hw where "hw = dev_hwaddr (devs a d)"
  have hw: "length hw = 6" using assms(3) by (simp add: hw_def wf_netdev_def)
  define a0 where "a0 = a\<lparr>tun_tx := tun_tx a @ [nd_frame (ipv6_multicast_mac (ipv6_solnode_addr hop)) hw src (ipv6_solnode_addr hop)
      (ns_msg hop hw)]\<rparr>"
  have ns: "ndp_send_ns hop src d a = (0, a0)"
    unfolding ndp_send_ns_def Let_def a0_def hw_def [symmetric] take_all [OF eq_imp_le [OF hw]] ns_msg_def [symmetric]
    by (subst nd_send_wire) (use assms(3,6,7) hw nd_msg_fields [OF assms(7) hw] in \<open>simp_all add: hw_def\<close>)
  have none: "ndp_get_hwaddr hop a = None"
  proof -
    have "ndp_find (\<lambda>e. ipv6_addr_equal (ne_ip6 e) hop \<and> ne_state e = NDP_REACHABLE) 0 (ndp_cache a) = None"
      using assms(8) unfolding ndp_lookup_def ndp_find_None by blast
    then show ?thesis by (simp add: ndp_get_hwaddr_def)
  qed
  define e0 where "e0 = e\<lparr>ne_queue := skb_queue_init\<rparr>"
  define a1 where "a1 = a0\<lparr>ndp_cache := ndp_cache a @ [e0], ndp_entry_count := ndp_entry_count a + 1\<rparr>"
  have al: "ndp_entry_alloc hop a0 = (Some (length (ndp_cache a)), a1)"
    using assms(9) by (simp add: ndp_entry_alloc_def a0_def a1_def e0_def assms(10))
  have lk: "ndp_find (\<lambda>e. ipv6_addr_equal (ne_ip6 e) hop) 0 (ndp_cache a @ [x]) = Some (length (ndp_cache a))" if "ne_ip6 x = hop" for x
    using assms(8) that by (simp add: ndp_find_append ndp_lookup_def ipv6_addr_equal_def)
  have qe: "snd (ndp_queue_skb hop skb a1) = a1\<lparr>ndp_cache := ndp_cache a @ [e]\<rparr>"
  proof -
    have "ndp_lookup hop a1 = Some (length (ndp_cache a))" by (simp add: ndp_lookup_def a1_def lk e0_def assms(10))
    moreover have "ndp_cache a1 ! length (ndp_cache a) = e0" by (simp add: a1_def)
    ultimately show ?thesis
      by (simp add: ndp_queue_skb_def Let_def ndp_upd_def skb_queue_len_def skb_queue_init_def e0_def assms(10)) (simp add: a1_def)
  qed
  have "snd (snd (dst6_neigh_output skb a)) = a1\<lparr>ndp_cache := ndp_cache a @ [e]\<rparr>"
    unfolding dst6_neigh_output_def assms(1,2) prod.case option.case Let_def assms(4) [symmetric] assms(5) [symmetric] none ns
    using assms(8) by (simp add: a0_def [symmetric] al qe) (simp add: a0_def al [unfolded a0_def] qe)
  then show out: "snd (snd (dst6_neigh_output skb a)) = a\<lparr>
    tun_tx := tun_tx a @ [nd_frame (ipv6_multicast_mac (ipv6_solnode_addr hop)) (dev_hwaddr (devs a d)) src (ipv6_solnode_addr hop)
      (ns_msg hop (dev_hwaddr (devs a d)))],
    ndp_cache := ndp_cache a @ [e], ndp_entry_count := ndp_entry_count a + 1\<rparr>"
    by (simp add: a1_def a0_def hw_def)
  show "ndp_lookup hop (snd (snd (dst6_neigh_output skb a))) = Some (length (ndp_cache a))"
    unfolding out ndp_lookup_def by (simp add: lk assms(10))
qed


lemma skb_copy_sel [simp]:
  "skb_dev (skb_copy skb) = skb_dev skb" "skb_bytes (skb_copy skb) = skb_bytes skb" "skb_fits r (skb_copy skb) = skb_fits r skb"
  by (simp_all add: skb_copy_def skb_bytes_def skb_fits_def)

lemma skb_bytes_transmit:
  assumes "skb_dev skb = Some d" and "wf_netdev (devs s d)" and "length dst = 6" and "skb_fits 14 skb"
  shows "skb_bytes (fst (snd (netdev_transmit skb dst ETH_P_IPV6 s))) = dst @ dev_hwaddr (devs s d) @ [0x86, 0xdd] @ skb_bytes skb"
proof -
  have e: "le16 (htons ETH_P_IPV6) = [0x86, 0xdd]" by code_simp
  have "tun_tx (snd (snd (netdev_transmit skb dst ETH_P_IPV6 s))) = tun_tx s @ [skb_bytes (fst (snd (netdev_transmit skb dst ETH_P_IPV6 s)))]"
    using assms(1) by (simp add: netdev_transmit_def tun_write_def Let_def)
  then show ?thesis by (simp add: netdev_transmit_sends [OF assms(1-4)] e)
qed

text \<open>
  Property C25. Neighbour discovery between two stacks: a packet for a neighbour that is not in the cache makes the stack send one frame;
  the stack that has the neighbour's address answers it with one frame; and that frame makes the first stack send the packet,
  unchanged, to the link-layer address of the second, to which the neighbour resolves from then on.
\<close>

theorem neighbour_found:
  fixes a b :: tcpstate
  assumes "ndp_inv a" and "wf_netdev (devs a d)" and "wf_netdev (devs b Dev_tap)"
    and "skb_rt skb = Some rt" and "skb_dev skb = Some d" and "skb_fits 14 skb" and "40 \<le> unat (skb_len skb)"
    and "hop = (if rt_flags rt AND RT_GATEWAY \<noteq> 0 then rt_gateway rt else i6_daddr (skb_load dec_ipv6hdr (skb_data skb) skb))"
    and "length hop = 16" and "\<not> ipv6_addr_is_unspecified hop" and "ndp_is_ours hop (devs b Dev_tap)"
    and "ndp_lookup hop a = None" and "ndp_entry_count a < 64"
    and "a1 = snd (snd (dst6_neigh_output skb a))" and "hw = dev_hwaddr (devs b Dev_tap)"
  shows "\<exists>ns na skb1 skb2 a2. tun_tx a1 = tun_tx a @ [ns] \<and>
    netdev_rx_frame ns env b = Some (skb1, env, b\<lparr>tun_tx := tun_tx b @ [na]\<rparr>) \<and>
    netdev_rx_frame na env a1 = Some (skb2, env, a2) \<and>
    tun_tx a2 = tun_tx a1 @ [hw @ dev_hwaddr (devs a d) @ [0x86, 0xdd] @ skb_bytes skb] \<and>
    ndp_get_hwaddr hop a2 = Some hw"
proof -
  define src where "src = i6_saddr (skb_load dec_ipv6hdr (skb_data skb) skb)"
  have src: "length src = 16"
    using assms(6,7) by (auto simp: src_def skb_load_def load_def dec_ipv6hdr_def get_bytes_def skb_fits_def min_def)
  have hw: "length hw = 6" "length (dev_hwaddr (devs a d)) = 6" using assms(2,3) by (simp_all add: assms(15) wf_netdev_def)
  define i where "i = length (ndp_cache a)"
  note out = dst6_output_miss [OF assms(4,5,2,8) src_def src assms(9,12,13) refl, folded assms(14) i_def]
  have inv: "ndp_inv a1" unfolding assms(14) by (rule dst6_output_inv [OF assms(1)])
  have a1: "ne_state (ndp_cache a1 ! i) = NDP_INCOMPLETE" "skb_list (ne_queue (ndp_cache a1 ! i)) = [skb_copy skb]" "devs a1 = devs a"
    unfolding out(1) by (simp_all add: i_def skb_queue_tail_def skb_queue_init_def)
  let ?ns = "nd_frame (ipv6_multicast_mac (ipv6_solnode_addr hop)) (dev_hwaddr (devs a d)) src (ipv6_solnode_addr hop) (ns_msg hop (dev_hwaddr (devs a d)))"
  let ?na = "nd_frame (na_mac src (dev_hwaddr (devs a d))) hw hop (na_dst src) (na_msg hop hw)"
  obtain skb1 where b: "netdev_rx_frame ?ns env b = Some (skb1, env, b\<lparr>tun_tx := tun_tx b @ [?na]\<rparr>)"
    using ns_answered [OF assms(3) length_solnode(2) hw(2) src length_solnode(1) assms(9,11)] assms(15) by blast
  have mac: "length (na_mac src (dev_hwaddr (devs a d))) = 6" "length (na_dst src) = 16" using hw src by (simp_all add: na_mac_def na_dst_def)
  define a2 where "a2 = ndp_na_update hop (SET_NA_O (SET_NA_S (CLR_NA_R 0))) hw a1"
  obtain skb2 where a2: "netdev_rx_frame ?na env a1 = Some (skb2, env, a2)"
    unfolding a2_def using na_received [OF mac(1) hw(1) assms(9) mac(2) assms(10)] by blast
  have "\<forall>b \<in> set (skb_list (ne_queue (ndp_cache a1 ! i))). skb_dev b \<noteq> None" using assms(5) by (simp add: a1(2))
  note r = ndp_resolution [OF inv out(2) a1(1) this, of "SET_NA_O (SET_NA_S (CLR_NA_R 0))" hw, folded a2_def]
  have "skb_bytes (fst (snd (netdev_transmit (skb_copy skb) hw ETH_P_IPV6 a1))) = hw @ dev_hwaddr (devs a d) @ [0x86, 0xdd] @ skb_bytes skb"
    using skb_bytes_transmit [of "skb_copy skb" d a1 hw] assms(2,5,6) hw a1(3) by simp
  then have "tun_tx a2 = tun_tx a1 @ [hw @ dev_hwaddr (devs a d) @ [0x86, 0xdd] @ skb_bytes skb]" using r a1(2) by simp
  moreover have "tun_tx a1 = tun_tx a @ [?ns]" unfolding out(1) by simp
  ultimately show ?thesis using b a2 r by blast
qed


definition nd_demo_a :: tcpstate where
  "nd_demo_a = ndp_init (stack_static (\<lambda>_. 0) (\<lambda>_. 0))"

definition nd_demo_b :: tcpstate where
  "nd_demo_b = upd_dev Dev_tap (\<lambda>dev. dev\<lparr>addr6_ll := [0xfe, 0x80] @ replicate 13 0 @ [2]\<rparr>) (stack_static (\<lambda>_. 0) (\<lambda>_. 0))"

definition nd_demo_skb :: sk_buff where
  "nd_demo_skb = (alloc_skb 60)\<lparr>skb_dev := Some Dev_tap, skb_data := 14, skb_len := 46,
     skb_rt := Some \<lparr>rt_family = 10, rt_dst = in6_zero, rt_gateway = [0xfe, 0x80] @ replicate 13 0 @ [2], rt_netmask = 0,
       rt_prefix_len = 0, rt_flags = RT_GATEWAY, rt_metric = 0, rt_pmtu = 0, rt_dev = Dev_tap\<rparr>\<rparr>"

lemma nd_demo_addr: "\<not> ipv6_addr_is_unspecified ([0xfe, 0x80] @ replicate 13 0 @ [2])"
  by (simp add: ipv6_addr_is_unspecified_def ipv6_addr_equal_def in6_zero_def numeral_eq_Suc)

theorem neighbour_found_witness:
  "\<exists>ns na skb1 skb2 a2. tun_tx (snd (snd (dst6_neigh_output nd_demo_skb nd_demo_a))) = [ns] \<and>
    netdev_rx_frame ns [] nd_demo_b = Some (skb1, [], nd_demo_b\<lparr>tun_tx := [na]\<rparr>) \<and>
    netdev_rx_frame na [] (snd (snd (dst6_neigh_output nd_demo_skb nd_demo_a))) = Some (skb2, [], a2) \<and> length (tun_tx a2) = 2"
proof -
  have s: "ndp_inv nd_demo_a" "wf_netdev (devs nd_demo_a Dev_tap)" "wf_netdev (devs nd_demo_b Dev_tap)" "tun_tx nd_demo_a = []"
    "tun_tx nd_demo_b = []" "ndp_lookup x nd_demo_a = None" "ndp_entry_count nd_demo_a < 64" for x
    using wf_netdev_init [of Dev_tap]
    by (simp_all add: nd_demo_a_def nd_demo_b_def ndp_inv_def ndp_init_def stack_static_def upd_dev_def wf_netdev_def ndp_lookup_def)
  obtain rt where k: "skb_rt nd_demo_skb = Some rt" "rt_flags rt AND RT_GATEWAY \<noteq> 0" "rt_gateway rt = [0xfe, 0x80] @ replicate 13 0 @ [2]"
    "skb_dev nd_demo_skb = Some Dev_tap" "skb_fits 14 nd_demo_skb" "40 \<le> unat (skb_len nd_demo_skb)"
    by (simp add: nd_demo_skb_def skb_fits_def alloc_skb_def)
  let ?hop = "[0xfe, 0x80] @ replicate 13 0 @ [2] :: in6_addr"
  have h: "length ?hop = 16" "\<not> ipv6_addr_is_unspecified ?hop" "ndp_is_ours ?hop (devs nd_demo_b Dev_tap)"
    by (simp, rule nd_demo_addr, simp add: ipv6_addr_equal_def ndp_is_ours_def nd_demo_b_def upd_dev_def)
  from neighbour_found [OF s(1-3) k(1,4-6) _ h s(6,7) refl refl, of "[]"] k(2,3) s(4,5)
  show ?thesis by fastforce
qed

section \<open>A conflict of addresses\<close>

lemma ndp_na_update_frame:
  assumes "ndp_inv s"
  shows "\<exists>x c. ndp_na_update t flags tlla s = s\<lparr>tun_tx := x, ndp_cache := c\<rparr>"
proof (cases "ndp_lookup t s")
  case (Some i)
  show ?thesis
  proof (cases "ne_state (ndp_cache s ! i) = NDP_INCOMPLETE")
    case True
    then show ?thesis using ndp_na_incomplete [OF assms Some True] by blast
  next
    case False
    then have "ndp_na_update t flags tlla s = s\<lparr>tun_tx := tun_tx s, ndp_cache := (ndp_cache s)
        [i := ndp_na_refresh flags tlla (word_of_int (timer_get_tick (timers s))) (ndp_cache s ! i)]\<rparr>"
      using Some by (simp add: ndp_na_update_def ndp_upd_def Let_def)
    then show ?thesis by blast
  qed
next
  case None
  then have "ndp_na_update t flags tlla s = s\<lparr>tun_tx := tun_tx s, ndp_cache := ndp_cache s\<rparr>" by (simp add: ndp_na_update_def)
  then show ?thesis by blast
qed

text \<open>
  Property C27. Duplicate address detection does not see a conflict with another stack: that stack answers the solicitation for its
  address, but from that address and not from the unspecified one, and only an answer from the unspecified address counts. When the
  timer fires, the address that the other stack has becomes preferred.
\<close>

theorem dad_conflict_unnoticed:
  fixes a b :: tcpstate
  assumes "ndp_inv a" and "wf_netdev (devs a Dev_tap)" and "wf_netdev (devs b Dev_tap)"
    and "addr = addr6_ll (devs a Dev_tap)" and "addr6_ll_state (devs a Dev_tap) = ADDR6_TENTATIVE"
    and "\<not> ipv6_addr_is_unspecified addr" and "addr6_ll (devs b Dev_tap) = addr"
  shows "\<exists>ns na skb1 skb2 a2. tun_tx (ipv6_dad_start addr Dev_tap a) = tun_tx a @ [ns] \<and>
    netdev_rx_frame ns env b = Some (skb1, env, b\<lparr>tun_tx := tun_tx b @ [na]\<rparr>) \<and>
    netdev_rx_frame na env (ipv6_dad_start addr Dev_tap a) = Some (skb2, env, a2) \<and>
    addr6_ll_state (devs (dad_timeout a2) Dev_tap) = ADDR6_PREFERRED"
proof -
  define hwa hwb where "hwa = dev_hwaddr (devs a Dev_tap)" and "hwb = dev_hwaddr (devs b Dev_tap)"
  have l: "length addr = 16" "length hwa = 6" "length hwb = 6" "length in6_zero = 16"
    using assms(2-4) by (simp_all add: wf_netdev_def hwa_def hwb_def in6_zero_def)
  define a0 where "a0 = a\<lparr>dad_done := False, dad_target := addr, dad_dev := Some Dev_tap, dad_state_ptr := Some (Ll_state Dev_tap)\<rparr>"
  let ?ns = "nd_frame (ipv6_multicast_mac (ipv6_solnode_addr addr)) hwa in6_zero (ipv6_solnode_addr addr) (ns_msg addr hwa)"
  let ?na = "nd_frame (na_mac in6_zero hwa) hwb addr (na_dst in6_zero) (na_msg addr hwb)"
  have ns: "ndp_send_ns addr in6_zero Dev_tap a0 = (0, a0\<lparr>tun_tx := tun_tx a @ [?ns]\<rparr>)"
    unfolding ndp_send_ns_def Let_def
    by (subst nd_send_wire) (use assms(2) l nd_msg_fields [OF l(1,2)] in \<open>simp_all add: a0_def hwa_def ns_msg_def\<close>)
  define a1 where "a1 = a0\<lparr>tun_tx := tun_tx a @ [?ns], timers := timer_oneshot DAD_TIMEOUT_MS Dad_timeout None (timers a)\<rparr>"
  have st: "ipv6_dad_start addr Dev_tap a = a1"
    unfolding ipv6_dad_start_def Let_def using ns assms(4) by (simp add: a0_def a1_def ipv6_addr_equal_def)
  have inv: "ndp_inv a1" using assms(1) by (simp add: ndp_inv_def a1_def a0_def)
  obtain skb1 where b: "netdev_rx_frame ?ns env b = Some (skb1, env, b\<lparr>tun_tx := tun_tx b @ [?na]\<rparr>)"
    using ns_answered [OF assms(3) length_solnode(2) l(2) l(4) length_solnode(1) l(1), where env = env] assms(7)
    by (auto simp: ndp_is_ours_def ipv6_addr_equal_def hwb_def)
  have mac: "length (na_mac in6_zero hwa) = 6" "length (na_dst in6_zero) = 16" using l by (simp_all add: na_mac_def na_dst_def)
  obtain skb2 a2 where a2: "netdev_rx_frame ?na env a1 = Some (skb2, env, a2)" "a2 = ndp_na_update addr (SET_NA_O (SET_NA_S (CLR_NA_R 0))) hwb a1"
    using na_received [OF mac(1) l(3,1) mac(2) assms(6)] by blast
  obtain x c where "a2 = a1\<lparr>tun_tx := x, ndp_cache := c\<rparr>" using ndp_na_update_frame [OF inv] a2(2) by blast
  then have "addr6_ll_state (devs (dad_timeout a2) Dev_tap) = ADDR6_PREFERRED"
    using assms(5) by (simp add: dad_timeout_def dad_finish_def a1_def a0_def dad_read_def dad_write_def upd_dev_def Let_def)
  moreover have "tun_tx a1 = tun_tx a @ [?ns]" by (simp add: a1_def)
  ultimately show ?thesis unfolding st using b a2(1) by blast
qed

theorem dad_conflict_unnoticed_witness:
  "\<exists>ns na skb1 skb2 a2. tun_tx (ipv6_dad_start ([0xfe, 0x80] @ replicate 13 0 @ [2]) Dev_tap (ndp_init nd_demo_b)) = [ns] \<and>
    netdev_rx_frame ns [] nd_demo_b = Some (skb1, [], nd_demo_b\<lparr>tun_tx := [na]\<rparr>) \<and>
    netdev_rx_frame na [] (ipv6_dad_start ([0xfe, 0x80] @ replicate 13 0 @ [2]) Dev_tap (ndp_init nd_demo_b)) = Some (skb2, [], a2) \<and>
    addr6_ll_state (devs (dad_timeout a2) Dev_tap) = ADDR6_PREFERRED"
proof -
  let ?a = "ndp_init nd_demo_b"
  have s: "ndp_inv ?a" "wf_netdev (devs ?a Dev_tap)" "wf_netdev (devs nd_demo_b Dev_tap)" "tun_tx ?a = []" "tun_tx nd_demo_b = []"
    "addr6_ll (devs ?a Dev_tap) = [0xfe, 0x80] @ replicate 13 0 @ [2]" "addr6_ll (devs nd_demo_b Dev_tap) = [0xfe, 0x80] @ replicate 13 0 @ [2]"
    "addr6_ll_state (devs ?a Dev_tap) = ADDR6_TENTATIVE"
    using wf_netdev_init [of Dev_tap]
    by (simp_all add: nd_demo_b_def ndp_inv_def ndp_init_def stack_static_def upd_dev_def wf_netdev_def netdev_init_def netdev_alloc_def)
  from dad_conflict_unnoticed [OF s(1-3) s(6) [symmetric] s(8) nd_demo_addr s(7), of "[]"] s(4,5) show ?thesis by simp
qed

end
