(* ===== verification/Ipc_Types.thy ===== *)
theory Ipc_Types
  imports Boot
begin

text \<open>
  The messages between the socket library and the stack (\<open>include/ipc.h\<close>): packed structs in host byte order,
  with \<open>int\<close> as a 32-bit two's complement number and \<open>size_t\<close> as a 64-bit one. Flexible array members follow
  the struct. \<open>ipc_connect\<close>, \<open>ipc_bind\<close> and \<open>ipc_accept\<close> have one layout, \<open>ipc_addrmsg\<close> (with the fields of
  \<open>ipc_sockaddr\<close>), and \<open>ipc_read\<close> and \<open>ipc_write\<close> another, \<open>ipc_rw\<close>.
\<close>

definition c_int :: "int \<Rightarrow> bool" where
  "c_int x \<longleftrightarrow> - (2 ^ 31) \<le> x \<and> x < 2 ^ 31"

definition lei :: "int \<Rightarrow> bytes" where
  "lei x = le32 (word_of_int x)"

definition geti :: "bytes \<Rightarrow> nat \<Rightarrow> int" where
  "geti b i = sint (get32 b i)"

definition le64 :: "u64 \<Rightarrow> bytes" where
  "le64 w = le32 (ucast w) @ le32 (ucast (drop_bit 32 w))"

definition get64 :: "bytes \<Rightarrow> nat \<Rightarrow> u64" where
  "get64 b i = ucast (get32 b i) OR push_bit 32 (ucast (get32 b (i + 4)))"

lemma length_lei [simp]: "length (lei x) = 4" and length_le64 [simp]: "length (le64 w) = 8"
  by (simp_all add: lei_def le64_def)

lemma sint_c_int: "c_int x \<Longrightarrow> sint (word_of_int x :: u32) = x"
  by (simp add: c_int_def sint_sbintrunc' signed_take_bit_int_eq_self)

lemma w64_parts: "ucast (ucast w :: u32) OR push_bit 32 (ucast (ucast (drop_bit 32 w) :: u32)) = (w :: u64)"
  by (rule bit_word_eqI) (auto simp: bit_simps)

text \<open>Reading a field of a byte list whose front part is given.\<close>

lemma get_here:
  "get16 (le16 w @ r) 0 = w" "get32 (le32 x @ r) 0 = x" "get64 (le64 v @ r) 0 = v"
  "c_int n \<Longrightarrow> geti (lei n @ r) 0 = n" "length d = k \<Longrightarrow> get_bytes 0 k (d @ r) = d"
  by (simp_all add: get16_def get32_def le16_def le32_def get64_def le64_def w64_parts geti_def lei_def
      sint_c_int get_bytes_def)

lemma get_behind:
  "length p \<le> i \<Longrightarrow> get16 (p @ q) i = get16 q (i - length p)"
  "length p \<le> i \<Longrightarrow> get32 (p @ q) i = get32 q (i - length p)"
  "length p \<le> i \<Longrightarrow> get64 (p @ q) i = get64 q (i - length p)"
  "length p \<le> i \<Longrightarrow> geti (p @ q) i = geti q (i - length p)"
  "length p \<le> i \<Longrightarrow> get_bytes i k (p @ q) = get_bytes (i - length p) k q"
  by (simp_all add: get16_def get32_def get64_def geti_def get_bytes_def nth_append Suc_diff_le numeral_eq_Suc)

lemmas ipc_layout = get_here get_behind

record ipc_msg_hdr =
  im_typ :: u16
  im_pid :: int

definition enc_ipc_msg_hdr :: "ipc_msg_hdr \<Rightarrow> bytes" where
  "enc_ipc_msg_hdr m = le16 (im_typ m) @ lei (im_pid m)"

definition dec_ipc_msg_hdr :: "bytes \<Rightarrow> ipc_msg_hdr" where
  "dec_ipc_msg_hdr b = \<lparr>im_typ = get16 b 0, im_pid = geti b 2\<rparr>"

definition ok_ipc_msg_hdr :: "ipc_msg_hdr \<Rightarrow> bool" where
  "ok_ipc_msg_hdr m \<longleftrightarrow> c_int (im_pid m)"

interpretation im: packed_struct enc_ipc_msg_hdr dec_ipc_msg_hdr 6 ok_ipc_msg_hdr
  by unfold_locales (simp_all add: enc_ipc_msg_hdr_def dec_ipc_msg_hdr_def ok_ipc_msg_hdr_def ipc_layout)

record ipc_err =
  ie_rc :: int
  ie_err :: int

definition enc_ipc_err :: "ipc_err \<Rightarrow> bytes" where
  "enc_ipc_err m = lei (ie_rc m) @ lei (ie_err m)"

definition dec_ipc_err :: "bytes \<Rightarrow> ipc_err" where
  "dec_ipc_err b = \<lparr>ie_rc = geti b 0, ie_err = geti b 4\<rparr>"

definition ok_ipc_err :: "ipc_err \<Rightarrow> bool" where
  "ok_ipc_err m \<longleftrightarrow> c_int (ie_rc m) \<and> c_int (ie_err m)"

interpretation ie: packed_struct enc_ipc_err dec_ipc_err 8 ok_ipc_err
  by unfold_locales (simp_all add: enc_ipc_err_def dec_ipc_err_def ok_ipc_err_def ipc_layout)

record ipc_socket =
  isk_domain :: int
  isk_type :: int
  isk_protocol :: int

definition enc_ipc_socket :: "ipc_socket \<Rightarrow> bytes" where
  "enc_ipc_socket m = lei (isk_domain m) @ lei (isk_type m) @ lei (isk_protocol m)"

definition dec_ipc_socket :: "bytes \<Rightarrow> ipc_socket" where
  "dec_ipc_socket b = \<lparr>isk_domain = geti b 0, isk_type = geti b 4, isk_protocol = geti b 8\<rparr>"

definition ok_ipc_socket :: "ipc_socket \<Rightarrow> bool" where
  "ok_ipc_socket m \<longleftrightarrow> c_int (isk_domain m) \<and> c_int (isk_type m) \<and> c_int (isk_protocol m)"

interpretation isk: packed_struct enc_ipc_socket dec_ipc_socket 12 ok_ipc_socket
  by unfold_locales (simp_all add: enc_ipc_socket_def dec_ipc_socket_def ok_ipc_socket_def ipc_layout)

record ipc_addrmsg =
  ic_sockfd :: int
  ic_data :: bytes
  ic_len :: u32

definition enc_ipc_addrmsg :: "ipc_addrmsg \<Rightarrow> bytes" where
  "enc_ipc_addrmsg m = lei (ic_sockfd m) @ ic_data m @ le32 (ic_len m)"

definition dec_ipc_addrmsg :: "bytes \<Rightarrow> ipc_addrmsg" where
  "dec_ipc_addrmsg b = \<lparr>ic_sockfd = geti b 0, ic_data = get_bytes 4 28 b, ic_len = get32 b 32\<rparr>"

definition ok_ipc_addrmsg :: "ipc_addrmsg \<Rightarrow> bool" where
  "ok_ipc_addrmsg m \<longleftrightarrow> c_int (ic_sockfd m) \<and> length (ic_data m) = 28"

interpretation ic: packed_struct enc_ipc_addrmsg dec_ipc_addrmsg 36 ok_ipc_addrmsg
  by unfold_locales (simp_all add: enc_ipc_addrmsg_def dec_ipc_addrmsg_def ok_ipc_addrmsg_def ipc_layout)

record ipc_listen =
  il_sockfd :: int
  il_n :: int

definition enc_ipc_listen :: "ipc_listen \<Rightarrow> bytes" where
  "enc_ipc_listen m = lei (il_sockfd m) @ lei (il_n m)"

definition dec_ipc_listen :: "bytes \<Rightarrow> ipc_listen" where
  "dec_ipc_listen b = \<lparr>il_sockfd = geti b 0, il_n = geti b 4\<rparr>"

definition ok_ipc_listen :: "ipc_listen \<Rightarrow> bool" where
  "ok_ipc_listen m \<longleftrightarrow> c_int (il_sockfd m) \<and> c_int (il_n m)"

interpretation il: packed_struct enc_ipc_listen dec_ipc_listen 8 ok_ipc_listen
  by unfold_locales (simp_all add: enc_ipc_listen_def dec_ipc_listen_def ok_ipc_listen_def ipc_layout)

record ipc_sendto =
  iq_sockfd :: int
  iq_len :: u64
  iq_flags :: int
  iq_data :: bytes
  iq_alen :: u32

definition enc_ipc_sendto :: "ipc_sendto \<Rightarrow> bytes" where
  "enc_ipc_sendto m = lei (iq_sockfd m) @ le64 (iq_len m) @ lei (iq_flags m) @ iq_data m @ le32 (iq_alen m)"

definition dec_ipc_sendto :: "bytes \<Rightarrow> ipc_sendto" where
  "dec_ipc_sendto b = \<lparr>iq_sockfd = geti b 0, iq_len = get64 b 4, iq_flags = geti b 12, iq_data = get_bytes 16 28 b, iq_alen = get32 b 44\<rparr>"

definition ok_ipc_sendto :: "ipc_sendto \<Rightarrow> bool" where
  "ok_ipc_sendto m \<longleftrightarrow> c_int (iq_sockfd m) \<and> c_int (iq_flags m) \<and> length (iq_data m) = 28"

interpretation iq: packed_struct enc_ipc_sendto dec_ipc_sendto 48 ok_ipc_sendto
  by unfold_locales (simp_all add: enc_ipc_sendto_def dec_ipc_sendto_def ok_ipc_sendto_def ipc_layout)

record ipc_recvfrom =
  ir_sockfd :: int
  ir_len :: u64
  ir_flags :: int
  ir_dstaddr :: bytes
  ir_dstlen :: u32

definition enc_ipc_recvfrom :: "ipc_recvfrom \<Rightarrow> bytes" where
  "enc_ipc_recvfrom m = lei (ir_sockfd m) @ le64 (ir_len m) @ lei (ir_flags m) @ ir_dstaddr m @ le32 (ir_dstlen m)"

definition dec_ipc_recvfrom :: "bytes \<Rightarrow> ipc_recvfrom" where
  "dec_ipc_recvfrom b = \<lparr>ir_sockfd = geti b 0, ir_len = get64 b 4, ir_flags = geti b 12, ir_dstaddr = get_bytes 16 16 b, ir_dstlen = get32 b 32\<rparr>"

definition ok_ipc_recvfrom :: "ipc_recvfrom \<Rightarrow> bool" where
  "ok_ipc_recvfrom m \<longleftrightarrow> c_int (ir_sockfd m) \<and> c_int (ir_flags m) \<and> length (ir_dstaddr m) = 16"

interpretation ir: packed_struct enc_ipc_recvfrom dec_ipc_recvfrom 36 ok_ipc_recvfrom
  by unfold_locales (simp_all add: enc_ipc_recvfrom_def dec_ipc_recvfrom_def ok_ipc_recvfrom_def ipc_layout)

record ipc_rw =
  iw_sockfd :: int
  iw_len :: u64

definition enc_ipc_rw :: "ipc_rw \<Rightarrow> bytes" where
  "enc_ipc_rw m = lei (iw_sockfd m) @ le64 (iw_len m)"

definition dec_ipc_rw :: "bytes \<Rightarrow> ipc_rw" where
  "dec_ipc_rw b = \<lparr>iw_sockfd = geti b 0, iw_len = get64 b 4\<rparr>"

definition ok_ipc_rw :: "ipc_rw \<Rightarrow> bool" where
  "ok_ipc_rw m \<longleftrightarrow> c_int (iw_sockfd m)"

interpretation iw: packed_struct enc_ipc_rw dec_ipc_rw 12 ok_ipc_rw
  by unfold_locales (simp_all add: enc_ipc_rw_def dec_ipc_rw_def ok_ipc_rw_def ipc_layout)

record ipc_pollfd =
  ip_fd :: int
  ip_events :: u16
  ip_revents :: u16

definition enc_ipc_pollfd :: "ipc_pollfd \<Rightarrow> bytes" where
  "enc_ipc_pollfd m = lei (ip_fd m) @ le16 (ip_events m) @ le16 (ip_revents m)"

definition dec_ipc_pollfd :: "bytes \<Rightarrow> ipc_pollfd" where
  "dec_ipc_pollfd b = \<lparr>ip_fd = geti b 0, ip_events = get16 b 4, ip_revents = get16 b 6\<rparr>"

definition ok_ipc_pollfd :: "ipc_pollfd \<Rightarrow> bool" where
  "ok_ipc_pollfd m \<longleftrightarrow> c_int (ip_fd m)"

interpretation ip: packed_struct enc_ipc_pollfd dec_ipc_pollfd 8 ok_ipc_pollfd
  by unfold_locales (simp_all add: enc_ipc_pollfd_def dec_ipc_pollfd_def ok_ipc_pollfd_def ipc_layout)

record ipc_poll =
  ipl_nfds :: u64
  ipl_timeout :: int

definition enc_ipc_poll :: "ipc_poll \<Rightarrow> bytes" where
  "enc_ipc_poll m = le64 (ipl_nfds m) @ lei (ipl_timeout m)"

definition dec_ipc_poll :: "bytes \<Rightarrow> ipc_poll" where
  "dec_ipc_poll b = \<lparr>ipl_nfds = get64 b 0, ipl_timeout = geti b 8\<rparr>"

definition ok_ipc_poll :: "ipc_poll \<Rightarrow> bool" where
  "ok_ipc_poll m \<longleftrightarrow> c_int (ipl_timeout m)"

interpretation ipl: packed_struct enc_ipc_poll dec_ipc_poll 12 ok_ipc_poll
  by unfold_locales (simp_all add: enc_ipc_poll_def dec_ipc_poll_def ok_ipc_poll_def ipc_layout)

record ipc_fcntl =
  ifc_sockfd :: int
  ifc_cmd :: int

definition enc_ipc_fcntl :: "ipc_fcntl \<Rightarrow> bytes" where
  "enc_ipc_fcntl m = lei (ifc_sockfd m) @ lei (ifc_cmd m)"

definition dec_ipc_fcntl :: "bytes \<Rightarrow> ipc_fcntl" where
  "dec_ipc_fcntl b = \<lparr>ifc_sockfd = geti b 0, ifc_cmd = geti b 4\<rparr>"

definition ok_ipc_fcntl :: "ipc_fcntl \<Rightarrow> bool" where
  "ok_ipc_fcntl m \<longleftrightarrow> c_int (ifc_sockfd m) \<and> c_int (ifc_cmd m)"

interpretation ifc: packed_struct enc_ipc_fcntl dec_ipc_fcntl 8 ok_ipc_fcntl
  by unfold_locales (simp_all add: enc_ipc_fcntl_def dec_ipc_fcntl_def ok_ipc_fcntl_def ipc_layout)

record ipc_sockopt =
  iso_fd :: int
  iso_level :: int
  iso_optname :: int
  iso_optlen :: u32

definition enc_ipc_sockopt :: "ipc_sockopt \<Rightarrow> bytes" where
  "enc_ipc_sockopt m = lei (iso_fd m) @ lei (iso_level m) @ lei (iso_optname m) @ le32 (iso_optlen m)"

definition dec_ipc_sockopt :: "bytes \<Rightarrow> ipc_sockopt" where
  "dec_ipc_sockopt b = \<lparr>iso_fd = geti b 0, iso_level = geti b 4, iso_optname = geti b 8, iso_optlen = get32 b 12\<rparr>"

definition ok_ipc_sockopt :: "ipc_sockopt \<Rightarrow> bool" where
  "ok_ipc_sockopt m \<longleftrightarrow> c_int (iso_fd m) \<and> c_int (iso_level m) \<and> c_int (iso_optname m)"

interpretation iso: packed_struct enc_ipc_sockopt dec_ipc_sockopt 16 ok_ipc_sockopt
  by unfold_locales (simp_all add: enc_ipc_sockopt_def dec_ipc_sockopt_def ok_ipc_sockopt_def ipc_layout)

record ipc_sockname =
  isn_socket :: int
  isn_alen :: u32
  isn_data :: bytes

definition enc_ipc_sockname :: "ipc_sockname \<Rightarrow> bytes" where
  "enc_ipc_sockname m = lei (isn_socket m) @ le32 (isn_alen m) @ isn_data m"

definition dec_ipc_sockname :: "bytes \<Rightarrow> ipc_sockname" where
  "dec_ipc_sockname b = \<lparr>isn_socket = geti b 0, isn_alen = get32 b 4, isn_data = get_bytes 8 128 b\<rparr>"

definition ok_ipc_sockname :: "ipc_sockname \<Rightarrow> bool" where
  "ok_ipc_sockname m \<longleftrightarrow> c_int (isn_socket m) \<and> length (isn_data m) = 128"

interpretation isn: packed_struct enc_ipc_sockname dec_ipc_sockname 136 ok_ipc_sockname
  by unfold_locales (simp_all add: enc_ipc_sockname_def dec_ipc_sockname_def ok_ipc_sockname_def ipc_layout)

end
