(* ===== verification/Ipc.thy ===== *)
theory Ipc
  imports Ipc_Types
begin

text \<open>
  The stack's end of the socket library (\<open>src/ipc.c\<close>): one thread per client reads a message into its
  8192-byte buffer, makes the socket call, and sends the answer. \<open>junk\<close> is the content of memory the code
  reads without having written it (uninitialised parts of an answer, bytes behind the end of a
  buffer); reads and writes outside a buffer set \<open>stack_oob\<close>. The results of \<open>read\<close> on the
  client's descriptor are a list, \<open>None\<close> for an error; when it is used up the thread waits and the result of the
  call is \<open>None\<close>. A failed \<open>send\<close> is only logged. The last section shows that every request of a known type gets one answer. Lengths of single requests are below \<open>2 ^ 31\<close>.
\<close>

record ipcstate =
  ipc_tcp :: tcpstate
  ipc_sockets :: "int list"
  ipc_socket_count :: int
  ipc_closed :: "int list"
  stack_oob :: bool

type_synonym junk = "nat \<Rightarrow> u8"
type_synonym ipc_reads = "bytes option list"
text \<open>Result of a handler: return code, answers sent, whether it read once more, schedule, state.\<close>
type_synonym ipc_result = "(int \<times> bytes list \<times> bool \<times> sched \<times> ipcstate) option"

abbreviation (input) IPC_BUFLEN :: nat where "IPC_BUFLEN \<equiv> 8192"
abbreviation (input) IPC_SOCKET :: u16 where "IPC_SOCKET \<equiv> 1"
abbreviation (input) IPC_CONNECT :: u16 where "IPC_CONNECT \<equiv> 2"
abbreviation (input) IPC_WRITE :: u16 where "IPC_WRITE \<equiv> 3"
abbreviation (input) IPC_READ :: u16 where "IPC_READ \<equiv> 4"
abbreviation (input) IPC_CLOSE :: u16 where "IPC_CLOSE \<equiv> 5"
abbreviation (input) IPC_POLL :: u16 where "IPC_POLL \<equiv> 6"
abbreviation (input) IPC_FCNTL :: u16 where "IPC_FCNTL \<equiv> 7"
abbreviation (input) IPC_GETSOCKOPT :: u16 where "IPC_GETSOCKOPT \<equiv> 8"
abbreviation (input) IPC_GETPEERNAME :: u16 where "IPC_GETPEERNAME \<equiv> 10"
abbreviation (input) IPC_GETSOCKNAME :: u16 where "IPC_GETSOCKNAME \<equiv> 11"
abbreviation (input) IPC_BIND :: u16 where "IPC_BIND \<equiv> 12"
abbreviation (input) IPC_SENDTO :: u16 where "IPC_SENDTO \<equiv> 13"
abbreviation (input) IPC_RECVFROM :: u16 where "IPC_RECVFROM \<equiv> 14"
abbreviation (input) IPC_LISTEN :: u16 where "IPC_LISTEN \<equiv> 15"
abbreviation (input) IPC_ACCEPT :: u16 where "IPC_ACCEPT \<equiv> 16"

section \<open>Clients\<close>

definition ipc_alloc_thread :: "int \<Rightarrow> ipcstate \<Rightarrow> ipcstate" where
  "ipc_alloc_thread sock s =
     s\<lparr>ipc_sockets := ipc_sockets s @ [sock], ipc_socket_count := ipc_socket_count s + 1\<rparr>"

definition ipc_free_thread :: "int \<Rightarrow> ipcstate \<Rightarrow> ipcstate" where
  "ipc_free_thread sock s =
     (if sock \<in> set (ipc_sockets s) then
        s\<lparr>ipc_sockets := remove1 sock (ipc_sockets s), ipc_socket_count := ipc_socket_count s - 1,
          ipc_closed := ipc_closed s @ [sock]\<rparr>
      else s)"

section \<open>Answers\<close>

text \<open>\<open>n\<close> bytes from the start of \<open>bs\<close>, going on in unknown memory.\<close>

definition mem_bytes :: "junk \<Rightarrow> nat \<Rightarrow> bytes \<Rightarrow> bytes" where
  "mem_bytes junk n bs = take n bs @ map junk [length bs..<n]"

definition set_oob :: "bool \<Rightarrow> ipcstate \<Rightarrow> ipcstate" where
  "set_oob b s = s\<lparr>stack_oob := (stack_oob s \<or> b)\<rparr>"

definition ipc_msg :: "u16 \<Rightarrow> int \<Rightarrow> bytes \<Rightarrow> bytes" where
  "ipc_msg ty pid payload = enc_ipc_msg_hdr \<lparr>im_typ = ty, im_pid = pid\<rparr> @ payload"

definition ipc_err_of :: "int \<Rightarrow> ipc_err" where
  "ipc_err_of rc = (if rc < 0 then \<lparr>ie_rc = -1, ie_err = - rc\<rparr> else \<lparr>ie_rc = rc, ie_err = 0\<rparr>)"

definition ipc_write_rc :: "int \<Rightarrow> u16 \<Rightarrow> int \<Rightarrow> bytes" where
  "ipc_write_rc pid ty rc = ipc_msg ty pid (enc_ipc_err (ipc_err_of rc))"

definition dec_sockaddr :: "bytes \<Rightarrow> sockaddr" where
  "dec_sockaddr b = \<lparr>sa_family = get16 b 0, sin_port = get16 b 2, sin_addr = get32 b 4,
     sin6_addr = get_bytes 8 16 b\<rparr>"

definition enc_sockaddr_in :: "sockaddr \<Rightarrow> bytes" where
  "enc_sockaddr_in a = le16 (sa_family a) @ le16 (sin_port a) @ le32 (sin_addr a) @ replicate 8 0"

text \<open>The 28-byte local address buffer, zeroed and filled with \<open>sa_len\<close> bytes.\<close>

definition ipc_temp_addr :: "bytes \<Rightarrow> u32 \<Rightarrow> bytes" where
  "ipc_temp_addr sa_data sa_len = take 28 (take (unat sa_len) sa_data @ replicate 28 0)"

text \<open>Making a call and answering with its return code.\<close>

definition ipc_call ::
  "int \<Rightarrow> u16 \<Rightarrow> (int \<times> 'r \<times> sched \<times> tcpstate) option \<Rightarrow> ipcstate \<Rightarrow> ipc_result" where
  "ipc_call pid ty r s =
     (case r of
        None \<Rightarrow> None
      | Some (rc, x, env, tcp) \<Rightarrow> Some (0, [ipc_write_rc pid ty rc], False, env, s\<lparr>ipc_tcp := tcp\<rparr>))"

section \<open>Handlers\<close>

text \<open>Each takes the process id and the bytes behind the message header.\<close>

definition ipc_read :: "junk \<Rightarrow> int \<Rightarrow> bytes \<Rightarrow> sched \<Rightarrow> ipcstate \<Rightarrow> ipc_result" where
  "ipc_read junk pid payload env s =
     (let rq = dec_ipc_rw payload
      in case read_call pid (iw_sockfd rq) (unat (ucast (iw_len rq) :: u32)) env (ipc_tcp s) of
           None \<Rightarrow> None
         | Some (rlen, rbuf, env, tcp) \<Rightarrow>
             (let actual = enc_ipc_rw \<lparr>iw_sockfd = iw_sockfd rq, iw_len = word_of_int rlen\<rparr> @
                    mem_bytes junk (nat rlen) rbuf;
                  s = set_oob (rlen > int (unat (iw_len rq))) (s\<lparr>ipc_tcp := tcp\<rparr>)
              in Some (0, [ipc_msg IPC_READ pid (enc_ipc_err (ipc_err_of rlen) @ actual)], False, env, s)))"

text \<open>A payload longer than the rest of the message buffer is completed by one more \<open>read\<close>.\<close>

definition ipc_write ::
  "junk \<Rightarrow> int \<Rightarrow> bytes \<Rightarrow> ipc_reads \<Rightarrow> sched \<Rightarrow> ipcstate \<Rightarrow> ipc_result" where
  "ipc_write junk pid payload reads env s =
     (let rq = dec_ipc_rw payload;
          head = IPC_BUFLEN - 12 - 6;
          len = unat (iw_len rq);
          buf = take (min len head) (drop 12 payload) @ replicate (len - head) 0;
          finish = (\<lambda>more_read buf.
            (case write_call pid (iw_sockfd rq) (take (unat (ucast (iw_len rq) :: u32)) buf) env (ipc_tcp s) of
               None \<Rightarrow> None
             | Some (rc, x, env, tcp) \<Rightarrow>
                 Some (0, [ipc_write_rc pid IPC_WRITE rc], more_read, env, s\<lparr>ipc_tcp := tcp\<rparr>)))
      in if len > head then
           (case reads of
              [] \<Rightarrow> None
            | None # _ \<Rightarrow> Some (-1, [], True, env, s)
            | Some bs # _ \<Rightarrow> finish True (put_bytes head (take (len - head) bs) buf))
         else finish False buf)"

definition ipc_connect :: "int \<Rightarrow> bytes \<Rightarrow> sched \<Rightarrow> ipcstate \<Rightarrow> ipc_result" where
  "ipc_connect pid payload env s =
     (let rq = dec_ipc_addrmsg payload;
          addr = ipc_temp_addr (ic_data rq) (ic_len rq);
          s = set_oob (ic_len rq > 28) s
      in ipc_call pid IPC_CONNECT
           (add_unit (connect_call pid (ic_sockfd rq) (dec_sockaddr addr) (unat (ic_len rq)) env (ipc_tcp s))) s)"

definition ipc_bind :: "int \<Rightarrow> bytes \<Rightarrow> sched \<Rightarrow> ipcstate \<Rightarrow> ipc_result" where
  "ipc_bind pid payload env s =
     (let rq = dec_ipc_addrmsg payload;
          addr = ipc_temp_addr (ic_data rq) (ic_len rq);
          s = set_oob (ic_len rq > 28) s
      in ipc_call pid IPC_BIND
           (bind_call pid (ic_sockfd rq) (dec_sockaddr addr) (unat (ic_len rq)) env (ipc_tcp s)) s)"

definition ipc_listen_msg :: "int \<Rightarrow> bytes \<Rightarrow> sched \<Rightarrow> ipcstate \<Rightarrow> ipc_result" where
  "ipc_listen_msg pid payload env s =
     (let rq = dec_ipc_listen payload
      in ipc_call pid IPC_LISTEN (listen_call pid (il_sockfd rq) (il_n rq) env (ipc_tcp s)) s)"

text \<open>\<open>ipc_accept\<close> answers with the raw return code in both fields; \<open>addr_len\<close> is passed by value.\<close>

definition ipc_accept :: "int \<Rightarrow> bytes \<Rightarrow> sched \<Rightarrow> ipcstate \<Rightarrow> ipc_result" where
  "ipc_accept pid payload env s =
     (let rq = dec_ipc_addrmsg payload;
          addr = ipc_temp_addr (ic_data rq) (ic_len rq);
          s = set_oob (ic_len rq > 28) s
      in case accept_call pid (ic_sockfd rq) (unat (ic_len rq)) env (ipc_tcp s) of
           None \<Rightarrow> None
         | Some (rc, peer, env, tcp) \<Rightarrow>
             (let addr = (case peer of None \<Rightarrow> addr | Some a \<Rightarrow> put_bytes 0 (enc_sockaddr_in a) addr);
                  n = min (unat (ic_len rq)) 28;
                  actual = enc_ipc_addrmsg \<lparr>ic_sockfd = rc, ic_data = take n addr @ replicate (28 - n) 0,
                    ic_len = of_nat n\<rparr>
              in Some (0, [ipc_msg IPC_ACCEPT pid (enc_ipc_err \<lparr>ie_rc = rc, ie_err = rc\<rparr> @ actual)], False, env,
                       s\<lparr>ipc_tcp := tcp\<rparr>)))"

definition ipc_sendto_msg :: "junk \<Rightarrow> int \<Rightarrow> bytes \<Rightarrow> sched \<Rightarrow> ipcstate \<Rightarrow> ipc_result" where
  "ipc_sendto_msg junk pid payload env s =
     (let rq = dec_ipc_sendto payload;
          addr = ipc_temp_addr (iq_data rq) (iq_alen rq);
          len = unat (ucast (iq_len rq) :: u32);
          s = set_oob (iq_alen rq > 28 \<or> len > length (drop 48 payload)) s
      in ipc_call pid IPC_SENDTO
           (sendto_call pid (iq_sockfd rq) (mem_bytes junk len (drop 48 payload)) (dec_sockaddr addr) env
             (ipc_tcp s)) s)"

definition ipc_recvfrom_msg :: "junk \<Rightarrow> int \<Rightarrow> bytes \<Rightarrow> sched \<Rightarrow> ipcstate \<Rightarrow> ipc_result" where
  "ipc_recvfrom_msg junk pid payload env s =
     (let rq = dec_ipc_recvfrom payload
      in case recvfrom_call pid (ir_sockfd rq) (unat (ucast (ir_len rq) :: u32)) env (ipc_tcp s) of
           None \<Rightarrow> None
         | Some (rlen, (rbuf, src), env, tcp) \<Rightarrow>
             (let (addr, addrlen) = (case src of None \<Rightarrow> (replicate 16 0, ir_dstlen rq)
                                     | Some a \<Rightarrow> (enc_sockaddr_in a, 16));
                  n = unat addrlen;
                  actual = enc_ipc_recvfrom \<lparr>ir_sockfd = ir_sockfd rq, ir_len = word_of_int rlen,
                      ir_flags = geti (map junk [0..<4]) 0,
                      ir_dstaddr = take 16 (take n addr @ map junk [0..<16]), ir_dstlen = addrlen\<rparr> @
                    mem_bytes junk (nat rlen) rbuf;
                  s = set_oob (rlen > int (unat (ir_len rq)) \<or> n > 16) (s\<lparr>ipc_tcp := tcp\<rparr>)
              in Some (0, [ipc_msg IPC_RECVFROM pid (enc_ipc_err (ipc_err_of rlen) @ actual)], False, env, s)))"

definition ipc_socket_msg :: "int \<Rightarrow> bytes \<Rightarrow> sched \<Rightarrow> ipcstate \<Rightarrow> ipc_result" where
  "ipc_socket_msg pid payload env s =
     (let rq = dec_ipc_socket payload;
          (rc, tcp) = socket_call pid (isk_domain rq) (isk_type rq) (ipc_tcp s)
      in Some (0, [ipc_write_rc pid IPC_SOCKET rc], False, env, s\<lparr>ipc_tcp := tcp\<rparr>))"

definition ipc_close :: "int \<Rightarrow> bytes \<Rightarrow> sched \<Rightarrow> ipcstate \<Rightarrow> ipc_result" where
  "ipc_close pid payload env s =
     ipc_call pid IPC_CLOSE (close_call pid (geti payload 0) env (ipc_tcp s)) s"

text \<open>When \<open>_poll\<close> fails the returned events are what the scans so far left: unknown here.\<close>

definition ipc_poll_fds :: "nat \<Rightarrow> bytes \<Rightarrow> ipc_pollfd list" where
  "ipc_poll_fds n b = map (\<lambda>i. dec_ipc_pollfd (drop (8 * i) b)) [0..<n]"

definition ipc_poll_msg :: "junk \<Rightarrow> int \<Rightarrow> bytes \<Rightarrow> sched \<Rightarrow> ipcstate \<Rightarrow> ipc_result" where
  "ipc_poll_msg junk pid payload env s =
     (let rq = dec_ipc_poll payload;
          n = unat (ipl_nfds rq);
          fds = ipc_poll_fds n (mem_bytes junk (8 * n) (drop 12 payload));
          s = set_oob (8 * n > length (drop 12 payload)) s
      in case poll_call pid (map (\<lambda>f. (ip_fd f, ip_events f)) fds) (ipl_timeout rq) env (ipc_tcp s) of
           None \<Rightarrow> None
         | Some (rc, revents, env, tcp) \<Rightarrow>
             (let revents = (if rc < 0 then map (\<lambda>i. ucast (junk i)) [0..<n] else revents);
                  polled = concat (map2 (\<lambda>f r. enc_ipc_pollfd (f\<lparr>ip_revents := r\<rparr>)) fds revents)
              in Some (0, [ipc_msg IPC_POLL pid (enc_ipc_err (ipc_err_of rc) @ polled)], False, env,
                       s\<lparr>ipc_tcp := tcp\<rparr>)))"

definition ipc_fcntl_msg :: "int \<Rightarrow> bytes \<Rightarrow> sched \<Rightarrow> ipcstate \<Rightarrow> ipc_result" where
  "ipc_fcntl_msg pid payload env s =
     (let rq = dec_ipc_fcntl payload
      in if ifc_cmd rq = 3 \<or> ifc_cmd rq = 4 then
           ipc_call pid IPC_FCNTL
             (fcntl_call pid (ifc_sockfd rq) (ifc_cmd rq) (get32 payload 8) env (ipc_tcp s)) s
         else Some (0, [ipc_write_rc pid IPC_FCNTL (- EINVAL)], False, env, s))"

text \<open>\<open>_getsockopt\<close> writes the value over the request's; the answer copies it back with the requested length,
  and the handler returns the return code of the call.\<close>

definition ipc_getsockopt :: "junk \<Rightarrow> int \<Rightarrow> bytes \<Rightarrow> sched \<Rightarrow> ipcstate \<Rightarrow> ipc_result" where
  "ipc_getsockopt junk pid payload env s =
     (let rq = dec_ipc_sockopt payload;
          n = unat (iso_optlen rq)
      in case getsockopt_call pid (iso_fd rq) (iso_level rq) (iso_optname rq) env (ipc_tcp s) of
           None \<Rightarrow> None
         | Some (rc, val, env, tcp) \<Rightarrow>
             (let optval = drop 16 payload;
                  optval = (case val of None \<Rightarrow> optval | Some v \<Rightarrow> put_bytes 0 (lei v) optval);
                  s = set_oob (n > length (drop 16 payload)) (s\<lparr>ipc_tcp := tcp\<rparr>)
              in Some (rc, [ipc_msg IPC_GETSOCKOPT pid (enc_ipc_err (ipc_err_of rc) @ enc_ipc_sockopt rq @
                         mem_bytes junk n optval)], False, env, s)))"

definition ipc_name_answer ::
  "junk \<Rightarrow> u16 \<Rightarrow> int \<Rightarrow> int \<Rightarrow> (int \<times> sockaddr option \<times> sched \<times> tcpstate) option \<Rightarrow> ipcstate \<Rightarrow> ipc_result" where
  "ipc_name_answer junk ty pid fd r s =
     (case r of
        None \<Rightarrow> None
      | Some (rc, addr, env, tcp) \<Rightarrow>
          (let nameres = (case addr of
                 None \<Rightarrow> \<lparr>isn_socket = fd, isn_alen = get32 (map junk [0..<4]) 0, isn_data = map junk [4..<132]\<rparr>
               | Some a \<Rightarrow> \<lparr>isn_socket = fd, isn_alen = 16, isn_data = take 8 (enc_sockaddr_in a) @ map junk [12..<132]\<rparr>)
           in Some (rc, [ipc_msg ty pid (enc_ipc_err (ipc_err_of rc) @ enc_ipc_sockname nameres)], False, env,
                    s\<lparr>ipc_tcp := tcp\<rparr>)))"

definition ipc_getpeername :: "junk \<Rightarrow> int \<Rightarrow> bytes \<Rightarrow> sched \<Rightarrow> ipcstate \<Rightarrow> ipc_result" where
  "ipc_getpeername junk pid payload env s =
     (let fd = geti payload 0
      in ipc_name_answer junk IPC_GETPEERNAME pid fd (getpeername_call pid fd env (ipc_tcp s)) s)"

definition ipc_getsockname :: "junk \<Rightarrow> int \<Rightarrow> bytes \<Rightarrow> sched \<Rightarrow> ipcstate \<Rightarrow> ipc_result" where
  "ipc_getsockname junk pid payload env s =
     (let fd = geti payload 0
      in ipc_name_answer junk IPC_GETSOCKNAME pid fd (getsockname_call pid fd env (ipc_tcp s)) s)"

section \<open>The thread of a client\<close>

definition demux_ipc_socket_call ::
  "junk \<Rightarrow> bytes \<Rightarrow> ipc_reads \<Rightarrow> sched \<Rightarrow> ipcstate \<Rightarrow> ipc_result" where
  "demux_ipc_socket_call junk cmdbuf reads env s =
     (let msg = dec_ipc_msg_hdr cmdbuf;
          pid = im_pid msg;
          payload = drop 6 cmdbuf;
          ty = im_typ msg
      in if ty = IPC_SOCKET then ipc_socket_msg pid payload env s
         else if ty = IPC_CONNECT then ipc_connect pid payload env s
         else if ty = IPC_WRITE then ipc_write junk pid payload reads env s
         else if ty = IPC_READ then ipc_read junk pid payload env s
         else if ty = IPC_CLOSE then ipc_close pid payload env s
         else if ty = IPC_POLL then ipc_poll_msg junk pid payload env s
         else if ty = IPC_FCNTL then ipc_fcntl_msg pid payload env s
         else if ty = IPC_GETSOCKOPT then ipc_getsockopt junk pid payload env s
         else if ty = IPC_GETPEERNAME then ipc_getpeername junk pid payload env s
         else if ty = IPC_GETSOCKNAME then ipc_getsockname junk pid payload env s
         else if ty = IPC_BIND then ipc_bind pid payload env s
         else if ty = IPC_SENDTO then ipc_sendto_msg junk pid payload env s
         else if ty = IPC_RECVFROM then ipc_recvfrom_msg junk pid payload env s
         else if ty = IPC_LISTEN then ipc_listen_msg pid payload env s
         else if ty = IPC_ACCEPT then ipc_accept pid payload env s
         else Some (0, [], False, env, s))"

text \<open>The loop of \<open>socket_ipc_open\<close>: the answers, and the state when the thread ends. After a handler
  returned -1 the descriptor is closed but stays in the list.\<close>

function (sequential) socket_ipc_open ::
  "junk \<Rightarrow> int \<Rightarrow> bytes \<Rightarrow> ipc_reads \<Rightarrow> sched \<Rightarrow> ipcstate \<Rightarrow> (bytes list \<times> sched \<times> ipcstate) option" where
  "socket_ipc_open junk sock buf [] env s = None"
| "socket_ipc_open junk sock buf (None # reads) env s = Some ([], env, ipc_free_thread sock s)"
| "socket_ipc_open junk sock buf (Some [] # reads) env s = Some ([], env, ipc_free_thread sock s)"
| "socket_ipc_open junk sock buf (Some bs # reads) env s =
     (let buf = put_bytes 0 bs buf
      in case demux_ipc_socket_call junk buf reads env s of
           None \<Rightarrow> None
         | Some (rc, out, again, env, s) \<Rightarrow>
             (if rc = -1 then Some (out, env, s\<lparr>ipc_closed := ipc_closed s @ [sock]\<rparr>)
              else case socket_ipc_open junk sock buf (if again then drop 1 reads else reads) env s of
                     None \<Rightarrow> None
                   | Some (out', env, s) \<Rightarrow> Some (out @ out', env, s)))"
  by pat_completeness auto
termination
  by (relation "measure (\<lambda>(junk, sock, buf, reads, env, s). length reads)") auto

section \<open>Every request is answered\<close>

text \<open>The calls a client may ask for.\<close>

definition ipc_known :: "u16 \<Rightarrow> bool" where
  "ipc_known ty \<longleftrightarrow> ty \<in> {IPC_SOCKET, IPC_CONNECT, IPC_WRITE, IPC_READ, IPC_CLOSE, IPC_POLL, IPC_FCNTL, IPC_GETSOCKOPT,
     IPC_GETPEERNAME, IPC_GETSOCKNAME, IPC_BIND, IPC_SENDTO, IPC_RECVFROM, IPC_LISTEN, IPC_ACCEPT}"

text \<open>One answer of the type and for the process of the request.\<close>

definition answered :: "u16 \<Rightarrow> int \<Rightarrow> ipc_result \<Rightarrow> bool" where
  "answered ty pid r \<longleftrightarrow>
     (\<forall>rc out again env s. r = Some (rc, out, again, env, s) \<longrightarrow> (\<exists>e p. out = [ipc_msg ty pid (enc_ipc_err e @ p)]))"

lemma answered_Some [simp]: "answered ty pid (Some (rc, out, again, env, s)) \<longleftrightarrow> (\<exists>e p. out = [ipc_msg ty pid (enc_ipc_err e @ p)])"
  by (simp add: answered_def)

lemma answered_None [simp]: "answered ty pid None"
  by (simp add: answered_def)

lemma answered_rc [simp]: "\<exists>e p. ipc_write_rc pid ty rc = ipc_msg ty pid (enc_ipc_err e @ p)"
  unfolding ipc_write_rc_def by (metis append_Nil2)

lemma answered_msg [simp]: "\<exists>e' p'. ipc_msg ty pid (enc_ipc_err e @ p) = ipc_msg ty pid (enc_ipc_err e' @ p')"
  by blast

lemma answered_call [simp]: "answered ty pid (ipc_call pid ty r s)"
  by (auto simp: ipc_call_def split: option.split)

lemma answered_name [simp]: "answered ty pid (ipc_name_answer junk ty pid fd r s)"
  by (auto simp: ipc_name_answer_def Let_def split: option.split)

lemma answered_handlers:
  "answered IPC_SOCKET pid (ipc_socket_msg pid p env s)" "answered IPC_CONNECT pid (ipc_connect pid p env s)"
  "answered IPC_WRITE pid (ipc_write junk pid p [Some bs] env s)" "answered IPC_READ pid (ipc_read junk pid p env s)"
  "answered IPC_CLOSE pid (ipc_close pid p env s)" "answered IPC_POLL pid (ipc_poll_msg junk pid p env s)"
  "answered IPC_FCNTL pid (ipc_fcntl_msg pid p env s)" "answered IPC_GETSOCKOPT pid (ipc_getsockopt junk pid p env s)"
  "answered IPC_GETPEERNAME pid (ipc_getpeername junk pid p env s)"
  "answered IPC_GETSOCKNAME pid (ipc_getsockname junk pid p env s)" "answered IPC_BIND pid (ipc_bind pid p env s)"
  "answered IPC_SENDTO pid (ipc_sendto_msg junk pid p env s)" "answered IPC_RECVFROM pid (ipc_recvfrom_msg junk pid p env s)"
  "answered IPC_LISTEN pid (ipc_listen_msg pid p env s)" "answered IPC_ACCEPT pid (ipc_accept pid p env s)"
  by (simp_all add: ipc_socket_msg_def ipc_connect_def ipc_close_def ipc_fcntl_msg_def ipc_getpeername_def
      ipc_getsockname_def ipc_bind_def ipc_sendto_msg_def ipc_listen_msg_def Let_def case_prod_beta)
    (auto simp: ipc_write_def ipc_read_def ipc_poll_msg_def ipc_getsockopt_def ipc_recvfrom_msg_def ipc_accept_def Let_def
      split: option.split)

lemma demux_answered:
  assumes "ipc_known (im_typ (dec_ipc_msg_hdr buf))"
  shows "answered (im_typ (dec_ipc_msg_hdr buf)) (im_pid (dec_ipc_msg_hdr buf))
    (demux_ipc_socket_call junk buf [Some bs] env s)"
  using assms answered_handlers unfolding ipc_known_def
  by (auto simp: demux_ipc_socket_call_def Let_def)

end
