(* ===== verification/Liblevelip.thy ===== *)
theory Liblevelip
  imports Ipc
begin

text \<open>
  The socket library that applications preload (\<open>tools/liblevelip.c\<close>): a call on a descriptor of the stack is
  turned into a message, everything else goes to libc. \<open>xchg fd request n w\<close> stands for the write of the
  request on the Unix socket \<open>fd\<close> and the read of at most \<open>n\<close> bytes of the answer: the buffer as \<open>read\<close>
  leaves it, and the new world \<open>w\<close>; \<open>None\<close> when the answer never comes. \<open>libc\<close> is what the libc function of
  the same name returns, \<open>mypid\<close> the result of \<open>getpid\<close>.
\<close>

record lvlip =
  lvlip_socks :: "(int \<times> int) list"
  lvlip_socks_count :: int
  main_pid :: int
  lv_errno :: int

type_synonym 'w xchg = "int \<Rightarrow> bytes \<Rightarrow> nat \<Rightarrow> 'w \<Rightarrow> (bytes \<times> 'w) option"
type_synonym 'w lv_result = "(int \<times> lvlip \<times> 'w) option"

text \<open>The Unix socket that belongs to a descriptor.\<close>

definition lvlip_get_sock :: "int \<Rightarrow> lvlip \<Rightarrow> int option" where
  "lvlip_get_sock fd lv = map_option fst (find (\<lambda>(lvlfd, f). f = fd) (lvlip_socks lv))"

definition is_socket_supported :: "int \<Rightarrow> int \<Rightarrow> int \<Rightarrow> bool" where
  "is_socket_supported domain ty protocol \<longleftrightarrow>
     (domain = 2 \<or> domain = 10) \<and> (ty AND 1 \<noteq> 0 \<or> ty AND 2 \<noteq> 0) \<and>
     (protocol = 0 \<or> protocol = 6 \<or> protocol = 17)"

definition call_pid :: "int \<Rightarrow> lvlip \<Rightarrow> int" where
  "call_pid mypid lv = (if main_pid lv \<noteq> 0 then main_pid lv else mypid)"

text \<open>The type and process id of the answer have to be those of the request.\<close>

definition answers :: "u16 \<Rightarrow> int \<Rightarrow> bytes \<Rightarrow> bool" where
  "answers ty pid response \<longleftrightarrow>
     im_typ (dec_ipc_msg_hdr response) = ty \<and> im_pid (dec_ipc_msg_hdr response) = pid"

definition transmit_lvlip ::
  "'w xchg \<Rightarrow> int \<Rightarrow> u16 \<Rightarrow> int \<Rightarrow> bytes \<Rightarrow> lvlip \<Rightarrow> 'w \<Rightarrow> 'w lv_result" where
  "transmit_lvlip xchg lvlfd ty pid payload lv w =
     (case xchg lvlfd (ipc_msg ty pid payload) 512 w of
        None \<Rightarrow> None
      | Some (response, w) \<Rightarrow>
          if \<not> answers ty pid response then Some (-1, lv, w)
          else
            (let err = dec_ipc_err (drop 6 response)
             in Some (ie_rc err, if ie_rc err = -1 then lv\<lparr>lv_errno := ie_err err\<rparr> else lv, w)))"

text \<open>\<open>init_socket\<close> from the results of the libc calls \<open>socket\<close> and \<open>connect\<close>: the Unix socket, or the exit code.\<close>

definition init_socket :: "int \<Rightarrow> int \<Rightarrow> int + int" where
  "init_socket data_socket ret = (if data_socket = -1 then Inl 1 else if ret = -1 then Inl 1 else Inr data_socket)"

text \<open>\<open>socket\<close> with the Unix socket \<open>lvlfd\<close> that \<open>init_socket\<close> opened.\<close>

definition lv_socket ::
  "'w xchg \<Rightarrow> int \<Rightarrow> int \<Rightarrow> int \<Rightarrow> int \<Rightarrow> int \<Rightarrow> int \<Rightarrow> lvlip \<Rightarrow> 'w \<Rightarrow> 'w lv_result" where
  "lv_socket xchg libc mypid lvlfd domain ty protocol lv w =
     (if \<not> is_socket_supported domain ty protocol then Some (libc, lv, w)
      else
        (let lv = lv\<lparr>lvlip_socks := lvlip_socks lv @ [(lvlfd, 0)], lvlip_socks_count := lvlip_socks_count lv + 1\<rparr>
         in case transmit_lvlip xchg lvlfd IPC_SOCKET mypid
                   (enc_ipc_socket \<lparr>isk_domain = domain, isk_type = ty, isk_protocol = protocol\<rparr>) lv w of
              None \<Rightarrow> None
            | Some (fd, lv, w) \<Rightarrow>
                Some (fd, if fd = -1 then lv
                          else lv\<lparr>lvlip_socks := butlast (lvlip_socks lv) @ [(lvlfd, fd)]\<rparr>, w)))"

definition lv_close :: "'w xchg \<Rightarrow> int \<Rightarrow> int \<Rightarrow> int \<Rightarrow> lvlip \<Rightarrow> 'w \<Rightarrow> 'w lv_result" where
  "lv_close xchg libc mypid fd lv w =
     (case lvlip_get_sock fd lv of
        None \<Rightarrow> Some (libc, lv, w)
      | Some lvlfd \<Rightarrow> transmit_lvlip xchg lvlfd IPC_CLOSE (call_pid mypid lv) (lei fd) lv w)"

text \<open>The address is cut to 28 bytes. \<open>addr\<close> is the memory \<open>addr\<close> points to, with at least \<open>addrlen\<close> bytes.\<close>

definition lv_addrmsg :: "int \<Rightarrow> bytes \<Rightarrow> u32 \<Rightarrow> bytes" where
  "lv_addrmsg fd addr addrlen =
     (let n = (if unat addrlen < 28 then unat addrlen else 28)
      in enc_ipc_addrmsg \<lparr>ic_sockfd = fd, ic_data = take n addr @ replicate (28 - n) 0, ic_len = of_nat n\<rparr>)"

definition lv_connect :: "'w xchg \<Rightarrow> int \<Rightarrow> int \<Rightarrow> int \<Rightarrow> bytes \<Rightarrow> u32 \<Rightarrow> lvlip \<Rightarrow> 'w \<Rightarrow> 'w lv_result" where
  "lv_connect xchg libc mypid fd addr addrlen lv w =
     (case lvlip_get_sock fd lv of
        None \<Rightarrow> Some (libc, lv, w)
      | Some lvlfd \<Rightarrow> transmit_lvlip xchg lvlfd IPC_CONNECT mypid (lv_addrmsg fd addr addrlen) lv w)"

definition lv_bind :: "'w xchg \<Rightarrow> int \<Rightarrow> int \<Rightarrow> int \<Rightarrow> bytes \<Rightarrow> u32 \<Rightarrow> lvlip \<Rightarrow> 'w \<Rightarrow> 'w lv_result" where
  "lv_bind xchg libc mypid fd addr addrlen lv w =
     (case lvlip_get_sock fd lv of
        None \<Rightarrow> Some (libc, lv, w)
      | Some lvlfd \<Rightarrow> transmit_lvlip xchg lvlfd IPC_BIND mypid (lv_addrmsg fd addr addrlen) lv w)"

definition lv_listen :: "'w xchg \<Rightarrow> int \<Rightarrow> int \<Rightarrow> int \<Rightarrow> int \<Rightarrow> lvlip \<Rightarrow> 'w \<Rightarrow> 'w lv_result" where
  "lv_listen xchg libc mypid fd n lv w =
     (case lvlip_get_sock fd lv of
        None \<Rightarrow> Some (libc, lv, w)
      | Some lvlfd \<Rightarrow>
          transmit_lvlip xchg lvlfd IPC_LISTEN mypid (enc_ipc_listen \<lparr>il_sockfd = fd, il_n = n\<rparr>) lv w)"

text \<open>\<open>accept\<close>: also the address and its length; \<open>newfd\<close> is the Unix socket opened for the new descriptor.\<close>

definition lv_accept ::
  "'w xchg \<Rightarrow> int \<Rightarrow> int \<Rightarrow> int \<Rightarrow> int \<Rightarrow> bytes \<Rightarrow> u32 \<Rightarrow> lvlip \<Rightarrow> 'w
   \<Rightarrow> (int \<times> (bytes \<times> u32) option \<times> lvlip \<times> 'w) option" where
  "lv_accept xchg libc mypid newfd fd addr addrlen lv w =
     (case lvlip_get_sock fd lv of
        None \<Rightarrow> Some (libc, None, lv, w)
      | Some lvlfd \<Rightarrow>
          (let lv = lv\<lparr>main_pid := mypid\<rparr>
           in case xchg lvlfd (ipc_msg IPC_ACCEPT mypid (lv_addrmsg fd addr addrlen)) 50 w of
                None \<Rightarrow> None
              | Some (response, w) \<Rightarrow>
                  (let err = dec_ipc_err (drop 6 response);
                       acc = dec_ipc_addrmsg (drop 14 response)
                   in if \<not> answers IPC_ACCEPT mypid response then Some (-1, None, lv, w)
                      else if ie_rc err < 0 then Some (ie_rc err, None, lv\<lparr>lv_errno := ie_err err\<rparr>, w)
                      else
                        Some (ic_sockfd acc,
                              Some (take (if unat (ic_len acc) < 28 then unat (ic_len acc) else 28) (ic_data acc),
                                    ic_len acc),
                              lv\<lparr>lvlip_socks := lvlip_socks lv @ [(newfd, ic_sockfd acc)],
                                 lvlip_socks_count := lvlip_socks_count lv + 1\<rparr>, w))))"

text \<open>\<open>sendto\<close> copies at most 28 bytes of the address but sends the length it was given.\<close>

definition lv_sendto ::
  "'w xchg \<Rightarrow> int \<Rightarrow> int \<Rightarrow> int \<Rightarrow> bytes \<Rightarrow> int \<Rightarrow> bytes \<Rightarrow> u32 \<Rightarrow> lvlip \<Rightarrow> 'w \<Rightarrow> 'w lv_result" where
  "lv_sendto xchg libc mypid fd buf flags addr addrlen lv w =
     (case lvlip_get_sock fd lv of
        None \<Rightarrow> Some (libc, lv, w)
      | Some lvlfd \<Rightarrow>
          (let n = (if unat addrlen < 28 then unat addrlen else 28)
           in transmit_lvlip xchg lvlfd IPC_SENDTO mypid
                (enc_ipc_sendto \<lparr>iq_sockfd = fd, iq_len = of_nat (length buf), iq_flags = flags,
                   iq_data = take n addr @ replicate (28 - n) 0, iq_alen = addrlen\<rparr> @ buf) lv w))"

definition lv_send :: "'w xchg \<Rightarrow> int \<Rightarrow> int \<Rightarrow> int \<Rightarrow> bytes \<Rightarrow> int \<Rightarrow> lvlip \<Rightarrow> 'w \<Rightarrow> 'w lv_result" where
  "lv_send xchg libc mypid fd buf flags lv w = lv_sendto xchg libc mypid fd buf flags [] 0 lv w"

definition lv_write :: "'w xchg \<Rightarrow> int \<Rightarrow> int \<Rightarrow> int \<Rightarrow> bytes \<Rightarrow> lvlip \<Rightarrow> 'w \<Rightarrow> 'w lv_result" where
  "lv_write xchg libc mypid fd buf lv w =
     (case lvlip_get_sock fd lv of
        None \<Rightarrow> Some (libc, lv, w)
      | Some lvlfd \<Rightarrow>
          transmit_lvlip xchg lvlfd IPC_WRITE (call_pid mypid lv)
            (enc_ipc_rw \<lparr>iw_sockfd = fd, iw_len = of_nat (length buf)\<rparr> @ buf) lv w)"

text \<open>The reading calls: also the bytes stored in the user's buffer of \<open>len\<close> bytes, when one is stored.\<close>

definition lv_read ::
  "'w xchg \<Rightarrow> int \<Rightarrow> int \<Rightarrow> int \<Rightarrow> nat \<Rightarrow> lvlip \<Rightarrow> 'w \<Rightarrow> (int \<times> bytes option \<times> lvlip \<times> 'w) option" where
  "lv_read xchg libc mypid fd len lv w =
     (case lvlip_get_sock fd lv of
        None \<Rightarrow> Some (libc, None, lv, w)
      | Some lvlfd \<Rightarrow>
          (let pid = call_pid mypid lv
           in case xchg lvlfd (ipc_msg IPC_READ pid (enc_ipc_rw \<lparr>iw_sockfd = fd, iw_len = of_nat len\<rparr>))
                     (26 + len) w of
                None \<Rightarrow> None
              | Some (response, w) \<Rightarrow>
                  (let err = dec_ipc_err (drop 6 response);
                       got = dec_ipc_rw (drop 14 response);
                       n = unat (iw_len got)
                   in if \<not> answers IPC_READ pid response then Some (-1, None, lv, w)
                      else if ie_rc err < 0 then Some (ie_rc err, None, lv\<lparr>lv_errno := ie_err err\<rparr>, w)
                      else if len < n then Some (-1, None, lv, w)
                      else Some (int n, Some (take n (drop 26 response) @ replicate (len - n) 0), lv, w))))"

definition lv_recvfrom ::
  "'w xchg \<Rightarrow> int \<Rightarrow> int \<Rightarrow> int \<Rightarrow> nat \<Rightarrow> int \<Rightarrow> lvlip \<Rightarrow> 'w
   \<Rightarrow> (int \<times> (bytes \<times> bytes \<times> u32) option \<times> lvlip \<times> 'w) option" where
  "lv_recvfrom xchg libc mypid fd len flags lv w =
     (case lvlip_get_sock fd lv of
        None \<Rightarrow> Some (libc, None, lv, w)
      | Some lvlfd \<Rightarrow>
          (case xchg lvlfd (ipc_msg IPC_RECVFROM mypid (enc_ipc_recvfrom \<lparr>ir_sockfd = fd, ir_len = of_nat len,
                   ir_flags = flags, ir_dstaddr = replicate 16 0, ir_dstlen = 0\<rparr>)) (50 + len) w of
             None \<Rightarrow> None
           | Some (response, w) \<Rightarrow>
               (let err = dec_ipc_err (drop 6 response);
                    got = dec_ipc_recvfrom (drop 14 response);
                    n = unat (ir_len got)
                in if \<not> answers IPC_RECVFROM mypid response then Some (-1, None, lv, w)
                   else if ie_rc err < 0 then Some (ie_rc err, None, lv\<lparr>lv_errno := ie_err err\<rparr>, w)
                   else if len < n then Some (-1, None, lv, w)
                   else Some (int n, Some (take n (drop 50 response) @ replicate (len - n) 0, ir_dstaddr got,
                                           ir_dstlen got), lv, w))))"

definition lv_recv ::
  "'w xchg \<Rightarrow> int \<Rightarrow> int \<Rightarrow> int \<Rightarrow> nat \<Rightarrow> int \<Rightarrow> lvlip \<Rightarrow> 'w
   \<Rightarrow> (int \<times> (bytes \<times> bytes \<times> u32) option \<times> lvlip \<times> 'w) option" where
  "lv_recv xchg libc mypid fd len flags lv w = lv_recvfrom xchg libc mypid fd len flags lv w"

definition lv_setsockopt :: "int \<Rightarrow> int \<Rightarrow> lvlip \<Rightarrow> int" where
  "lv_setsockopt libc fd lv = (if lvlip_get_sock fd lv = None then libc else 0)"

text \<open>\<open>getsockopt\<close>: the value (with its sign changed) and its length.\<close>

definition lv_getsockopt ::
  "'w xchg \<Rightarrow> int \<Rightarrow> int \<Rightarrow> int \<Rightarrow> int \<Rightarrow> int \<Rightarrow> bytes \<Rightarrow> lvlip \<Rightarrow> 'w
   \<Rightarrow> (int \<times> (int \<times> u32) option \<times> lvlip \<times> 'w) option" where
  "lv_getsockopt xchg libc mypid fd level optname optval lv w =
     (case lvlip_get_sock fd lv of
        None \<Rightarrow> Some (libc, None, lv, w)
      | Some lvlfd \<Rightarrow>
          (case xchg lvlfd (ipc_msg IPC_GETSOCKOPT mypid (enc_ipc_sockopt \<lparr>iso_fd = fd, iso_level = level,
                   iso_optname = optname, iso_optlen = of_nat (length optval)\<rparr> @ optval)) (30 + length optval) w of
             None \<Rightarrow> None
           | Some (response, w) \<Rightarrow>
               (let err = dec_ipc_err (drop 6 response);
                    opt = dec_ipc_sockopt (drop 14 response)
                in if \<not> answers IPC_GETSOCKOPT mypid response then Some (-1, None, lv, w)
                   else if ie_rc err \<noteq> 0 then Some (ie_rc err, None, lv\<lparr>lv_errno := ie_err err\<rparr>, w)
                   else Some (0, Some (- geti response 30, iso_optlen opt), lv, w))))"

text \<open>\<open>getpeername\<close> and \<open>getsockname\<close>: the address bytes and the length.\<close>

definition lv_getname ::
  "u16 \<Rightarrow> junk \<Rightarrow> 'w xchg \<Rightarrow> int \<Rightarrow> int \<Rightarrow> int \<Rightarrow> lvlip \<Rightarrow> 'w
   \<Rightarrow> (int \<times> (bytes \<times> u32) option \<times> lvlip \<times> 'w) option" where
  "lv_getname ty junk xchg libc mypid fd lv w =
     (case lvlip_get_sock fd lv of
        None \<Rightarrow> Some (libc, None, lv, w)
      | Some lvlfd \<Rightarrow>
          (case xchg lvlfd (ipc_msg ty mypid (enc_ipc_sockname \<lparr>isn_socket = fd,
                   isn_alen = get32 (map junk [0..<4]) 0, isn_data = map junk [4..<132]\<rparr>)) 150 w of
             None \<Rightarrow> None
           | Some (response, w) \<Rightarrow>
               (let err = dec_ipc_err (drop 6 response);
                    name = dec_ipc_sockname (drop 14 response)
                in if \<not> answers ty mypid response then Some (-1, None, lv, w)
                   else if ie_rc err \<noteq> 0 then Some (ie_rc err, None, lv\<lparr>lv_errno := ie_err err\<rparr>, w)
                   else Some (0, Some (mem_bytes junk (unat (isn_alen name)) (isn_data name), isn_alen name),
                              lv, w))))"

definition lv_getpeername ::
  "junk \<Rightarrow> 'w xchg \<Rightarrow> int \<Rightarrow> int \<Rightarrow> int \<Rightarrow> lvlip \<Rightarrow> 'w
   \<Rightarrow> (int \<times> (bytes \<times> u32) option \<times> lvlip \<times> 'w) option" where
  "lv_getpeername = lv_getname IPC_GETPEERNAME"

definition lv_getsockname ::
  "junk \<Rightarrow> 'w xchg \<Rightarrow> int \<Rightarrow> int \<Rightarrow> int \<Rightarrow> lvlip \<Rightarrow> 'w
   \<Rightarrow> (int \<times> (bytes \<times> u32) option \<times> lvlip \<times> 'w) option" where
  "lv_getsockname = lv_getname IPC_GETSOCKNAME"

text \<open>\<open>fcntl\<close>: the message always has room for a \<open>struct flock\<close> and an \<open>int\<close> (36 bytes), uninitialised but for the flags.\<close>

definition lv_fcntl ::
  "junk \<Rightarrow> 'w xchg \<Rightarrow> int \<Rightarrow> int \<Rightarrow> int \<Rightarrow> int \<Rightarrow> int \<Rightarrow> lvlip \<Rightarrow> 'w \<Rightarrow> 'w lv_result" where
  "lv_fcntl junk xchg libc mypid fd cmd flags lv w =
     (case lvlip_get_sock fd lv of
        None \<Rightarrow> Some (libc, lv, w)
      | Some lvlfd \<Rightarrow>
          (let hdr = enc_ipc_fcntl \<lparr>ifc_sockfd = fd, ifc_cmd = cmd\<rparr>
           in if cmd = 3 then transmit_lvlip xchg lvlfd IPC_FCNTL mypid (hdr @ map junk [0..<36]) lv w
              else if cmd = 4 then
                transmit_lvlip xchg lvlfd IPC_FCNTL mypid (hdr @ lei flags @ map junk [4..<36]) lv w
              else Some (-1, lv\<lparr>lv_errno := EINVAL\<rparr>, w)))"

section \<open>The contract of the exchange\<close>

text \<open>What the client relies on: the answer to a request it knows has the type and process id of the request, so that no
  call takes the branch that refuses an answer.\<close>

locale stack_exchange =
  fixes xchg :: "'w xchg" and known :: "u16 \<Rightarrow> bool"
  assumes answer_matches: "known ty \<Longrightarrow> c_int pid \<Longrightarrow> 6 \<le> n \<Longrightarrow> xchg fd (ipc_msg ty pid p) n w = Some (r, w') \<Longrightarrow>
    answers ty pid r"
begin

lemma transmit_accepts:
  assumes "known ty" and "c_int pid" and "xchg fd (ipc_msg ty pid p) 512 w = Some (r, w')"
  shows "transmit_lvlip xchg fd ty pid p lv w = Some (ie_rc (dec_ipc_err (drop 6 r)),
    if ie_rc (dec_ipc_err (drop 6 r)) = -1 then lv\<lparr>lv_errno := ie_err (dec_ipc_err (drop 6 r))\<rparr> else lv, w')"
  using answer_matches [OF assms(1,2) _ assms(3)] assms(3) by (simp add: transmit_lvlip_def Let_def)

lemma lv_read_accepts:
  assumes "lvlip_get_sock fd lv = Some lvlfd" and "known IPC_READ" and "c_int (call_pid mypid lv)"
    and "xchg lvlfd (ipc_msg IPC_READ (call_pid mypid lv) (enc_ipc_rw \<lparr>iw_sockfd = fd, iw_len = of_nat len\<rparr>)) (26 + len) w =
      Some (r, w')"
  defines "err \<equiv> dec_ipc_err (drop 6 r)" and "n \<equiv> unat (iw_len (dec_ipc_rw (drop 14 r)))"
  shows "lv_read xchg libc mypid fd len lv w =
    (if ie_rc err < 0 then Some (ie_rc err, None, lv\<lparr>lv_errno := ie_err err\<rparr>, w')
     else if len < n then Some (-1, None, lv, w')
     else Some (int n, Some (take n (drop 26 r) @ replicate (len - n) 0), lv, w'))"
  using answer_matches [OF assms(2,3) _ assms(4)] assms(1,4) by (simp add: lv_read_def Let_def err_def n_def)

end

section \<open>Through the Unix socket to the stack\<close>

text \<open>The exchange with the stack's thread: the request arrives in one read, or in two when it is longer than
  the buffer, and the answer in one.\<close>

definition ipc_exchange :: "junk \<Rightarrow> (sched \<times> ipcstate) xchg" where
  "ipc_exchange junk lvlfd request n w =
     (let (env, s) = w;
          buf = put_bytes 0 (take IPC_BUFLEN request) (map junk [0..<IPC_BUFLEN])
      in case demux_ipc_socket_call junk buf [Some (drop IPC_BUFLEN request)] env s of
           None \<Rightarrow> None
         | Some (rc, out, again, env, s) \<Rightarrow> Some (mem_bytes junk n (concat out), env, s))"

section \<open>A client without sockets\<close>

definition ipc_boot :: ipcstate where
  "ipc_boot = \<lparr>ipc_tcp = stack_static (\<lambda>_. 0) (\<lambda>_. 1), ipc_sockets = [], ipc_socket_count = 0, ipc_closed = [],
     stack_oob = False\<rparr>"

definition lvlip_demo :: lvlip where
  "lvlip_demo = \<lparr>lvlip_socks = [(7, 4097)], lvlip_socks_count = 1, main_pid = 0, lv_errno = 0\<rparr>"

lemma lvlip_demo_sel:
  "lvlip_get_sock 4097 lvlip_demo = Some 7" "call_pid 100 lvlip_demo = 100" "get_socket pid fd (ipc_tcp ipc_boot) = None"
  "c_int 100" "c_int 4097"
  by (simp_all add: lvlip_get_sock_def lvlip_demo_def call_pid_def c_int_def get_socket_def ipc_boot_def
      stack_static_def)

lemma c_int_err: "c_int rc \<Longrightarrow> - (2 ^ 31) < rc \<Longrightarrow> ok_ipc_err (ipc_err_of rc)"
  by (auto simp: ok_ipc_err_def ipc_err_of_def c_int_def)

lemma length_enc_hdr [simp]: "length (enc_ipc_msg_hdr m) = 6"
  by (simp add: enc_ipc_msg_hdr_def)

lemma length_enc_err [simp]: "length (enc_ipc_err e) = 8"
  by (simp add: enc_ipc_err_def)

lemma length_enc_rw [simp]: "length (enc_ipc_rw e) = 12"
  by (simp add: enc_ipc_rw_def)

lemma answer_fields:
  assumes "c_int pid"
  shows "answers ty pid (ipc_msg ty pid p)" and "drop 6 (ipc_msg ty pid p) = p"
  using im.dec_enc [of "\<lparr>im_typ = ty, im_pid = pid\<rparr>" p] assms
  by (simp_all add: answers_def ipc_msg_def ok_ipc_msg_hdr_def)

lemma mem_bytes_short: "length bs \<le> n \<Longrightarrow> mem_bytes junk n bs = bs @ map junk [length bs..<n]"
  by (simp add: mem_bytes_def)

lemma ipc_msg_append: "ipc_msg ty pid p @ r = ipc_msg ty pid (p @ r)"
  by (simp add: ipc_msg_def)

text \<open>A request as the stack's thread sees it: its header, and its payload when it fits the buffer.\<close>

lemma exchange_request:
  fixes junk :: junk and ty :: u16 and payload :: bytes
  assumes "c_int pid"
  defines "buf \<equiv> put_bytes 0 (take IPC_BUFLEN (ipc_msg ty pid payload)) (map junk [0..<IPC_BUFLEN])"
  shows "dec_ipc_msg_hdr buf = \<lparr>im_typ = ty, im_pid = pid\<rparr>"
    and "length payload \<le> IPC_BUFLEN - 6 \<Longrightarrow> \<exists>rest. drop 6 buf = payload @ rest"
proof -
  obtain rest where b: "buf = ipc_msg ty pid (take (IPC_BUFLEN - 6) payload @ rest)"
    by (simp add: buf_def put_bytes_def ipc_msg_def)
  show "dec_ipc_msg_hdr buf = \<lparr>im_typ = ty, im_pid = pid\<rparr>"
    using im.dec_enc [of "\<lparr>im_typ = ty, im_pid = pid\<rparr>"] assms(1) by (simp add: b ipc_msg_def ok_ipc_msg_hdr_def)
  show "\<exists>rest. drop 6 buf = payload @ rest" if "length payload \<le> IPC_BUFLEN - 6"
    using that by (simp add: b answer_fields(2) [OF assms(1)])
qed

interpretation ipcx: stack_exchange "ipc_exchange junk" ipc_known for junk
proof
  fix ty pid n fd p r and w w' :: "sched \<times> ipcstate"
  assume k: "ipc_known ty" and pid: "c_int pid" and n: "6 \<le> n"
    and x: "ipc_exchange junk fd (ipc_msg ty pid p) n w = Some (r, w')"
  define buf where "buf = put_bytes 0 (take IPC_BUFLEN (ipc_msg ty pid p)) (map junk [0..<IPC_BUFLEN])"
  define tail where "tail = drop IPC_BUFLEN (ipc_msg ty pid p)"
  have h: "dec_ipc_msg_hdr buf = \<lparr>im_typ = ty, im_pid = pid\<rparr>" unfolding buf_def by (rule exchange_request(1) [OF pid])
  obtain env s where w: "w = (env, s)" by (cases w)
  obtain rc out again env' s' where d: "demux_ipc_socket_call junk buf [Some tail] env s = Some (rc, out, again, env', s')"
    "r = mem_bytes junk n (concat out)"
    using x unfolding ipc_exchange_def w Let_def prod.case buf_def [symmetric] tail_def [symmetric]
    by (auto split: option.splits)
  obtain e q where "out = [ipc_msg ty pid (enc_ipc_err e @ q)]"
    using demux_answered [of buf junk tail env s] k by (auto simp: h d(1))
  then have "r = ipc_msg ty pid (drop 6 r)"
    using n d(2) by (simp add: mem_bytes_def ipc_msg_def)
  then show "answers ty pid r" using answer_fields(1) [OF pid] by metis
qed



definition client_rc :: "int \<Rightarrow> lvlip \<Rightarrow> int \<times> lvlip" where
  "client_rc rc lv = (if rc < 0 then (-1, lv\<lparr>lv_errno := - rc\<rparr>) else (rc, lv))"

lemma transmit_rc:
  assumes "ipc_exchange junk lvlfd (ipc_msg ty pid payload) 512 w =
      Some (mem_bytes junk 512 (ipc_write_rc pid ty rc), w')"
    and "c_int pid" and "c_int rc" and "- (2 ^ 31) < rc" and "ipc_known ty"
  shows "transmit_lvlip (ipc_exchange junk) lvlfd ty pid payload lv w =
    Some (fst (client_rc rc lv), snd (client_rc rc lv), w')"
proof -
  have "drop 6 (mem_bytes junk 512 (ipc_write_rc pid ty rc)) = enc_ipc_err (ipc_err_of rc) @ map junk [14..<512]"
    by (simp add: mem_bytes_short ipc_write_rc_def ipc_msg_def)
  then have "dec_ipc_err (drop 6 (mem_bytes junk 512 (ipc_write_rc pid ty rc))) = ipc_err_of rc"
    by (simp add: ie.dec_enc [OF c_int_err [OF assms(3,4)]])
  with ipcx.transmit_accepts [OF assms(5,2,1)] show ?thesis
    by (simp add: client_rc_def ipc_err_of_def)
qed

text \<open>
  Property C19. \<open>connect\<close> in an application is \<open>_connect\<close> in the stack: the address bytes arrive, the
  stack's state changes as that call changes it, and a negative result comes back as -1 with
  \<open>errno\<close> set.
\<close>
theorem connect_through_ipc:
  assumes "lvlip_get_sock fd lv = Some lvlfd" and "c_int mypid" and "c_int fd"
    and "length addr = unat addrlen" and "addrlen \<le> 28"
    and "connect_call mypid fd (dec_sockaddr (addr @ replicate (28 - length addr) 0)) (length addr) env (ipc_tcp s)
       = Some (rc, env', tcp')"
    and "c_int rc" and "- (2 ^ 31) < rc"
  shows "lv_connect (ipc_exchange junk) libc mypid fd addr addrlen lv (env, s) =
    Some (fst (client_rc rc lv), snd (client_rc rc lv), env', s\<lparr>ipc_tcp := tcp'\<rparr>)"
proof -
  have n: "length addr \<le> 28" using assms(4,5) by (simp add: word_le_nat_alt)
  define rq where "rq = \<lparr>ic_sockfd = fd, ic_data = addr @ replicate (28 - length addr) 0, ic_len = addrlen\<rparr>"
  have ok: "ok_ipc_addrmsg rq" using n assms(3) by (simp add: rq_def ok_ipc_addrmsg_def)
  have msg: "lv_addrmsg fd addr addrlen = enc_ipc_addrmsg rq"
    using n assms(4) word_unat_eq_iff [of addrlen 28] by (auto simp: lv_addrmsg_def rq_def Let_def)
  let ?m = "ipc_msg IPC_CONNECT mypid (lv_addrmsg fd addr addrlen)"
  obtain rest where b: "drop 6 (put_bytes 0 (take IPC_BUFLEN ?m) (map junk [0..<IPC_BUFLEN])) = enc_ipc_addrmsg rq @ rest"
    "dec_ipc_msg_hdr (put_bytes 0 (take IPC_BUFLEN ?m) (map junk [0..<IPC_BUFLEN])) = \<lparr>im_typ = IPC_CONNECT, im_pid = mypid\<rparr>"
    using exchange_request [OF assms(2), where ty = IPC_CONNECT and payload = "enc_ipc_addrmsg rq" and junk = junk] ic.enc_length [OF ok]
    unfolding msg by auto
  have d: "dec_ipc_addrmsg (enc_ipc_addrmsg rq @ rest) = rq" using ok by (rule ic.dec_enc)
  have a: "ipc_temp_addr (ic_data rq) (ic_len rq) = addr @ replicate (28 - length addr) 0"
    using n assms(4) by (simp add: ipc_temp_addr_def rq_def)
  have o: "set_oob (28 < ic_len rq) s = s"
    using assms(5) by (simp add: set_oob_def rq_def leD)
  have "ipc_exchange junk lvlfd ?m 512 (env, s) =
     Some (mem_bytes junk 512 (ipc_write_rc mypid IPC_CONNECT rc), env', s\<lparr>ipc_tcp := tcp'\<rparr>)"
  proof -
    have sel: "ic_sockfd rq = fd" "unat (ic_len rq) = length addr" using assms(4) by (simp_all add: rq_def)
    have "ipc_connect mypid (enc_ipc_addrmsg rq @ rest) env s =
        Some (0, [ipc_write_rc mypid IPC_CONNECT rc], False, env', s\<lparr>ipc_tcp := tcp'\<rparr>)"
      unfolding ipc_connect_def Let_def d a o sel using assms(6) by (simp add: ipc_call_def add_unit_def)
    then show ?thesis by (simp add: ipc_exchange_def demux_ipc_socket_call_def b Let_def)
  qed
  from transmit_rc [OF this assms(2,7,8)] show ?thesis
    by (simp add: lv_connect_def assms(1) ipc_known_def)
qed

theorem connect_through_ipc_witness:
  "lv_connect (ipc_exchange (\<lambda>_. 0)) 0 100 4097 (replicate 16 1) 16 lvlip_demo ([], ipc_boot) =
    Some (-1, lvlip_demo\<lparr>lv_errno := 9\<rparr>, [], ipc_boot\<lparr>ipc_tcp := ipc_tcp ipc_boot\<rparr>)"
  using connect_through_ipc [OF lvlip_demo_sel(1,4,5), of "replicate 16 1" 16 "[]" ipc_boot "-9" "[]"
      "ipc_tcp ipc_boot" "\<lambda>_. 0" 0]
  by (simp add: connect_call_def lvlip_demo_sel c_int_def client_rc_def)

lemma unat_len64: "n < 2 ^ 31 \<Longrightarrow> unat (of_nat n :: u64) = n" "n < 2 ^ 31 \<Longrightarrow> unat (ucast (of_nat n :: u64) :: u32) = n"
  by (simp_all add: unat_of_nat unsigned_ucast_eq take_bit_nat_eq_self)

lemma write_ipc:
  assumes "lvlip_get_sock fd lv = Some lvlfd" and "c_int (call_pid mypid lv)" and "c_int fd"
    and "length buf < 2 ^ 31"
    and "write_call (call_pid mypid lv) fd buf env (ipc_tcp s) = Some (rc, (), env', tcp')"
    and "c_int rc" and "- (2 ^ 31) < rc"
  shows "lv_write (ipc_exchange junk) libc mypid fd buf lv (env, s) =
    Some (fst (client_rc rc lv), snd (client_rc rc lv), env', s\<lparr>ipc_tcp := tcp'\<rparr>)"
proof -
  let ?pid = "call_pid mypid lv"
  define rq where "rq = \<lparr>iw_sockfd = fd, iw_len = of_nat (length buf)\<rparr>"
  define m where "m = ipc_msg IPC_WRITE ?pid (enc_ipc_rw rq @ buf)"
  define cmd where "cmd = put_bytes 0 (take IPC_BUFLEN m) (map junk [0..<IPC_BUFLEN])"
  have ok: "ok_ipc_rw rq" using assms(3) by (simp add: rq_def ok_ipc_rw_def)
  have cmd: "cmd = enc_ipc_msg_hdr \<lparr>im_typ = IPC_WRITE, im_pid = ?pid\<rparr> @ enc_ipc_rw rq @
      take 8174 buf @ map junk [18 + length buf..<IPC_BUFLEN]"
    by (simp add: cmd_def put_bytes_def m_def ipc_msg_def drop_map) (simp add: min_def)
  have hdr: "dec_ipc_msg_hdr cmd = \<lparr>im_typ = IPC_WRITE, im_pid = ?pid\<rparr>"
    unfolding cmd by (rule im.dec_enc) (simp add: ok_ipc_msg_hdr_def assms(2))
  have rqd: "dec_ipc_rw (drop 6 cmd) = rq" by (simp add: cmd iw.dec_enc [OF ok])
  have data: "drop 12 (drop 6 cmd) = take 8174 buf @ map junk [18 + length buf..<IPC_BUFLEN]" by (simp add: cmd)
  have len: "unat (iw_len rq) = length buf" "unat (ucast (iw_len rq) :: u32) = length buf"
    using unat_len64 [OF assms(4)] by (simp_all add: rq_def)
  have tail: "drop IPC_BUFLEN m = drop 8174 buf" by (simp add: m_def ipc_msg_def)
  have "demux_ipc_socket_call junk cmd [Some (drop IPC_BUFLEN m)] env s =
      ipc_write junk ?pid (drop 6 cmd) [Some (drop 8174 buf)] env s"
    by (simp add: demux_ipc_socket_call_def hdr tail Let_def)
  also have "\<dots> = Some (0, [ipc_write_rc ?pid IPC_WRITE rc], length buf > 8174, env', s\<lparr>ipc_tcp := tcp'\<rparr>)"
    unfolding ipc_write_def Let_def rqd len data
    using assms(5) by (simp add: put_bytes_def rq_def min_def)
  finally have "ipc_exchange junk lvlfd m 512 (env, s) =
      Some (mem_bytes junk 512 (ipc_write_rc ?pid IPC_WRITE rc), env', s\<lparr>ipc_tcp := tcp'\<rparr>)"
    by (simp add: ipc_exchange_def flip: cmd_def)
  from transmit_rc [OF this [unfolded m_def] assms(2,6,7)] show ?thesis
    by (simp add: lv_write_def assms(1) rq_def ipc_known_def)
qed



text \<open>The stack's side of a read.\<close>

lemma exchange_read:
  fixes fd rc :: int and junk :: junk and bs :: bytes
  assumes "c_int pid" and "c_int fd" and "len < 2 ^ 31"
    and "read_call pid fd len env (ipc_tcp s) = Some (rc, bs, env', tcp')"
    and "rc < 0 \<or> rc = int (length bs) \<and> length bs \<le> len"
  defines "rq \<equiv> \<lparr>iw_sockfd = fd, iw_len = of_nat len :: u64\<rparr>"
    and "got \<equiv> \<lparr>iw_sockfd = fd, iw_len = word_of_int rc :: u64\<rparr>"
  shows "\<exists>rest. ipc_exchange junk lvlfd (ipc_msg IPC_READ pid (enc_ipc_rw rq)) (26 + len) (env, s) =
    Some (ipc_msg IPC_READ pid (enc_ipc_err (ipc_err_of rc) @ enc_ipc_rw got @ (if rc < 0 then [] else bs) @ rest),
      env', s\<lparr>ipc_tcp := tcp'\<rparr>)"
proof -
  let ?m = "ipc_msg IPC_READ pid (enc_ipc_rw rq)"
  define cmd where "cmd = put_bytes 0 (take IPC_BUFLEN ?m) (map junk [0..<IPC_BUFLEN])"
  obtain rest where cmd: "drop 6 cmd = enc_ipc_rw rq @ rest" "dec_ipc_msg_hdr cmd = \<lparr>im_typ = IPC_READ, im_pid = pid\<rparr>"
    using exchange_request [OF assms(1), where ty = IPC_READ and payload = "enc_ipc_rw rq" and junk = junk] unfolding cmd_def by auto
  have rqd: "dec_ipc_rw (drop 6 cmd) = rq" "unat (iw_len rq) = len" "unat (ucast (iw_len rq) :: u32) = len"
    using assms(2) unat_len64 [OF assms(3)] by (simp_all add: cmd(1) iw.dec_enc rq_def ok_ipc_rw_def)
  define ans where "ans = ipc_msg IPC_READ pid (enc_ipc_err (ipc_err_of rc) @ enc_ipc_rw got @ mem_bytes junk (nat rc) bs)"
  have oob: "set_oob (rc > int len) s1 = s1" for s1 using assms(5) by (auto simp: set_oob_def)
  have "demux_ipc_socket_call junk cmd [Some (drop IPC_BUFLEN ?m)] env s = ipc_read junk pid (drop 6 cmd) env s"
    by (simp add: demux_ipc_socket_call_def cmd(2) Let_def)
  also have "\<dots> = Some (0, [ans], False, env', s\<lparr>ipc_tcp := tcp'\<rparr>)"
    unfolding ipc_read_def Let_def rqd using assms(4) oob by (simp add: ans_def got_def rq_def)
  finally have "ipc_exchange junk lvlfd ?m (26 + len) (env, s) = Some (mem_bytes junk (26 + len) ans, env', s\<lparr>ipc_tcp := tcp'\<rparr>)"
    by (simp add: ipc_exchange_def flip: cmd_def)
  moreover have "mem_bytes junk (26 + len) ans = ipc_msg IPC_READ pid (enc_ipc_err (ipc_err_of rc) @ enc_ipc_rw got @
      (if rc < 0 then [] else bs) @ map junk [length ans..<26 + len])"
    using assms(5) by (auto simp: ans_def ipc_msg_def mem_bytes_def)
  ultimately show ?thesis by auto
qed

lemma read_ipc:
  assumes "lvlip_get_sock fd lv = Some lvlfd" and "c_int (call_pid mypid lv)" and "c_int fd" and "len < 2 ^ 31"
    and "read_call (call_pid mypid lv) fd len env (ipc_tcp s) = Some (rc, bs, env', tcp')"
    and "rc < 0 \<and> - (2 ^ 31) < rc \<or> rc = int (length bs) \<and> length bs \<le> len"
  shows "lv_read (ipc_exchange junk) libc mypid fd len lv (env, s) =
    Some (fst (client_rc rc lv), if rc < 0 then None else Some (bs @ replicate (len - length bs) 0),
      snd (client_rc rc lv), env', s\<lparr>ipc_tcp := tcp'\<rparr>)"
proof -
  define got where "got = \<lparr>iw_sockfd = fd, iw_len = word_of_int rc :: u64\<rparr>"
  have rci: "c_int rc" "- (2 ^ 31) < rc" and "rc < 0 \<or> rc = int (length bs) \<and> length bs \<le> len"
    using assms(4,6) by (auto simp: c_int_def)
  then obtain rest where x: "ipc_exchange junk lvlfd (ipc_msg IPC_READ (call_pid mypid lv)
      (enc_ipc_rw \<lparr>iw_sockfd = fd, iw_len = of_nat len\<rparr>)) (26 + len) (env, s) =
    Some (ipc_msg IPC_READ (call_pid mypid lv) (enc_ipc_err (ipc_err_of rc) @ enc_ipc_rw got @ (if rc < 0 then [] else bs) @ rest),
      env', s\<lparr>ipc_tcp := tcp'\<rparr>)"
    using exchange_read [OF assms(2-5)] unfolding got_def by blast
  have e: "dec_ipc_err (enc_ipc_err (ipc_err_of rc) @ r) = ipc_err_of rc" for r
    by (rule ie.dec_enc [OF c_int_err [OF rci]])
  have g: "dec_ipc_rw (enc_ipc_rw got @ r) = got" for r
    using assms(3) by (intro iw.dec_enc) (simp add: got_def ok_ipc_rw_def)
  have "rc \<ge> 0 \<Longrightarrow> unat (iw_len got) = length bs \<and> length bs \<le> len \<and> rc = int (length bs)"
    using assms(4,6) by (auto simp: got_def unat_len64)
  moreover have "drop 6 (ipc_msg ty pid r) = r" "drop 14 (ipc_msg ty pid (enc_ipc_err er @ r)) = r"
    "drop 26 (ipc_msg ty pid (enc_ipc_err er @ enc_ipc_rw rw @ r)) = r" for ty pid er rw r
    by (simp_all add: ipc_msg_def)
  ultimately show ?thesis
    using ipcx.lv_read_accepts [OF assms(1) _ assms(2) x, of libc] unfolding ipc_known_def
    by (cases "rc < 0") (simp_all only: e g, auto simp: client_rc_def ipc_err_of_def)
qed



end
