(* ===== verification/Client_Poll.thy ===== *)
theory Client_Poll
  imports Liblevelip
begin

text \<open>
  \<open>poll\<close> of \<open>tools/liblevelip.c\<close>, which divides an array of descriptors between the kernel and the stack. The kernel's
  \<open>poll\<close> is the parameter \<open>kpoll\<close>.
\<close>

section \<open>poll of the client library\<close>

text \<open>The descriptors of an array that belong to the stack, and the others, by position.\<close>

definition lvlip_fds :: "lvlip \<Rightarrow> ipc_pollfd list \<Rightarrow> nat list" where
  "lvlip_fds lv fds = filter (\<lambda>i. lvlip_get_sock (ip_fd (fds ! i)) lv \<noteq> None) [0..<length fds]"

definition kernel_fds :: "lvlip \<Rightarrow> ipc_pollfd list \<Rightarrow> nat list" where
  "kernel_fds lv fds = filter (\<lambda>i. lvlip_get_sock (ip_fd (fds ! i)) lv = None) [0..<length fds]"

text \<open>\<open>_poll(*kernel_fds, kernel_nfds, timeout)\<close>: the kernel polls as many elements as there are
  descriptors of its own, from the first of them on. \<open>kpoll\<close> gives its result and the returned events.\<close>

definition poll_kernel ::
  "(ipc_pollfd list \<Rightarrow> int \<Rightarrow> 'w \<Rightarrow> int \<times> u16 list \<times> 'w) \<Rightarrow> nat list \<Rightarrow> int \<Rightarrow> ipc_pollfd list \<Rightarrow> 'w
   \<Rightarrow> int \<times> ipc_pollfd list \<times> 'w" where
  "poll_kernel kpoll ks timeout fds w =
     (case ks of
        [] \<Rightarrow> (0, fds, w)
      | f # _ \<Rightarrow>
          (let polled = take (length ks) (drop f fds);
               (events, rvs, w) = kpoll polled timeout w
           in (events, take f fds @ map2 (\<lambda>p r. p\<lparr>ip_revents := r\<rparr>) polled rvs @ drop (f + length ks) fds, w)))"

text \<open>The message for the descriptors of the stack, and the events stored from the answer.\<close>

definition poll_request :: "nat list \<Rightarrow> int \<Rightarrow> ipc_pollfd list \<Rightarrow> bytes" where
  "poll_request ls timeout fds =
     enc_ipc_poll \<lparr>ipl_nfds = of_nat (length ls), ipl_timeout = timeout\<rparr> @
     concat (map (\<lambda>i. enc_ipc_pollfd (fds ! i)) ls)"

definition poll_store :: "nat list \<Rightarrow> ipc_pollfd list \<Rightarrow> ipc_pollfd list \<Rightarrow> ipc_pollfd list" where
  "poll_store ls returned fds =
     fold (\<lambda>(i, r) fds. fds[i := (fds ! i)\<lparr>ip_events := ip_events r, ip_revents := ip_revents r\<rparr>]) (zip ls returned) fds"

text \<open>The loop of \<open>poll\<close>, which ends when there are events unless it is to wait for both kinds of descriptors
  without a time limit; \<open>None\<close> when it never ends.\<close>

partial_function (option) lv_poll_loop ::
  "(ipc_pollfd list \<Rightarrow> int \<Rightarrow> 'w \<Rightarrow> int \<times> u16 list \<times> 'w) \<Rightarrow> 'w xchg \<Rightarrow> int \<Rightarrow> int \<Rightarrow> nat list \<Rightarrow> nat list \<Rightarrow> bool \<Rightarrow> int
   \<Rightarrow> ipc_pollfd list \<Rightarrow> lvlip \<Rightarrow> 'w \<Rightarrow> (int \<times> ipc_pollfd list \<times> lvlip \<times> 'w) option" where
  "lv_poll_loop kpoll xchg mypid lvlfd ks ls blocking timeout fds lv w =
     (let (events, fds, w) = poll_kernel kpoll ks timeout fds w
      in if events = -1 then Some (-1, fds, lv\<lparr>lv_errno := EAGAIN\<rparr>, w)
         else if ls = [] then Some (events, fds, lv, w)
         else
           (case xchg lvlfd (ipc_msg IPC_POLL mypid (poll_request ls timeout fds)) (14 + 8 * length ls) w of
              None \<Rightarrow> None
            | Some rw \<Rightarrow>
                (let response = fst rw; w = snd rw;
                     err = dec_ipc_err (drop 6 response);
                     fds' = poll_store ls (ipc_poll_fds (length ls) (drop 14 response)) fds
                 in if \<not> answers IPC_POLL mypid response then Some (-1, fds, lv\<lparr>lv_errno := EAGAIN\<rparr>, w)
                    else if ie_rc err < 0 then Some (ie_rc err, fds, lv\<lparr>lv_errno := ie_err err\<rparr>, w)
                    else if events + ie_rc err > 0 \<or> \<not> blocking then Some (events + ie_rc err, fds', lv, w)
                    else lv_poll_loop kpoll xchg mypid lvlfd ks ls blocking timeout fds' lv w)))"

definition lv_poll ::
  "(ipc_pollfd list \<Rightarrow> int \<Rightarrow> 'w \<Rightarrow> int \<times> u16 list \<times> 'w) \<Rightarrow> 'w xchg \<Rightarrow> int \<Rightarrow> ipc_pollfd list \<Rightarrow> int
   \<Rightarrow> lvlip \<Rightarrow> 'w \<Rightarrow> (int \<times> ipc_pollfd list \<times> lvlip \<times> 'w) option" where
  "lv_poll kpoll xchg mypid fds timeout lv w =
     (let ls = lvlip_fds lv fds;
          ks = kernel_fds lv fds;
          lvlfd = (if ls = [] then 0 else the (lvlip_get_sock (ip_fd (fds ! last ls)) lv));
          blocking = (ks \<noteq> [] \<and> ls \<noteq> [] \<and> timeout = -1)
      in lv_poll_loop kpoll xchg mypid lvlfd ks ls blocking (if blocking then 100 else timeout) fds lv w)"

definition lv_poll_chk ::
  "(ipc_pollfd list \<Rightarrow> int \<Rightarrow> 'w \<Rightarrow> int \<times> u16 list \<times> 'w) \<Rightarrow> 'w xchg \<Rightarrow> int \<Rightarrow> ipc_pollfd list \<Rightarrow> int \<Rightarrow> nat
   \<Rightarrow> lvlip \<Rightarrow> 'w \<Rightarrow> (int \<times> ipc_pollfd list \<times> lvlip \<times> 'w) option" where
  "lv_poll_chk kpoll xchg mypid fds timeout fdslen lv w = lv_poll kpoll xchg mypid fds timeout lv w"

definition lv_ppoll :: "ipc_pollfd list \<Rightarrow> lvlip \<Rightarrow> 'w \<Rightarrow> int \<times> ipc_pollfd list \<times> lvlip \<times> 'w" where
  "lv_ppoll fds lv w = (-1, fds, lv, w)"

definition lv_select :: "('w \<Rightarrow> 'r \<times> 'w) \<Rightarrow> lvlip \<Rightarrow> 'w \<Rightarrow> 'r \<times> lvlip \<times> 'w" where
  "lv_select libc lv w = (let (r, w) = libc w in (r, lv, w))"

text \<open>\<open>__libc_start_main\<close> after it has looked up the functions of libc.\<close>

definition libc_start_main :: "(lvlip \<Rightarrow> 'r) \<Rightarrow> lvlip \<Rightarrow> 'r" where
  "libc_start_main start_main lv = start_main (lv\<lparr>lvlip_socks := []\<rparr>)"

text \<open>Without descriptors of the stack \<open>poll\<close> is that of the kernel.\<close>

lemma lv_poll_kernel_only:
  assumes "lvlip_fds lv fds = []" and "fds \<noteq> []" and "kpoll fds timeout w = (events, rvs, w')" and "events \<noteq> -1"
    and "length rvs = length fds"
  shows "lv_poll kpoll xchg mypid fds timeout lv w =
    Some (events, map2 (\<lambda>p r. p\<lparr>ip_revents := r\<rparr>) fds rvs, lv, w')"
proof -
  have "kernel_fds lv fds = [0..<length fds]"
    using assms(1) by (simp add: lvlip_fds_def kernel_fds_def filter_empty_conv)
  moreover have "[0..<length fds] = 0 # [1..<length fds]" using assms(2) by (simp add: upt_conv_Cons)
  ultimately have k: "poll_kernel kpoll (kernel_fds lv fds) timeout fds w =
      (events, map2 (\<lambda>p r. p\<lparr>ip_revents := r\<rparr>) fds rvs, w')"
    using assms by (simp add: poll_kernel_def Let_def del: upt_Suc)
  show ?thesis
    unfolding lv_poll_def Let_def by (subst lv_poll_loop.simps) (simp add: k assms)
qed

text \<open>A descriptor of the stack between two of the kernel is handed to the kernel, and the last one is never polled.\<close>

lemma poll_kernel_mixed:
  assumes "kernel_fds lv [a, b, c] = [0, 2]"
  shows "poll_kernel kpoll (kernel_fds lv [a, b, c]) timeout [a, b, c] w =
    (case kpoll [a, b] timeout w of (events, rvs, w) \<Rightarrow>
       (events, map2 (\<lambda>p r. p\<lparr>ip_revents := r\<rparr>) [a, b] rvs @ [c], w))"
  by (simp add: assms poll_kernel_def Let_def case_prod_beta)

lemma poll_kernel_mixed_example:
  "kernel_fds lvlip_demo [\<lparr>ip_fd = 3, ip_events = 1, ip_revents = 0\<rparr>, \<lparr>ip_fd = 4097, ip_events = 1, ip_revents = 0\<rparr>,
     \<lparr>ip_fd = 4, ip_events = 1, ip_revents = 0\<rparr>] = [0, 2]"
  by (simp add: kernel_fds_def upt_rec lvlip_get_sock_def lvlip_demo_def)

end
