(* ===== verification/Udp_Delivery.thy ===== *)
theory Udp_Delivery
  imports Ip_Delivery Boot
begin

text \<open>
  UDP over two stacks: the mailbox of a datagram socket, what sending puts on the wire, what the arrival of a frame adds to
  the mailbox and what receiving takes from it.
\<close>

section \<open>UDP from stack to stack\<close>

text \<open>The datagrams that wait in a socket: port and address of the sender, text.\<close>

definition udp_datagram :: "sk_buff \<Rightarrow> u16 \<times> u32 \<times> bytes" where
  "udp_datagram skb = (uh_sport (skb_load dec_udphdr 34 skb), ih_saddr (skb_load dec_iphdr 14 skb),
     skb_payload_bytes (unat (skb_dlen skb)) skb)"

definition udp_mailbox :: "nat \<Rightarrow> tcpstate \<Rightarrow> (u16 \<times> u32 \<times> bytes) list" where
  "udp_mailbox k s = map udp_datagram (skb_list (sk_receive_queue (usks s k)))"

text \<open>The checksum does not depend on the checksum field, nor on what stands behind the datagram.\<close>

lemma udp_checksum_field:
  assumes "uh_length u = htons (of_nat (8 + length d))" and "length d \<le> 1558"
  shows "calcuate_udp_checksum sa da (enc_udphdr (u\<lparr>uh_csum := c\<rparr>) @ d @ z) = calcuate_udp_checksum sa da (enc_udphdr u @ d)"
proof -
  define w where "w = (of_nat (8 + length d) :: u16)"
  have u: "uh_length u = htons w" using assms(1) by (simp only: w_def)
  have n: "unat w = 8 + length d"
    unfolding w_def unat_of_nat using assms(2) by (simp add: take_bit_nat_eq_self)
  have g: "get16 (enc_udphdr v @ r) 4 = uh_length v" for v r
    by (simp add: enc_udphdr_def get16_def le16_def)
  have "put_bytes 18 (le16 0) (p @ take (8 + length d) (enc_udphdr (u\<lparr>uh_csum := c\<rparr>) @ d @ z)) =
      put_bytes 18 (le16 0) (p @ take (8 + length d) (enc_udphdr u @ d))" if "length p = 12" for p
  proof -
    have t: "take (8 + length d) (enc_udphdr v @ d @ r) = enc_udphdr v @ d" "take (8 + length d) (enc_udphdr v @ d) = enc_udphdr v @ d"
      for v r by simp_all
    show ?thesis unfolding t using that by (simp add: put_bytes_def enc_udphdr_def le16_def)
  qed
  from this [of "le32 sa @ le32 da @ [0, IP_UDP] @ le16 (htons w)"] show ?thesis
    unfolding calcuate_udp_checksum_def g Let_def by (simp add: u n)
qed

lemma enc_udphdr_csum: "put_bytes 6 (le16 c) (enc_udphdr u @ d) = enc_udphdr (u\<lparr>uh_csum := c\<rparr>) @ d"
  by (simp add: put_bytes_def enc_udphdr_def le16_def)

text \<open>A datagram is appended to the mailbox of the socket its port leads to.\<close>

definition udp_ok :: "sk_buff \<Rightarrow> bool" where
  "udp_ok skb \<longleftrightarrow> length (snd (snd (udp_datagram skb))) = unat (skb_dlen skb) \<and> unat (skb_dlen skb) < 2 ^ 31"

definition udp_rx_skb :: "bytes \<Rightarrow> iphdr \<Rightarrow> udphdr \<Rightarrow> bytes \<Rightarrow> sk_buff" where
  "udp_rx_skb eth h u d = (rx_skb eth h (enc_udphdr u @ d))\<lparr>
     skb_mem := ((eth @ le16 ETH_P_IP) @ enc_iphdr (ip_ntoh_hdr h)) @ enc_udphdr (u\<lparr>uh_dport := ntohs (uh_dport u),
       uh_sport := ntohs (uh_sport u), uh_length := ntohs (uh_length u)\<rparr>) @ d @ replicate (1558 - length d) 0,
     skb_dlen := ucast (ntohs (uh_length u)) - 8, skb_payload := Some 42\<rparr>"

lemma udp_init_head_rx:
  assumes "length eth = 12"
  shows "udp_init_head (rx_skb eth h (enc_udphdr u @ d)) =
    (u\<lparr>uh_dport := ntohs (uh_dport u), uh_sport := ntohs (uh_sport u), uh_length := ntohs (uh_length u)\<rparr>, udp_rx_skb eth h u d)"
proof -
  define b where "b = rx_skb eth h (enc_udphdr u @ d)"
  define u' where "u' = u\<lparr>uh_dport := ntohs (uh_dport u), uh_sport := ntohs (uh_sport u), uh_length := ntohs (uh_length u)\<rparr>"
  have m: "skb_mem b = ((eth @ le16 ETH_P_IP) @ enc_iphdr (ip_ntoh_hdr h)) @ enc_udphdr u @ d @ replicate (1558 - length d) 0"
    by (simp add: b_def)
  have l: "skb_load dec_udphdr 34 b = u"
    using skb_load_mid [OF m, of 34 dec_udphdr] udph.dec_enc [of u] assms by simp
  have st: "skb_put (int 34) (enc_udphdr u') b =
      b\<lparr>skb_mem := ((eth @ le16 ETH_P_IP) @ enc_iphdr (ip_ntoh_hdr h)) @ enc_udphdr u' @ d @ replicate (1558 - length d) 0\<rparr>"
    by (rule skb_put_mid [OF m]) (simp_all add: assms)
  show ?thesis
    unfolding udp_init_head_def b_def [symmetric] l Let_def u'_def [symmetric] skb_store_def
    unfolding st [unfolded of_nat_numeral] udp_rx_skb_def b_def [symmetric] u'_def [symmetric]
    by (simp add: u'_def)
qed

lemma udp_rx_datagram:
  assumes "length eth = 12" and "uh_length u = htons (of_nat (8 + length d))" and "length d \<le> 1558"
  shows "udp_datagram (udp_rx_skb eth h u d) = (ntohs (uh_sport u), ntohl (ih_saddr h), d)"
    and "unat (skb_dlen (udp_rx_skb eth h u d)) = length d" and "udp_ok (udp_rx_skb eth h u d)"
proof -
  let ?u = "u\<lparr>uh_dport := ntohs (uh_dport u), uh_sport := ntohs (uh_sport u), uh_length := ntohs (uh_length u)\<rparr>"
  define b where "b = udp_rx_skb eth h u d"
  have m: "skb_mem b = (eth @ le16 ETH_P_IP) @ enc_iphdr (ip_ntoh_hdr h) @ enc_udphdr ?u @ d @ replicate (1558 - length d) 0"
    "skb_mem b = ((eth @ le16 ETH_P_IP) @ enc_iphdr (ip_ntoh_hdr h)) @ enc_udphdr ?u @ d @ replicate (1558 - length d) 0"
    "skb_payload b = Some 42" "skb_dlen b = ucast (ntohs (uh_length u)) - 8"
    by (simp_all add: b_def udp_rx_skb_def)
  have "unat (of_nat (8 + length d) :: u16) = 8 + length d"
    unfolding unat_of_nat using assms(3) by (simp add: take_bit_nat_eq_self)
  then have "unat (ucast (ntohs (uh_length u)) :: u32) = 8 + length d"
    by (simp add: assms(2) unsigned_ucast_eq take_bit_nat_eq_self)
  then show n: "unat (skb_dlen (udp_rx_skb eth h u d)) = length d"
    unfolding b_def [symmetric] m(4) by (simp add: unat_sub word_le_nat_alt)
  have "skb_load dec_udphdr 34 b = ?u" "skb_load dec_iphdr 14 b = ip_ntoh_hdr h"
    using skb_load_mid [OF m(2), of 34 dec_udphdr] skb_load_mid [OF m(1), of 14 dec_iphdr]
      udph.dec_enc [of ?u] iph.dec_enc [of "ip_ntoh_hdr h"] assms(1) by simp_all
  then show g: "udp_datagram (udp_rx_skb eth h u d) = (ntohs (uh_sport u), ntohl (ih_saddr h), d)"
    using n assms(1) unfolding udp_datagram_def b_def [symmetric]
    by (simp add: ip_ntoh_hdr_def skb_payload_bytes_def m(2,3) get_bytes_def)
  show "udp_ok (udp_rx_skb eth h u d)" using n g assms(3) by (simp add: udp_ok_def)
qed

lemma usks_frame [simp]:
  "usks (socket_wr_acquire k s) = usks s" "usks (socket_release k s) = usks s"
  by (simp_all add: socket_wr_acquire_def socket_release_def upd_sock_def Let_def)

lemma udp_data_queue_tail:
  "sk_receive_queue (usks (snd (udp_data_queue k skb s)) k) =
    skb_queue_tail (sk_receive_queue (usks s k)) (skb\<lparr>skb_refcnt := skb_refcnt skb + 1\<rparr>)"
  by (simp add: udp_data_queue_def udp_recv_notify_def wait_wakeup_def upd_usk_def Let_def)

lemma udp_in_appends:
  assumes "length eth = 12" and "uh_length u = htons (of_nat (8 + length d))" and "length d \<le> 1558"
    and "uh_csum u = calcuate_udp_checksum (ih_saddr h) (ih_daddr h) (enc_udphdr u @ d)"
    and "inet_udp_lookup (ntohs (uh_sport u)) (ntohs (uh_dport u)) s = Some k"
  shows "\<exists>skb s'. udp_in (rx_skb eth h (enc_udphdr u @ d)) s = (skb, s') \<and> skb_list (sk_receive_queue (usks s' k)) =
    skb_list (sk_receive_queue (usks s k)) @ [(udp_rx_skb eth h u d)\<lparr>skb_refcnt := 1\<rparr>] \<and>
    sk_receive_queue (usks s' k) = skb_queue_tail (sk_receive_queue (usks s k)) ((udp_rx_skb eth h u d)\<lparr>skb_refcnt := 1\<rparr>)"
proof -
  define b where "b = rx_skb eth h (enc_udphdr u @ d)"
  have m: "skb_mem b = (eth @ le16 ETH_P_IP) @ enc_iphdr (ip_ntoh_hdr h) @ enc_udphdr u @ d @ replicate (1558 - length d) 0"
    "skb_mem b = ((eth @ le16 ETH_P_IP) @ enc_iphdr (ip_ntoh_hdr h)) @ enc_udphdr u @ d @ replicate (1558 - length d) 0"
    by (simp_all add: b_def)
  have ih: "skb_load dec_iphdr 14 b = ip_ntoh_hdr h"
    using skb_load_mid [OF m(1), of 14 dec_iphdr] iph.dec_enc [of "ip_ntoh_hdr h"] assms(1) by simp
  have uh: "skb_load dec_udphdr 34 b = u"
    using skb_load_mid [OF m(2), of 34 dec_udphdr] udph.dec_enc [of u] assms(1) by simp
  have "drop 34 (skb_mem b) = enc_udphdr (u\<lparr>uh_csum := uh_csum u\<rparr>) @ d @ replicate (1558 - length d) 0"
    unfolding m(2) using assms(1) by simp
  then have ck: "udp_checksum_right (ip_ntoh_hdr h) b"
    using udp_checksum_field [OF assms(2,3)] assms(4) by (simp add: udp_checksum_right_def uh ip_ntoh_hdr_def)
  define b' where "b' = udp_rx_skb eth h u d"
  have r: "skb_refcnt b' = 0" by (simp add: b'_def udp_rx_skb_def)
  have "udp_in b s = (fst (udp_data_queue k b' (socket_wr_acquire k s)),
      socket_release k (snd (udp_data_queue k b' (socket_wr_acquire k s))))"
    unfolding udp_in_def ih Let_def using ck assms(5)
    by (simp add: b_def udp_init_head_rx [OF assms(1)] case_prod_beta flip: b'_def)
  then show ?thesis
    unfolding b_def b'_def [symmetric] by (simp add: udp_data_queue_tail r)
qed

text \<open>Receiving takes the first datagram of the mailbox.\<close>

lemma udp_recv_first:
  assumes "wf_queue (sk_receive_queue (usks s k))" and "skb_list (sk_receive_queue (usks s k)) = skb # rest" and "udp_ok skb"
    and "udp_datagram skb = (port, addr, d)" and "d \<noteq> []" and "len < 2 ^ 32"
  shows "\<exists>s'. udp_recvfrom k len env s = Some (int (length d), take len d, Some (build_sockaddr_from_host_order port addr), env, s') \<and>
    skb_list (sk_receive_queue (usks s' k)) = rest"
proof -
  let ?q = "sk_receive_queue (usks s k)"
  obtain q' where q': "skb_dequeue ?q = Some (skb, q')" "skb_list q' = rest"
    using skb_dequeue_Cons assms(1,2) by metis
  have p: "skb_peek ?q = Some skb" using assms(1,2) by (simp add: skb_peek_wf)
  have n: "length d = unat (skb_dlen skb)" "unat (skb_dlen skb) < 2 ^ 31" using assms(3,4) by (simp_all add: udp_ok_def)
  have g: "uh_sport (skb_load dec_udphdr 34 skb) = port" "ih_saddr (skb_load dec_iphdr 14 skb) = addr"
    "skb_payload_bytes (length d) skb = d" using assms(4) n by (simp_all add: udp_datagram_def)
  have t: "skb_payload_bytes (if skb_dlen skb > of_nat len then len else unat (skb_dlen skb)) skb = take len d"
  proof -
    have "unat (of_nat len :: u32) = len" using assms(6) by (simp add: unat_of_nat take_bit_nat_eq_self)
    moreover have "skb_payload_bytes len skb = take len d" if "len \<le> length d"
    proof -
      have "take len (skb_payload_bytes (length d) skb) = skb_payload_bytes len skb"
        using that by (auto simp: skb_payload_bytes_def get_bytes_def min_def split: option.splits)
      then show ?thesis unfolding g(3) by simp
    qed
    ultimately show ?thesis using g(3) n by (simp add: word_less_nat_alt)
  qed
  have s: "sint (skb_dlen skb) = int (length d)"
  proof -
    have u: "uint (skb_dlen skb) = int (length d)" and lt: "length d < 2 ^ 31" using n by simp_all
    have "sint (skb_dlen skb) = uint (skb_dlen skb)"
      unfolding sint_uint u using lt by (intro signed_take_bit_int_eq_self) simp_all
    then show ?thesis by (simp only: u)
  qed
  let ?s1 = "upd_usk k (\<lambda>u. u\<lparr>sk_receive_queue := (case skb_dequeue (sk_receive_queue u) of
      None \<Rightarrow> sk_receive_queue u | Some (_, q) \<Rightarrow> q)\<rparr>) s"
  obtain s' where s': "udp_data_dequeue k len s = (skb_dlen skb, take len d, Some (build_sockaddr_from_host_order port addr), s')"
    "sk_receive_queue (usks s' k) = sk_receive_queue (usks ?s1 k)"
    unfolding udp_data_dequeue_def p option.case g t Let_def by (simp add: upd_usk_def)
  have "sk_receive_queue (usks ?s1 k) = q'" by (simp add: upd_usk_def q'(1))
  with s' q'(2) have "skb_list (sk_receive_queue (usks s' k)) = rest" by simp
  with s' s assms(5) show ?thesis unfolding udp_recvfrom_def by (subst udp_receive.simps) simp
qed


text \<open>What a datagram socket sends.\<close>

lemma udp_out_send_ip:
  fixes buf :: bytes and s :: tcpstate and k :: nat
  defines "n \<equiv> length buf"
  defines "u0 \<equiv> \<lparr>uh_sport = htons (sk_sport (usks s k)), uh_dport = htons (sk_dport (usks s k)),
    uh_length = htons (ucast (of_nat n + 8 :: u32)), uh_csum = 0\<rparr>"
  shows "snd (udp_out_send k buf s) = snd (snd (ip_output (un_v4 (sk_daddr (usks s k)))
    ((alloc_skb (42 + n))\<lparr>skb_data := 34, skb_protocol := ucast IP_UDP, skb_dlen := of_nat n, skb_len := of_nat n + 8,
      skb_mem := replicate 34 0 @ enc_udphdr u0 @ buf\<rparr>) s))"
proof -
  define b1 where "b1 = (alloc_skb (42 + n))\<lparr>skb_mem := replicate 34 0 @ replicate 8 0 @ buf, skb_data := 34,
    skb_protocol := ucast IP_UDP, skb_dlen := of_nat n, skb_len := of_nat n + 8\<rparr>"
  have r: "replicate 34 0 @ replicate 8 0 @ buf = replicate 42 0 @ buf"
    using replicate_add [of 34 8 "0 :: u8"] by simp
  have "skb_put (int 42) buf ((alloc_skb (42 + n))\<lparr>skb_data := 42, skb_protocol := ucast IP_UDP, skb_dlen := of_nat n,
      skb_seq := 0, skb_len := of_nat n\<rparr>) = (alloc_skb (42 + n))\<lparr>skb_data := 42, skb_protocol := ucast IP_UDP, skb_dlen := of_nat n,
      skb_seq := 0, skb_len := of_nat n, skb_mem := replicate 42 0 @ buf @ []\<rparr>"
    by (rule skb_put_mid [where old = "replicate n 0"]) (simp_all add: alloc_skb_def n_def flip: replicate_add)
  then have "udp_out_send k buf s = (int n, snd (snd (udp_transmit_skb k (b1\<lparr>skb_data := 42, skb_len := of_nat n\<rparr>) s)))"
    unfolding udp_out_send_def udp_alloc_skb_def Let_def case_prod_beta skb_reserve_def skb_push_def n_def [symmetric] b1_def
    by (simp add: alloc_skb_def r)
  also have "udp_transmit_skb k (b1\<lparr>skb_data := 42, skb_len := of_nat n\<rparr>) s =
      ip_output (un_v4 (sk_daddr (usks s k))) (b1\<lparr>skb_mem := replicate 34 0 @ enc_udphdr u0 @ buf\<rparr>) s"
  proof -
    define b where "b = b1\<lparr>skb_data := 42, skb_len := of_nat n\<rparr>"
    have m: "skb_mem b1 = replicate 34 0 @ replicate 8 0 @ buf" by (simp add: b1_def)
    have "skb_load dec_udphdr (int 34) b = dec_udphdr (replicate 8 0 @ buf)"
      by (rule skb_load_mid [where pre = "replicate 34 0"]) (simp_all add: b_def m)
    also have "\<dots> = \<lparr>uh_sport = 0, uh_dport = 0, uh_length = 0, uh_csum = 0\<rparr>"
      by (simp add: dec_udphdr_def get16_def nth_append w16_def)
    finally have l: "skb_load dec_udphdr 34 b = \<lparr>uh_sport = 0, uh_dport = 0, uh_length = 0, uh_csum = 0\<rparr>" by simp
    have p: "skb_push b 8 = b1" by (simp add: b_def skb_push_def b1_def)
    have "skb_put (int 34) (enc_udphdr u0) b1 = b1\<lparr>skb_mem := replicate 34 0 @ enc_udphdr u0 @ buf\<rparr>"
      by (rule skb_put_mid [OF m]) simp_all
    moreover have "skb_dlen b1 = of_nat n" by (simp add: b1_def)
    ultimately show ?thesis
      unfolding udp_transmit_skb_def b_def [symmetric] Let_def l p skb_store_def u0_def by simp
  qed
  finally show ?thesis by (simp add: b1_def)
qed

lemma udp_out_wire:
  assumes "daddr = un_v4 (sk_daddr (usks s k))" and "route_lookup daddr s = Some i" and "rt = routes s ! i"
    and "dev = devs s (rt_dev rt)" and "wf_netdev dev" and "arp_get_hwaddr (next_hop rt daddr) (arp_cache s) = Some dmac"
    and "length dmac = 6" and "length buf \<le> 1558"
  shows "\<exists>h u. tun_tx (snd (udp_out_send k buf s)) = tun_tx s @
      [dmac @ dev_hwaddr dev @ [0x08, 0x00] @ enc_iphdr h @ enc_udphdr u @ buf] \<and>
    checksum (enc_iphdr h) 0 = 0 \<and> ih_version h = 4 \<and> ih_ihl h = 5 \<and> ih_ttl h = 64 \<and> ih_proto h = IP_UDP \<and>
    ntohl (ih_saddr h) = dev_addr dev \<and> ntohl (ih_daddr h) = daddr \<and>
    uh_sport u = htons (sk_sport (usks s k)) \<and> uh_dport u = htons (sk_dport (usks s k)) \<and>
    uh_length u = htons (of_nat (8 + length buf)) \<and>
    uh_csum u = calcuate_udp_checksum (ih_saddr h) (ih_daddr h) (enc_udphdr u @ buf)"
proof -
  define n where "n = length buf"
  define u0 where "u0 = \<lparr>uh_sport = htons (sk_sport (usks s k)), uh_dport = htons (sk_dport (usks s k)),
    uh_length = htons (ucast (of_nat n + 8 :: u32)), uh_csum = 0\<rparr>"
  define b2 where "b2 = (alloc_skb (42 + n))\<lparr>skb_data := 34, skb_protocol := ucast IP_UDP, skb_dlen := of_nat n,
    skb_len := of_nat n + 8, skb_mem := replicate 34 0 @ enc_udphdr u0 @ buf\<rparr>"
  have out: "snd (udp_out_send k buf s) = snd (snd (ip_output daddr b2 s))"
    unfolding b2_def assms(1) u0_def n_def by (rule udp_out_send_ip)
  have l: "unat (of_nat n + 8 :: u32) = 8 + n"
    using assms(8) by (simp add: n_def unat_word_ariths unat_of_nat take_bit_nat_eq_self)
  have b2: "skb_mem b2 = replicate 14 0 @ replicate 20 0 @ enc_udphdr u0 @ buf" "skb_data b2 = 34" "skb_protocol b2 = ucast IP_UDP"
    "unat (skb_len b2) = 8 + n" "skb_tcpcsum b2 = 0"
    using replicate_add [of 14 20 "0 :: u8"] l by (simp_all add: b2_def alloc_skb_def)
  obtain h where h: "tun_tx (snd (snd (ip_output daddr b2 s))) = tun_tx s @
      [dmac @ dev_hwaddr dev @ [0x08, 0x00] @ enc_iphdr h @ take (unat (skb_len b2)) (ip_payload h (skb_tcpcsum b2) (enc_udphdr u0 @ buf))]"
    "checksum (enc_iphdr h) 0 = 0" "ih_version h = 4" "ih_ihl h = 5" "ih_ttl h = 64" "ih_proto h = IP_UDP"
    "ntohl (ih_saddr h) = dev_addr dev" "ntohl (ih_daddr h) = daddr"
    using ip_output_wire [OF assms(2-7) b2(1) _ _ _ _ _ _ b2(2)] b2 assms(8) by (auto simp: csum_room_def n_def)
  let ?u = "u0\<lparr>uh_csum := calcuate_udp_checksum (ih_saddr h) (ih_daddr h) (enc_udphdr u0 @ buf)\<rparr>"
  have w: "(ucast (of_nat n + 8 :: u32) :: u16) = of_nat (8 + n)"
    unfolding word_unat_eq_iff unsigned_ucast_eq unat_of_nat l by (simp add: take_bit_eq_mod)
  have "take (unat (skb_len b2)) (ip_payload h (skb_tcpcsum b2) (enc_udphdr u0 @ buf)) = enc_udphdr ?u @ buf"
    unfolding b2(4) ip_payload_def h(6) enc_udphdr_csum by (simp add: n_def)
  moreover have "uh_length u0 = htons (of_nat (8 + length buf))" using w by (simp add: u0_def n_def)
  moreover from this have "uh_csum ?u = calcuate_udp_checksum (ih_saddr h) (ih_daddr h) (enc_udphdr ?u @ buf)"
    using udp_checksum_field [of u0 buf "ih_saddr h" "ih_daddr h" _ "[]"] assms(8) by simp
  ultimately show ?thesis
    using h out by (intro exI [of _ h] exI [of _ ?u]) (simp add: u0_def)
qed

text \<open>
  Property C6. A datagram goes from stack to stack: what \<open>sendto\<close> in one stack writes to the wire, received as a frame by
  another, is appended to the mailbox of the socket bound to the destination port, with the sender's port and address
  and exactly the bytes sent; \<open>recvfrom\<close> on that socket, when nothing waits before it, returns them. The datagram has at most
  662 bytes, since longer ones overrun the buffer of the dump (\<open>udp_checksum_oob\<close>).
\<close>
theorem udp_end_to_end:
  assumes "route_lookup daddr a = Some i" and "dev = devs a (rt_dev (routes a ! i))" and "wf_netdev dev"
    and "arp_get_hwaddr (next_hop (routes a ! i) daddr) (arp_cache a) = Some dmac" and "length dmac = 6"
    and "sk_err (usks a ka) = 0" and "buf \<noteq> []" and "length buf \<le> 662"
    and "inet_udp_lookup (sk_sport (usks a ka)) dport b = Some kb"
    and "sk_receive_queue (usks b kb) = skb_queue_init" and "len < 2 ^ 32"
    and "to = \<lparr>sa_family = 2, sin_port = htons dport, sin_addr = htonl daddr, sin6_addr = in6_zero\<rparr>"
  shows "\<exists>frame skb b' b''. tun_tx (snd (udp_sendto ka buf to a)) = tun_tx a @ [frame] \<and>
    netdev_rx_frame frame env b = Some (skb, env, b') \<and>
    udp_mailbox kb b' = [(sk_sport (usks a ka), dev_addr dev, buf)] \<and>
    udp_recvfrom kb len env b' = Some (int (length buf), take len buf,
      Some (build_sockaddr_from_host_order (sk_sport (usks a ka)) (dev_addr dev)), env, b'') \<and>
    udp_mailbox kb b'' = []"
proof -
  have len: "length buf \<le> 1558" using assms(8) by simp
  define a' where "a' = upd_usk ka (\<lambda>u. u\<lparr>sk_dport := ntohs (sin_port to), sk_daddr := set_v4 (ntohl (sin_addr to)) (sk_daddr u)\<rparr>) a"
  have a': "daddr = un_v4 (sk_daddr (usks a' ka))" "route_lookup daddr a' = Some i" "routes a' = routes a" "devs a' = devs a"
    "arp_cache a' = arp_cache a" "tun_tx a' = tun_tx a" "sk_sport (usks a' ka) = sk_sport (usks a ka)" "sk_dport (usks a' ka) = dport"
    using assms(1,12) by (simp_all add: a'_def upd_usk_def route_lookup_def)
  have snd: "snd (udp_sendto ka buf to a) = snd (udp_out_send ka buf a')"
    using assms(6) by (simp add: udp_sendto_def a'_def)
  obtain h u where tx: "tun_tx (snd (udp_out_send ka buf a')) = tun_tx a' @
      [dmac @ dev_hwaddr dev @ [0x08, 0x00] @ enc_iphdr h @ enc_udphdr u @ buf]"
    and h: "checksum (enc_iphdr h) 0 = 0" "ih_version h = 4" "ih_ihl h = 5" "ih_ttl h = 64" "ih_proto h = IP_UDP"
      "ntohl (ih_saddr h) = dev_addr dev"
    and u: "uh_sport u = htons (sk_sport (usks a ka))" "uh_dport u = htons dport" "uh_length u = htons (of_nat (8 + length buf))"
      "uh_csum u = calcuate_udp_checksum (ih_saddr h) (ih_daddr h) (enc_udphdr u @ buf)"
    using udp_out_wire [OF a'(1,2) refl refl, of dmac buf] assms(2-5) len unfolding a' by metis
  let ?eth = "dmac @ dev_hwaddr dev"
  have eth: "length ?eth = 12" using assms(3,5) by (simp add: wf_netdev_def)
  obtain skb b' where b': "udp_in (rx_skb ?eth h (enc_udphdr u @ buf)) b = (skb, b')"
    "sk_receive_queue (usks b' kb) = skb_queue_tail skb_queue_init ((udp_rx_skb ?eth h u buf)\<lparr>skb_refcnt := 1\<rparr>)"
    using udp_in_appends [OF eth u(3) len u(4), of b kb] assms(9,10) unfolding u by auto
  have rx: "netdev_rx_frame (?eth @ [0x08, 0x00] @ enc_iphdr h @ enc_udphdr u @ buf) env b = Some (skb, env, b')"
    using rx_ipv4 [OF eth, of "enc_udphdr u @ buf" h env b] len h b'(1) by simp
  define d where "d = (udp_rx_skb ?eth h u buf)\<lparr>skb_refcnt := 1\<rparr>"
  have "udp_datagram d = udp_datagram (udp_rx_skb ?eth h u buf)" "skb_dlen d = skb_dlen (udp_rx_skb ?eth h u buf)"
    by (simp_all add: d_def udp_datagram_def skb_load_def skb_payload_bytes_def split: option.split)
  then have d: "udp_datagram d = (sk_sport (usks a ka), dev_addr dev, buf)" "udp_ok d"
    using udp_rx_datagram [OF eth u(3) len, of h] u(1) h(6) by (simp_all add: udp_ok_def)
  have q: "wf_queue (sk_receive_queue (usks b' kb))" "skb_list (sk_receive_queue (usks b' kb)) = [d]"
    unfolding b'(2) by (simp_all add: d_def wf_queue_tail)
  obtain b'' where "udp_recvfrom kb len env b' = Some (int (length buf), take len buf,
      Some (build_sockaddr_from_host_order (sk_sport (usks a ka)) (dev_addr dev)), env, b'')"
    "skb_list (sk_receive_queue (usks b'' kb)) = []"
    using udp_recv_first [OF q d(2,1) assms(7,11), of env] by blast
  then show ?thesis
    using tx rx a'(6) snd q(2) d(1) by (intro exI [of _ "?eth @ [0x08, 0x00] @ enc_iphdr h @ enc_udphdr u @ buf"]) (auto simp: udp_mailbox_def)
qed

definition udp_client_demo :: tcpstate where
  "udp_client_demo = (route_init (replicate 16 0) 0x0a000005 (stack_static (\<lambda>_. 0) (\<lambda>_. 0)))
     \<lparr>arp_cache := arp_learn 0x0a000009 [2, 3, 4, 5, 6, 7] []\<rparr>"

definition udp_server_demo :: tcpstate where
  "udp_server_demo = snd (udp_bind 0 \<lparr>sa_family = 2, sin_port = htons 53, sin_addr = 0, sin6_addr = in6_zero\<rparr>
     (snd (socket_call 100 2 2 (stack_static (\<lambda>_. 0) (\<lambda>_. 0)))))"

lemma udp_client_demo_net:
  "route_lookup 0x0a000009 udp_client_demo = Some 1" "devs udp_client_demo (rt_dev (routes udp_client_demo ! 1)) = netdev_init Dev_tap"
  "arp_get_hwaddr (next_hop (routes udp_client_demo ! 1) 0x0a000009) (arp_cache udp_client_demo) = Some [2, 3, 4, 5, 6, 7]"
  "usks udp_client_demo 0 = usock_zero" "tun_tx udp_client_demo = []"
  by (simp_all add: udp_client_demo_def route_init_def route_add_def Let_def stack_static_def route_lookup_def route_alloc_def
      netdev_init_def netdev_alloc_def next_hop_def arp_learn_def insert_arp_translation_table_def arp_entry_alloc_def)

lemma udp_server_demo_socket:
  "inet_udp_lookup 0 53 udp_server_demo = Some 0" "sk_receive_queue (usks udp_server_demo 0) = skb_queue_init"
  by (simp_all add: udp_server_demo_def udp_bind_def socket_call_def sock_type_lookup_def socket_dgram_def alloc_socket_def
      family_create_def inet_create_def sock_init_data_def udp_alloc_sock_def stack_static_def upd_sock_def upd_usk_def Let_def
      socker_find_protocol_port_def inet_udp_lookup_def socket_lookup_udp_def sk_family_of_def sk_protocol_of_def sk_sport_of_def)

theorem udp_end_to_end_witness:
  "\<exists>frame skb b' b''. tun_tx (snd (udp_sendto 0 [104, 105] \<lparr>sa_family = 2, sin_port = htons 53, sin_addr = htonl 0x0a000009,
      sin6_addr = in6_zero\<rparr> udp_client_demo)) = [frame] \<and>
    netdev_rx_frame frame [] udp_server_demo = Some (skb, [], b') \<and> udp_mailbox 0 b' = [(0, 0x0a000004, [104, 105])] \<and>
    udp_recvfrom 0 100 [] b' = Some (2, [104, 105], Some (build_sockaddr_from_host_order 0 0x0a000004), [], b'')"
proof -
  have dev: "dev_addr (netdev_init Dev_tap) = 0x0a000004" by (simp add: netdev_init_def netdev_alloc_def)
  have u: "sk_err (usks udp_client_demo 0) = 0" "sk_sport (usks udp_client_demo 0) = 0"
    by (simp_all add: udp_client_demo_net usock_zero_def)
  from udp_end_to_end [OF udp_client_demo_net(1) udp_client_demo_net(2) [symmetric] wf_netdev_init udp_client_demo_net(3) _ u(1)
      _ _ udp_server_demo_socket(1) [folded u(2)] udp_server_demo_socket(2) _ refl, of "[104, 105]" 100 "[]"]
  show ?thesis by (auto simp: dev udp_client_demo_net usock_zero_def)
qed

end
