(* ===== verification/Tcp_Receive.thy ===== *)
theory Tcp_Receive
  imports Ip_Delivery Tcp_Send
begin

text \<open>
  The path of an acknowledged, in-order data segment from the device into the receive queue of its socket, and what it leaves alone:
  the fields the socket lookups read, the send side of a socket with nothing to send.
\<close>

section \<open>What the input path leaves to the receiver\<close>

definition rcv_part :: "tcp_sock \<Rightarrow> sk_buff_head \<times> sk_buff_head \<times> u32 \<times> u32 \<times> tcp_states" where
  "rcv_part t = (sk_receive_queue t, ofo_queue t, rcv_nxt (tcb_of t), rcv_wnd (tcb_of t), sk_state t)"

definition ack_part :: "tcp_sock \<Rightarrow> sk_buff_head \<times> sk_buff_head \<times> tcb \<times> tcp_states" where
  "ack_part t = (sk_receive_queue t, ofo_queue t, tcb_of t, sk_state t)"

lemma ack_part_rcv: "ack_part t = ack_part t' \<Longrightarrow> rcv_part t = rcv_part t'"
  by (simp add: ack_part_def rcv_part_def)

lemma tcp_rtt_part [simp]: "ack_part (tsks (tcp_rtt k s) j) = ack_part (tsks s j)"
  by (simp add: ack_part_def tcp_rtt_def tcp_rtt_update_def Let_def upd_tsk_at split: option.split)

lemma tcp_acked_skb_part [simp]: "ack_part (tcp_acked_skb skb q t) = ack_part t"
  by (simp add: ack_part_def tcp_acked_skb_def tcp_cong_avoid_def Let_def)

lemma tcp_clean_loop_part [simp]: "ack_part (tsks (tcp_clean_loop k una s) j) = ack_part (tsks s j)"
proof (induction k una s rule: tcp_clean_loop.induct)
  case (1 k una s)
  then show ?case
    by (subst tcp_clean_loop.simps) (auto simp: upd_tsk_at split: option.split)
qed

lemma tcp_stop_timers_part [simp]:
  "ack_part (tsks (tcp_stop_rto_timer k s) j) = ack_part (tsks s j)"
  "ack_part (tsks (tcp_stop_delack_timer k s) j) = ack_part (tsks s j)"
  "ack_part (tsks (tcp_rearm_rto_timer k s) j) = ack_part (tsks s j)"
  by (simp_all add: ack_part_def tcp_stop_rto_timer_def tcp_stop_delack_timer_def tcp_rearm_rto_timer_def
      tcp_release_rto_timer_def Let_def case_prod_beta upd_tsk_at)

lemma tcp_clean_rto_queue_part [simp]: "ack_part (tsks (tcp_clean_rto_queue k una s) j) = ack_part (tsks s j)"
  by (simp add: tcp_clean_rto_queue_def Let_def)

lemma tcp_new_ack_part:
  "ack_part (tsks (tcp_new_ack k a s) k) = ack_part ((tsks s k)\<lparr>tcb_of := (tcb_of (tsks s k))\<lparr>snd_una := a\<rparr>\<rparr>)"
proof -
  define s1 where "s1 = tcp_clean_rto_queue k a (tcp_rtt k (upd_tcb k (\<lambda>b. b\<lparr>snd_una := a\<rparr>) s))"
  have "ack_part (tsks s1 k) = ack_part ((tsks s k)\<lparr>tcb_of := (tcb_of (tsks s k))\<lparr>snd_una := a\<rparr>\<rparr>)"
    by (simp add: s1_def upd_tcb_at)
  then show ?thesis
    unfolding tcp_new_ack_def Let_def s1_def [symmetric]
    by (simp add: upd_tsk_at tcp_exit_fast_recovery_def) (simp add: ack_part_def)
qed

lemma tcp_transmit_queued_part [simp]:
  "sk_receive_queue (tsks (snd (tcp_transmit_queued k i nx s)) j) = sk_receive_queue (tsks s j)"
  "ofo_queue (tsks (snd (tcp_transmit_queued k i nx s)) j) = ofo_queue (tsks s j)"
  by (simp_all add: tcp_transmit_queued_def Let_def case_prod_beta upd_tsk_at)

lemma tcp_send_next_loop_part [simp]: "rcv_part (tsks (tcp_send_next_loop k w js s) j) = rcv_part (tsks s j)"
  by (induction js arbitrary: s) (simp_all add: rcv_part_def Let_def case_prod_beta upd_tsk_at upd_tcb_at)

lemma tcp_send_ack_part [simp]: "rcv_part (tsks (snd (tcp_send_ack k s)) j) = rcv_part (tsks s j)"
  by (simp add: rcv_part_def tcp_send_ack_def Let_def case_prod_beta)

lemma tcp_delack_stage_part [simp]: "rcv_part (tsks (tcp_delack_stage k th skb e s) k) = rcv_part (tsks s k)"
proof -
  note p = tcp_stop_timers_part [THEN ack_part_rcv]
  have u: "rcv_part (t\<lparr>delacks := x\<rparr>) = rcv_part t" "rcv_part (t\<lparr>delack := y\<rparr>) = rcv_part t" for t :: tcp_sock and x y
    by (simp_all add: rcv_part_def)
  show ?thesis
    unfolding tcp_delack_stage_def Let_def
    by (simp add: p u tcp_send_next_def Let_def case_prod_beta upd_tsk_at)
qed

text \<open>What the lookups of sockets read; the addresses of an IPv4 socket are not touched by sending.\<close>

definition sk_ids :: "tcp_sock \<Rightarrow> u8 \<times> int \<times> u16 \<times> u16 \<times> in6_addr \<times> in6_addr \<times> bool" where
  "sk_ids t = (sk_addr_family t, sk_protocol t, sk_sport t, sk_dport t, sk_saddr t, sk_daddr t, sk_state t = TCP_LISTEN)"

definition sk_dir :: "tcpstate \<Rightarrow> nat list \<times> (nat \<Rightarrow> bool \<times> int \<times> int) \<times> (nat \<Rightarrow> u8 \<times> int \<times> u16 \<times> u16 \<times> in6_addr \<times> in6_addr \<times> bool)" where
  "sk_dir s = (sockets s, \<lambda>k. (so_dgram (socks s k), so_pid (socks s k), so_fd (socks s k)), \<lambda>k. sk_ids (tsks s k))"

lemma inet_lookup_dir:
  assumes "sk_dir s' = sk_dir s"
  shows "inet_lookup sa da sp dp s' = inet_lookup sa da sp dp s"
proof -
  have d: "sockets s' = sockets s" "\<And>k. so_dgram (socks s' k) = so_dgram (socks s k)" "\<And>k. sk_ids (tsks s' k) = sk_ids (tsks s k)"
    using assms by (auto simp: sk_dir_def dest: fun_cong)
  have "tcp_sock_match_established (tsks s' k) f ra la r6 l6 rp lp = tcp_sock_match_established (tsks s k) f ra la r6 l6 rp lp"
    "tcp_sock_match_listener (tsks s' k) f la l6 lp = tcp_sock_match_listener (tsks s k) f la l6 lp"
    "sk_addr_family (tsks s' k) = sk_addr_family (tsks s k)" for k f ra la r6 l6 rp lp
    using d(3) [of k] by (simp_all add: sk_ids_def tcp_sock_match_established_def tcp_sock_match_listener_def split: option.split)
  then show ?thesis
    unfolding inet_lookup_def socket_lookup_def tcp_lookup_established_def tcp_lookup_listener_def d(1,2) by (simp only:)
qed

lemma get_socket_dir:
  assumes "sk_dir s' = sk_dir s"
  shows "get_socket pid fd s' = get_socket pid fd s" "so_dgram (socks s' k) = so_dgram (socks s k)"
proof -
  have "sockets s' = sockets s" "\<And>k. so_pid (socks s' k) = so_pid (socks s k)" "\<And>k. so_fd (socks s' k) = so_fd (socks s k)"
    and d: "so_dgram (socks s' k) = so_dgram (socks s k)" using assms by (auto simp: sk_dir_def dest: fun_cong)
  then show "get_socket pid fd s' = get_socket pid fd s" by (simp add: get_socket_def)
  show "so_dgram (socks s' k) = so_dgram (socks s k)" by (rule d)
qed

lemma sk_dir_upd_tsk [simp]: "(\<And>t. sk_ids (f t) = sk_ids t) \<Longrightarrow> sk_dir (upd_tsk k f s) = sk_dir s"
  by (auto simp: sk_dir_def upd_tsk_def)

lemma sk_dir_upd [simp]:
  "sk_dir (upd_tcb k g s) = sk_dir s" "sk_dir (upd_timers h s) = sk_dir s" "sk_dir (wait_wakeup k w s) = sk_dir s"
  "sk_dir (s\<lparr>timers := tms\<rparr>) = sk_dir s" "sk_dir (s\<lparr>freed_socks := fs\<rparr>) = sk_dir s"
  by (simp add: upd_tcb_def sk_ids_def) (simp_all add: sk_dir_def upd_timers_def wait_wakeup_def)

lemma sk_dir_sock [simp]:
  "(\<And>so. so_dgram (f so) = so_dgram so \<and> so_pid (f so) = so_pid so \<and> so_fd (f so) = so_fd so) \<Longrightarrow> sk_dir (upd_sock k f s) = sk_dir s"
  by (auto simp: sk_dir_def upd_sock_def fun_eq_iff)

lemma sk_dir_acquire [simp]: "sk_dir (socket_wr_acquire k s) = sk_dir s" "sk_dir (socket_release k s) = sk_dir s"
  by (simp_all add: socket_wr_acquire_def socket_release_def Let_def)

lemma sk_dir_rtt [simp]: "sk_dir (tcp_rtt k s) = sk_dir s"
  by (simp add: tcp_rtt_def Let_def tcp_rtt_update_def sk_ids_def split: option.split)

lemma sk_dir_stop [simp]: "sk_dir (tcp_stop_rto_timer k s) = sk_dir s" "sk_dir (tcp_stop_delack_timer k s) = sk_dir s"
  by (simp_all add: tcp_stop_rto_timer_def tcp_stop_delack_timer_def Let_def sk_ids_def)

text \<open>An IPv4 socket with nothing to send.\<close>

definition quiet :: "tcp_sock \<Rightarrow> bool" where
  "quiet t \<longleftrightarrow> sk_addr_family t \<noteq> AF_INET6 \<and> skb_list (sk_write_queue t) = [] \<and> qlen (sk_write_queue t) = 0"

lemma net_tx_dir: "net_tx s s' \<Longrightarrow> sk_dir s' = sk_dir s"
  by (simp add: sk_dir_def net_tx_sel)

lemma sk_dir_send_ack: "quiet (tsks s k) \<Longrightarrow> sk_dir (snd (tcp_send_ack k s)) = sk_dir s"
proof -
  assume "quiet (tsks s k)"
  then have f: "sk_addr_family (tsks s k) \<noteq> AF_INET6" by (simp add: quiet_def)
  have o: "sk_ids (snd (if b then tcp_write_options t else ([], t))) = sk_ids t" for b t
    by (simp add: tcp_write_options_def Let_def sk_ids_def)
  have u: "sk_dir (upd_tsk k (\<lambda>_. t) s) = sk_dir s" if "sk_ids t = sk_ids (tsks s k)" for t
    using that by (auto simp: sk_dir_def upd_tsk_def)
  have "sk_dir (snd (snd (tcp_transmit_skb k skb seq s))) = sk_dir s" for skb seq
    unfolding tcp_transmit_skb_def Let_def case_prod_beta using f net_tx_dir [OF ip_output_tx] u [OF o] by simp
  then show ?thesis by (simp add: tcp_send_ack_def Let_def case_prod_beta)
qed

text \<open>An acceptable acknowledgement passes.\<close>

lemma tcp_clean_empty: "quiet (tsks s k) \<Longrightarrow> tcp_clean_loop k una s = s"
  by (subst tcp_clean_loop.simps) (simp add: quiet_def skb_peek_def)

lemma tcp_rtt_wq [simp]: "sk_write_queue (tsks (tcp_rtt k s) j) = sk_write_queue (tsks s j)"
  "sk_addr_family (tsks (tcp_rtt k s) j) = sk_addr_family (tsks s j)"
  by (simp_all add: tcp_rtt_def tcp_rtt_update_def Let_def upd_tsk_at split: option.split)

lemma tcp_new_ack_quiet:
  assumes "quiet (tsks s k)"
  shows "sk_dir (tcp_new_ack k a s) = sk_dir s \<and> quiet (tsks (tcp_new_ack k a s) k)"
proof -
  define s1 where "s1 = tcp_rtt k (upd_tcb k (\<lambda>b. b\<lparr>snd_una := a\<rparr>) s)"
  have q: "quiet (tsks s1 k)" "sk_dir s1 = sk_dir s" using assms by (simp_all add: s1_def quiet_def upd_tcb_at)
  define s2 where "s2 = tcp_clean_rto_queue k a s1"
  have q2: "quiet (tsks s2 k)" "sk_dir s2 = sk_dir s"
    using q unfolding s2_def tcp_clean_rto_queue_def tcp_clean_empty [OF q(1)] Let_def
    by (simp_all add: tcp_stop_rto_timer_def Let_def quiet_def upd_tsk_at sk_ids_def)
  have "sk_ids (tcp_exit_fast_recovery t) = sk_ids t" "quiet (tcp_exit_fast_recovery t) = quiet t" for t
    by (simp_all add: tcp_exit_fast_recovery_def sk_ids_def quiet_def)
  then show ?thesis
    unfolding tcp_new_ack_def Let_def s1_def [symmetric] s2_def [symmetric] using q2 by (simp add: upd_tsk_at)
qed

lemma tcp_ack_common_passes:
  assumes "snd_una (tcb_of (tsks s k)) \<le> th_ack_seq th" and "th_ack_seq th \<le> snd_nxt (tcb_of (tsks s k))" and "0 < skb_dlen skb"
  shows "\<exists>s'. tcp_ack_common k th skb s = Inr s' \<and> rcv_part (tsks s' k) = rcv_part (tsks s k) \<and>
    snd_una (tcb_of (tsks s' k)) = th_ack_seq th \<and> snd_nxt (tcb_of (tsks s' k)) = snd_nxt (tcb_of (tsks s k)) \<and>
    (quiet (tsks s k) \<longrightarrow> quiet (tsks s' k) \<and> sk_dir s' = sk_dir s)"
proof -
  have nd: "\<not> tcp_is_dupack th skb (tsks s k)" using assms(3) by (auto simp: tcp_is_dupack_def)
  define s1 where "s1 = (if snd_una (tcb_of (tsks s k)) < th_ack_seq th \<and> th_ack_seq th \<le> snd_nxt (tcb_of (tsks s k))
    then tcp_new_ack k (th_ack_seq th) s else s)"
  have s1: "rcv_part (tsks s1 k) = rcv_part (tsks s k)" "snd_una (tcb_of (tsks s1 k)) = th_ack_seq th"
    "snd_nxt (tcb_of (tsks s1 k)) = snd_nxt (tcb_of (tsks s k))" "quiet (tsks s k) \<Longrightarrow> quiet (tsks s1 k) \<and> sk_dir s1 = sk_dir s"
    using tcp_new_ack_part [of k "th_ack_seq th" s] tcp_new_ack_quiet [of s k "th_ack_seq th"] assms(1,2)
    by (auto simp: s1_def rcv_part_def ack_part_def)
  define s2 where "s2 = upd_tsk k (\<lambda>t. t\<lparr>last_ack_win := th_win th\<rparr>) s1"
  have "tcp_ack_common k th skb s = Inr s2"
    unfolding tcp_ack_common_def Let_def s1_def [symmetric] using nd s1 assms(2) by (simp add: s2_def)
  moreover have "rcv_part (tsks s2 k) = rcv_part (tsks s1 k)" "tcb_of (tsks s2 k) = tcb_of (tsks s1 k)" "sk_dir s2 = sk_dir s1"
    "quiet (tsks s2 k) = quiet (tsks s1 k)"
    by (simp_all add: s2_def upd_tsk_at rcv_part_def quiet_def sk_ids_def)
  ultimately show ?thesis using s1 by auto
qed

lemma tcp_consume_ofo_frame:
  "sk_ids (tcp_consume_ofo_queue t) = sk_ids t \<and> sk_write_queue (tcp_consume_ofo_queue t) = sk_write_queue t \<and>
   snd_una (tcb_of (tcp_consume_ofo_queue t)) = snd_una (tcb_of t) \<and> snd_nxt (tcb_of (tcp_consume_ofo_queue t)) = snd_nxt (tcb_of t) \<and>
   rcv_wnd (tcb_of (tcp_consume_ofo_queue t)) = rcv_wnd (tcb_of t)"
proof (induction t rule: tcp_consume_ofo_queue.induct)
  case (1 t)
  then show ?case by (subst (1 2 3 4 5) tcp_consume_ofo_queue.simps) (auto simp: sk_ids_def split: option.split)
qed

lemma tcp_queue_expected_frame:
  "sk_ids (tcp_queue_expected skb t) = sk_ids t" "sk_write_queue (tcp_queue_expected skb t) = sk_write_queue t"
  "snd_una (tcb_of (tcp_queue_expected skb t)) = snd_una (tcb_of t)" "snd_nxt (tcb_of (tcp_queue_expected skb t)) = snd_nxt (tcb_of t)"
  "rcv_wnd (tcb_of (tcp_queue_expected skb t)) = rcv_wnd (tcb_of t)"
  by (simp_all add: tcp_queue_expected_def Let_def decrease_recv_win_def tcp_consume_ofo_frame)
    (simp add: sk_ids_def tcp_consume_ofo_frame [unfolded sk_ids_def, THEN conjunct1, simplified])

lemma tcp_delack_quiet:
  assumes "quiet (tsks s k)"
  shows "sk_dir (tcp_delack_stage k th skb e s) = sk_dir s" "quiet (tsks (tcp_delack_stage k th skb e s) k)"
    "tcb_of (tsks (tcp_delack_stage k th skb e s) k) = tcb_of (tsks s k)"
proof -
  have q: "quiet (tsks (tcp_stop_delack_timer k s) k)" "tcb_of (tsks (tcp_stop_delack_timer k s) k) = tcb_of (tsks s k)"
    using assms by (simp_all add: quiet_def tcp_stop_delack_timer_def Let_def)
  have u: "quiet (t\<lparr>delacks := x\<rparr>) = quiet t" "quiet (t\<lparr>delack := y\<rparr>) = quiet t" for t x y by (simp_all add: quiet_def)
  have a: "quiet (tsks (snd (tcp_send_ack k s)) k) = quiet (tsks s k)" "tcb_of (tsks (snd (tcp_send_ack k s)) k) = tcb_of (tsks s k)" for s
    by (simp_all add: quiet_def tcp_send_ack_def Let_def case_prod_beta)
  have p: "\<not> 0 < sint (skb_queue_len (sk_write_queue (tsks (tcp_stop_delack_timer k s) k)))"
    using q(1) by (simp add: quiet_def skb_queue_len_def)
  note defs = tcp_delack_stage_def Let_def if_not_P [OF p] case_prod_beta
  show "sk_dir (tcp_delack_stage k th skb e s) = sk_dir s"
    unfolding defs using assms q by (simp add: sk_dir_send_ack u sk_ids_def)
  show "quiet (tsks (tcp_delack_stage k th skb e s) k)"
    unfolding defs using assms q by (simp add: a u)
  show "tcb_of (tsks (tcp_delack_stage k th skb e s) k) = tcb_of (tsks s k)"
    unfolding defs using assms q by (simp add: a)
qed

lemma tcp_input_text:
  assumes st: "sk_state (tsks s k) = TCP_ESTABLISHED"
    and fl: "th_ack th" "\<not> th_rst th" "\<not> th_syn th" "\<not> th_fin th"
    and seq: "th_seq th = rcv_nxt (tcb_of (tsks s k))" "skb_seq skb = th_seq th" "0 < skb_dlen skb"
    and wnd: "0 < rcv_wnd (tcb_of (tsks s k))" "unat (rcv_nxt (tcb_of (tsks s k))) + unat (rcv_wnd (tcb_of (tsks s k))) < 2 ^ 32"
    and ack: "snd_una (tcb_of (tsks s k)) \<le> th_ack_seq th" "th_ack_seq th \<le> snd_nxt (tcb_of (tsks s k))"
  shows "\<exists>skb' s' t. tcp_input_state k th opts skb saddr fam env s = Some (0, skb', env, s') \<and>
    rcv_part t = rcv_part (tsks s k) \<and> rcv_part (tsks s' k) = rcv_part (tcp_queue_expected skb t) \<and>
    (quiet (tsks s k) \<longrightarrow> quiet (tsks s' k) \<and> sk_dir s' = sk_dir s \<and> snd_una (tcb_of (tsks s' k)) = th_ack_seq th \<and>
      snd_nxt (tcb_of (tsks s' k)) = snd_nxt (tcb_of (tsks s k)) \<and> rcv_wnd (tcb_of (tsks s' k)) = rcv_wnd (tcb_of (tsks s k)))"
proof -
  have v: "tcp_verify_segment th skb (tsks s k)"
    using seq(1) wnd by (auto simp: tcp_verify_segment_def word_less_nat_alt unat_word_ariths)
  obtain s1 where s1: "tcp_ack_common k th skb s = Inr s1" "rcv_part (tsks s1 k) = rcv_part (tsks s k)"
    "snd_una (tcb_of (tsks s1 k)) = th_ack_seq th" "snd_nxt (tcb_of (tsks s1 k)) = snd_nxt (tcb_of (tsks s k))"
    "quiet (tsks s k) \<longrightarrow> quiet (tsks s1 k) \<and> sk_dir s1 = sk_dir s"
    using tcp_ack_common_passes [OF ack seq(3)] by blast
  have e: "sk_state (tsks s1 k) = TCP_ESTABLISHED" "rcv_nxt (tcb_of (tsks s1 k)) = skb_seq skb" "rcv_wnd (tcb_of (tsks s1 k)) \<noteq> 0"
    "rcv_wnd (tcb_of (tsks s1 k)) = rcv_wnd (tcb_of (tsks s k))"
    using s1(2) st seq(1,2) wnd(1) by (auto simp: rcv_part_def)
  define s2 where "s2 = snd (tcp_recv_notify k (upd_tsk k (tcp_queue_expected skb) s1))"
  have q: "tcp_data_queue k skb s1 = (0, skb\<lparr>skb_refcnt := skb_refcnt skb + 1\<rparr>, s2)"
    using e by (simp add: tcp_data_queue_def Let_def case_prod_beta s2_def)
  have t2: "tsks s2 k = tcp_queue_expected skb (tsks s1 k)" "sk_dir s2 = sk_dir s1"
    by (simp_all add: s2_def tcp_recv_notify_def tcp_queue_expected_frame)
  have q2: "quiet (tsks s2 k) = quiet (tsks s1 k)"
    using tcp_queue_expected_frame(1) [of skb "tsks s1 k"] by (simp add: t2 quiet_def tcp_queue_expected_frame(2) sk_ids_def)
  have f: "tcp_fin_acked_stage k th skb s1 = Inr s1" using e(1) by (simp add: tcp_fin_acked_stage_def)
  define b where "b = skb\<lparr>skb_refcnt := skb_refcnt skb + 1\<rparr>"
  have tail: "tcp_input_tail k th skb s1 = (0, free_skb b, tcp_delack_stage k th b True s2)"
    unfolding tcp_input_tail_def f tcp_text_stage_def using e fl(4) seq(3) q by (simp add: b_def)
  have "tcp_input_state k th opts skb saddr fam env s = Some (0, free_skb b, env, tcp_delack_stage k th b True s2)"
    unfolding tcp_input_state_def st tcp_ack_stage_def using v fl s1(1) tail by simp
  then show ?thesis
    using s1 t2 q2 e(4) tcp_delack_quiet [of s2 k th b True]
    by (intro exI conjI) (assumption, simp_all add: tcp_queue_expected_frame)
qed

section \<open>A data segment on its way up\<close>

definition tcp_rx_skb :: "bytes \<Rightarrow> iphdr \<Rightarrow> tcphdr \<Rightarrow> bytes \<Rightarrow> sk_buff" where
  "tcp_rx_skb eth h th d = (rx_skb eth h (enc_tcphdr th @ d))\<lparr>
     skb_mem := ((eth @ le16 ETH_P_IP) @ enc_iphdr (ip_ntoh_hdr h)) @ enc_tcphdr (tcp_ntoh_hdr th) @ d @ replicate (1546 - length d) 0,
     skb_seq := ntohl (th_seq th), skb_dlen := of_nat (length d), skb_len := of_nat (length d) + of_bool (th_syn th) + of_bool (th_fin th),
     skb_end_seq := ntohl (th_seq th) + of_nat (length d), skb_payload := Some 54\<rparr>"

lemma tcp_init_segment_rx:
  assumes "length eth = 12"
  shows "tcp_init_segment 34 (int (length d)) (rx_skb eth h (enc_tcphdr th @ d)) = (tcp_ntoh_hdr th, tcp_rx_skb eth h th d)"
    and "skb_load dec_tcphdr 34 (rx_skb eth h (enc_tcphdr th @ d)) = th"
proof -
  define b where "b = rx_skb eth h (enc_tcphdr th @ d)"
  have m: "skb_mem b = ((eth @ le16 ETH_P_IP) @ enc_iphdr (ip_ntoh_hdr h)) @ enc_tcphdr th @ d @ replicate (1546 - length d) 0"
    by (simp add: b_def)
  have l: "skb_load dec_tcphdr 34 b = th"
    using skb_load_mid [OF m, of 34 dec_tcphdr] tcph.dec_enc [of th] assms by simp
  then show "skb_load dec_tcphdr 34 (rx_skb eth h (enc_tcphdr th @ d)) = th" by (simp only: b_def)
  have st: "skb_put (int 34) (enc_tcphdr (tcp_ntoh_hdr th)) b =
      b\<lparr>skb_mem := ((eth @ le16 ETH_P_IP) @ enc_iphdr (ip_ntoh_hdr h)) @ enc_tcphdr (tcp_ntoh_hdr th) @ d @ replicate (1546 - length d) 0\<rparr>"
    by (rule skb_put_mid [OF m]) (simp_all add: assms)
  have sel: "th_seq (tcp_ntoh_hdr th) = ntohl (th_seq th)" "th_syn (tcp_ntoh_hdr th) = th_syn th" "th_fin (tcp_ntoh_hdr th) = th_fin th"
    by (simp_all add: tcp_ntoh_hdr_def)
  show "tcp_init_segment 34 (int (length d)) (rx_skb eth h (enc_tcphdr th @ d)) = (tcp_ntoh_hdr th, tcp_rx_skb eth h th d)"
    unfolding tcp_init_segment_def b_def [symmetric] of_nat_numeral l Let_def skb_store_def
    unfolding st [unfolded of_nat_numeral] tcp_rx_skb_def b_def [symmetric] sel by simp
qed

lemma tcp_rx_seg:
  assumes "length eth = 12" and "length d \<le> 1546"
  shows "seg_ok (tcp_rx_skb eth h th d)" and "seg_bytes (tcp_rx_skb eth h th d) = d"
proof -
  have u: "unat (of_nat (length d) :: u32) = length d"
    unfolding unat_of_nat using assms(2) by (simp add: take_bit_nat_eq_self)
  show "seg_ok (tcp_rx_skb eth h th d)" "seg_bytes (tcp_rx_skb eth h th d) = d"
    using assms by (simp_all add: seg_ok_def seg_bytes_def skb_payload_bytes_def tcp_rx_skb_def u get_bytes_def)
qed

lemma rcv_part_stream:
  assumes "rcv_part t = rcv_part t'"
  shows "rcv_stream t = rcv_stream t'" "rcv_ok t = rcv_ok t'" "ofo_queue t = ofo_queue t'" "rcv_nxt (tcb_of t) = rcv_nxt (tcb_of t')"
    "sk_receive_queue t = sk_receive_queue t'" "sk_state t = sk_state t'"
  using assms by (simp_all add: rcv_part_def rcv_stream_def rcv_ok_def)

text \<open>The receiver is ready for text at \<open>rcv_nxt\<close>.\<close>

definition rcv_ready :: "tcp_sock \<Rightarrow> bool" where
  "rcv_ready t \<longleftrightarrow> sk_state t = TCP_ESTABLISHED \<and> 0 < rcv_wnd (tcb_of t) \<and> unat (rcv_nxt (tcb_of t)) + unat (rcv_wnd (tcb_of t)) < 2 ^ 32 \<and>
     rcv_ok t \<and> wf_queue (ofo_queue t) \<and> list_all seg_ok (skb_list (ofo_queue t)) \<and>
     length (skb_list (sk_receive_queue t)) + 1 + length (skb_list (ofo_queue t)) < 2 ^ 32"

lemma tcp_queue_expected_empty:
  assumes "wf_queue (ofo_queue t)" and "skb_list (ofo_queue t) = []"
  shows "ofo_queue (tcp_queue_expected skb t) = ofo_queue t" "sk_state (tcp_queue_expected skb t) = sk_state t"
    "sk_receive_queue (tcp_queue_expected skb t) = skb_queue_tail (sk_receive_queue t) (skb\<lparr>skb_refcnt := skb_refcnt skb + 1\<rparr>)"
proof -
  have "tcp_consume_ofo_queue t' = t'" if "ofo_queue t' = ofo_queue t" for t'
    using assms that by (subst tcp_consume_ofo_queue.simps) (simp add: skb_peek_wf)
  then show "ofo_queue (tcp_queue_expected skb t) = ofo_queue t" "sk_state (tcp_queue_expected skb t) = sk_state t"
    "sk_receive_queue (tcp_queue_expected skb t) = skb_queue_tail (sk_receive_queue t) (skb\<lparr>skb_refcnt := skb_refcnt skb + 1\<rparr>)"
    by (simp_all add: tcp_queue_expected_def Let_def decrease_recv_win_def)
qed

text \<open>\<open>tcp_in\<close> on a received buffer: the segment is delimited and handed to the state machine.\<close>

lemma tcp_in_rx:
  assumes "length eth = 12" and "ih_ihl h = 5" and "unat (ntohs (ih_len h)) = 40 + length d" and "th_hl th = 5"
    and "inet_lookup (ntohl (ih_saddr h)) (ntohl (ih_daddr h)) (ntohs (th_sport th)) (ntohs (th_dport th)) s = Some k"
    and "\<And>opts saddr fam. \<exists>rc skb s2. tcp_input_state k (tcp_ntoh_hdr th) opts (tcp_rx_skb eth h th d) saddr fam env (socket_wr_acquire k s) =
      Some (rc, skb, env, s2) \<and> P s2"
  shows "\<exists>skb s2. tcp_in (rx_skb eth h (enc_tcphdr th @ d)) env s = Some (skb, env, socket_release k s2) \<and> P s2"
proof -
  define b where "b = rx_skb eth h (enc_tcphdr th @ d)"
  define b' where "b' = tcp_rx_skb eth h th d"
  have m: "skb_mem b = (eth @ le16 ETH_P_IP) @ enc_iphdr (ip_ntoh_hdr h) @ enc_tcphdr th @ d @ replicate (1546 - length d) 0"
    by (simp add: b_def)
  have ih: "skb_load dec_iphdr 14 b = ip_ntoh_hdr h"
    using skb_load_mid [OF m, of 14 dec_iphdr] iph.dec_enc [of "ip_ntoh_hdr h"] assms(1) by simp
  have ihs: "ih_len (ip_ntoh_hdr h) = ntohs (ih_len h)" "ih_ihl (ip_ntoh_hdr h) = 5" "ih_saddr (ip_ntoh_hdr h) = ntohl (ih_saddr h)"
    "ih_daddr (ip_ntoh_hdr h) = ntohl (ih_daddr h)" using assms(2) by (simp_all add: ip_ntoh_hdr_def)
  have ts: "th_sport (tcp_ntoh_hdr th) = ntohs (th_sport th)" "th_dport (tcp_ntoh_hdr th) = ntohs (th_dport th)"
    by (simp_all add: tcp_ntoh_hdr_def)
  have l: "int (unat (ih_len (ip_ntoh_hdr h))) - int (unat (ih_ihl (ip_ntoh_hdr h))) * 4 - int (unat (th_hl (skb_load dec_tcphdr 34 b))) * 4
      = int (length d)"
    unfolding ihs b_def tcp_init_segment_rx(2) [OF assms(1)] assms(3,4) by simp
  define s1 where "s1 = socket_wr_acquire k s"
  obtain rc skb s2 where st: "tcp_input_state k (tcp_ntoh_hdr th) (drop 54 (skb_mem b')) b' (get_bytes 26 16 (skb_mem b'))
      (sk_addr_family (tsks s1 k)) env s1 = Some (rc, skb, env, s2)" "P s2"
    using assms(6) unfolding b'_def s1_def by blast
  have "tcp_in b env s = Some (skb, env, socket_release k s2)"
    unfolding tcp_in_def ih Let_def l using tcp_init_segment_rx(1) [OF assms(1), of d h th] assms(5) st
    by (simp add: b_def ihs ts flip: b'_def s1_def)
  then show ?thesis using st(2) by (auto simp: b_def)
qed

lemma tcp_rx_skb_sel:
  assumes "length d \<le> 1546"
  shows "skb_seq (tcp_rx_skb eth h th d) = ntohl (th_seq th)" "skb_dlen (tcp_rx_skb eth h th d) = of_nat (length d)"
    "skb_end_seq (tcp_rx_skb eth h th d) = ntohl (th_seq th) + of_nat (length d)" "unat (skb_dlen (tcp_rx_skb eth h th d)) = length d"
proof -
  have "unat (of_nat (length d) :: u32) = length d"
    unfolding unat_of_nat using assms by (simp add: take_bit_nat_eq_self)
  then show "skb_seq (tcp_rx_skb eth h th d) = ntohl (th_seq th)" "skb_dlen (tcp_rx_skb eth h th d) = of_nat (length d)"
    "skb_end_seq (tcp_rx_skb eth h th d) = ntohl (th_seq th) + of_nat (length d)" "unat (skb_dlen (tcp_rx_skb eth h th d)) = length d"
    by (simp_all add: tcp_rx_skb_def)
qed

lemma tcp_in_text:
  assumes "length eth = 12" and "0 < length d" and "length d \<le> 1546" and "ih_ihl h = 5" and "unat (ntohs (ih_len h)) = 40 + length d"
    and "th_hl th = 5" "th_ack th" "\<not> th_rst th" "\<not> th_syn th" "\<not> th_fin th"
    and k: "inet_lookup (ntohl (ih_saddr h)) (ntohl (ih_daddr h)) (ntohs (th_sport th)) (ntohs (th_dport th)) s = Some k"
    and rdy: "rcv_ready (tsks s k)" and sq: "ntohl (th_seq th) = rcv_nxt (tcb_of (tsks s k))"
    and ack: "snd_una (tcb_of (tsks s k)) \<le> ntohl (th_ack_seq th)" "ntohl (th_ack_seq th) \<le> snd_nxt (tcb_of (tsks s k))"
  shows "\<exists>skb s' new rest. tcp_in (rx_skb eth h (enc_tcphdr th @ d)) env s = Some (skb, env, s') \<and>
    skb_list (ofo_queue (tsks s k)) = new @ rest \<and>
    rcv_stream (tsks s' k) = rcv_stream (tsks s k) @ d @ concat (map seg_bytes new) \<and>
    rcv_nxt (tcb_of (tsks s' k)) = rcv_nxt (tcb_of (tsks s k)) + of_nat (length (d @ concat (map seg_bytes new))) \<and>
    rcv_ok (tsks s' k) \<and>
    (quiet (tsks s k) \<longrightarrow> skb_list (ofo_queue (tsks s k)) = [] \<longrightarrow> quiet (tsks s' k) \<and> sk_dir s' = sk_dir s \<and>
      snd_una (tcb_of (tsks s' k)) = ntohl (th_ack_seq th) \<and> snd_nxt (tcb_of (tsks s' k)) = snd_nxt (tcb_of (tsks s k)) \<and>
      rcv_wnd (tcb_of (tsks s' k)) = rcv_wnd (tcb_of (tsks s k)) \<and> sk_state (tsks s' k) = TCP_ESTABLISHED \<and>
      ofo_queue (tsks s' k) = ofo_queue (tsks s k) \<and>
      length (skb_list (sk_receive_queue (tsks s' k))) = length (skb_list (sk_receive_queue (tsks s k))) + 1)"
proof -
  define b' where "b' = tcp_rx_skb eth h th d"
  have ts: "th_seq (tcp_ntoh_hdr th) = ntohl (th_seq th)" "th_ack_seq (tcp_ntoh_hdr th) = ntohl (th_ack_seq th)"
    "th_ack (tcp_ntoh_hdr th)" "\<not> th_rst (tcp_ntoh_hdr th)" "\<not> th_syn (tcp_ntoh_hdr th)" "\<not> th_fin (tcp_ntoh_hdr th)"
    using assms(7-10) by (simp_all add: tcp_ntoh_hdr_def)
  define s1 where "s1 = socket_wr_acquire k s"
  have s1: "tsks s1 = tsks s" by (simp add: s1_def socket_wr_acquire_def)
  have sb: "skb_seq b' = ntohl (th_seq th)" "0 < skb_dlen b'"
    using tcp_rx_skb_sel [OF assms(3)] assms(2) by (simp_all add: b'_def word_less_nat_alt)
  have input: "\<exists>rc skb s2. tcp_input_state k (tcp_ntoh_hdr th) opts b' saddr fam env s1 = Some (rc, skb, env, s2) \<and>
    (\<exists>t. rcv_part t = rcv_part (tsks s k) \<and> rcv_part (tsks s2 k) = rcv_part (tcp_queue_expected b' t)) \<and>
    (quiet (tsks s k) \<longrightarrow> quiet (tsks s2 k) \<and> sk_dir s2 = sk_dir s1 \<and> snd_una (tcb_of (tsks s2 k)) = ntohl (th_ack_seq th) \<and>
      snd_nxt (tcb_of (tsks s2 k)) = snd_nxt (tcb_of (tsks s k)) \<and> rcv_wnd (tcb_of (tsks s2 k)) = rcv_wnd (tcb_of (tsks s k)))" for opts saddr fam
    using tcp_input_text [of s1 k "tcp_ntoh_hdr th" b' opts saddr fam env] rdy sq ack sb ts(3-6)
    unfolding s1 ts(1,2) rcv_ready_def by blast
  from tcp_in_rx [OF assms(1,4,5,6) k input [unfolded b'_def s1_def]]
  obtain skb s2 t where st: "tcp_in (rx_skb eth h (enc_tcphdr th @ d)) env s = Some (skb, env, socket_release k s2)"
    and t: "rcv_part t = rcv_part (tsks s k)" "rcv_part (tsks s2 k) = rcv_part (tcp_queue_expected b' t)"
    and q2: "quiet (tsks s k) \<longrightarrow> quiet (tsks s2 k) \<and> sk_dir s2 = sk_dir s1 \<and> snd_una (tcb_of (tsks s2 k)) = ntohl (th_ack_seq th) \<and>
      snd_nxt (tcb_of (tsks s2 k)) = snd_nxt (tcb_of (tsks s k)) \<and> rcv_wnd (tcb_of (tsks s2 k)) = rcv_wnd (tcb_of (tsks s k))"
    unfolding b'_def s1_def by blast
  note st
  moreover have "tsks (socket_release k s2) = tsks s2" by (simp add: socket_release_def Let_def)
  moreover have "sk_dir (socket_release k s2) = sk_dir s" if "quiet (tsks s k)" using q2 that by (simp add: s1_def)
  moreover have "ofo_queue (tsks s2 k) = ofo_queue (tsks s k) \<and> sk_state (tsks s2 k) = TCP_ESTABLISHED \<and>
      length (skb_list (sk_receive_queue (tsks s2 k))) = length (skb_list (sk_receive_queue (tsks s k))) + 1" if "skb_list (ofo_queue (tsks s k)) = []"
    using tcp_queue_expected_empty [of t b'] rdy that rcv_part_stream [OF t(1)] rcv_part_stream [OF t(2)] by (simp add: rcv_ready_def)
  moreover have "list_all seg_ok (b' # skb_list (ofo_queue t))" "seg_bytes b' = d"
    using tcp_rx_seg [OF assms(1,3)] rdy rcv_part_stream [OF t(1)] by (simp_all add: b'_def rcv_ready_def)
  moreover note expected_extends [of t b']
  ultimately show ?thesis
    using rdy sq sb(1) rcv_part_stream [OF t(1)] rcv_part_stream [OF t(2)] q2 unfolding rcv_ready_def by auto
qed

end
