(* ===== verification/Tcp_Delivery.thy ===== *)
theory Tcp_Delivery
  imports Udp_Delivery Tcp_Receive
begin

text \<open>
  TCP over two stacks: what sending a buffer puts on the wire, and what a second stack that receives these frames has in its
  stream.
\<close>

section \<open>A data segment on its way down\<close>

text \<open>A buffer with header \<open>th\<close> and text \<open>d\<close> before transmission.\<close>

definition tcp_text_skb :: "tcphdr \<Rightarrow> bytes \<Rightarrow> sk_buff \<Rightarrow> bool" where
  "tcp_text_skb th d skb \<longleftrightarrow> skb_mem skb = (replicate 14 0 @ replicate 20 0) @ enc_tcphdr th @ d \<and> skb_data skb = 54 \<and>
     skb_len skb = of_nat (length d) \<and> skb_dlen skb = of_nat (length d) \<and> skb_protocol skb = ucast IP_TCP"

definition tcp_hdr_zero :: tcphdr where
  "tcp_hdr_zero = dec_tcphdr (replicate 20 0)"

lemma tcp_hdr_zero_sel [simp]:
  "th_hl tcp_hdr_zero = 0" "\<not> th_fin tcp_hdr_zero" "\<not> th_syn tcp_hdr_zero" "\<not> th_rst tcp_hdr_zero" "\<not> th_psh tcp_hdr_zero"
  by (simp_all add: tcp_hdr_zero_def dec_tcphdr_def)

lemma dec_tcphdr_zero: "dec_tcphdr (replicate 20 0 @ d) = tcp_hdr_zero"
  by (simp add: tcp_hdr_zero_def dec_tcphdr_def get16_def get32_def nth_append)

lemma tcp_data_skb_text:
  assumes "sk_addr_family t \<noteq> AF_INET6"
  shows "tcp_text_skb (tcp_hdr_zero\<lparr>th_ack := True, th_psh := l\<rparr>) d (tcp_data_skb t d l)"
proof -
  define n where "n = length d"
  define z where "z = replicate 14 0 @ replicate 20 (0 :: u8)"
  have z: "replicate 54 0 = z @ replicate 20 0" "length z = 34"
    using replicate_add [of 14 40 "0 :: u8"] replicate_add [of 20 20 "0 :: u8"] by (simp_all add: z_def)
  define b0 where "b0 = (alloc_skb (54 + n))\<lparr>skb_data := 54, skb_len := of_nat n, skb_protocol := ucast IP_TCP, skb_dlen := of_nat n, skb_seq := 0\<rparr>"
  have b0: "skb_push (tcp_alloc_skb (sk_addr_family t) 0 n) n = b0"
    using assms by (simp add: tcp_alloc_skb_def skb_push_def skb_reserve_def Let_def b0_def alloc_skb_def)
  have m0: "skb_mem b0 = replicate 54 0 @ replicate n 0 @ []"
    by (simp add: b0_def alloc_skb_def replicate_add)
  define b1 where "b1 = b0\<lparr>skb_mem := z @ replicate 20 0 @ d\<rparr>"
  have "skb_put (int 54) d b0 = b0\<lparr>skb_mem := replicate 54 0 @ d @ []\<rparr>"
    by (rule skb_put_mid [OF m0]) (simp_all add: n_def)
  moreover have "skb_data b0 = int 54" by (simp add: b0_def)
  ultimately have b1: "skb_put (skb_data b0) d b0 = b1" unfolding b1_def z(1) by (simp only: append_assoc append_Nil2)
  have m1: "skb_mem b1 = z @ replicate 20 0 @ d" by (simp add: b1_def)
  have o: "int (tcp_hdr_for_sk t) = int 34" using assms by (simp add: tcp_hdr_for_sk_def)
  have ld: "skb_load dec_tcphdr (int 34) b1 = tcp_hdr_zero"
    using skb_load_mid [OF m1, of 34 dec_tcphdr] z(2) by (simp add: dec_tcphdr_zero)
  have st: "skb_put (int 34) (enc_tcphdr (tcp_hdr_zero\<lparr>th_ack := True, th_psh := l\<rparr>)) b1 =
      b1\<lparr>skb_mem := z @ enc_tcphdr (tcp_hdr_zero\<lparr>th_ack := True, th_psh := l\<rparr>) @ d\<rparr>"
    by (rule skb_put_mid [OF m1]) (simp_all add: z(2))
  have "tcp_data_skb t d l = b1\<lparr>skb_mem := z @ enc_tcphdr (tcp_hdr_zero\<lparr>th_ack := True, th_psh := l\<rparr>) @ d\<rparr>"
    unfolding tcp_data_skb_def n_def [symmetric] Let_def b0 b1 tcp_set_hdr_def o ld skb_store_def using st by simp
  then show ?thesis by (simp add: tcp_text_skb_def b1_def b0_def n_def z_def)
qed

lemma tcp_wire_csum: "put_bytes 16 (le16 c) (enc_tcphdr u @ d) = enc_tcphdr (u\<lparr>th_csum := c\<rparr>) @ d"
  by (simp add: put_bytes_def enc_tcphdr_def le16_def le32_def)

lemma tcp_transmit_wire:
  assumes "t = tsks s k" and "sk_addr_family t \<noteq> AF_INET6" and "tcp_text_skb th d skb" and "th_hl th = 0" and "length d \<le> 1546"
    and "daddr = un_v4 (sk_daddr t)" and "route_lookup daddr s = Some i" and "rt = routes s ! i"
    and "dev = devs s (rt_dev rt)" and "wf_netdev dev" and "arp_get_hwaddr (next_hop rt daddr) (arp_cache s) = Some dmac"
    and "length dmac = 6"
  shows "\<exists>h u. tun_tx (snd (snd (tcp_transmit_skb k skb seq s))) = tun_tx s @
      [dmac @ dev_hwaddr dev @ [0x08, 0x00] @ enc_iphdr h @ enc_tcphdr u @ d] \<and>
    checksum (enc_iphdr h) 0 = 0 \<and> ih_version h = 4 \<and> ih_ihl h = 5 \<and> ih_ttl h = 64 \<and> ih_proto h = IP_TCP \<and>
    unat (ntohs (ih_len h)) = 40 + length d \<and> ntohl (ih_saddr h) = dev_addr dev \<and> ntohl (ih_daddr h) = daddr \<and>
    th_hl u = 5 \<and> th_ack u = th_ack th \<and> th_rst u = th_rst th \<and> th_syn u = th_syn th \<and> th_fin u = th_fin th \<and>
    ntohs (th_sport u) = sk_sport t \<and> ntohs (th_dport u) = sk_dport t \<and> ntohl (th_seq u) = seq \<and>
    ntohl (th_ack_seq u) = rcv_nxt (tcb_of t)"
proof -
  define z where "z = replicate 14 0 @ replicate 20 (0 :: u8)"
  have m: "skb_mem skb = z @ enc_tcphdr th @ d" "skb_data skb = 54" "skb_len skb = of_nat (length d)" "skb_protocol skb = ucast IP_TCP"
    "length z = 34" using assms(3) by (simp_all add: tcp_text_skb_def z_def)
  have o: "int (tcp_hdr_for_sk t) = int 34" using assms(2) by (simp add: tcp_hdr_for_sk_def)
  have ld: "skb_load dec_tcphdr (int 34) skb = th"
    using skb_load_mid [OF m(1), of 34 dec_tcphdr] tcph.dec_enc [of th] m(5) by simp
  define u0 where "u0 = tcp_hton_hdr (tcp_fill_hdr t seq (th\<lparr>th_hl := 5\<rparr>))"
  define b1 where "b1 = skb_push skb 20"
  have b1: "skb_mem b1 = z @ enc_tcphdr th @ d" "skb_data b1 = 34" "skb_len b1 = of_nat (length d) + 20" "skb_protocol b1 = ucast IP_TCP"
    using m by (simp_all add: b1_def skb_push_def)
  have e: "skb_put (int 34 + 20) [] b1 = b1"
    using b1(1) m(5) by (simp add: skb_put_def skb_end_def put_bytes_def)
  define b2 where "b2 = b1\<lparr>skb_mem := z @ enc_tcphdr u0 @ d\<rparr>"
  have st: "skb_put (int 34) (enc_tcphdr u0) b1 = b2"
    unfolding b2_def by (rule skb_put_mid [OF b1(1)]) (simp_all add: m(5))
  define b3 where "b3 = b2\<lparr>skb_tcpcsum := tcp_v4_tcp_partion_checksum b2\<rparr>"
  have hl: "th_hl (tcp_fill_hdr t seq (th\<lparr>th_hl := 5\<rparr>)) = 5" by (simp add: tcp_fill_hdr_def Let_def)
  have upd: "upd_tsk k (\<lambda>_. tsks s k) s = s" by (simp add: upd_tsk_def)
  have tr: "tcp_transmit_skb k skb seq s = ip_output daddr b3 s"
    unfolding tcp_transmit_skb_def Let_def assms(1) [symmetric] o ld
    using assms(2,4,6) hl e st upd unfolding u0_def by (simp add: assms(1) b1_def [symmetric] b3_def skb_store_def)
  have l: "unat (of_nat (length d) + 20 :: u32) = 20 + length d"
    using assms(5) by (simp add: unat_word_ariths unat_of_nat take_bit_nat_eq_self)
  have b3: "skb_mem b3 = replicate 14 0 @ replicate 20 0 @ enc_tcphdr u0 @ d" "skb_data b3 = 34" "skb_protocol b3 = ucast IP_TCP"
    "unat (skb_len b3) = 20 + length d"
    using b1 l by (simp_all add: b3_def b2_def z_def)
  obtain h where h: "tun_tx (snd (snd (ip_output daddr b3 s))) = tun_tx s @
      [dmac @ dev_hwaddr dev @ [0x08, 0x00] @ enc_iphdr h @ take (unat (skb_len b3)) (ip_payload h (skb_tcpcsum b3) (enc_tcphdr u0 @ d))]"
    "checksum (enc_iphdr h) 0 = 0" "ih_version h = 4" "ih_ihl h = 5" "ih_ttl h = 64" "ih_proto h = IP_TCP"
    "unat (ntohs (ih_len h)) = unat (skb_len b3) + 20" "ntohl (ih_saddr h) = dev_addr dev" "ntohl (ih_daddr h) = daddr"
    using ip_output_wire [OF assms(7-12) b3(1) _ _ _ _ _ _ b3(2)] b3 assms(5) by (auto simp: csum_room_def)
  define u where "u = u0\<lparr>th_csum := tcp_v4_ip_partion_checksum (ih_saddr h) (ih_daddr h) (skb_tcpcsum b3)\<rparr>"
  have "take (unat (skb_len b3)) (ip_payload h (skb_tcpcsum b3) (enc_tcphdr u0 @ d)) = enc_tcphdr u @ d"
    unfolding b3(4) ip_payload_def h(6) tcp_wire_csum u_def by simp
  moreover have "th_hl u = 5 \<and> th_ack u = th_ack th \<and> th_rst u = th_rst th \<and> th_syn u = th_syn th \<and> th_fin u = th_fin th \<and>
    ntohs (th_sport u) = sk_sport t \<and> ntohs (th_dport u) = sk_dport t \<and> ntohl (th_seq u) = seq \<and>
    ntohl (th_ack_seq u) = rcv_nxt (tcb_of t)"
    by (simp add: u_def u0_def tcp_hton_hdr_def tcp_fill_hdr_def Let_def)
  ultimately show ?thesis
    unfolding tr using h b3(4) by (intro exI [of _ h] exI [of _ u]) simp
qed

section \<open>From stack to stack\<close>

lemma tcp_rearm_net [simp]:
  "tun_tx (tcp_rearm_rto_timer k s) = tun_tx s" "routes (tcp_rearm_rto_timer k s) = routes s" "devs (tcp_rearm_rto_timer k s) = devs s"
  "arp_cache (tcp_rearm_rto_timer k s) = arp_cache s" "tun_tx (tcp_rearm_user_timeout k s) = tun_tx s"
  "tcb_of (tsks (tcp_rearm_user_timeout k s) j) = tcb_of (tsks s j)"
  by (simp_all add: tcp_rearm_rto_timer_def tcp_release_rto_timer_def tcp_rearm_user_timeout_def tcp_cancel_linger_def tcp_add_linger_def
      Let_def case_prod_beta upd_tsk_def upd_timers_def)

lemma tcp_rearm_ids [simp]:
  "sk_addr_family (tsks (tcp_rearm_rto_timer k s) j) = sk_addr_family (tsks s j)" "sk_daddr (tsks (tcp_rearm_rto_timer k s) j) = sk_daddr (tsks s j)"
  "sk_sport (tsks (tcp_rearm_rto_timer k s) j) = sk_sport (tsks s j)" "sk_dport (tsks (tcp_rearm_rto_timer k s) j) = sk_dport (tsks s j)"
  "sk_write_queue (tsks (tcp_rearm_rto_timer k s) j) = sk_write_queue (tsks s j)"
  by (simp_all add: tcp_rearm_rto_timer_def tcp_release_rto_timer_def Let_def case_prod_beta upd_tsk_at)

text \<open>What both ends know of the direction of a connection: Ethernet and IP addresses, ports, the acknowledgement the sender repeats.\<close>

record tcp_flow =
  fl_eth :: bytes
  fl_saddr :: u32
  fl_daddr :: u32
  fl_sport :: u16
  fl_dport :: u16
  fl_ack :: u32

definition data_frame :: "tcp_flow \<Rightarrow> u32 \<Rightarrow> bytes \<Rightarrow> bytes \<Rightarrow> bool" where
  "data_frame fl sq d f \<longleftrightarrow> (\<exists>h u. f = fl_eth fl @ [0x08, 0x00] @ enc_iphdr h @ enc_tcphdr u @ d \<and>
    checksum (enc_iphdr h) 0 = 0 \<and> ih_version h = 4 \<and> ih_ihl h = 5 \<and> ih_ttl h = 64 \<and> ih_proto h = IP_TCP \<and>
    unat (ntohs (ih_len h)) = 40 + length d \<and> ntohl (ih_saddr h) = fl_saddr fl \<and> ntohl (ih_daddr h) = fl_daddr fl \<and>
    th_hl u = 5 \<and> th_ack u \<and> \<not> th_rst u \<and> \<not> th_syn u \<and> \<not> th_fin u \<and>
    ntohs (th_sport u) = fl_sport fl \<and> ntohs (th_dport u) = fl_dport fl \<and> ntohl (th_seq u) = sq \<and> ntohl (th_ack_seq u) = fl_ack fl)"

fun data_frames :: "tcp_flow \<Rightarrow> u32 \<Rightarrow> bytes list \<Rightarrow> bytes list \<Rightarrow> bool" where
  "data_frames fl sq [] fs = (fs = [])"
| "data_frames fl sq (d # ds) fs =
    (case fs of [] \<Rightarrow> False | f # fs \<Rightarrow> data_frame fl sq d f \<and> data_frames fl (sq + of_nat (length d)) ds fs)"

definition flow_of :: "netdev \<Rightarrow> bytes \<Rightarrow> tcp_sock \<Rightarrow> tcp_flow" where
  "flow_of dev dmac t = \<lparr>fl_eth = dmac @ dev_hwaddr dev, fl_saddr = dev_addr dev, fl_daddr = un_v4 (sk_daddr t), fl_sport = sk_sport t,
     fl_dport = sk_dport t, fl_ack = rcv_nxt (tcb_of t)\<rparr>"

text \<open>The sender can reach the address its socket is connected to.\<close>

definition snd_path :: "netdev \<Rightarrow> bytes \<Rightarrow> nat \<Rightarrow> tcpstate \<Rightarrow> bool" where
  "snd_path dev dmac k s \<longleftrightarrow> sk_addr_family (tsks s k) \<noteq> AF_INET6 \<and> wf_netdev dev \<and> length dmac = 6 \<and>
     (case route_lookup (un_v4 (sk_daddr (tsks s k))) s of None \<Rightarrow> False
      | Some i \<Rightarrow> dev = devs s (rt_dev (routes s ! i)) \<and>
          arp_get_hwaddr (next_hop (routes s ! i) (un_v4 (sk_daddr (tsks s k)))) (arp_cache s) = Some dmac)"

text \<open>What transmitting leaves alone on the way to the next segment.\<close>

definition snd_same :: "nat \<Rightarrow> tcpstate \<Rightarrow> tcpstate \<Rightarrow> bool" where
  "snd_same k s s' \<longleftrightarrow> routes s' = routes s \<and> devs s' = devs s \<and> arp_cache s' = arp_cache s \<and>
     (let f = tsks s k; f' = tsks s' k in sk_addr_family f' = sk_addr_family f \<and> sk_daddr f' = sk_daddr f \<and>
        sk_sport f' = sk_sport f \<and> sk_dport f' = sk_dport f \<and> rcv_nxt (tcb_of f') = rcv_nxt (tcb_of f) \<and>
        cwnd f' = cwnd f \<and> snd_wnd (tcb_of f') = snd_wnd (tcb_of f))"

lemma snd_same_trans: "snd_same k s s1 \<Longrightarrow> snd_same k s1 s2 \<Longrightarrow> snd_same k s s2"
  by (simp add: snd_same_def Let_def)

lemma snd_same_path: "snd_same k s s' \<Longrightarrow> snd_path dev dmac k s' = snd_path dev dmac k s \<and> flow_of dev dmac (tsks s' k) = flow_of dev dmac (tsks s k)"
  by (simp add: snd_same_def Let_def snd_path_def flow_of_def route_lookup_def split: option.split)

lemma snd_same_transmit: "snd_same k s (snd (snd (tcp_transmit_skb k skb seq s)))"
proof -
  obtain t s1 where t: "tsk_tx (tsks s k) t" "net_tx s s1" "snd (snd (tcp_transmit_skb k skb seq s)) = s1\<lparr>tsks := (tsks s)(k := t)\<rparr>"
    using tcp_transmit_skb_tx [of k s skb seq] unfolding seg_tx_def by blast
  then show ?thesis by (auto simp: snd_same_def Let_def tsk_tx_def net_tx_def)
qed

lemma snd_same_rearm: "snd_same k s (tcp_rearm_rto_timer k s)"
  by (simp add: snd_same_def Let_def)

lemma tcp_queue_transmit_wire:
  assumes "t = tsks s k" and "snd_path dev dmac k s" and "length d \<le> 1546"
    and "inflight t + of_nat (length d) \<le> umin (cwnd t) (snd_wnd (tcb_of t))"
  shows "\<exists>rc s' f. tcp_queue_transmit_skb k (tcp_data_skb t d l) env s = Some (rc, env, s') \<and> tun_tx s' = tun_tx s @ [f] \<and>
    data_frame (flow_of dev dmac t) (snd_nxt (tcb_of t)) d f \<and> snd_same k s s' \<and>
    snd_nxt (tcb_of (tsks s' k)) = snd_nxt (tcb_of t) + of_nat (length d) \<and> inflight (tsks s' k) = inflight t + of_nat (length d)"
proof -
  define daddr where "daddr = un_v4 (sk_daddr t)"
  have fam: "sk_addr_family t \<noteq> AF_INET6" using assms(1,2) by (simp add: snd_path_def)
  define th where "th = tcp_hdr_zero\<lparr>th_ack := True, th_psh := l\<rparr>"
  define b where "b = tcp_data_skb t d l"
  have b: "tcp_text_skb th d b" unfolding b_def th_def by (rule tcp_data_skb_text [OF fam])
  define w where "w = (of_nat (length d) :: u32)"
  have bw: "skb_dlen b = w" by (simp add: b_def w_def)
  have wt: "tcp_wait_snd_wnd k (skb_dlen b) env s = Some (env, s)"
    using assms(4) unfolding not_less [symmetric] bw w_def by (subst tcp_wait_snd_wnd.simps) (simp only: if_False assms(1))
  define b1 where "b1 = b\<lparr>skb_seq := snd_nxt (tcb_of t), skb_end_seq := snd_nxt (tcb_of t) + w\<rparr>"
  have b1: "tcp_text_skb th d b1" using b by (simp add: b1_def tcp_text_skb_def)
  define s1 where "s1 = tcp_enqueue_skb k b s"
  define s2 where "s2 = (if skb_queue_empty (sk_write_queue (tsks s k)) then tcp_rearm_rto_timer k s1 else s1)"
  have ld: "\<not> th_fin (skb_load dec_tcphdr (int (tcp_hdr_for_sk t)) b)"
  proof -
    have o: "int (tcp_hdr_for_sk t) = int 34" using fam by (simp add: tcp_hdr_for_sk_def)
    have "skb_load dec_tcphdr (int 34) b = th"
      using skb_load_mid [of b "replicate 14 0 @ replicate 20 0" "enc_tcphdr th @ d" 34 dec_tcphdr] b tcph.dec_enc [of th]
      by (simp add: tcp_text_skb_def)
    then show ?thesis unfolding o by (simp add: th_def)
  qed
  have s1: "tsks s1 k = t\<lparr>tcb_of := (tcb_of t)\<lparr>snd_nxt := snd_nxt (tcb_of t) + w\<rparr>, inflight := inflight t + w,
      sk_write_queue := skb_queue_tail (sk_write_queue t) b1\<rparr>" "tun_tx s1 = tun_tx s" "snd_same k s s1"
    using ld by (simp_all add: s1_def tcp_enqueue_skb_def Let_def upd_tsk_def upd_tcb_def b1_def bw snd_same_def flip: assms(1))
  define tx where "tx = tsks s2 k"
  have same2: "snd_same k s s2" using s1(3) snd_same_trans snd_same_rearm by (auto simp: s2_def)
  have s2: "sk_write_queue tx = skb_queue_tail (sk_write_queue t) b1" "snd_nxt (tcb_of tx) = snd_nxt (tcb_of t) + w"
    "inflight tx = inflight t + w" "tun_tx s2 = tun_tx s"
    using s1 by (simp_all add: s2_def tx_def)
  define j where "j = length (skb_list (sk_write_queue t))"
  have q: "skb_list (sk_write_queue tx) ! j = b1" "length (skb_list (sk_write_queue tx)) - 1 = j"
    by (simp_all add: s2(1) j_def nth_append)
  define r where "r = tcp_transmit_skb k b1 (snd_nxt (tcb_of t)) s2"
  have seq: "skb_seq b1 = snd_nxt (tcb_of t)" by (simp add: b1_def)
  define s3 where "s3 = upd_tsk k (\<lambda>t. t\<lparr>sk_write_queue := skb_queue_upd j (\<lambda>_. fst (snd r)) (sk_write_queue t)\<rparr>) (snd (snd r))"
  have qt: "tcp_queue_transmit_skb k b env s = Some (fst r, env, s3)"
    unfolding tcp_queue_transmit_skb_def wt option.case prod.case Let_def s1_def [symmetric] s2_def [symmetric] tx_def [symmetric]
      tcp_transmit_queued_def q seq case_prod_beta prod.sel r_def [symmetric] s3_def [symmetric] by (rule refl)
  have path: "snd_path dev dmac k s2" and flow: "flow_of dev dmac tx = flow_of dev dmac t"
    using snd_same_path [OF same2] assms(1,2) by (simp_all add: tx_def)
  then obtain i where rl: "route_lookup (un_v4 (sk_daddr tx)) s2 = Some i" and dv: "dev = devs s2 (rt_dev (routes s2 ! i))"
    and ar: "arp_get_hwaddr (next_hop (routes s2 ! i) (un_v4 (sk_daddr tx))) (arp_cache s2) = Some dmac"
    and pf: "sk_addr_family tx \<noteq> AF_INET6" "wf_netdev dev" "length dmac = 6"
    by (auto simp: snd_path_def tx_def split: option.splits)
  have hl0: "th_hl th = 0" by (simp add: th_def)
  have th: "th_ack th" "\<not> th_rst th" "\<not> th_syn th" "\<not> th_fin th" by (simp_all add: th_def)
  obtain f where f: "tun_tx (snd (snd r)) = tun_tx s2 @ [f]" "data_frame (flow_of dev dmac tx) (snd_nxt (tcb_of t)) d f"
    using tcp_transmit_wire [OF tx_def pf(1) b1 hl0 assms(3) refl rl refl dv pf(2) ar pf(3), of "snd_nxt (tcb_of t)", folded r_def] th
    unfolding data_frame_def flow_of_def by auto
  have "tun_tx s3 = tun_tx (snd (snd r))" "snd_nxt (tcb_of (tsks s3 k)) = snd_nxt (tcb_of tx)" "inflight (tsks s3 k) = inflight tx"
    by (simp_all add: s3_def upd_tsk_def r_def tx_def)
  moreover have "snd_same k s s3"
  proof -
    have "snd_same k (snd (snd r)) s3" by (simp add: snd_same_def Let_def s3_def upd_tsk_def)
    then show ?thesis using snd_same_trans [OF snd_same_trans [OF same2 snd_same_transmit]] by (simp add: r_def)
  qed
  ultimately show ?thesis
    using qt f s2 flow by (intro exI [of _ "fst r"] exI [of _ s3] exI [of _ f]) (simp add: w_def b_def)
qed

text \<open>The whole buffer, cut into segments of at most \<open>mss\<close> bytes.\<close>

lemma tcp_send_loop_frames:
  assumes "0 < mss" and "mss \<le> 1546" and "snd_path dev dmac k s"
    and "unat (inflight (tsks s k)) + length buf \<le> unat (umin (cwnd (tsks s k)) (snd_wnd (tcb_of (tsks s k))))"
  shows "\<exists>s' ds fs. tcp_send_loop k mss buf env s = Some (env, s') \<and> tun_tx s' = tun_tx s @ fs \<and> concat ds = buf \<and>
    (\<forall>d \<in> set ds. d \<noteq> [] \<and> length d \<le> 1546) \<and> data_frames (flow_of dev dmac (tsks s k)) (snd_nxt (tcb_of (tsks s k))) ds fs \<and>
    snd_nxt (tcb_of (tsks s' k)) = snd_nxt (tcb_of (tsks s k)) + of_nat (length buf)"
  using assms(3,4)
proof (induction buf arbitrary: s rule: length_induct)
  case (1 buf)
  show ?case
  proof (cases "buf = []")
    case True
    then show ?thesis by (intro exI [of _ s] exI [of _ "[]"]) (simp add: tcp_send_loop.simps)
  next
    case False
    define d where "d = take mss buf"
    define l where "l = (drop mss buf = [])"
    have d: "buf = d @ drop mss buf" "d \<noteq> []" "length d \<le> 1546" "length (drop mss buf) < length buf" "length d + length (drop mss buf) = length buf"
      using False assms(1,2) by (auto simp: d_def)
    have lt: "unat (inflight (tsks s k)) + length d < 2 ^ 32"
      using 1(3) d(5) u32_less [of "umin (cwnd (tsks s k)) (snd_wnd (tcb_of (tsks s k)))"] by simp
    then have un: "unat (inflight (tsks s k) + of_nat (length d)) = unat (inflight (tsks s k)) + length d"
      by (simp add: unat_word_ariths unat_of_nat take_bit_nat_eq_self)
    then have "inflight (tsks s k) + of_nat (length d) \<le> umin (cwnd (tsks s k)) (snd_wnd (tcb_of (tsks s k)))"
      using 1(3) d(5) by (simp add: word_le_nat_alt)
    from tcp_queue_transmit_wire [OF refl 1(2) d(3) this] obtain rc s1 f where s1:
      "tcp_queue_transmit_skb k (tcp_data_skb (tsks s k) d l) env s = Some (rc, env, s1)" "tun_tx s1 = tun_tx s @ [f]"
      "data_frame (flow_of dev dmac (tsks s k)) (snd_nxt (tcb_of (tsks s k))) d f" "snd_same k s s1"
      "snd_nxt (tcb_of (tsks s1 k)) = snd_nxt (tcb_of (tsks s k)) + of_nat (length d)"
      "inflight (tsks s1 k) = inflight (tsks s k) + of_nat (length d)" by blast
    have fl: "flow_of dev dmac (tsks s1 k) = flow_of dev dmac (tsks s k)" "snd_path dev dmac k s1"
      using snd_same_path [OF s1(4)] 1(2) by simp_all
    have wnd: "unat (inflight (tsks s1 k)) + length (drop mss buf) \<le> unat (umin (cwnd (tsks s1 k)) (snd_wnd (tcb_of (tsks s1 k))))"
    proof -
      have "cwnd (tsks s1 k) = cwnd (tsks s k)" "snd_wnd (tcb_of (tsks s1 k)) = snd_wnd (tcb_of (tsks s k))"
        using s1(4) by (simp_all add: snd_same_def Let_def)
      then show ?thesis unfolding s1(6) un using 1(3) d(5) by simp
    qed
    obtain s2 ds fs where s2: "tcp_send_loop k mss (drop mss buf) env s1 = Some (env, s2)" "tun_tx s2 = tun_tx s1 @ fs"
      "concat ds = drop mss buf" "\<forall>d \<in> set ds. d \<noteq> [] \<and> length d \<le> 1546"
      "data_frames (flow_of dev dmac (tsks s1 k)) (snd_nxt (tcb_of (tsks s1 k))) ds fs"
      "snd_nxt (tcb_of (tsks s2 k)) = snd_nxt (tcb_of (tsks s1 k)) + of_nat (length (drop mss buf))"
      using 1(1) [rule_format, OF d(4) fl(2) wnd] by blast
    have "tcp_send_loop k mss buf env s = Some (env, s2)"
      using False s1(1) s2(1) by (subst tcp_send_loop.simps) (simp add: d_def l_def)
    moreover have "of_nat (length buf) = (of_nat (length d) + of_nat (length (drop mss buf)) :: u32)"
      unfolding d(5) [symmetric] by simp
    ultimately show ?thesis
      using s1 s2 d(1,2,3) fl(1) by (intro exI [of _ s2] exI [of _ "d # ds"] exI [of _ "f # fs"]) (simp add: add.assoc)
  qed
qed

text \<open>The receiver, with \<open>n\<close> bytes still to come.\<close>

definition rcv_sync :: "tcp_flow \<Rightarrow> nat \<Rightarrow> nat \<Rightarrow> tcpstate \<Rightarrow> bool" where
  "rcv_sync fl n k s \<longleftrightarrow>
     (let t = tsks s k; b = tcb_of t in
      inet_lookup (fl_saddr fl) (fl_daddr fl) (fl_sport fl) (fl_dport fl) s = Some k \<and> sk_state t = TCP_ESTABLISHED \<and> quiet t \<and>
      0 < rcv_wnd b \<and> unat (rcv_nxt b) + n + unat (rcv_wnd b) < 2 ^ 32 \<and> rcv_ok t \<and> wf_queue (ofo_queue t) \<and> skb_list (ofo_queue t) = [] \<and>
      length (skb_list (sk_receive_queue t)) + 1 + n < 2 ^ 32 \<and> snd_una b \<le> fl_ack fl \<and> fl_ack fl \<le> snd_nxt b)"

lemma rx_data_frame:
  assumes "length (fl_eth fl) = 12" and "rcv_sync fl n k s" and "data_frame fl (rcv_nxt (tcb_of (tsks s k))) d f"
    and "0 < length d" and "length d \<le> 1546" and "length d \<le> n"
  shows "\<exists>skb s'. netdev_rx_frame f env s = Some (skb, env, s') \<and> rcv_sync fl (n - length d) k s' \<and>
    rcv_stream (tsks s' k) = rcv_stream (tsks s k) @ d \<and> rcv_nxt (tcb_of (tsks s' k)) = rcv_nxt (tcb_of (tsks s k)) + of_nat (length d)"
proof -
  obtain h u where f: "f = fl_eth fl @ [0x08, 0x00] @ enc_iphdr h @ enc_tcphdr u @ d"
    and h: "checksum (enc_iphdr h) 0 = 0" "ih_version h = 4" "ih_ihl h = 5" "ih_ttl h = 64" "ih_proto h = IP_TCP"
      "unat (ntohs (ih_len h)) = 40 + length d" "ntohl (ih_saddr h) = fl_saddr fl" "ntohl (ih_daddr h) = fl_daddr fl"
    and u: "th_hl u = 5" "th_ack u" "\<not> th_rst u" "\<not> th_syn u" "\<not> th_fin u" "ntohs (th_sport u) = fl_sport fl"
      "ntohs (th_dport u) = fl_dport fl" "ntohl (th_seq u) = rcv_nxt (tcb_of (tsks s k))" "ntohl (th_ack_seq u) = fl_ack fl"
    using assms(3) unfolding data_frame_def by blast
  have r: "inet_lookup (fl_saddr fl) (fl_daddr fl) (fl_sport fl) (fl_dport fl) s = Some k" "quiet (tsks s k)"
    "skb_list (ofo_queue (tsks s k)) = []" "wf_queue (ofo_queue (tsks s k))" "0 < rcv_wnd (tcb_of (tsks s k))"
    "unat (rcv_nxt (tcb_of (tsks s k))) + n + unat (rcv_wnd (tcb_of (tsks s k))) < 2 ^ 32"
    "length (skb_list (sk_receive_queue (tsks s k))) + 1 + n < 2 ^ 32"
    "snd_una (tcb_of (tsks s k)) \<le> fl_ack fl" "fl_ack fl \<le> snd_nxt (tcb_of (tsks s k))"
    using assms(2) by (simp_all add: rcv_sync_def Let_def)
  have rdy: "rcv_ready (tsks s k)" using assms(2) by (simp add: rcv_sync_def rcv_ready_def Let_def)
  obtain skb s' where s': "tcp_in (rx_skb (fl_eth fl) h (enc_tcphdr u @ d)) env s = Some (skb, env, s')"
    "rcv_stream (tsks s' k) = rcv_stream (tsks s k) @ d" "rcv_ok (tsks s' k)"
    "rcv_nxt (tcb_of (tsks s' k)) = rcv_nxt (tcb_of (tsks s k)) + of_nat (length d)"
    "quiet (tsks s' k)" "sk_dir s' = sk_dir s" "snd_una (tcb_of (tsks s' k)) = fl_ack fl" "snd_nxt (tcb_of (tsks s' k)) = snd_nxt (tcb_of (tsks s k))"
    "rcv_wnd (tcb_of (tsks s' k)) = rcv_wnd (tcb_of (tsks s k))" "sk_state (tsks s' k) = TCP_ESTABLISHED"
    "ofo_queue (tsks s' k) = ofo_queue (tsks s k)"
    "length (skb_list (sk_receive_queue (tsks s' k))) = length (skb_list (sk_receive_queue (tsks s k))) + 1"
    using tcp_in_text [OF assms(1,4,5) h(3,6) u(1-5), of s k env] rdy r(1-3,8,9) unfolding h(7,8) u(6-9) by auto
  have rx: "netdev_rx_frame f env s = Some (skb, env, s')"
    unfolding f using rx_ipv4 [OF assms(1), of "enc_tcphdr u @ d" h env s] assms(5) h s'(1) by simp
  have "unat (rcv_nxt (tcb_of (tsks s k)) + of_nat (length d)) = unat (rcv_nxt (tcb_of (tsks s k))) + length d"
    using r(6) assms(5,6) by (simp add: unat_word_ariths unat_of_nat take_bit_nat_eq_self)
  moreover have "length (skb_list (sk_receive_queue (tsks s k))) + 1 + 1 + (n - length d) < 2 ^ 32"
    using r(7) assms(4,6) by linarith
  ultimately have "rcv_sync fl (n - length d) k s'"
    unfolding rcv_sync_def Let_def inet_lookup_dir [OF s'(6)] s'(4,7-12) using r s'(3,5) assms(6) by simp
  then show ?thesis using rx s'(2,4) by blast
qed

fun rx_frames :: "bytes list \<Rightarrow> sched \<Rightarrow> tcpstate \<Rightarrow> tcpstate option" where
  "rx_frames [] env s = Some s"
| "rx_frames (f # fs) env s = (case netdev_rx_frame f env s of None \<Rightarrow> None | Some (_, env, s) \<Rightarrow> rx_frames fs env s)"

lemma rx_data_frames:
  assumes "length (fl_eth fl) = 12" and "rcv_sync fl n k s" and "data_frames fl (rcv_nxt (tcb_of (tsks s k))) ds fs"
    and "\<forall>d \<in> set ds. d \<noteq> [] \<and> length d \<le> 1546" and "length (concat ds) \<le> n"
  shows "\<exists>s'. rx_frames fs env s = Some s' \<and> rcv_sync fl (n - length (concat ds)) k s' \<and>
    rcv_stream (tsks s' k) = rcv_stream (tsks s k) @ concat ds \<and>
    rcv_nxt (tcb_of (tsks s' k)) = rcv_nxt (tcb_of (tsks s k)) + of_nat (length (concat ds))"
  using assms(2-)
proof (induction ds arbitrary: fs n s)
  case (Cons d ds)
  then obtain f fs' where fs: "fs = f # fs'" "data_frame fl (rcv_nxt (tcb_of (tsks s k))) d f"
    "data_frames fl (rcv_nxt (tcb_of (tsks s k)) + of_nat (length d)) ds fs'" by (auto split: list.splits)
  have d: "0 < length d" "length d \<le> 1546" "length d \<le> n" using Cons.prems(3,4) by auto
  obtain skb s1 where s1: "netdev_rx_frame f env s = Some (skb, env, s1)" "rcv_sync fl (n - length d) k s1"
    "rcv_stream (tsks s1 k) = rcv_stream (tsks s k) @ d" "rcv_nxt (tcb_of (tsks s1 k)) = rcv_nxt (tcb_of (tsks s k)) + of_nat (length d)"
    using rx_data_frame [OF assms(1) Cons.prems(1) fs(2) d] by blast
  have "\<forall>d \<in> set ds. d \<noteq> [] \<and> length d \<le> 1546" "length (concat ds) \<le> n - length d" using Cons.prems(3,4) by auto
  from Cons.IH [OF s1(2) fs(3) [folded s1(4)] this] show ?case
    using s1 by (auto simp: fs(1) add.assoc diff_diff_eq)
qed simp

text \<open>
  Property C3. Data goes from stack to stack: when the window has room, \<open>tcp_send\<close> takes the whole buffer, cuts it into segments and
  writes one frame for each; a second stack whose socket is in step with the sender (same connection, \<open>rcv_nxt\<close> where the sender's
  \<open>snd_nxt\<close> is, an acceptable acknowledgement, window open) and that receives these frames in order has its stream extended by
  exactly the bytes of the buffer, is in step with the sender again, and a read returns the first bytes of the stream.
\<close>

theorem tcp_end_to_end:
  assumes "snd_path dev dmac ka a" and "0 < smss (tsks a ka)" and "unat (smss (tsks a ka)) \<le> 1546"
    and "unat (inflight (tsks a ka)) + length buf \<le> unat (umin (cwnd (tsks a ka)) (snd_wnd (tcb_of (tsks a ka))))"
    and "rcv_sync (flow_of dev dmac (tsks a ka)) (length buf) kb b" and "rcv_nxt (tcb_of (tsks b kb)) = snd_nxt (tcb_of (tsks a ka))"
    and "len < 2 ^ 31"
  shows "\<exists>a' b' frames. tcp_send ka buf env a = Some (int (length buf), env, a') \<and> tun_tx a' = tun_tx a @ frames \<and>
    rx_frames frames env' b = Some b' \<and> rcv_stream (tsks b' kb) = rcv_stream (tsks b kb) @ buf \<and>
    rcv_nxt (tcb_of (tsks b' kb)) = snd_nxt (tcb_of (tsks a' ka)) \<and>
    fst (tcp_data_dequeue len (tsks b' kb)) = take len (rcv_stream (tsks b kb) @ buf)"
proof -
  have mss: "0 < unat (smss (tsks a ka))" using assms(2) by (simp add: word_less_nat_alt)
  obtain a1 ds fs where a1: "tcp_send_loop ka (unat (smss (tsks a ka))) buf env a = Some (env, a1)" "tun_tx a1 = tun_tx a @ fs" "concat ds = buf"
    "\<forall>d \<in> set ds. d \<noteq> [] \<and> length d \<le> 1546" "data_frames (flow_of dev dmac (tsks a ka)) (snd_nxt (tcb_of (tsks a ka))) ds fs"
    "snd_nxt (tcb_of (tsks a1 ka)) = snd_nxt (tcb_of (tsks a ka)) + of_nat (length buf)"
    using tcp_send_loop_frames [OF mss assms(3,1,4), of env] by blast
  have eth: "length (fl_eth (flow_of dev dmac (tsks a ka))) = 12" using assms(1) by (simp add: flow_of_def snd_path_def wf_netdev_def)
  obtain b' where b': "rx_frames fs env' b = Some b'" "rcv_sync (flow_of dev dmac (tsks a ka)) (length buf - length (concat ds)) kb b'"
    "rcv_stream (tsks b' kb) = rcv_stream (tsks b kb) @ concat ds"
    "rcv_nxt (tcb_of (tsks b' kb)) = rcv_nxt (tcb_of (tsks b kb)) + of_nat (length (concat ds))"
    using rx_data_frames [OF eth assms(5) a1(5) [folded assms(6)] a1(4)] a1(3) by auto
  have "rcv_ok (tsks b' kb)" using b'(2) by (simp add: rcv_sync_def Let_def)
  moreover obtain x n t where dq: "tcp_data_dequeue len (tsks b' kb) = (x, n, t)" by (metis prod_cases3)
  ultimately have "x = take len (rcv_stream (tsks b' kb))" using dequeue_stream assms(7) by blast
  moreover have "tcp_send ka buf env a = Some (int (length buf), env, tcp_rearm_user_timeout ka a1)" by (simp add: tcp_send_def a1(1))
  ultimately show ?thesis
    using a1(2,3,6) b' assms(6) dq by (intro exI [of _ "tcp_rearm_user_timeout ka a1"] exI [of _ b'] exI [of _ fs]) simp
qed

definition tcp_peer :: "tcp_sock \<Rightarrow> u32 \<Rightarrow> u32 \<Rightarrow> u16 \<Rightarrow> u16 \<Rightarrow> u32 \<Rightarrow> u32 \<Rightarrow> tcp_sock" where
  "tcp_peer t sa da sp dp nx rn = t\<lparr>sk_protocol := 6, sk_state := TCP_ESTABLISHED, sk_addr_family := AF_INET, sk_saddr := set_v4 sa in6_zero,
     sk_daddr := set_v4 da in6_zero, sk_sport := sp, sk_dport := dp, smss := 3, sk_receive_queue := skb_queue_init,
     tcb_of := (tcb_of t)\<lparr>snd_una := nx, snd_nxt := nx, snd_wnd := 100, rcv_nxt := rn, rcv_wnd := 1000, real_rcv_wnd := 1000\<rparr>\<rparr>"

definition tcp_client_demo :: tcpstate where
  "tcp_client_demo = upd_tsk 0 (\<lambda>t. tcp_peer t 0x0a000004 0x0a000009 40000 80 7 50) udp_client_demo"

definition tcp_server_demo :: tcpstate where
  "tcp_server_demo = (upd_tsk 0 (\<lambda>t. tcp_peer t 0x0a000009 0x0a000004 80 40000 50 7) (stack_static (\<lambda>_. 0) (\<lambda>_. 0)))\<lparr>sockets := [0]\<rparr>"

lemma tcp_client_demo_ok:
  "snd_path (netdev_init Dev_tap) [2, 3, 4, 5, 6, 7] 0 tcp_client_demo" "smss (tsks tcp_client_demo 0) = 3" "tun_tx tcp_client_demo = []"
  "inflight (tsks tcp_client_demo 0) = 0" "umin (cwnd (tsks tcp_client_demo 0)) (snd_wnd (tcb_of (tsks tcp_client_demo 0))) = 100"
  "snd_nxt (tcb_of (tsks tcp_client_demo 0)) = 7"
proof -
  have t: "tsks udp_client_demo 0 = tcp_alloc_sock"
    by (simp add: udp_client_demo_def route_init_def route_add_def Let_def stack_static_def)
  have n: "routes tcp_client_demo = routes udp_client_demo" "devs tcp_client_demo = devs udp_client_demo"
    "arp_cache tcp_client_demo = arp_cache udp_client_demo" "tun_tx tcp_client_demo = tun_tx udp_client_demo"
    by (simp_all add: tcp_client_demo_def upd_tsk_def)
  have p: "tsks tcp_client_demo 0 = tcp_peer tcp_alloc_sock 0x0a000004 0x0a000009 40000 80 7 50"
    by (simp add: tcp_client_demo_def t)
  have "route_lookup 0x0a000009 tcp_client_demo = Some 1" using udp_client_demo_net(1) by (simp add: route_lookup_def n)
  then show "snd_path (netdev_init Dev_tap) [2, 3, 4, 5, 6, 7] 0 tcp_client_demo"
    using udp_client_demo_net(2,3) wf_netdev_init by (simp add: snd_path_def p tcp_peer_def n)
  show "smss (tsks tcp_client_demo 0) = 3" "tun_tx tcp_client_demo = []" "inflight (tsks tcp_client_demo 0) = 0"
    "umin (cwnd (tsks tcp_client_demo 0)) (snd_wnd (tcb_of (tsks tcp_client_demo 0))) = 100" "snd_nxt (tcb_of (tsks tcp_client_demo 0)) = 7"
    using udp_client_demo_net(5) by (simp_all add: p n tcp_peer_def tcp_alloc_sock_def umin_def)
qed

lemma tcp_server_demo_ok:
  "rcv_sync (flow_of (netdev_init Dev_tap) [2, 3, 4, 5, 6, 7] (tsks tcp_client_demo 0)) (length [1, 2, 3, 4, 5 :: u8]) 0 tcp_server_demo"
  "rcv_nxt (tcb_of (tsks tcp_server_demo 0)) = 7" "rcv_stream (tsks tcp_server_demo 0) = []"
proof -
  have t: "tsks udp_client_demo 0 = tcp_alloc_sock"
    by (simp add: udp_client_demo_def route_init_def route_add_def Let_def stack_static_def)
  have fl: "flow_of (netdev_init Dev_tap) [2, 3, 4, 5, 6, 7] (tsks tcp_client_demo 0) =
    \<lparr>fl_eth = [2, 3, 4, 5, 6, 7, 0x00, 0x0c, 0x29, 0x6d, 0x50, 0x25], fl_saddr = 0x0a000004, fl_daddr = 0x0a000009, fl_sport = 40000,
     fl_dport = 80, fl_ack = 50\<rparr>"
    by (simp add: flow_of_def tcp_client_demo_def t tcp_peer_def netdev_init_def netdev_alloc_def)
  have p: "tsks tcp_server_demo 0 = tcp_peer tcp_alloc_sock 0x0a000009 0x0a000004 80 40000 50 7"
    "sockets tcp_server_demo = [0]" "socks tcp_server_demo 0 = socket_zero"
    by (simp_all add: tcp_server_demo_def upd_tsk_def stack_static_def)
  have l: "inet_lookup 0x0a000004 0x0a000009 40000 80 tcp_server_demo = Some 0"
    by (simp add: inet_lookup_def socket_lookup_def tcp_lookup_established_def p tcp_sock_match_established_def tcp_peer_def socket_zero_def)
  show "rcv_sync (flow_of (netdev_init Dev_tap) [2, 3, 4, 5, 6, 7] (tsks tcp_client_demo 0)) (length [1, 2, 3, 4, 5 :: u8]) 0 tcp_server_demo"
    unfolding rcv_sync_def fl Let_def using l
    by (simp add: p tcp_peer_def tcp_alloc_sock_def quiet_def rcv_ok_def)
  show "rcv_nxt (tcb_of (tsks tcp_server_demo 0)) = 7" "rcv_stream (tsks tcp_server_demo 0) = []"
    by (simp_all add: p tcp_peer_def rcv_stream_def)
qed

theorem tcp_end_to_end_witness:
  "\<exists>a' b' frames. tcp_send 0 [1, 2, 3, 4, 5] [] tcp_client_demo = Some (5, [], a') \<and> tun_tx a' = frames \<and>
    rx_frames frames [] tcp_server_demo = Some b' \<and> rcv_stream (tsks b' 0) = [1, 2, 3, 4, 5] \<and>
    fst (tcp_data_dequeue 4 (tsks b' 0)) = [1, 2, 3, 4]"
  using tcp_end_to_end [OF tcp_client_demo_ok(1), of "[1, 2, 3, 4, 5]" 0 tcp_server_demo 4 "[]" "[]"]
    tcp_client_demo_ok(2-) tcp_server_demo_ok by (simp, blast)

end
