(* ===== verification/Tcp_Reorder.thy ===== *)
theory Tcp_Reorder
  imports Tcp_Delivery
begin

text \<open>
  Text that arrives in any order: what the input path does with a segment before, at and behind \<open>rcv_nxt\<close>, the receiving side as the set
  of segments of a buffer it has seen, and delivery over a network that reorders, repeats and loses frames.
\<close>

section \<open>A segment at any place\<close>

lemma tcp_sacks_loop_part: "ack_part (tcp_sacks_loop a b q i t) = ack_part t \<and> sk_ids (tcp_sacks_loop a b q i t) = sk_ids t \<and>
    sk_write_queue (tcp_sacks_loop a b q i t) = sk_write_queue t"
  by (induction a b q i t rule: tcp_sacks_loop.induct) (simp_all add: Let_def ack_part_def sk_ids_def)

lemma tcp_calculate_sacks_part:
  "ack_part (tcp_calculate_sacks a b t) = ack_part t" "sk_ids (tcp_calculate_sacks a b t) = sk_ids t"
  "sk_write_queue (tcp_calculate_sacks a b t) = sk_write_queue t"
  by (simp_all add: tcp_calculate_sacks_def tcp_sacks_loop_part) (simp_all add: ack_part_def sk_ids_def)

lemma tcp_send_ack_quiet:
  assumes "quiet (tsks s k)"
  shows "quiet (tsks (snd (tcp_send_ack k s)) k)" "tcb_of (tsks (snd (tcp_send_ack k s)) k) = tcb_of (tsks s k)"
    "sk_dir (snd (tcp_send_ack k s)) = sk_dir s"
  using assms by (simp_all add: sk_dir_send_ack) (simp_all add: quiet_def tcp_send_ack_def Let_def case_prod_beta)

text \<open>What every segment leaves alone in the receiver.\<close>

definition rx_keeps :: "nat \<Rightarrow> u32 \<Rightarrow> tcpstate \<Rightarrow> tcpstate \<Rightarrow> bool" where
  "rx_keeps k ack s s' \<longleftrightarrow> quiet (tsks s' k) \<and> sk_dir s' = sk_dir s \<and>
     snd_una (tcb_of (tsks s' k)) \<in> {snd_una (tcb_of (tsks s k)), ack} \<and>
     snd_nxt (tcb_of (tsks s' k)) = snd_nxt (tcb_of (tsks s k)) \<and> rcv_wnd (tcb_of (tsks s' k)) = rcv_wnd (tcb_of (tsks s k)) \<and>
     sk_state (tsks s' k) = sk_state (tsks s k)"

text \<open>A segment in front of \<open>rcv_nxt\<close> is answered and dropped.\<close>

lemma tcp_input_old:
  assumes "sk_state (tsks s k) = TCP_ESTABLISHED" and "\<not> th_rst th" and "th_seq th < rcv_nxt (tcb_of (tsks s k))" and "quiet (tsks s k)"
  shows "\<exists>skb' s'. tcp_input_state k th opts skb saddr fam env s = Some (0, skb', env, s') \<and>
    rcv_part (tsks s' k) = rcv_part (tsks s k) \<and> rx_keeps k ack s s'"
proof -
  have "\<not> tcp_verify_segment th skb (tsks s k)" using assms(3) by (simp add: tcp_verify_segment_def)
  then have "tcp_input_state k th opts skb saddr fam env s = Some (0, free_skb skb, env, snd (tcp_send_ack k s))"
    unfolding tcp_input_state_def using assms(1,2) by simp
  then show ?thesis using tcp_send_ack_quiet [OF assms(4)] by (intro exI conjI) (assumption, simp_all add: rx_keeps_def)
qed

text \<open>A segment behind a gap is put into the out-of-order queue and answered.\<close>

lemma tcp_data_queue_ofo:
  assumes "rcv_wnd (tcb_of (tsks s k)) \<noteq> 0" and "skb_seq skb \<noteq> rcv_nxt (tcb_of (tsks s k))" and "quiet (tsks s k)"
  shows "\<exists>skb' s'. tcp_data_queue k skb s = (0, skb', s') \<and>
    rcv_part (tsks s' k) = rcv_part ((tsks s k)\<lparr>ofo_queue := fst (tcp_data_insert_ordered (ofo_queue (tsks s k)) skb)\<rparr>) \<and>
    tcb_of (tsks s' k) = tcb_of (tsks s k) \<and> quiet (tsks s' k) \<and> sk_dir s' = sk_dir s"
proof -
  obtain q b where qb: "tcp_data_insert_ordered (ofo_queue (tsks s k)) skb = (q, b)" by fastforce
  define s1 where "s1 = upd_tsk k (\<lambda>t. t\<lparr>ofo_queue := q\<rparr>) s"
  define s2 where "s2 = (if sackok (tsks s1 k) then upd_tsk k (tcp_calculate_sacks (skb_seq b) (skb_end_seq b)) s1 else s1)"
  have s1: "tsks s1 k = (tsks s k)\<lparr>ofo_queue := q\<rparr>" "sk_dir s1 = sk_dir s" by (simp_all add: s1_def upd_tsk_at sk_ids_def)
  have s2: "ack_part (tsks s2 k) = ack_part (tsks s1 k)" "sk_ids (tsks s2 k) = sk_ids (tsks s1 k)"
    "sk_write_queue (tsks s2 k) = sk_write_queue (tsks s1 k)" "sk_dir s2 = sk_dir s1"
    by (simp_all add: s2_def upd_tsk_at tcp_calculate_sacks_part)
  have q2: "quiet (tsks s2 k)" using s2(2,3) s1(1) assms(3) by (simp add: quiet_def sk_ids_def)
  have eq: "tcp_data_queue k skb s = (0, b, snd (tcp_send_ack k s2))"
    using assms(1,2) by (simp add: tcp_data_queue_def Let_def case_prod_beta qb s1_def s2_def)
  have "tcb_of (tsks s2 k) = tcb_of (tsks s k)" using s2(1) s1(1) by (simp add: ack_part_def)
  moreover have "rcv_part (tsks s2 k) = rcv_part ((tsks s k)\<lparr>ofo_queue := q\<rparr>)" using ack_part_rcv [OF s2(1)] s1(1) by simp
  ultimately show ?thesis
    using eq tcp_send_ack_quiet [OF q2] s2(4) s1(2) qb by (intro exI conjI) (assumption, simp_all)
qed

lemma tcp_input_gap:
  assumes st: "sk_state (tsks s k) = TCP_ESTABLISHED"
    and fl: "th_ack th" "\<not> th_rst th" "\<not> th_syn th" "\<not> th_fin th"
    and seq: "rcv_nxt (tcb_of (tsks s k)) < th_seq th" "th_seq th \<le> rcv_nxt (tcb_of (tsks s k)) + rcv_wnd (tcb_of (tsks s k))"
      "skb_seq skb = th_seq th" "0 < skb_dlen skb" and wnd: "0 < rcv_wnd (tcb_of (tsks s k))"
    and ack: "snd_una (tcb_of (tsks s k)) \<le> th_ack_seq th" "th_ack_seq th \<le> snd_nxt (tcb_of (tsks s k))" and quiet: "quiet (tsks s k)"
  shows "\<exists>skb' s'. tcp_input_state k th opts skb saddr fam env s = Some (0, skb', env, s') \<and>
    rcv_part (tsks s' k) = rcv_part ((tsks s k)\<lparr>ofo_queue := fst (tcp_data_insert_ordered (ofo_queue (tsks s k)) skb)\<rparr>) \<and>
    rx_keeps k (th_ack_seq th) s s'"
proof -
  have v: "tcp_verify_segment th skb (tsks s k)" using seq wnd by (auto simp: tcp_verify_segment_def)
  obtain s1 where s1: "tcp_ack_common k th skb s = Inr s1" "rcv_part (tsks s1 k) = rcv_part (tsks s k)"
    "snd_una (tcb_of (tsks s1 k)) = th_ack_seq th" "snd_nxt (tcb_of (tsks s1 k)) = snd_nxt (tcb_of (tsks s k))"
    "quiet (tsks s1 k)" "sk_dir s1 = sk_dir s"
    using tcp_ack_common_passes [OF ack seq(4)] quiet by blast
  have e: "sk_state (tsks s1 k) = TCP_ESTABLISHED" "rcv_nxt (tcb_of (tsks s1 k)) \<noteq> skb_seq skb" "rcv_wnd (tcb_of (tsks s1 k)) \<noteq> 0"
    "rcv_wnd (tcb_of (tsks s1 k)) = rcv_wnd (tcb_of (tsks s k))" "ofo_queue (tsks s1 k) = ofo_queue (tsks s k)"
    using s1(2) st seq(1,3) wnd by (auto simp: rcv_part_def)
  obtain b s2 where s2: "tcp_data_queue k skb s1 = (0, b, s2)"
    "rcv_part (tsks s2 k) = rcv_part ((tsks s1 k)\<lparr>ofo_queue := fst (tcp_data_insert_ordered (ofo_queue (tsks s k)) skb)\<rparr>)"
    "tcb_of (tsks s2 k) = tcb_of (tsks s1 k)" "quiet (tsks s2 k)" "sk_dir s2 = sk_dir s1"
    using tcp_data_queue_ofo [of s1 k skb] e s1(5) by auto
  have f: "tcp_fin_acked_stage k th skb s1 = Inr s1" using e(1) by (simp add: tcp_fin_acked_stage_def)
  have tail: "tcp_input_tail k th skb s1 = (0, free_skb b, s2)"
    unfolding tcp_input_tail_def f tcp_text_stage_def using e fl(4) seq(4) s2(1) by (simp add: tcp_delack_stage_def)
  have "tcp_input_state k th opts skb saddr fam env s = Some (0, free_skb b, env, s2)"
    unfolding tcp_input_state_def st tcp_ack_stage_def using v fl s1(1) tail by simp
  moreover have "sk_state (tsks s2 k) = TCP_ESTABLISHED" "rcv_part (tsks s2 k) =
      rcv_part ((tsks s k)\<lparr>ofo_queue := fst (tcp_data_insert_ordered (ofo_queue (tsks s k)) skb)\<rparr>)"
    using s2(2) s1(2) e(1) by (simp_all add: rcv_part_def)
  ultimately show ?thesis
    using s1 s2 e(4) st by (intro exI conjI) (assumption, simp_all add: rx_keeps_def)
qed

lemma consume_ofo_keeps_state: "sk_state (tcp_consume_ofo_queue t) = sk_state t"
proof (induction t rule: tcp_consume_ofo_queue.induct)
  case (1 t)
  then show ?case by (subst tcp_consume_ofo_queue.simps) (auto split: option.split)
qed

lemma tcp_queue_expected_state: "sk_state (tcp_queue_expected skb t) = sk_state t"
  by (simp add: tcp_queue_expected_def Let_def decrease_recv_win_def consume_ofo_keeps_state)

text \<open>What the receiving side of a socket does with a segment, by its place.\<close>

definition seg_taken :: "sk_buff \<Rightarrow> tcp_sock \<Rightarrow> tcp_sock \<Rightarrow> bool" where
  "seg_taken b t t' \<longleftrightarrow>
     (if skb_seq b < rcv_nxt (tcb_of t) then rcv_part t' = rcv_part t
      else if skb_seq b = rcv_nxt (tcb_of t) then \<exists>t0. rcv_part t0 = rcv_part t \<and> rcv_part t' = rcv_part (tcp_queue_expected b t0)
      else rcv_part t' = rcv_part (t\<lparr>ofo_queue := fst (tcp_data_insert_ordered (ofo_queue t) b)\<rparr>))"

lemma tcp_input_segment:
  assumes st: "sk_state (tsks s k) = TCP_ESTABLISHED"
    and fl: "th_ack th" "\<not> th_rst th" "\<not> th_syn th" "\<not> th_fin th"
    and seq: "th_seq th \<le> rcv_nxt (tcb_of (tsks s k)) + rcv_wnd (tcb_of (tsks s k))" "skb_seq skb = th_seq th" "0 < skb_dlen skb"
    and wnd: "0 < rcv_wnd (tcb_of (tsks s k))" "unat (rcv_nxt (tcb_of (tsks s k))) + unat (rcv_wnd (tcb_of (tsks s k))) < 2 ^ 32"
    and ack: "snd_una (tcb_of (tsks s k)) \<le> th_ack_seq th" "th_ack_seq th \<le> snd_nxt (tcb_of (tsks s k))" and quiet: "quiet (tsks s k)"
  shows "\<exists>rc skb' s'. tcp_input_state k th opts skb saddr fam env s = Some (rc, skb', env, s') \<and>
    seg_taken skb (tsks s k) (tsks s' k) \<and> rx_keeps k (th_ack_seq th) s s'"
proof -
  consider "th_seq th < rcv_nxt (tcb_of (tsks s k))" | "th_seq th = rcv_nxt (tcb_of (tsks s k))" | "rcv_nxt (tcb_of (tsks s k)) < th_seq th"
    by fastforce
  then show ?thesis
  proof cases
    case 1
    then show ?thesis using tcp_input_old [OF st fl(2) 1 quiet] seq(2) unfolding seg_taken_def by force
  next
    case 2
    obtain skb' s' t where s': "tcp_input_state k th opts skb saddr fam env s = Some (0, skb', env, s')"
      "rcv_part t = rcv_part (tsks s k)" "rcv_part (tsks s' k) = rcv_part (tcp_queue_expected skb t)"
      "quiet (tsks s' k) \<and> sk_dir s' = sk_dir s \<and> snd_una (tcb_of (tsks s' k)) = th_ack_seq th \<and>
        snd_nxt (tcb_of (tsks s' k)) = snd_nxt (tcb_of (tsks s k)) \<and> rcv_wnd (tcb_of (tsks s' k)) = rcv_wnd (tcb_of (tsks s k))"
      using tcp_input_text [OF st fl 2 seq(2,3) wnd ack] quiet by blast
    have "sk_state (tsks s' k) = sk_state (tsks s k)"
      using rcv_part_stream(6) [OF s'(2)] rcv_part_stream(6) [OF s'(3)] by (simp add: tcp_queue_expected_state)
    then show ?thesis using s' 2 seq(2) unfolding seg_taken_def rx_keeps_def by (intro exI conjI) (assumption, auto)
  next
    case 3
    then show ?thesis using tcp_input_gap [OF st fl 3 seq wnd(1) ack quiet] seq(2) unfolding seg_taken_def
      by (metis (no_types, lifting) less_asym less_irrefl)
  qed
qed

lemma rx_any_frame:
  assumes "length (fl_eth fl) = 12" and "data_frame fl sq d f" and "0 < length d" and "length d \<le> 1546"
    and k: "inet_lookup (fl_saddr fl) (fl_daddr fl) (fl_sport fl) (fl_dport fl) s = Some k"
    and st: "sk_state (tsks s k) = TCP_ESTABLISHED" "quiet (tsks s k)"
    and wnd: "0 < rcv_wnd (tcb_of (tsks s k))" "unat (rcv_nxt (tcb_of (tsks s k))) + unat (rcv_wnd (tcb_of (tsks s k))) < 2 ^ 32"
      "sq \<le> rcv_nxt (tcb_of (tsks s k)) + rcv_wnd (tcb_of (tsks s k))"
    and ack: "snd_una (tcb_of (tsks s k)) \<le> fl_ack fl" "fl_ack fl \<le> snd_nxt (tcb_of (tsks s k))"
  shows "\<exists>skb b s'. netdev_rx_frame f env s = Some (skb, env, s') \<and> seg_taken b (tsks s k) (tsks s' k) \<and> rx_keeps k (fl_ack fl) s s' \<and>
    skb_seq b = sq \<and> skb_end_seq b = sq + of_nat (length d) \<and> seg_ok b \<and> seg_bytes b = d"
proof -
  obtain h u where f: "f = fl_eth fl @ [0x08, 0x00] @ enc_iphdr h @ enc_tcphdr u @ d"
    and h: "checksum (enc_iphdr h) 0 = 0" "ih_version h = 4" "ih_ihl h = 5" "ih_ttl h = 64" "ih_proto h = IP_TCP"
      "unat (ntohs (ih_len h)) = 40 + length d" "ntohl (ih_saddr h) = fl_saddr fl" "ntohl (ih_daddr h) = fl_daddr fl"
    and u: "th_hl u = 5" "th_ack u" "\<not> th_rst u" "\<not> th_syn u" "\<not> th_fin u" "ntohs (th_sport u) = fl_sport fl"
      "ntohs (th_dport u) = fl_dport fl" "ntohl (th_seq u) = sq" "ntohl (th_ack_seq u) = fl_ack fl"
    using assms(2) unfolding data_frame_def by blast
  define b where "b = tcp_rx_skb (fl_eth fl) h u d"
  have b: "skb_seq b = sq" "skb_end_seq b = sq + of_nat (length d)" "0 < skb_dlen b" "seg_ok b" "seg_bytes b = d"
    using tcp_rx_skb_sel [OF assms(4)] tcp_rx_seg [OF assms(1,4)] assms(3) u(8) by (simp_all add: b_def word_less_nat_alt)
  have ts: "th_seq (tcp_ntoh_hdr u) = sq" "th_ack_seq (tcp_ntoh_hdr u) = fl_ack fl"
    "th_ack (tcp_ntoh_hdr u)" "\<not> th_rst (tcp_ntoh_hdr u)" "\<not> th_syn (tcp_ntoh_hdr u)" "\<not> th_fin (tcp_ntoh_hdr u)"
    using u by (simp_all add: tcp_ntoh_hdr_def)
  define s1 where "s1 = socket_wr_acquire k s"
  have s1: "tsks s1 = tsks s" "sk_dir s1 = sk_dir s" by (simp add: s1_def socket_wr_acquire_def) (simp add: s1_def)
  have input: "\<exists>rc skb s2. tcp_input_state k (tcp_ntoh_hdr u) opts b saddr fam env s1 = Some (rc, skb, env, s2) \<and>
      seg_taken b (tsks s k) (tsks s2 k) \<and> rx_keeps k (fl_ack fl) s1 s2" for opts saddr fam
    using tcp_input_segment [of s1 k "tcp_ntoh_hdr u" b opts saddr fam env] st wnd ack b(1,3) ts(3-6) unfolding s1(1) ts(1,2) by blast
  have k': "inet_lookup (ntohl (ih_saddr h)) (ntohl (ih_daddr h)) (ntohs (th_sport u)) (ntohs (th_dport u)) s = Some k"
    using k h u by simp
  from tcp_in_rx [OF assms(1) h(3,6) u(1) k' input [unfolded b_def s1_def]]
  obtain skb s2 where s2: "tcp_in (rx_skb (fl_eth fl) h (enc_tcphdr u @ d)) env s = Some (skb, env, socket_release k s2)"
    "seg_taken b (tsks s k) (tsks s2 k)" "rx_keeps k (fl_ack fl) s1 s2"
    unfolding b_def s1_def by blast
  have "netdev_rx_frame f env s = Some (skb, env, socket_release k s2)"
    unfolding f using rx_ipv4 [OF assms(1), of "enc_tcphdr u @ d" h env s] assms(4) h s2(1) by simp
  moreover have "tsks (socket_release k s2) = tsks s2" by (simp add: socket_release_def Let_def)
  ultimately show ?thesis
    using s2(2,3) b s1 unfolding rx_keeps_def by (intro exI [of _ skb] exI [of _ b] exI [of _ "socket_release k s2"]) simp
qed

section \<open>Segments of one buffer\<close>

text \<open>The buffer is cut into \<open>ds\<close>; segment \<open>i\<close> starts at \<open>seq_at sq ds i\<close>.\<close>

definition seg_off :: "bytes list \<Rightarrow> nat \<Rightarrow> nat" where
  "seg_off ds i = length (concat (take i ds))"

definition seq_at :: "u32 \<Rightarrow> bytes list \<Rightarrow> nat \<Rightarrow> u32" where
  "seq_at sq ds i = sq + of_nat (seg_off ds i)"

definition cut_ok :: "u32 \<Rightarrow> bytes list \<Rightarrow> bool" where
  "cut_ok sq ds \<longleftrightarrow> unat sq + length (concat ds) < 2 ^ 32 \<and> (\<forall>d \<in> set ds. d \<noteq> [] \<and> length d \<le> 1546)"

definition seg_for :: "u32 \<Rightarrow> bytes list \<Rightarrow> nat \<Rightarrow> sk_buff \<Rightarrow> bool" where
  "seg_for sq ds i b \<longleftrightarrow> skb_seq b = seq_at sq ds i \<and> skb_end_seq b = seq_at sq ds (Suc i) \<and> seg_ok b \<and> seg_bytes b = ds ! i"

lemma seg_off_Suc: "i < length ds \<Longrightarrow> seg_off ds (Suc i) = seg_off ds i + length (ds ! i)"
  by (simp add: seg_off_def take_Suc_conv_app_nth)

lemma seq_at_Suc: "i < length ds \<Longrightarrow> seq_at sq ds (Suc i) = seq_at sq ds i + of_nat (length (ds ! i))"
  by (simp add: seq_at_def seg_off_Suc)

lemma seg_off_mono: "i \<le> j \<Longrightarrow> seg_off ds i \<le> seg_off ds j"
  by (metis append_take_drop_id concat_append le_add1 length_append min.absorb1 seg_off_def take_take)

lemma seg_off_le: "seg_off ds i \<le> length (concat ds)"
  using seg_off_mono [of i "max i (length ds)" ds] by (simp add: seg_off_def)

lemma unat_seq_at: "cut_ok sq ds \<Longrightarrow> unat (seq_at sq ds i) = unat sq + seg_off ds i"
  using seg_off_le [of ds i] by (simp add: cut_ok_def seq_at_def unat_word_ariths unat_of_nat take_bit_nat_eq_self)

lemma seg_off_less:
  assumes "cut_ok sq ds" and "i < j" and "j \<le> length ds"
  shows "seg_off ds i < seg_off ds j"
proof -
  have "ds ! i \<noteq> []" using assms by (simp add: cut_ok_def)
  then have "seg_off ds i < seg_off ds (Suc i)" using assms by (simp add: seg_off_Suc)
  also have "\<dots> \<le> seg_off ds j" using assms by (intro seg_off_mono) simp
  finally show ?thesis .
qed

lemma seq_at_less_iff:
  assumes "cut_ok sq ds" and "i \<le> length ds" and "j \<le> length ds"
  shows "seq_at sq ds i < seq_at sq ds j \<longleftrightarrow> i < j" and "seq_at sq ds i \<le> seq_at sq ds j \<longleftrightarrow> i \<le> j"
    and "seq_at sq ds i = seq_at sq ds j \<longleftrightarrow> i = j"
proof -
  have u: "unat (seq_at sq ds x) = unat sq + seg_off ds x" for x by (rule unat_seq_at [OF assms(1)])
  have lt: "x < y \<Longrightarrow> y \<le> length ds \<Longrightarrow> seg_off ds x < seg_off ds y" for x y by (rule seg_off_less [OF assms(1)])
  show "seq_at sq ds i < seq_at sq ds j \<longleftrightarrow> i < j"
    unfolding word_less_nat_alt u using lt [of i j] seg_off_mono [of j i ds] assms(2,3) by (cases "i < j") auto
  show "seq_at sq ds i \<le> seq_at sq ds j \<longleftrightarrow> i \<le> j"
    unfolding word_le_nat_alt u using lt [of j i] seg_off_mono [of i j ds] assms(2,3) by (cases "i \<le> j") auto
  then show "seq_at sq ds i = seq_at sq ds j \<longleftrightarrow> i = j"
    using \<open>seq_at sq ds i < seq_at sq ds j \<longleftrightarrow> i < j\<close> by force
qed

lemma seg_for_dlen: "seg_for sq ds i b \<Longrightarrow> unat (skb_dlen b) = length (ds ! i)"
  using length_seg_bytes [of b] by (simp add: seg_for_def)

lemma seg_for_next: "seg_for sq ds i b \<Longrightarrow> i < length ds \<Longrightarrow> seq_at sq ds i + skb_dlen b = seq_at sq ds (Suc i)"
  using seg_for_dlen [of sq ds i b] by (simp add: seq_at_Suc) (metis of_nat_unat ucast_id)

lemma seg_for_ref [simp]: "seg_for sq ds i (b\<lparr>skb_refcnt := n\<rparr>) = seg_for sq ds i b"
  by (simp add: seg_for_def seg_ok_def seg_bytes_def skb_payload_bytes_def cong: option.case_cong)

lemma take_upt_nth: "n \<le> m \<Longrightarrow> m \<le> length ds \<Longrightarrow> take m ds = take n ds @ map ((!) ds) [n..<m]"
  by (induction m) (auto simp: take_Suc_conv_app_nth le_Suc_eq)

text \<open>A queue of segments given by their numbers: the run that starts at \<open>n\<close>.\<close>

lemma contig_run:
  assumes "cut_ok sq ds" and "list_all2 (seg_for sq ds) js bs" and "sorted_wrt (<) js" and "\<forall>j \<in> set js. n \<le> j \<and> j < length ds"
    and "n \<le> length ds"
  shows "\<exists>n' js' p r. n \<le> n' \<and> n' \<le> length ds \<and> js = [n..<n'] @ js' \<and> (\<forall>j \<in> set js'. n' < j) \<and>
    contig (seq_at sq ds n) bs = (p, r) \<and> list_all2 (seg_for sq ds) [n..<n'] p \<and> list_all2 (seg_for sq ds) js' r"
  using assms(2-)
proof (induction js arbitrary: bs n)
  case Nil
  then show ?case by (intro exI [of _ n]) simp
next
  case (Cons j js)
  then obtain b bs' where bs: "bs = b # bs'" "seg_for sq ds j b" "list_all2 (seg_for sq ds) js bs'" by (auto simp: list_all2_Cons1)
  have j: "n \<le> j" "j < length ds" "\<forall>i \<in> set js. j < i \<and> i < length ds" "sorted_wrt (<) js" using Cons.prems by auto
  have sb: "skb_seq b = seq_at sq ds n \<longleftrightarrow> j = n"
    using bs(2) seq_at_less_iff(3) [OF assms(1), of j n] j Cons.prems(4) by (simp add: seg_for_def)
  show ?case
  proof (cases "j = n")
    case True
    have "\<forall>i \<in> set js. Suc n \<le> i \<and> i < length ds" "Suc n \<le> length ds" using j True by (auto simp: Suc_le_eq)
    then have "\<exists>n' js' p r. Suc n \<le> n' \<and> n' \<le> length ds \<and> js = [Suc n..<n'] @ js' \<and> (\<forall>j \<in> set js'. n' < j) \<and>
      contig (seq_at sq ds (Suc n)) bs' = (p, r) \<and> list_all2 (seg_for sq ds) [Suc n..<n'] p \<and> list_all2 (seg_for sq ds) js' r"
      by (rule Cons.IH [OF bs(3) j(4)])
    then obtain n' js' p r where r: "Suc n \<le> n'" "n' \<le> length ds" "js = [Suc n..<n'] @ js'" "\<forall>j \<in> set js'. n' < j"
      "contig (seq_at sq ds (Suc n)) bs' = (p, r)" "list_all2 (seg_for sq ds) [Suc n..<n'] p" "list_all2 (seg_for sq ds) js' r" by blast
    have "contig (seq_at sq ds n) bs = (b # p, r)"
      using r(5) sb True bs(2) seg_for_next [OF bs(2) j(2)] by (simp add: bs(1))
    moreover have "[n..<n'] = n # [Suc n..<n']" using r(1) by (simp add: upt_conv_Cons)
    ultimately show ?thesis using r bs(2) True by (intro exI [of _ n'] exI [of _ js'] exI [of _ "b # p"] exI [of _ r]) simp
  next
    case False
    then have "contig (seq_at sq ds n) bs = ([], bs)" using sb by (simp add: bs(1))
    then show ?thesis using False j Cons.prems(1,4) by (intro exI [of _ n] exI [of _ "j # js"]) auto
  qed
qed

lemma run_bytes: "list_all2 (seg_for sq ds) js p \<Longrightarrow> map seg_bytes p = map ((!) ds) js"
  by (induction rule: list_all2_induct) (simp_all add: seg_for_def)

lemma run_end: "list_all2 (seg_for sq ds) [n..<n'] p \<Longrightarrow> n \<le> n' \<Longrightarrow> n' \<le> length ds \<Longrightarrow> seg_end (seq_at sq ds n) p = seq_at sq ds n'"
proof (induction p arbitrary: n)
  case (Cons b p)
  then have "n < n'" by (cases "n < n'") auto
  then have "[n..<n'] = n # [Suc n..<n']" by (simp add: upt_conv_Cons)
  then show ?case using Cons \<open>n < n'\<close> seg_for_next [of sq ds n b] by simp
qed auto

text \<open>Insertion into the queue is insertion of the number.\<close>

lemma run_ordered:
  assumes "cut_ok sq ds" and "list_all2 (seg_for sq ds) js bs" and "sorted_wrt (<) js" and "\<forall>j \<in> set js. j < length ds"
  shows "ofo_ordered bs" and "skb_seq ` set bs = seq_at sq ds ` set js"
proof -
  have "map skb_seq bs = map (seq_at sq ds) js" using assms(2) by (induction rule: list_all2_induct) (simp_all add: seg_for_def)
  then show "skb_seq ` set bs = seq_at sq ds ` set js" by (metis set_map)
  have "sorted_wrt (<) (map (seq_at sq ds) js)"
    unfolding sorted_wrt_map using assms(3,4) seq_at_less_iff(1) [OF assms(1)] by (auto elim!: sorted_wrt_mono_rel [rotated])
  then show "ofo_ordered bs" unfolding \<open>map skb_seq bs = _\<close> [symmetric] sorted_wrt_map .
qed

lemma run_insort:
  assumes "cut_ok sq ds" and "list_all2 (seg_for sq ds) js bs" and "\<forall>j \<in> set js. j < length ds" and "i < length ds" and "seg_for sq ds i b"
  shows "list_all2 (seg_for sq ds) (insort i js) (insort_key skb_seq b bs)"
  using assms(2,3)
proof (induction rule: list_all2_induct)
  case (Cons j js x bs)
  have "skb_seq b \<le> skb_seq x \<longleftrightarrow> i \<le> j"
    using seq_at_less_iff(2) [OF assms(1), of i j] Cons.prems Cons.hyps(1) assms(4,5) by (simp add: seg_for_def)
  then show ?case using Cons assms(5) by simp
qed (simp add: assms(5))

section \<open>Arrival in any order\<close>

text \<open>The receiver has delivered the segments below \<open>m\<close> and holds those numbered \<open>js\<close> out of order.\<close>

definition seg_inv :: "u32 \<Rightarrow> bytes list \<Rightarrow> bytes \<Rightarrow> nat \<Rightarrow> nat list \<Rightarrow> tcp_sock \<Rightarrow> bool" where
  "seg_inv sq ds st m js t \<longleftrightarrow> rcv_ok t \<and> wf_queue (ofo_queue t) \<and> m \<le> length ds \<and> rcv_nxt (tcb_of t) = seq_at sq ds m \<and>
     rcv_stream t = st @ concat (take m ds) \<and> sorted_wrt (<) js \<and> (\<forall>j \<in> set js. m < j \<and> j < length ds) \<and>
     list_all2 (seg_for sq ds) js (skb_list (ofo_queue t)) \<and> length (skb_list (sk_receive_queue t)) + (length ds - m) < 2 ^ 32"

lemma seg_inv_part: "rcv_part t = rcv_part t' \<Longrightarrow> seg_inv sq ds st m js t = seg_inv sq ds st m js t'"
  by (simp add: seg_inv_def rcv_part_stream [of t t'])

lemma seg_inv_count:
  assumes "seg_inv sq ds st m js t" and "m < length ds"
  shows "length (skb_list (ofo_queue t)) + m < length ds"
proof -
  have "set js \<subseteq> {Suc m..<length ds}" "distinct js" using assms(1) by (auto simp: seg_inv_def strict_sorted_iff)
  then have "length js \<le> card {Suc m..<length ds}" using card_mono [of "{Suc m..<length ds}" "set js"] by (simp add: distinct_card)
  then show ?thesis using assms by (auto simp: seg_inv_def dest: list_all2_lengthD)
qed

lemma seg_inv_expected:
  assumes "cut_ok sq ds" and "seg_inv sq ds st m js t" and "m < length ds" and "seg_for sq ds m b"
  shows "\<exists>m' js'. seg_inv sq ds st m' js' (tcp_queue_expected b t) \<and> {..<m'} \<union> set js' = insert m ({..<m} \<union> set js)"
proof -
  have inv: "rcv_ok t" "wf_queue (ofo_queue t)" "rcv_nxt (tcb_of t) = seq_at sq ds m" "rcv_stream t = st @ concat (take m ds)"
    "sorted_wrt (<) js" "\<forall>j \<in> set js. m < j \<and> j < length ds" "list_all2 (seg_for sq ds) js (skb_list (ofo_queue t))"
    "length (skb_list (sk_receive_queue t)) + (length ds - m) < 2 ^ 32"
    using assms(2) unfolding seg_inv_def by blast+
  obtain n js' p r where n: "Suc m \<le> n" "n \<le> length ds" "js = [Suc m..<n] @ js'" "\<forall>j \<in> set js'. n < j"
    "contig (seq_at sq ds (Suc m)) (skb_list (ofo_queue t)) = (p, r)" "list_all2 (seg_for sq ds) [Suc m..<n] p" "list_all2 (seg_for sq ds) js' r"
    using contig_run [OF assms(1) inv(7,5), of "Suc m"] inv(6) assms(3) by (auto simp: Suc_le_eq)
  have "seg_ok x" if "x \<in> set (skb_list (ofo_queue t))" for x
    using inv(7) that by (auto simp: seg_for_def in_set_conv_nth list_all2_conv_all_nth)
  then have ok: "list_all seg_ok (b # skb_list (ofo_queue t))" using assms(4) by (auto simp: seg_for_def list_all_iff)
  have len: "length (skb_list (sk_receive_queue t)) + 1 + length (skb_list (ofo_queue t)) < 2 ^ 32"
    using seg_inv_count [OF assms(2,3)] inv(8) by linarith
  have nx: "rcv_nxt (tcb_of t) + skb_dlen b = seq_at sq ds (Suc m)" using seg_for_next [OF assms(4,3)] inv(3) by simp
  note e = expected_contig [OF inv(1,2) ok len n(5) [folded nx]]
  have "take n ds = take m ds @ ds ! m # map ((!) ds) [Suc m..<n]"
    using take_upt_nth [of m n ds] n(1,2) by (simp add: upt_conv_Cons)
  moreover have "length p = n - Suc m" using n(6) by (auto dest: list_all2_lengthD)
  ultimately have "seg_inv sq ds st n js' (tcp_queue_expected b t)"
    using e n inv assms(4) run_end [OF n(6) n(1,2)] run_bytes [OF n(6)] nx
    by (simp add: seg_inv_def seg_for_def sorted_wrt_append)
  moreover have "{..<n} \<union> set js' = insert m ({..<m} \<union> set js)" using n(1,3) by auto
  ultimately show ?thesis by blast
qed

lemma seg_inv_gap:
  assumes "cut_ok sq ds" and "seg_inv sq ds st m js t" and "m < i" and "i < length ds" and "seg_for sq ds i b"
  shows "\<exists>js'. seg_inv sq ds st m js' (t\<lparr>ofo_queue := fst (tcp_data_insert_ordered (ofo_queue t) b)\<rparr>) \<and> set js' = insert i (set js)"
proof -
  have inv: "wf_queue (ofo_queue t)" "sorted_wrt (<) js" "\<forall>j \<in> set js. m < j \<and> j < length ds" "list_all2 (seg_for sq ds) js (skb_list (ofo_queue t))"
    using assms(2) by (simp_all add: seg_inv_def)
  note ord = run_ordered [OF assms(1) inv(4,2)]
  have "seq_at sq ds i = seq_at sq ds j \<longleftrightarrow> i = j" if "j \<in> set js" for j
    using seq_at_less_iff(3) [OF assms(1), of i j] that inv(3) assms(4) by (simp add: less_imp_le)
  then have in_iff: "skb_seq b \<in> skb_seq ` set (skb_list (ofo_queue t)) \<longleftrightarrow> i \<in> set js"
    using ord(2) inv(3) assms(5) by (auto simp: seg_for_def)
  have "\<forall>x \<in> set (skb_list (ofo_queue t)). skb_seq b < skb_seq x \<longrightarrow> skb_end_seq b \<le> skb_seq x"
  proof
    fix x assume "x \<in> set (skb_list (ofo_queue t))"
    then obtain j where "j \<in> set js" "skb_seq x = seq_at sq ds j" using ord(2) inv(3) by auto
    then show "skb_seq b < skb_seq x \<longrightarrow> skb_end_seq b \<le> skb_seq x"
      using inv(3) assms(4,5) seq_at_less_iff [OF assms(1)] by (auto simp: seg_for_def Suc_le_eq)
  qed
  then have ins: "skb_list (fst (tcp_data_insert_ordered (ofo_queue t) b)) =
    (if i \<in> set js then skb_list (ofo_queue t) else insort_key skb_seq (b\<lparr>skb_refcnt := skb_refcnt b + 1\<rparr>) (skb_list (ofo_queue t)))"
    using ofo_insert_insort ord(1) inv(3) in_iff by auto
  have "length (skb_list (sk_receive_queue t)) + (length ds - m) < 2 ^ 32" using assms(2) unfolding seg_inv_def by blast
  then have len: "length (skb_list (ofo_queue t)) + 1 < 2 ^ 32" using seg_inv_count [OF assms(2)] assms(3,4) by linarith
  have wf: "wf_queue (fst (tcp_data_insert_ordered (ofo_queue t) b))"
    unfolding tcp_data_insert_ordered_def using tcp_insert_loop_wf [OF inv(1) len, of 0] by simp
  define js' where "js' = (if i \<in> set js then js else insort i js)"
  have "sorted_wrt (<) js'" using inv(2) by (auto simp: js'_def strict_sorted_iff sorted_insort distinct_insort)
  moreover have "list_all2 (seg_for sq ds) js' (skb_list (fst (tcp_data_insert_ordered (ofo_queue t) b)))"
    using run_insort [OF assms(1) inv(4) _ assms(4), of "b\<lparr>skb_refcnt := skb_refcnt b + 1\<rparr>"] assms(5) inv(3,4) by (simp add: ins js'_def)
  moreover have "set js' = insert i (set js)" by (auto simp: js'_def set_insort_key)
  ultimately show ?thesis
    using assms(2-4) wf by (intro exI [of _ js']) (auto simp: seg_inv_def rcv_ok_def rcv_stream_def)
qed

lemma seg_inv_step:
  assumes "cut_ok sq ds" and "seg_inv sq ds st m js t" and "i < length ds" and "seg_for sq ds i b" and "seg_taken b t t'"
  shows "\<exists>m' js'. seg_inv sq ds st m' js' t' \<and> {..<m'} \<union> set js' = insert i ({..<m} \<union> set js)"
proof -
  have nx: "rcv_nxt (tcb_of t) = seq_at sq ds m" "m \<le> length ds" "skb_seq b = seq_at sq ds i"
    using assms(2,4) by (simp_all add: seg_inv_def seg_for_def)
  note cmp = seq_at_less_iff [OF assms(1) less_imp_le [OF assms(3)] nx(2)]
  consider "i < m" | "i = m" | "m < i" by linarith
  then show ?thesis
  proof cases
    case 1
    then have t': "rcv_part t' = rcv_part t" using assms(5) cmp nx by (simp add: seg_taken_def)
    show ?thesis using assms(2) 1 unfolding seg_inv_part [OF t'] by (intro exI [of _ m] exI [of _ js]) auto
  next
    case 2
    then obtain t0 where t0: "rcv_part t0 = rcv_part t" "rcv_part t' = rcv_part (tcp_queue_expected b t0)"
      using assms(5) nx by (auto simp: seg_taken_def)
    have "seg_inv sq ds st m js t0" using assms(2) seg_inv_part [OF t0(1)] by simp
    from seg_inv_expected [OF assms(1) this] show ?thesis using assms(3,4) 2 unfolding seg_inv_part [OF t0(2)] by blast
  next
    case 3
    then have t': "rcv_part t' = rcv_part (t\<lparr>ofo_queue := fst (tcp_data_insert_ordered (ofo_queue t) b)\<rparr>)"
      using assms(5) cmp nx by (simp add: seg_taken_def)
    obtain js' where "seg_inv sq ds st m js' t'" "set js' = insert i (set js)"
      using seg_inv_gap [OF assms(1,2) 3 assms(3,4)] unfolding seg_inv_part [OF t'] by blast
    then show ?thesis by (intro exI [of _ m] exI [of _ js']) simp
  qed
qed

text \<open>The receiver of a flow of \<open>n\<close> bytes from \<open>sq\<close>, all inside its window.\<close>

definition rcv_open :: "tcp_flow \<Rightarrow> u32 \<Rightarrow> nat \<Rightarrow> nat \<Rightarrow> tcpstate \<Rightarrow> bool" where
  "rcv_open fl sq n k s \<longleftrightarrow>
     (let t = tsks s k; b = tcb_of t in
      inet_lookup (fl_saddr fl) (fl_daddr fl) (fl_sport fl) (fl_dport fl) s = Some k \<and> sk_state t = TCP_ESTABLISHED \<and> quiet t \<and>
      0 < rcv_wnd b \<and> n \<le> unat (rcv_wnd b) \<and> unat sq + n + unat (rcv_wnd b) < 2 ^ 32 \<and> snd_una b \<le> fl_ack fl \<and> fl_ack fl \<le> snd_nxt b)"

lemma rcv_open_keeps: "rcv_open fl sq n k s \<Longrightarrow> rx_keeps k (fl_ack fl) s s' \<Longrightarrow> rcv_open fl sq n k s'"
  by (auto simp: rcv_open_def rx_keeps_def Let_def inet_lookup_dir [of s' s])

lemma data_frames_nth:
  assumes "data_frames fl sq ds fs"
  shows "length fs = length ds \<and> (\<forall>i < length ds. data_frame fl (seq_at sq ds i) (ds ! i) (fs ! i))"
  using assms
proof (induction ds arbitrary: sq fs)
  case (Cons d ds)
  then obtain f fs' where fs: "fs = f # fs'" "data_frame fl sq d f" "data_frames fl (sq + of_nat (length d)) ds fs'" by (auto split: list.splits)
  have "seq_at sq (d # ds) (Suc i) = seq_at (sq + of_nat (length d)) ds i" for i by (simp add: seq_at_def seg_off_def)
  moreover have "seq_at sq (d # ds) 0 = sq" by (simp add: seq_at_def seg_off_def)
  ultimately show ?case using Cons.IH [OF fs(3)] fs(1,2) by (auto simp: nth_Cons split: nat.split)
qed simp

lemma data_frame_seq: "data_frame fl sq d f \<Longrightarrow> data_frame fl sq' d' f \<Longrightarrow> sq = sq'"
proof -
  assume "data_frame fl sq d f" "data_frame fl sq' d' f"
  then obtain h u h' u' where f: "f = fl_eth fl @ [0x08, 0x00] @ enc_iphdr h @ enc_tcphdr u @ d" "ntohl (th_seq u) = sq"
      "f = fl_eth fl @ [0x08, 0x00] @ enc_iphdr h' @ enc_tcphdr u' @ d'" "ntohl (th_seq u') = sq'"
    unfolding data_frame_def by blast
  then have "enc_iphdr h @ enc_tcphdr u @ d = enc_iphdr h' @ enc_tcphdr u' @ d'" by simp
  then have "enc_tcphdr u = enc_tcphdr u'" by simp
  then have "u = u'" by (metis tcph.dec_enc)
  then show "sq = sq'" using f by simp
qed

lemma rx_frames_any:
  assumes "length (fl_eth fl) = 12" and "cut_ok sq ds" and "data_frames fl sq ds fs" and "set arrived \<subseteq> set fs"
    and "rcv_open fl sq (length (concat ds)) k s" and "seg_inv sq ds st m js (tsks s k)"
  shows "\<exists>s' m' js'. rx_frames arrived env s = Some s' \<and> rcv_open fl sq (length (concat ds)) k s' \<and> sk_dir s' = sk_dir s \<and>
    seg_inv sq ds st m' js' (tsks s' k) \<and> {..<m'} \<union> set js' = {i. i < length ds \<and> fs ! i \<in> set arrived} \<union> ({..<m} \<union> set js)"
  using assms(4-)
proof (induction arrived arbitrary: s m js)
  case Nil
  then show ?case by (intro exI [of _ s] exI [of _ m] exI [of _ js]) simp
next
  case (Cons f arrived)
  note fs = data_frames_nth [OF assms(3)]
  obtain i where i: "i < length ds" "fs ! i = f" using Cons.prems(1) fs by (auto simp: in_set_conv_nth)
  have fi: "data_frame fl (seq_at sq ds i) (ds ! i) f" using fs i by auto
  have "j = i" if "j < length ds" "fs ! j = f" for j
  proof -
    have "data_frame fl (seq_at sq ds j) (ds ! j) f" using fs that by auto
    from data_frame_seq [OF fi this] show ?thesis using seq_at_less_iff(3) [OF assms(2), of i j] i(1) that(1) by simp
  qed
  then have only: "j < length ds \<and> fs ! j = f \<longleftrightarrow> j = i" for j using i by blast
  have d: "0 < length (ds ! i)" "length (ds ! i) \<le> 1546" using assms(2) i(1) by (simp_all add: cut_ok_def)
  have o: "inet_lookup (fl_saddr fl) (fl_daddr fl) (fl_sport fl) (fl_dport fl) s = Some k" "sk_state (tsks s k) = TCP_ESTABLISHED"
    "quiet (tsks s k)" "0 < rcv_wnd (tcb_of (tsks s k))" "length (concat ds) \<le> unat (rcv_wnd (tcb_of (tsks s k)))"
    "unat sq + length (concat ds) + unat (rcv_wnd (tcb_of (tsks s k))) < 2 ^ 32" "snd_una (tcb_of (tsks s k)) \<le> fl_ack fl"
    "fl_ack fl \<le> snd_nxt (tcb_of (tsks s k))"
    using Cons.prems(2) unfolding rcv_open_def Let_def by blast+
  have nx: "rcv_nxt (tcb_of (tsks s k)) = seq_at sq ds m" using Cons.prems(3) by (simp add: seg_inv_def)
  note u = unat_seq_at [OF assms(2)] and le = seg_off_le [of ds]
  have nowrap: "unat (rcv_nxt (tcb_of (tsks s k))) + unat (rcv_wnd (tcb_of (tsks s k))) < 2 ^ 32"
    unfolding nx u using le [of m] o(6) by linarith
  then have "unat (rcv_nxt (tcb_of (tsks s k)) + rcv_wnd (tcb_of (tsks s k))) = unat (seq_at sq ds m) + unat (rcv_wnd (tcb_of (tsks s k)))"
    unfolding nx by (simp add: unat_word_ariths take_bit_nat_eq_self)
  then have "seq_at sq ds i \<le> rcv_nxt (tcb_of (tsks s k)) + rcv_wnd (tcb_of (tsks s k))"
    unfolding word_le_nat_alt u using le [of i] o(5) by linarith
  from rx_any_frame [OF assms(1) fi d o(1-4) nowrap this o(7,8)] obtain skb b s1 where s1: "netdev_rx_frame f env s = Some (skb, env, s1)"
    "seg_taken b (tsks s k) (tsks s1 k)" "rx_keeps k (fl_ack fl) s s1" "skb_seq b = seq_at sq ds i"
    "skb_end_seq b = seq_at sq ds i + of_nat (length (ds ! i))" "seg_ok b" "seg_bytes b = ds ! i" by blast
  have "seg_for sq ds i b" using s1(4-7) i(1) by (simp add: seg_for_def seq_at_Suc)
  from seg_inv_step [OF assms(2) Cons.prems(3) i(1) this s1(2)] obtain m1 js1 where m1: "seg_inv sq ds st m1 js1 (tsks s1 k)"
    "{..<m1} \<union> set js1 = insert i ({..<m} \<union> set js)" by blast
  have "set arrived \<subseteq> set fs" using Cons.prems(1) by simp
  from Cons.IH [OF this rcv_open_keeps [OF Cons.prems(2) s1(3)] m1(1)] obtain s' m' js' where s': "rx_frames arrived env s1 = Some s'"
    "rcv_open fl sq (length (concat ds)) k s'" "sk_dir s' = sk_dir s1" "seg_inv sq ds st m' js' (tsks s' k)" "{..<m'} \<union> set js' = {i. i < length ds \<and> fs ! i \<in> set arrived} \<union> ({..<m1} \<union> set js1)" by blast
  have "{j. j < length ds \<and> fs ! j \<in> set (f # arrived)} = {j. j < length ds \<and> fs ! j \<in> set arrived} \<union> {i}" using only by auto
  then show ?case using s1(1,3) s' m1(2) unfolding rx_keeps_def by (intro exI [of _ s'] exI [of _ m'] exI [of _ js']) auto
qed

text \<open>The receiver after any arrival of frames, with what lookups and reading need.\<close>

lemma any_arrival:
  assumes "snd_path dev dmac ka a" and "0 < smss (tsks a ka)" and "unat (smss (tsks a ka)) \<le> 1546"
    and "unat (inflight (tsks a ka)) + length buf \<le> unat (umin (cwnd (tsks a ka)) (snd_wnd (tcb_of (tsks a ka))))"
    and "rcv_sync (flow_of dev dmac (tsks a ka)) (length buf) kb b" and "rcv_nxt (tcb_of (tsks b kb)) = snd_nxt (tcb_of (tsks a ka))"
    and "length buf \<le> unat (rcv_wnd (tcb_of (tsks b kb)))"
  shows "\<exists>a' frames. tcp_send ka buf env a = Some (int (length buf), env, a') \<and> tun_tx a' = tun_tx a @ frames \<and>
    (\<forall>arrived. set arrived \<subseteq> set frames \<longrightarrow> (\<exists>b' n. rx_frames arrived env' b = Some b' \<and>
       sk_dir b' = sk_dir b \<and> sk_state (tsks b' kb) = TCP_ESTABLISHED \<and> rcv_ok (tsks b' kb) \<and>
       rcv_stream (tsks b' kb) = rcv_stream (tsks b kb) @ take n buf \<and>
       (set frames \<subseteq> set arrived \<longrightarrow> take n buf = buf \<and> rcv_nxt (tcb_of (tsks b' kb)) = snd_nxt (tcb_of (tsks a' ka)))))"
proof -
  have mss: "0 < unat (smss (tsks a ka))" using assms(2) by (simp add: word_less_nat_alt)
  define fl where "fl = flow_of dev dmac (tsks a ka)"
  define sq where "sq = snd_nxt (tcb_of (tsks a ka))"
  obtain a1 ds fs where a1: "tcp_send_loop ka (unat (smss (tsks a ka))) buf env a = Some (env, a1)" "tun_tx a1 = tun_tx a @ fs" "concat ds = buf"
    "\<forall>d \<in> set ds. d \<noteq> [] \<and> length d \<le> 1546" "data_frames fl sq ds fs" "snd_nxt (tcb_of (tsks a1 ka)) = sq + of_nat (length buf)"
    using tcp_send_loop_frames [OF mss assms(3,1,4), of env] unfolding fl_def sq_def by blast
  have eth: "length (fl_eth fl) = 12" using assms(1) by (simp add: fl_def flow_of_def snd_path_def wf_netdev_def)
  have r: "unat sq + length buf + unat (rcv_wnd (tcb_of (tsks b kb))) < 2 ^ 32" "rcv_open fl sq (length (concat ds)) kb b"
    "rcv_ok (tsks b kb)" "wf_queue (ofo_queue (tsks b kb))" "skb_list (ofo_queue (tsks b kb)) = []"
    "length (skb_list (sk_receive_queue (tsks b kb))) + 1 + length buf < 2 ^ 32"
    using assms(5-7) a1(3) unfolding rcv_sync_def rcv_open_def fl_def sq_def Let_def by auto
  have cut: "cut_ok sq ds" using a1(3,4) r(1) by (simp add: cut_ok_def)
  have "length ds \<le> length (concat ds)" using a1(4) by (induction ds) (auto simp: Suc_le_eq add_strict_increasing)
  then have inv: "seg_inv sq ds (rcv_stream (tsks b kb)) 0 [] (tsks b kb)"
    using r a1(3) assms(6) by (simp add: seg_inv_def seq_at_def seg_off_def sq_def)
  have "\<exists>b' n. rx_frames arrived env' b = Some b' \<and> sk_dir b' = sk_dir b \<and> sk_state (tsks b' kb) = TCP_ESTABLISHED \<and>
       rcv_ok (tsks b' kb) \<and> rcv_stream (tsks b' kb) = rcv_stream (tsks b kb) @ take n buf \<and>
       (set fs \<subseteq> set arrived \<longrightarrow> take n buf = buf \<and> rcv_nxt (tcb_of (tsks b' kb)) = sq + of_nat (length buf))" if sub: "set arrived \<subseteq> set fs" for arrived
  proof -
    obtain b' m js where b': "rx_frames arrived env' b = Some b'" "seg_inv sq ds (rcv_stream (tsks b kb)) m js (tsks b' kb)"
      "{..<m} \<union> set js = {i. i < length ds \<and> fs ! i \<in> set arrived}"
      "rcv_open fl sq (length (concat ds)) kb b'" "sk_dir b' = sk_dir b"
      using rx_frames_any [OF eth cut a1(5) sub r(2) inv, of env'] by auto
    have m: "m \<le> length ds" "m \<notin> set js" "rcv_nxt (tcb_of (tsks b' kb)) = seq_at sq ds m"
      "rcv_stream (tsks b' kb) = rcv_stream (tsks b kb) @ concat (take m ds)"
      using b'(2) by (auto simp: seg_inv_def)
    have "m = length ds" if "set fs \<subseteq> set arrived"
    proof (rule ccontr)
      assume "m \<noteq> length ds"
      then have "m \<in> {i. i < length ds \<and> fs ! i \<in> set arrived}" using m(1) that data_frames_nth [OF a1(5)] by (auto simp: nth_mem)
      then show False using b'(3) m(2) by blast
    qed
    moreover have "concat (take m ds) = take (length (concat (take m ds))) buf"
      unfolding a1(3) [symmetric] by (metis append_eq_conv_conj append_take_drop_id concat_append)
    moreover have "sk_state (tsks b' kb) = TCP_ESTABLISHED" "rcv_ok (tsks b' kb)" using b'(2,4) by (simp_all add: rcv_open_def seg_inv_def Let_def)
    ultimately show ?thesis using b'(1,5) m(3,4) a1(3) by (intro exI [of _ b'] exI [of _ "length (concat (take m ds))"]) (auto simp: seq_at_def seg_off_def)
  qed
  then show ?thesis
    using a1(1,2,6) by (intro exI [of _ "tcp_rearm_user_timeout ka a1"] exI [of _ fs]) (simp add: tcp_send_def)
qed

text \<open>
  Property C2. The network may reorder, repeat and lose: of the frames that \<open>tcp_send\<close> writes for a buffer, let any selection arrive at the
  receiving stack in any order and any number of times. The stream of the receiving socket is then extended by a prefix of the buffer,
  and by all of it, with \<open>rcv_nxt\<close> in step with the sender again, as soon as every frame has arrived at least once.
\<close>

theorem tcp_any_arrival:
  assumes "snd_path dev dmac ka a" and "0 < smss (tsks a ka)" and "unat (smss (tsks a ka)) \<le> 1546"
    and "unat (inflight (tsks a ka)) + length buf \<le> unat (umin (cwnd (tsks a ka)) (snd_wnd (tcb_of (tsks a ka))))"
    and "rcv_sync (flow_of dev dmac (tsks a ka)) (length buf) kb b" and "rcv_nxt (tcb_of (tsks b kb)) = snd_nxt (tcb_of (tsks a ka))"
    and "length buf \<le> unat (rcv_wnd (tcb_of (tsks b kb)))"
  shows "\<exists>a' frames. tcp_send ka buf env a = Some (int (length buf), env, a') \<and> tun_tx a' = tun_tx a @ frames \<and>
    (\<forall>arrived. set arrived \<subseteq> set frames \<longrightarrow> (\<exists>b' n. rx_frames arrived env' b = Some b' \<and>
       rcv_stream (tsks b' kb) = rcv_stream (tsks b kb) @ take n buf \<and>
       (set frames \<subseteq> set arrived \<longrightarrow> take n buf = buf \<and> rcv_nxt (tcb_of (tsks b' kb)) = snd_nxt (tcb_of (tsks a' ka)))))"
  using any_arrival [OF assms, of env env'] by blast

theorem tcp_any_arrival_witness:
  "\<exists>a' b' frames. tcp_send 0 [1, 2, 3, 4, 5] [] tcp_client_demo = Some (5, [], a') \<and> tun_tx a' = frames \<and>
    rx_frames (rev frames @ frames) [] tcp_server_demo = Some b' \<and> rcv_stream (tsks b' 0) = [1, 2, 3, 4, 5]"
proof -
  define buf where "buf = [1, 2, 3, 4, 5 :: u8]"
  have h: "0 < smss (tsks tcp_client_demo 0)" "unat (smss (tsks tcp_client_demo 0)) \<le> 1546"
    "unat (inflight (tsks tcp_client_demo 0)) + length buf \<le>
      unat (umin (cwnd (tsks tcp_client_demo 0)) (snd_wnd (tcb_of (tsks tcp_client_demo 0))))"
    "rcv_sync (flow_of (netdev_init Dev_tap) [2, 3, 4, 5, 6, 7] (tsks tcp_client_demo 0)) (length buf) 0 tcp_server_demo"
    "rcv_nxt (tcb_of (tsks tcp_server_demo 0)) = snd_nxt (tcb_of (tsks tcp_client_demo 0))"
    "length buf \<le> unat (rcv_wnd (tcb_of (tsks tcp_server_demo 0)))"
    using tcp_client_demo_ok(2,4-6) tcp_server_demo_ok(1,2) by (simp_all add: buf_def) (simp add: tcp_server_demo_def tcp_peer_def)
  obtain a' frames where a': "tcp_send 0 buf [] tcp_client_demo = Some (int (length buf), [], a')" "tun_tx a' = tun_tx tcp_client_demo @ frames"
    "\<forall>arrived. set arrived \<subseteq> set frames \<longrightarrow> (\<exists>b' n. rx_frames arrived [] tcp_server_demo = Some b' \<and>
       rcv_stream (tsks b' 0) = rcv_stream (tsks tcp_server_demo 0) @ take n buf \<and>
       (set frames \<subseteq> set arrived \<longrightarrow> take n buf = buf \<and> rcv_nxt (tcb_of (tsks b' 0)) = snd_nxt (tcb_of (tsks a' 0))))"
    using tcp_any_arrival [OF tcp_client_demo_ok(1) h, of "[]" "[]"] by (elim exE conjE)
  obtain b' where "rx_frames (rev frames @ frames) [] tcp_server_demo = Some b'" "rcv_stream (tsks b' 0) = rcv_stream (tsks tcp_server_demo 0) @ buf"
    using a'(3) [rule_format, of "rev frames @ frames"] by auto
  then show ?thesis using a'(1,2) tcp_client_demo_ok(3) tcp_server_demo_ok(3)
    by (intro exI [of _ a'] exI [of _ b'] exI [of _ frames]) (simp add: buf_def)
qed

end
