(* ===== verification/App_Delivery.thy ===== *)
theory App_Delivery
  imports Tcp_Reorder Liblevelip
begin

text \<open>
  The composition of the client library, the messages, the stack and the wire: what one application writes another one reads. It rests
  on the lemmas for \<open>write\<close> and \<open>read\<close> through messages and on the arrival of frames in any order.
\<close>

section \<open>The calls of the stack\<close>

lemma wr_acquire_sel [simp]:
  "tsks (socket_wr_acquire k s) = tsks s" "tun_tx (socket_wr_acquire k s) = tun_tx s" "so_dgram (socks (socket_wr_acquire k s) j) = so_dgram (socks s j)"
  "tsks (socket_release k s) = tsks s" "tun_tx (socket_release k s) = tun_tx s"
  by (simp_all add: socket_wr_acquire_def socket_release_def upd_sock_def Let_def)

lemma snd_path_acquire [simp]: "snd_path dev dmac k (socket_wr_acquire j s) = snd_path dev dmac k s"
  by (simp add: snd_path_def socket_wr_acquire_def upd_sock_def route_lookup_def split: option.split)

lemma write_established:
  assumes "get_socket pid fd a = Some k" and "\<not> so_dgram (socks a k)" and "sk_err (tsks a k) = 0" and "sk_state (tsks a k) = TCP_ESTABLISHED"
    and "tcp_send k buf env (socket_wr_acquire k a) = Some (rc, env', a')"
  shows "write_call pid fd buf env a = Some (rc, (), env', socket_release k a')"
  using assms by (simp add: write_call_def with_socket_def inet_write_def tcp_write_def add_unit_def)

lemma read_available:
  assumes "get_socket pid fd b = Some k" and "\<not> so_dgram (socks b k)" and "sk_state (tsks b k) = TCP_ESTABLISHED" and "rcv_ok (tsks b k)"
    and "0 < len" and "len \<le> length (rcv_stream (tsks b k))" and "len < 2 ^ 31"
  shows "\<exists>b'. read_call pid fd len env b = Some (int len, take len (rcv_stream (tsks b k)), env, b') \<and>
    rcv_stream (tsks b' k) = drop len (rcv_stream (tsks b k))"
proof -
  define s where "s = socket_wr_acquire k b"
  obtain bs n t where dq: "tcp_data_dequeue len (tsks b k) = (bs, n, t)" by (metis prod_cases3)
  from dequeue_stream [OF assms(4,7) dq] assms(6) have r: "bs = take len (rcv_stream (tsks b k))" "n = len" "rcv_stream t = drop len (rcv_stream (tsks b k))"
    by auto
  have fl: "rcv_stream (t\<lparr>tsk_flags := x\<rparr>) = rcv_stream t" for x by (simp add: rcv_stream_def)
  have "\<exists>s'. tcp_receive_loop k len 0 [] env s = Some (int len, bs, env, s') \<and> rcv_stream (tsks s' k) = rcv_stream t"
    using assms(5) dq r(2) by (subst tcp_receive_loop.simps) (simp add: Let_def s_def upd_tsk_at fl)
  then obtain s' where s': "tcp_receive_loop k len 0 [] env s = Some (int len, bs, env, s')" "rcv_stream (tsks s' k) = rcv_stream t" by blast
  have u: "rcv_stream (tsks (tcp_rearm_user_timeout k s') k) = rcv_stream (tsks s' k)"
    by (simp add: tcp_rearm_user_timeout_def tcp_add_linger_def Let_def case_prod_beta rcv_stream_def upd_tsk_at)
  have "read_call pid fd len env b = Some (int len, bs, env, socket_release k (tcp_rearm_user_timeout k s'))"
    using assms(1-3) s'(1) unfolding s_def by (simp add: read_call_def with_socket_def inet_read_def tcp_read_def tcp_receive_def)
  then show ?thesis using r s'(2) u by (intro exI [of _ "socket_release k (tcp_rearm_user_timeout k s')"]) simp
qed


section \<open>From application to application\<close>



definition app_demo :: "tcpstate \<Rightarrow> ipcstate" where
  "app_demo s = ipc_boot\<lparr>ipc_tcp := upd_sock 0 (\<lambda>_. socket_zero\<lparr>so_pid := 100, so_fd := 4097\<rparr>) (s\<lparr>sockets := [0]\<rparr>)\<rparr>"

lemma app_demo_sel:
  "get_socket 100 4097 (ipc_tcp (app_demo s)) = Some 0" "\<not> so_dgram (socks (ipc_tcp (app_demo s)) 0)"
  "tsks (ipc_tcp (app_demo s)) = tsks s" "tun_tx (ipc_tcp (app_demo s)) = tun_tx s"
  "snd_path dev dmac k (ipc_tcp (app_demo s)) = snd_path dev dmac k s"
  by (simp_all add: app_demo_def get_socket_def upd_sock_def socket_zero_def snd_path_def route_lookup_def split: option.split)

lemma app_demo_sync:
  assumes "sockets s = [0]" and "\<not> so_dgram (socks s 0)" and "rcv_sync fl n 0 s"
  shows "rcv_sync fl n 0 (ipc_tcp (app_demo s))"
proof -
  define s' where "s' = ipc_tcp (app_demo s)"
  have d: "sockets s' = [0]" "tsks s' = tsks s" "\<not> so_dgram (socks s' 0)"
    by (simp_all add: s'_def app_demo_def upd_sock_def socket_zero_def)
  have "inet_lookup a b c d s' = inet_lookup a b c d s" for a b c d
    unfolding inet_lookup_def socket_lookup_def tcp_lookup_established_def tcp_lookup_listener_def d(1,2) assms(1)
    using d(3) assms(2) by simp
  then show ?thesis using assms(3) unfolding rcv_sync_def s'_def [symmetric] d(2) by simp
qed


end
