(* ===== verification/Tcp_Open.thy ===== *)
theory Tcp_Open
  imports Tcp_Receive
begin

text \<open>
  Opening a connection: the SYN of \<open>tcp_connect\<close> and its answer on the active side, the forked socket of \<open>tcp_listen\<close> on the passive
  side.
\<close>

section \<open>The segments of the handshake\<close>

lemma tcp_parse_loop_inflight: "inflight (snd (tcp_parse_loop p n sack t)) = inflight t"
proof (induction p n sack t rule: tcp_parse_loop.induct)
  case (1 p n sack t)
  then show ?case by (subst tcp_parse_loop.simps) (auto simp: Let_def)
qed

lemma tcp_parse_opts_inflight: "inflight (tcp_parse_opts th opts t) = inflight t"
  by (simp add: tcp_parse_opts_def Let_def case_prod_beta tcp_sack_mark_write_queue_def tcp_parse_loop_inflight split: option.split)

lemma tcp_synack_skb:
  fixes t :: tcp_sock
  defines "b \<equiv> tcp_set_hdr t (\<lambda>th. th\<lparr>th_syn := True, th_ack := True, th_hl := 6\<rparr>) (tcp_alloc_skb (sk_addr_family t) 4 0)"
  shows "skb_dlen b = 0" "\<not> th_fin (skb_load dec_tcphdr (int (tcp_hdr_for_sk t)) b)"
proof -
  define off where "off = tcp_hdr_for_sk t"
  define a where "a = tcp_alloc_skb (sk_addr_family t) 4 0"
  have m: "skb_mem a = replicate off 0 @ replicate 20 0 @ replicate 4 0"
    by (simp add: a_def off_def tcp_alloc_skb_def tcp_hdr_for_sk_def Let_def skb_reserve_def alloc_skb_def flip: replicate_add)
  define u where "u = (\<lambda>th. th\<lparr>th_syn := True, th_ack := True, th_hl := 6\<rparr>) (skb_load dec_tcphdr (int off) a)"
  have "skb_load dec_tcphdr (int off) a = dec_tcphdr (replicate 20 0 @ replicate 4 0)"
    by (rule skb_load_mid [OF m]) simp
  then have u: "\<not> th_fin u" by (simp add: u_def dec_tcphdr_def nth_append)
  have b: "b = skb_put (int off) (enc_tcphdr u) a" by (simp add: b_def tcp_set_hdr_def u_def off_def a_def skb_store_def Let_def)
  then show "skb_dlen b = 0" by (simp add: a_def tcp_alloc_skb_def Let_def)
  have "skb_put (int off) (enc_tcphdr u) a = a\<lparr>skb_mem := replicate off 0 @ enc_tcphdr u @ replicate 4 0\<rparr>"
    by (rule skb_put_mid [OF m]) simp_all
  then have "skb_load dec_tcphdr (int off) b = dec_tcphdr (enc_tcphdr u @ replicate 4 0)"
    unfolding b by (intro skb_load_mid [where pre = "replicate off 0"]) simp_all
  then show "\<not> th_fin (skb_load dec_tcphdr (int (tcp_hdr_for_sk t)) b)"
    using u tcph.dec_enc [of u] by (simp add: off_def)
qed

text \<open>A segment without text goes out at once and takes no sequence number.\<close>

lemma tcp_queue_control:
  assumes "inflight (tsks s k) = 0" and "skb_dlen b = 0" and "\<not> th_fin (skb_load dec_tcphdr (int (tcp_hdr_for_sk (tsks s k))) b)"
  shows "\<exists>rc s'. tcp_queue_transmit_skb k b env s = Some (rc, env, s') \<and> tcb_of (tsks s' k) = tcb_of (tsks s k) \<and>
    sk_state (tsks s' k) = sk_state (tsks s k) \<and> socks s' = socks s"
proof -
  have w: "tcp_wait_snd_wnd k (skb_dlen b) env s = Some (env, s)"
    using assms(1,2) by (subst tcp_wait_snd_wnd.simps) (simp add: not_less)
  define s2 where "s2 = (if skb_queue_empty (sk_write_queue (tsks s k))
     then tcp_rearm_rto_timer k (tcp_enqueue_skb k b s) else tcp_enqueue_skb k b s)"
  have "socks (tcp_rearm_rto_timer k s) = socks s" for s
    by (simp add: tcp_rearm_rto_timer_def tcp_release_rto_timer_def Let_def case_prod_beta upd_tsk_def upd_timers_def)
  then have s2: "tcb_of (tsks s2 k) = tcb_of (tsks s k)" "sk_state (tsks s2 k) = sk_state (tsks s k)" "socks s2 = socks s"
    using assms(2,3) by (simp_all add: s2_def tcp_enqueue_skb_def Let_def upd_tsk_at upd_tcb_at)
      (simp_all add: upd_tsk_def upd_tcb_def)
  obtain i sq where q: "tcp_queue_transmit_skb k b env s =
     Some (fst (tcp_transmit_queued k i sq s2), env, snd (tcp_transmit_queued k i sq s2))"
    unfolding tcp_queue_transmit_skb_def w Let_def case_prod_beta option.case prod.sel
    by (simp only: option.inject prod.inject flip: s2_def)
  have "socks (snd (tcp_transmit_queued k i sq s2)) = socks s2"
    by (simp add: tcp_transmit_queued_def Let_def case_prod_beta upd_tsk_def)
  then show ?thesis using q s2 by simp
qed

lemma tcp_send_synack_nxt:
  assumes "sk_state (tsks s k) = TCP_SYN_RECEIVED" and "inflight (tsks s k) = 0"
  shows "\<exists>rc s'. tcp_send_synack k env s = Some (rc, env, s') \<and> tcb_of (tsks s' k) = (tcb_of (tsks s k))\<lparr>snd_nxt := snd_nxt (tcb_of (tsks s k)) + 1\<rparr> \<and>
    sk_state (tsks s' k) = TCP_SYN_RECEIVED"
proof -
  define b where "b = tcp_set_hdr (tsks s k) (\<lambda>th. th\<lparr>th_syn := True, th_ack := True, th_hl := 6\<rparr>) (tcp_alloc_skb (sk_addr_family (tsks s k)) 4 0)"
  show ?thesis
    using tcp_queue_control [OF assms(2) tcp_synack_skb, of env, folded b_def] assms(1) unfolding tcp_send_synack_def Let_def
    by (auto simp: upd_tcb_at b_def [symmetric])
qed

section \<open>Passive open\<close>

lemma fork_socket_tcb:
  assumes "fork_socket pid th opts family saddr sport daddr s = (f, s')"
  shows "f = next_sock s" "sk_state (tsks s' f) = TCP_SYN_RECEIVED" "inflight (tsks s' f) = 0"
    "\<exists>i b. tcb_of (tsks s' f) = fork_init i th b"
proof -
  define k where "k = next_sock s"
  define s1 where "s1 = snd (socket_stream pid family s)"
  have k: "fst (socket_stream pid family s) = k" "tsks s1 k = family_create family 6 tcp_alloc_sock"
    by (simp_all add: s1_def k_def socket_stream_def alloc_socket_def Let_def)
  define s2 where "s2 = upd_tsk k (tcp_parse_opts th opts) (tcp_set_state k TCP_SYN_RECEIVED s1)"
  define s3 where "s3 = upd_tsk k (\<lambda>t. if snd_scale t \<noteq> 0 then t\<lparr>wso_allowed := True, rcv_scale := snd_scale t\<rparr> else t) s2"
  define i where "i = fst (generate_iss s3)"
  define s4 where "s4 = upd_tcb k (fork_init i th) (snd (generate_iss s3))"
  define s5 where "s5 = upd_tsk k (\<lambda>t. if family = AF_INET6 then t\<lparr>sk_saddr := saddr, sk_daddr := daddr\<rparr>
    else t\<lparr>sk_saddr := set_v4 (un_v4 saddr) (sk_saddr t), sk_daddr := set_v4 (un_v4 daddr) (sk_daddr t)\<rparr>) s4"
  define s6 where "s6 = upd_tsk k (\<lambda>t. t\<lparr>sk_sport := sport, sk_dport := th_sport th\<rparr>) s5"
  have "fork_socket pid th opts family saddr sport daddr s = (k, s6)"
    unfolding fork_socket_def Let_def case_prod_beta k(1) s1_def [symmetric] s2_def [symmetric] s3_def [symmetric] i_def [symmetric]
      s4_def [symmetric] s5_def [symmetric] s6_def [symmetric] by (rule refl)
  then have e: "f = k" "s' = s6" using assms by simp_all
  have "sk_state (tsks s2 k) = TCP_SYN_RECEIVED" "inflight (tsks s2 k) = 0"
    by (simp_all add: s2_def tcp_parse_opts_inflight tcp_set_state_def k(2) family_create_def inet_create_def inet6_create_def
        sock_init_data_def tcp_alloc_sock_def)
  then have "sk_state (tsks s3 k) = TCP_SYN_RECEIVED" "inflight (tsks s3 k) = 0" by (simp_all add: s3_def)
  then have "sk_state (tsks s4 k) = TCP_SYN_RECEIVED" "inflight (tsks s4 k) = 0" "tcb_of (tsks s4 k) = fork_init i th (tcb_of (tsks s3 k))"
    by (simp_all add: s4_def upd_tcb_at generate_iss_def)
  then have "sk_state (tsks s6 k) = TCP_SYN_RECEIVED" "inflight (tsks s6 k) = 0" "tcb_of (tsks s6 k) = fork_init i th (tcb_of (tsks s3 k))"
    by (simp_all add: s6_def s5_def)
  then show "f = next_sock s" "sk_state (tsks s' f) = TCP_SYN_RECEIVED" "inflight (tsks s' f) = 0" "\<exists>i b. tcb_of (tsks s' f) = fork_init i th b"
    unfolding e by (simp_all add: k_def) blast
qed

lemma tcp_sacks_loop_rq: "sk_receive_queue (tcp_sacks_loop a b q i t) = sk_receive_queue t"
  by (induction a b q i t rule: tcp_sacks_loop.induct) (simp_all add: Let_def)

lemma tcp_data_queue_gap:
  assumes "skb_seq b \<noteq> rcv_nxt (tcb_of (tsks r j))"
  shows "rcv_stream (tsks (snd (snd (tcp_data_queue j b r))) j) = rcv_stream (tsks r j)"
proof -
  have "sk_receive_queue (tsks (snd (tcp_send_ack j s)) j) = sk_receive_queue (tsks s j)" for s
    by (simp add: tcp_send_ack_def Let_def case_prod_beta)
  moreover have "sk_receive_queue (tcp_calculate_sacks x y t) = sk_receive_queue t" for x y t
    by (simp add: tcp_calculate_sacks_def Let_def tcp_sacks_loop_rq)
  ultimately show ?thesis
    using assms unfolding tcp_data_queue_def Let_def case_prod_beta rcv_stream_def by (simp add: upd_tsk_at)
qed

text \<open>
  Property C14. A SYN at a listening socket opens a connection whose next sequence number is two past the initial one, although the
  SYN-ACK takes a single one: \<open>tcp_send_synack\<close> counts it and \<open>tcp_listen\<close> counts it again. The peer expects the initial number plus
  one, so the first text the new socket sends lies behind a gap and does not reach the peer's stream.
\<close>

theorem passive_open_skips:
  assumes "th_syn th" and "f = next_sock s"
  shows "\<exists>rc s'. tcp_listen k th opts skb saddr family env s = Some (rc, free_skb skb, env, s') \<and>
    sk_state (tsks s' f) = TCP_SYN_RECEIVED \<and> snd_una (tcb_of (tsks s' f)) = iss (tcb_of (tsks s' f)) \<and>
    snd_nxt (tcb_of (tsks s' f)) = iss (tcb_of (tsks s' f)) + 2 \<and> rcv_nxt (tcb_of (tsks s' f)) = th_seq th + 1 \<and>
    (\<forall>j b r. rcv_nxt (tcb_of (tsks r j)) = iss (tcb_of (tsks s' f)) + 1 \<and> skb_seq b = snd_nxt (tcb_of (tsks s' f)) \<longrightarrow>
       rcv_stream (tsks (snd (snd (tcp_data_queue j b r))) j) = rcv_stream (tsks r j))"
proof -
  obtain f' s1 where fk: "fork_socket (so_pid (socks s k)) th opts family (sk_saddr (tsks s k)) (sk_sport (tsks s k)) saddr s = (f', s1)"
    by fastforce
  have ff: "f' = f" using fork_socket_tcb(1) [OF fk] assms(2) by simp
  note f = fork_socket_tcb(2-) [OF fk, unfolded ff] and fk = fk [unfolded ff]
  define s2 where "s2 = upd_tsk f (\<lambda>t. t\<lparr>ptsk := Some k\<rparr>) s1"
  obtain i b where b: "tcb_of (tsks s2 f) = fork_init i th b" using f(3) by (auto simp: s2_def)
  obtain rc s3 where s3: "tcp_send_synack f env s2 = Some (rc, env, s3)"
    "tcb_of (tsks s3 f) = (tcb_of (tsks s2 f))\<lparr>snd_nxt := snd_nxt (tcb_of (tsks s2 f)) + 1\<rparr>" "sk_state (tsks s3 f) = TCP_SYN_RECEIVED"
    using tcp_send_synack_nxt [of s2 f env] f(1,2) by (auto simp: s2_def)
  have "tcp_listen k th opts skb saddr family env s = Some (rc, free_skb skb, env, upd_tcb f (\<lambda>b. b\<lparr>snd_nxt := snd_nxt b + 1\<rparr>) s3)"
    unfolding tcp_listen_def fk using assms(1) s3(1) by (simp add: s2_def Let_def)
  then show ?thesis
    using s3(2,3) tcp_data_queue_gap by (auto simp: b fork_init_def upd_tcb_at add.assoc)
qed

section \<open>Active open\<close>

lemma tcp_hdr_flags:
  fixes f :: "tcphdr \<Rightarrow> tcphdr"
  assumes "skb_mem a = replicate off 0 @ x @ y" and "length x = 20" and "\<And>th. th_fin (f th) = th_fin th"
  shows "th_fin (skb_load dec_tcphdr (int off) (skb_store enc_tcphdr (int off) (f (skb_load dec_tcphdr (int off) a)) a)) =
      th_fin (skb_load dec_tcphdr (int off) a)"
    and "\<exists>x'. skb_mem (skb_store enc_tcphdr (int off) u a) = replicate off 0 @ x' @ y \<and> length x' = 20"
proof -
  have st: "skb_store enc_tcphdr (int off) u a = a\<lparr>skb_mem := replicate off 0 @ enc_tcphdr u @ y\<rparr>" for u
    unfolding skb_store_def by (rule skb_put_mid [OF assms(1)]) (simp_all add: assms(2))
  have "skb_load dec_tcphdr (int off) (skb_store enc_tcphdr (int off) u a) = dec_tcphdr (enc_tcphdr u @ y)" for u
    unfolding st by (rule skb_load_mid [where pre = "replicate off 0"]) simp_all
  then show "th_fin (skb_load dec_tcphdr (int off) (skb_store enc_tcphdr (int off) (f (skb_load dec_tcphdr (int off) a)) a)) =
      th_fin (skb_load dec_tcphdr (int off) a)"
    using tcph.dec_enc by (simp add: assms(3))
  show "\<exists>x'. skb_mem (skb_store enc_tcphdr (int off) u a) = replicate off 0 @ x' @ y \<and> length x' = 20"
    by (intro exI [of _ "enc_tcphdr u"]) (simp add: st)
qed

lemma tcp_syn_skb:
  fixes t :: tcp_sock
  assumes "tcp_syn_options t = (optlen, opts)"
  defines "b \<equiv> tcp_set_hdr t (\<lambda>th. th\<lparr>th_syn := True\<rparr>) (tcp_write_syn_options t opts optlen (tcp_alloc_skb (sk_addr_family t) optlen 0))"
  shows "skb_dlen b = 0" "\<not> th_fin (skb_load dec_tcphdr (int (tcp_hdr_for_sk t)) b)"
proof -
  define off where "off = tcp_hdr_for_sk t"
  define a where "a = tcp_alloc_skb (sk_addr_family t) optlen 0"
  have o: "optlen = (if opt_sack opts then 8 else 4)" using assms(1) by (auto simp: tcp_syn_options_def split: if_splits)
  have "skb_mem a = replicate off 0 @ replicate 20 0 @ replicate optlen 0"
    by (simp add: a_def off_def tcp_alloc_skb_def tcp_hdr_for_sk_def Let_def skb_reserve_def alloc_skb_def flip: replicate_add)
  moreover define a1 where "a1 = skb_put (int off + 20) ([2, 4] @ le16 (htons (opt_mss opts))) a"
  moreover define a2 where "a2 = (if opt_sack opts then skb_put (int off + 20 + 4) [1, 1, 4, 2] a1 else a1)"
  ultimately obtain y where m: "skb_mem a2 = replicate off 0 @ replicate 20 0 @ y"
    using o by (auto simp: skb_put_def skb_end_def put_bytes_def nat_add_distrib split: if_splits)
  have z: "skb_load dec_tcphdr (int off) a2 = dec_tcphdr (replicate 20 0 @ y)"
    by (rule skb_load_mid [OF m]) simp
  have f0: "\<not> th_fin (skb_load dec_tcphdr (int off) a2)" unfolding z by (simp add: dec_tcphdr_def nth_append)
  define a3 where "a3 = tcp_set_hdr t (\<lambda>th. th\<lparr>th_hl := of_nat (TCP_DOFFSET + optlen div 4)\<rparr>) a2"
  have b: "b = tcp_set_hdr t (\<lambda>th. th\<lparr>th_syn := True\<rparr>) a3"
    by (simp add: b_def a3_def a2_def a1_def a_def off_def tcp_write_syn_options_def Let_def)
  then show "skb_dlen b = 0"
    by (simp add: a3_def a2_def a1_def a_def tcp_set_hdr_def skb_store_def Let_def tcp_alloc_skb_def)
  have "\<exists>x. skb_mem a3 = replicate off 0 @ x @ y \<and> length x = 20" "\<not> th_fin (skb_load dec_tcphdr (int off) a3)"
    using tcp_hdr_flags [OF m, of "\<lambda>th. th\<lparr>th_hl := of_nat (TCP_DOFFSET + optlen div 4)\<rparr>"] f0
    by (simp_all add: a3_def tcp_set_hdr_def off_def Let_def)
  then show "\<not> th_fin (skb_load dec_tcphdr (int (tcp_hdr_for_sk t)) b)"
    using tcp_hdr_flags(1) [of a3 off _ y "\<lambda>th. th\<lparr>th_syn := True\<rparr>"] unfolding b tcp_set_hdr_def off_def [symmetric] Let_def by auto
qed

lemma tcp_connect_sends:
  assumes "sk_state (tsks s k) = TCP_CLOSE" and "inflight (tsks s k) = 0"
  shows "\<exists>rc s'. tcp_connect k env s = Some (rc, env, s') \<and> sk_state (tsks s' k) = TCP_SYN_SENT \<and>
    iss (tcb_of (tsks s' k)) = iss_src s (iss_cnt s) \<and> snd_una (tcb_of (tsks s' k)) = iss_src s (iss_cnt s) \<and>
    snd_nxt (tcb_of (tsks s' k)) = iss_src s (iss_cnt s) + 1 \<and> rcv_wnd (tcb_of (tsks s' k)) = tcp_select_initial_window"
proof -
  define i where "i = iss_src s (iss_cnt s)"
  define s1 where "s1 = upd_tcb k (\<lambda>b. b\<lparr>iss := i, snd_wnd := 0, snd_wl1 := 0, snd_una := i, snd_up := i, snd_nxt := i, rcv_nxt := 0,
    rcv_wnd := tcp_select_initial_window, real_rcv_wnd := tcp_select_initial_window\<rparr>)
    (snd (generate_iss (upd_tsk k (\<lambda>t. t\<lparr>tcp_header_len := 20\<rparr>) s)))"
  have i: "fst (generate_iss (upd_tsk k (\<lambda>t. t\<lparr>tcp_header_len := 20\<rparr>) s)) = i" by (simp add: generate_iss_def i_def upd_tsk_def)
  have s1: "sk_state (tsks s1 k) = TCP_CLOSE" "inflight (tsks s1 k) = 0" "iss (tcb_of (tsks s1 k)) = i" "snd_una (tcb_of (tsks s1 k)) = i"
    "snd_nxt (tcb_of (tsks s1 k)) = i" "rcv_wnd (tcb_of (tsks s1 k)) = tcp_select_initial_window"
    using assms by (simp_all add: s1_def upd_tcb_at generate_iss_def)
  obtain optlen opts where op: "tcp_syn_options (tsks s1 k) = (optlen, opts)" by fastforce
  define b where "b = tcp_set_hdr (tsks s1 k) (\<lambda>th. th\<lparr>th_syn := True\<rparr>)
    (tcp_write_syn_options (tsks s1 k) opts optlen (tcp_alloc_skb (sk_addr_family (tsks s1 k)) optlen 0))"
  note b = tcp_syn_skb [OF op, folded b_def]
  define s2 where "s2 = tcp_set_state k TCP_SYN_SENT s1"
  have s2: "tcb_of (tsks s2 k) = tcb_of (tsks s1 k)" "inflight (tsks s2 k) = 0" "sk_state (tsks s2 k) = TCP_SYN_SENT"
    "tcp_hdr_for_sk (tsks s2 k) = tcp_hdr_for_sk (tsks s1 k)"
    using s1(2) by (simp_all add: s2_def tcp_set_state_def tcp_hdr_for_sk_def)
  obtain rc s3 where s3: "tcp_queue_transmit_skb k b env s2 = Some (rc, env, s3)" "tcb_of (tsks s3 k) = tcb_of (tsks s1 k)"
    "sk_state (tsks s3 k) = TCP_SYN_SENT"
    using tcp_queue_control [OF s2(2) b(1), of env] b(2) s2 by auto
  have "tcp_send_syn k env s1 = Some (rc, env, s3)"
    unfolding tcp_send_syn_def Let_def op using s1(1) s3(1) by (simp add: b_def s2_def)
  then have "tcp_connect k env s = Some (rc, env, upd_tcb k (\<lambda>b. b\<lparr>snd_nxt := snd_nxt b + 1\<rparr>) s3)"
    unfolding tcp_connect_def Let_def case_prod_beta i s1_def [symmetric] by simp
  then show ?thesis using s3 s1 by (auto simp: upd_tcb_at i_def)
qed

lemma tcp_parse_loop_tcb: "tcb_of (snd (tcp_parse_loop p n sack t)) = tcb_of t"
proof (induction p n sack t rule: tcp_parse_loop.induct)
  case (1 p n sack t)
  then show ?case by (subst tcp_parse_loop.simps) (auto simp: Let_def)
qed

lemma tcp_parse_opts_tcb: "tcb_of (tcp_parse_opts th opts t) = tcb_of t"
  by (simp add: tcp_parse_opts_def Let_def case_prod_beta tcp_sack_mark_write_queue_def tcp_parse_loop_tcb split: option.split)

lemma tcp_synsent_established:
  assumes "th_ack th" and "th_ack_seq th > iss (tcb_of (tsks s k))" and "iss (tcb_of (tsks s k)) = snd_una (tcb_of (tsks s k))"
  shows "\<exists>s'. tcp_synsent_syn k th opts env s = Some (env, s') \<and> sk_state (tsks s' k) = TCP_ESTABLISHED \<and>
    snd_una (tcb_of (tsks s' k)) = snd_nxt (tcb_of (tsks s k)) \<and> snd_nxt (tcb_of (tsks s' k)) = snd_nxt (tcb_of (tsks s k)) \<and>
    rcv_nxt (tcb_of (tsks s' k)) = th_seq th + 1 \<and> rcv_wnd (tcb_of (tsks s' k)) = rcv_wnd (tcb_of (tsks s k)) \<and>
    sk_err (tsks s' k) = 0 \<and> so_state (socks s' k) = SS_CONNECTED \<and> (k, Wait_sleep) \<in> set (wakes s')"
proof -
  define s1 where "s1 = tcp_clean_rto_queue k (th_ack_seq th)
    (upd_tcb k (\<lambda>b. b\<lparr>snd_una := th_ack_seq th\<rparr>) (upd_tcb k (\<lambda>b. b\<lparr>rcv_nxt := th_seq th + 1, irs := th_seq th\<rparr>) s))"
  have "ack_part (tsks s1 k) = ack_part ((tsks s k)\<lparr>tcb_of := (tcb_of (tsks s k))\<lparr>rcv_nxt := th_seq th + 1, irs := th_seq th, snd_una := th_ack_seq th\<rparr>\<rparr>)"
    by (simp add: s1_def upd_tcb_at)
  then have s1: "tcb_of (tsks s1 k) = (tcb_of (tsks s k))\<lparr>rcv_nxt := th_seq th + 1, irs := th_seq th, snd_una := th_ack_seq th\<rparr>"
    by (simp add: ack_part_def)
  define s2 where "s2 = upd_tsk k (\<lambda>t. t\<lparr>backoff := 0, rto := 1000\<rparr>)
    (upd_tcb k (\<lambda>b. b\<lparr>snd_una := snd_nxt b, snd_wnd := ucast (th_win th), snd_wl1 := th_seq th, snd_wl2 := th_ack_seq th\<rparr>)
      (tcp_set_state k TCP_ESTABLISHED s1))"
  have s2: "sk_state (tsks s2 k) = TCP_ESTABLISHED" "snd_una (tcb_of (tsks s2 k)) = snd_nxt (tcb_of (tsks s k))"
    "snd_nxt (tcb_of (tsks s2 k)) = snd_nxt (tcb_of (tsks s k))" "rcv_nxt (tcb_of (tsks s2 k)) = th_seq th + 1"
    "rcv_wnd (tcb_of (tsks s2 k)) = rcv_wnd (tcb_of (tsks s k))"
    by (simp_all add: s2_def upd_tcb_at tcp_set_state_def s1)
  define s3 where "s3 = tcp_rearm_user_timeout k (snd (tcp_send_ack k s2))"
  have s3: "sk_state (tsks s3 k) = TCP_ESTABLISHED" "tcb_of (tsks s3 k) = tcb_of (tsks s2 k)"
    using s2(1) by (simp_all add: s3_def tcp_rearm_user_timeout_def tcp_cancel_linger_def tcp_add_linger_def tcp_send_ack_def Let_def
        case_prod_beta upd_tsk_at)
  define s4 where "s4 = upd_tsk k (update_snd_win (th_win th)) (upd_tsk k (tcp_parse_opts th opts) s3)"
  have s4: "sk_state (tsks s4 k) = TCP_ESTABLISHED" "snd_una (tcb_of (tsks s4 k)) = snd_una (tcb_of (tsks s3 k))"
    "snd_nxt (tcb_of (tsks s4 k)) = snd_nxt (tcb_of (tsks s3 k))" "rcv_nxt (tcb_of (tsks s4 k)) = rcv_nxt (tcb_of (tsks s3 k))"
    "rcv_wnd (tcb_of (tsks s4 k)) = rcv_wnd (tcb_of (tsks s3 k))"
    using s3(1) by (simp_all add: s4_def update_snd_win_def tcp_parse_opts_tcb)
  have "iss (tcb_of (tsks s1 k)) < snd_una (tcb_of (tsks s1 k))" using assms(2) by (simp add: s1)
  then have "tcp_synsent_syn k th opts env s = Some (env, sock_connected k s4)"
    unfolding tcp_synsent_syn_def Let_def using assms(1)
    by (simp add: case_prod_beta s1_def [symmetric] s2_def [symmetric] s3_def [symmetric] s4_def [symmetric])
  moreover have "tcb_of (tsks (sock_connected k s4) k) = tcb_of (tsks s4 k)" "sk_state (tsks (sock_connected k s4) k) = TCP_ESTABLISHED"
    "sk_err (tsks (sock_connected k s4) k) = 0" "so_state (socks (sock_connected k s4) k) = SS_CONNECTED"
    "(k, Wait_sleep) \<in> set (wakes (sock_connected k s4))"
    using s4(1) by (simp_all add: sock_connected_def Let_def upd_tsk_def upd_sock_def wait_wakeup_def)
  ultimately show ?thesis using s2 s3 s4 by simp
qed

lemma u32_succ_le: "i + 1 \<le> (i :: u32) \<longleftrightarrow> i = - 1"
proof (cases "unat i = 4294967295")
  case True
  then have "i = of_nat 4294967295" by (simp add: word_unat_eq_iff)
  then show ?thesis by simp
next
  case False
  then have "unat (i + 1) = unat i + 1" using u32_less [of i] by (simp add: unat_word_ariths)
  moreover from this have "i \<noteq> - 1" by auto
  ultimately show ?thesis by (simp add: word_le_nat_alt)
qed

text \<open>
  Property C12. \<open>tcp_connect\<close> on a closed socket sends a SYN and counts it. A SYN-ACK that acknowledges it establishes the connection,
  with everything sent acknowledged and the peer's next number expected, clears the error and wakes the caller; only when the initial
  number is the largest one the comparison without wrap-around makes the answer look old, and the connection does not open.
\<close>

theorem active_open:
  assumes "sk_state (tsks s k) = TCP_CLOSE" and "inflight (tsks s k) = 0" and "i = iss_src s (iss_cnt s)"
    and "th_syn th" and "th_ack th" and "\<not> th_rst th" and "th_ack_seq th = i + 1"
  shows "\<exists>rc s1 s2. tcp_connect k env s = Some (rc, env, s1) \<and> sk_state (tsks s1 k) = TCP_SYN_SENT \<and> snd_nxt (tcb_of (tsks s1 k)) = i + 1 \<and>
    tcp_input_state k th opts skb saddr fam env' s1 = Some (0, free_skb skb, env', s2) \<and>
    (if i = - 1 then s2 = s1
     else sk_state (tsks s2 k) = TCP_ESTABLISHED \<and> snd_una (tcb_of (tsks s2 k)) = i + 1 \<and> snd_nxt (tcb_of (tsks s2 k)) = i + 1 \<and>
       rcv_nxt (tcb_of (tsks s2 k)) = th_seq th + 1 \<and> rcv_wnd (tcb_of (tsks s2 k)) = tcp_select_initial_window \<and>
       sk_err (tsks s2 k) = 0 \<and> so_state (socks s2 k) = SS_CONNECTED \<and> (k, Wait_sleep) \<in> set (wakes s2))"
proof -
  obtain rc s1 where s1: "tcp_connect k env s = Some (rc, env, s1)" "sk_state (tsks s1 k) = TCP_SYN_SENT" "iss (tcb_of (tsks s1 k)) = i"
    "snd_una (tcb_of (tsks s1 k)) = i" "snd_nxt (tcb_of (tsks s1 k)) = i + 1" "rcv_wnd (tcb_of (tsks s1 k)) = tcp_select_initial_window"
    using tcp_connect_sends [OF assms(1,2), of env] assms(3) by auto
  note wrap = u32_succ_le [of i]
  show ?thesis
  proof (cases "i = - 1")
    case True
    then have "tcp_input_state k th opts skb saddr fam env' s1 = Some (0, free_skb skb, env', s1)"
      using s1 assms(5,7) wrap by (simp add: tcp_input_state_def tcp_synsent_def Let_def)
    then show ?thesis using s1 True by auto
  next
    case False
    then have gt: "i < i + 1" using wrap by (simp add: not_le)
    obtain s2 where s2: "tcp_synsent_syn k th opts env' s1 = Some (env', s2)" "sk_state (tsks s2 k) = TCP_ESTABLISHED"
      "snd_una (tcb_of (tsks s2 k)) = i + 1" "snd_nxt (tcb_of (tsks s2 k)) = i + 1" "rcv_nxt (tcb_of (tsks s2 k)) = th_seq th + 1"
      "rcv_wnd (tcb_of (tsks s2 k)) = tcp_select_initial_window" "sk_err (tsks s2 k) = 0" "so_state (socks s2 k) = SS_CONNECTED"
      "(k, Wait_sleep) \<in> set (wakes s2)"
      using tcp_synsent_established [OF assms(5), of s1 k opts env'] s1 assms(7) gt by auto
    have "tcp_input_state k th opts skb saddr fam env' s1 = Some (0, free_skb skb, env', s2)"
      using s1 s2(1) assms(4-7) gt unfolding tcp_input_state_def tcp_synsent_def Let_def by (simp add: not_le less_imp_le not_less)
    then show ?thesis using s1 s2 False by auto
  qed
qed

section \<open>Examples\<close>

definition open_demo :: tcpstate where
  "open_demo = snd (socket_stream 100 AF_INET (stack_static (\<lambda>_. 0) (\<lambda>_. 77)))"

definition syn_demo :: tcphdr where
  "syn_demo = (dec_tcphdr (replicate 20 0))\<lparr>th_syn := True, th_seq := 500\<rparr>"

lemma open_demo_sel: "sk_state (tsks open_demo 0) = TCP_CLOSE" "inflight (tsks open_demo 0) = 0" "iss_src open_demo (iss_cnt open_demo) = 77"
  "next_sock open_demo = 1" "\<not> th_rst syn_demo" "th_syn syn_demo" "th_seq syn_demo = 500"
  by (simp_all add: open_demo_def socket_stream_def alloc_socket_def stack_static_def Let_def family_create_def inet_create_def
      sock_init_data_def tcp_alloc_sock_def syn_demo_def dec_tcphdr_def)

theorem passive_open_skips_witness:
  "\<exists>rc s'. tcp_listen 0 syn_demo [] (alloc_skb 54) (replicate 16 0) AF_INET [] open_demo = Some (rc, free_skb (alloc_skb 54), [], s') \<and>
    snd_nxt (tcb_of (tsks s' 1)) = iss (tcb_of (tsks s' 1)) + 2 \<and> rcv_nxt (tcb_of (tsks s' 1)) = 501"
  using passive_open_skips [OF open_demo_sel(6) open_demo_sel(4) [symmetric], of 0 "[]" "alloc_skb 54" "replicate 16 0" AF_INET "[]"]
  by (auto simp: open_demo_sel)

theorem active_open_witness:
  "\<exists>rc s1 s2. tcp_connect 0 [] open_demo = Some (rc, [], s1) \<and>
    tcp_input_state 0 (syn_demo\<lparr>th_ack := True, th_ack_seq := 78\<rparr>) [] (alloc_skb 54) (replicate 16 0) AF_INET [] s1 =
      Some (0, free_skb (alloc_skb 54), [], s2) \<and>
    sk_state (tsks s2 0) = TCP_ESTABLISHED \<and> snd_nxt (tcb_of (tsks s2 0)) = 78 \<and> rcv_nxt (tcb_of (tsks s2 0)) = 501"
  using active_open [OF open_demo_sel(1,2) open_demo_sel(3) [symmetric], of "syn_demo\<lparr>th_ack := True, th_ack_seq := 78\<rparr>" "[]" "[]"
      "alloc_skb 54" "replicate 16 0" AF_INET "[]"]
  by (auto simp: open_demo_sel)

end
