(* ===== verification/Process.thy ===== *)
theory Process
  imports Ipc Tcp_Delivery
begin

text \<open>
  The process around the stack: command line (\<open>src/cli.c\<close>), set-up of the tap device (\<open>src/tuntap_if.c\<close>), the thread that
  accepts clients (\<open>start_ipc_listener\<close>), the loop of the receiving thread (\<open>netdev_rx_loop\<close>), and the start and the end of the
  threads (\<open>src/main.c\<close>). The results of system calls are parameters. The threads are a step relation; what they do to the stack
  meanwhile is the subject of the other theories. Shown are that every run after a stop signal ends, and that the stack is freed only
  after the three threads have ended.
\<close>

section \<open>Command line\<close>

text \<open>\<open>getopt(argc, argv, "hd")\<close> of glibc until it returns -1: the characters of every argument that starts with \<open>-\<close> and is longer, up to
  \<open>--\<close>; a character other than \<open>h\<close> and \<open>d\<close> is returned as \<open>?\<close>, other arguments are skipped.\<close>

fun getopt_hd :: "string list \<Rightarrow> string" where
  "getopt_hd [] = []"
| "getopt_hd (a # as) =
    (if a = ''--'' then []
     else (case a of
             c # d # cs \<Rightarrow> if c = CHR ''-'' then map (\<lambda>x. if x = CHR ''h'' \<or> x = CHR ''d'' then x else CHR ''?'') (d # cs) else []
           | _ \<Rightarrow> []) @ getopt_hd as)"

text \<open>\<open>Inl\<close> is the exit code of \<open>usage\<close>, \<open>Inr\<close> the flag \<open>debug\<close>.\<close>

fun parse_opts :: "int \<Rightarrow> string \<Rightarrow> int + int" where
  "parse_opts debug [] = Inr debug"
| "parse_opts debug (opt # opts) = (if opt = CHR ''d'' then parse_opts 1 opts else Inl 1)"

definition parse_cli :: "string list \<Rightarrow> int + int" where
  "parse_cli argv = parse_opts 0 (getopt_hd (tl argv))"

lemma parse_opts_result:
  "parse_opts d opts = (if set opts \<subseteq> {CHR ''d''} then Inr (if opts = [] then d else 1) else Inl 1)"
  by (induction d opts rule: parse_opts.induct) auto

section \<open>The tap device\<close>

record tap_env =
  te_open :: int
  te_ioctl :: int
  te_name :: string
  te_system :: "string \<Rightarrow> int"

record tap =
  tap_fd :: int
  tap_dev :: string
  tap_cmds :: "string list"
  tap_oob :: bool

definition run_cmd :: "tap_env \<Rightarrow> string \<Rightarrow> tap \<Rightarrow> int \<times> tap" where
  "run_cmd e cmd t = (let buf = take 99 cmd in (te_system e buf, t\<lparr>tap_cmds := tap_cmds t @ [buf]\<rparr>))"

text \<open>\<open>get_address\<close> of \<open>src/utils.c\<close>, from the result of \<open>getaddrinfo\<close>: an exit code, or the return code with the address.\<close>

definition utils_get_address :: "int + 'a list \<Rightarrow> int + int \<times> 'a option" where
  "utils_get_address result =
    (case result of
       Inl s \<Rightarrow> Inl 1
     | Inr [] \<Rightarrow> Inr (1, None)
     | Inr (rp # rps) \<Rightarrow> Inr (0, Some rp))"

definition set_if_route :: "tap_env \<Rightarrow> string \<Rightarrow> tap \<Rightarrow> int \<times> tap" where
  "set_if_route e cidr t = run_cmd e (''ip route add dev '' @ tap_dev t @ '' '' @ cidr) t"

definition set_if_address :: "tap_env \<Rightarrow> string \<Rightarrow> tap \<Rightarrow> int \<times> tap" where
  "set_if_address e cidr t = run_cmd e (''ip address add dev '' @ tap_dev t @ '' local '' @ cidr) t"

definition set_if_up :: "tap_env \<Rightarrow> tap \<Rightarrow> int \<times> tap" where
  "set_if_up e t = run_cmd e (''ip link set dev '' @ tap_dev t @ '' up'') t"

text \<open>\<open>Inl\<close> is an exit. The name the kernel chose is copied into the ten bytes of \<open>dev\<close>.\<close>

definition tun_alloc :: "tap_env \<Rightarrow> tap \<Rightarrow> int + int \<times> tap" where
  "tun_alloc e t =
    (if te_open e < 0 then Inl 1
     else if te_ioctl e < 0 then Inr (te_ioctl e, t)
     else Inr (te_open e, t\<lparr>tap_dev := te_name e, tap_oob := tap_oob t \<or> 10 < length (te_name e) + 1\<rparr>))"

definition tun_init :: "tap_env \<Rightarrow> int + tap" where
  "tun_init e =
    (case tun_alloc e \<lparr>tap_fd = 0, tap_dev = [], tap_cmds = [], tap_oob = False\<rparr> of
       Inl code \<Rightarrow> Inl code
     | Inr (fd, t) \<Rightarrow>
         (let t = t\<lparr>tap_fd := fd\<rparr>;
              (_, t) = set_if_up e t;
              (_, t) = set_if_route e ''10.0.0.0/24'' t;
              (_, t) = set_if_address e ''10.0.0.5'' t
          in Inr t))"

text \<open>A failed \<open>ioctl\<close> is not noticed: the stack starts on a descriptor that is no descriptor, with commands for a nameless device.\<close>

lemma tun_init_ioctl_ignored:
  assumes "0 \<le> te_open e" and "te_ioctl e < 0"
  shows "\<exists>t. tun_init e = Inr t \<and> tap_fd t = te_ioctl e \<and> tap_dev t = [] \<and> hd (tap_cmds t) = ''ip link set dev  up''"
  using assms
  by (simp add: tun_init_def tun_alloc_def set_if_up_def set_if_route_def set_if_address_def run_cmd_def Let_def)

section \<open>Clients\<close>

record ipc_listen_env =
  le_socket :: int
  le_bind :: int
  le_listen :: int
  le_chmod :: int
  le_accepts :: "(int \<times> int) list"

text \<open>Results of \<open>accept\<close> and \<open>pthread_create\<close>; \<open>None\<close> when the thread waits for the next client, otherwise its exit code.\<close>

fun ipc_accept_loop :: "(int \<times> int) list \<Rightarrow> ipcstate \<Rightarrow> int option \<times> ipcstate" where
  "ipc_accept_loop [] s = (None, s)"
| "ipc_accept_loop ((datasock, created) # evs) s =
    (if datasock = -1 then (Some 1, s)
     else
       (let s = ipc_alloc_thread datasock s
        in if created \<noteq> 0 then (Some 1, s) else ipc_accept_loop evs s))"

definition start_ipc_listener :: "ipc_listen_env \<Rightarrow> ipcstate \<Rightarrow> int option \<times> ipcstate" where
  "start_ipc_listener e s =
    (if le_socket e < 0 then (Some 1, s)
     else if le_bind e = -1 then (Some 1, s)
     else if le_listen e = -1 then (Some 1, s)
     else if le_chmod e = -1 then (Some 1, s)
     else ipc_accept_loop (le_accepts e) s)"

lemma ipc_listener_clients:
  assumes "\<forall>(d, c) \<in> set evs. d \<noteq> -1 \<and> c = 0"
  shows "fst (ipc_accept_loop evs s) = None" "ipc_sockets (snd (ipc_accept_loop evs s)) = ipc_sockets s @ map fst evs"
    "ipc_socket_count (snd (ipc_accept_loop evs s)) = ipc_socket_count s + int (length evs)"
  using assms by (induction evs s rule: ipc_accept_loop.induct) (auto simp: ipc_alloc_thread_def Let_def)

section \<open>The receiving thread\<close>

text \<open>Each round has \<open>running\<close> as the loop reads it and the result of \<open>tun_read\<close>; the first component tells whether the thread returned.\<close>

fun netdev_rx_loop :: "(bool \<times> bytes option) list \<Rightarrow> sched \<Rightarrow> tcpstate \<Rightarrow> (bool \<times> sched \<times> tcpstate) option" where
  "netdev_rx_loop [] env s = Some (False, env, s)"
| "netdev_rx_loop ((running, rd) # rs) env s =
    (if \<not> running then Some (True, env, s)
     else case rd of
       None \<Rightarrow> Some (True, env, s)
     | Some frame \<Rightarrow>
         (case netdev_rx_frame frame env s of None \<Rightarrow> None | Some (_, env, s) \<Rightarrow> netdev_rx_loop rs env s))"

lemma netdev_rx_loop_frames:
  "rx_frames fs env s = map_option (\<lambda>(_, _, s). s) (netdev_rx_loop (map (\<lambda>f. (True, Some f)) fs) env s)"
  by (induction fs env s rule: rx_frames.induct) (simp_all split: option.split)

section \<open>Threads\<close>

datatype thread = THREAD_CORE | THREAD_TIMERS | THREAD_IPC | THREAD_SIGNAL

text \<open>Not created, running, told to stop at its next cancellation point, ended.\<close>

datatype tstatus = Absent | Live | Cancelled | Ended

text \<open>\<open>main\<close> waits for the thread of a number or has left.\<close>

datatype main_at = Joining nat | Exited int

record proc =
  p_threads :: "thread \<Rightarrow> tstatus"
  p_running :: bool
  p_main :: main_at
  p_freed :: bool

definition create_thread :: "int \<Rightarrow> thread \<Rightarrow> proc \<Rightarrow> proc" where
  "create_thread ret t p = (if ret \<noteq> 0 then p else p\<lparr>p_threads := (p_threads p)(t := Live)\<rparr>)"

definition run_threads :: "(thread \<Rightarrow> int) \<Rightarrow> proc \<Rightarrow> proc" where
  "run_threads ret p =
    create_thread (ret THREAD_SIGNAL) THREAD_SIGNAL (create_thread (ret THREAD_IPC) THREAD_IPC
      (create_thread (ret THREAD_TIMERS) THREAD_TIMERS (create_thread (ret THREAD_CORE) THREAD_CORE p)))"

definition pthread_cancel :: "thread \<Rightarrow> proc \<Rightarrow> proc" where
  "pthread_cancel t p = (if p_threads p t = Live then p\<lparr>p_threads := (p_threads p)(t := Cancelled)\<rparr> else p)"

text \<open>The loop over the results of \<open>sigwait\<close>, each an error code and the signal; 2 and 3 are \<open>SIGINT\<close> and \<open>SIGQUIT\<close>.\<close>

fun stop_stack_handler :: "(int \<times> int) list \<Rightarrow> proc \<Rightarrow> proc option" where
  "stop_stack_handler [] p = None"
| "stop_stack_handler ((err, signo) # evs) p =
    (if signo = 2 \<or> signo = 3 then
       (let p = pthread_cancel THREAD_TIMERS (pthread_cancel THREAD_CORE (pthread_cancel THREAD_IPC (p\<lparr>p_running := False\<rparr>)))
        in Some (p\<lparr>p_threads := (p_threads p)(THREAD_SIGNAL := Ended)\<rparr>))
     else stop_stack_handler evs p)"

definition thread_at :: "nat \<Rightarrow> thread" where
  "thread_at i = (if i = 0 then THREAD_CORE else if i = 1 then THREAD_TIMERS else THREAD_IPC)"

text \<open>One round of \<open>wait_for_threads\<close>, and after the last the end of \<open>main\<close> with \<open>free_stack\<close>.\<close>

definition wait_for_threads :: "proc \<Rightarrow> proc" where
  "wait_for_threads p =
    (case p_main p of
       Exited _ \<Rightarrow> p
     | Joining i \<Rightarrow>
         if i < 3 then
           (case p_threads p (thread_at i) of
              Ended \<Rightarrow> p\<lparr>p_main := Joining (i + 1)\<rparr>
            | Absent \<Rightarrow> p\<lparr>p_main := Exited 1\<rparr>
            | _ \<Rightarrow> p)
         else p\<lparr>p_main := Exited 0, p_freed := True\<rparr>)"

text \<open>What may happen while \<open>main\<close> waits: a signal arrives, the receiving thread returns, a cancelled thread ends, the thread for
  clients exits the process, a thread is joined.\<close>

inductive proc_step :: "proc \<Rightarrow> proc \<Rightarrow> bool" where
  signal: "p_main p = Joining i \<Longrightarrow> p_threads p THREAD_SIGNAL = Live \<Longrightarrow> stop_stack_handler evs p = Some p' \<Longrightarrow> proc_step p p'"
| core_returns: "p_main p = Joining i \<Longrightarrow> p_threads p THREAD_CORE = Live \<Longrightarrow>
    proc_step p (p\<lparr>p_threads := (p_threads p)(THREAD_CORE := Ended)\<rparr>)"
| cancelled: "p_main p = Joining i \<Longrightarrow> p_threads p t = Cancelled \<Longrightarrow> proc_step p (p\<lparr>p_threads := (p_threads p)(t := Ended)\<rparr>)"
| listener_fails: "p_main p = Joining i \<Longrightarrow> p_threads p THREAD_IPC \<in> {Live, Cancelled} \<Longrightarrow> proc_step p (p\<lparr>p_main := Exited 1\<rparr>)"
| join: "p_main p = Joining i \<Longrightarrow> wait_for_threads p \<noteq> p \<Longrightarrow> proc_step p (wait_for_threads p)"

record main_env =
  me_sigmask :: int
  me_tap :: tap_env
  me_net_admin :: int
  me_setpcap :: int
  me_create :: "thread \<Rightarrow> int"

text \<open>The exit codes of the two set-up calls, \<open>None\<close> when they return.\<close>

definition init_signals :: "int \<Rightarrow> int option" where
  "init_signals err = (if err \<noteq> 0 then Some 1 else None)"

definition init_security :: "int \<Rightarrow> int \<Rightarrow> int option" where
  "init_security net_admin setpcap = (if net_admin = -1 then Some 1 else if setpcap = -1 then Some 1 else None)"

text \<open>\<open>main\<close> up to \<open>wait_for_threads\<close>: an exit code, or the device and the process with its threads. The initialisation of the
  stack's own data is \<open>init_stack\<close>.\<close>

definition main_start :: "string list \<Rightarrow> main_env \<Rightarrow> int + tap \<times> proc" where
  "main_start argv e =
    (case parse_cli argv of
       Inl code \<Rightarrow> Inl code
     | Inr _ \<Rightarrow>
         (case init_signals (me_sigmask e) of
            Some code \<Rightarrow> Inl code
          | None \<Rightarrow>
              (case tun_init (me_tap e) of
                 Inl code \<Rightarrow> Inl code
               | Inr t \<Rightarrow>
                   (case init_security (me_net_admin e) (me_setpcap e) of
                      Some code \<Rightarrow> Inl code
                    | None \<Rightarrow> Inr (t, run_threads (me_create e)
                        \<lparr>p_threads = (\<lambda>_. Absent), p_running = True, p_main = Joining 0, p_freed = False\<rparr>)))))"

section \<open>The end of the process\<close>

inductive_cases proc_stepE: "proc_step p p'"

fun status_rank :: "tstatus \<Rightarrow> nat" where
  "status_rank Live = 2"
| "status_rank Cancelled = 1"
| "status_rank _ = 0"

definition proc_rank :: "proc \<Rightarrow> nat" where
  "proc_rank p = status_rank (p_threads p THREAD_CORE) + status_rank (p_threads p THREAD_TIMERS) +
     status_rank (p_threads p THREAD_IPC) + status_rank (p_threads p THREAD_SIGNAL) +
     (case p_main p of Exited _ \<Rightarrow> 0 | Joining i \<Rightarrow> 4 - min i 3)"

lemma stop_stack_handler_result:
  assumes "stop_stack_handler evs p = Some p'"
  shows "p_main p' = p_main p" "p_freed p' = p_freed p" "\<not> p_running p'"
    "p_threads p' = (\<lambda>t. if t = THREAD_SIGNAL then Ended else if p_threads p t = Live then Cancelled else p_threads p t)"
proof -
  have "p_main p' = p_main p \<and> p_freed p' = p_freed p \<and> \<not> p_running p' \<and>
    p_threads p' = (\<lambda>t. if t = THREAD_SIGNAL then Ended else if p_threads p t = Live then Cancelled else p_threads p t)"
    using assms
  proof (induction evs p rule: stop_stack_handler.induct)
    case (2 err signo evs p)
    have "(\<lambda>t. if t = THREAD_SIGNAL then Ended else if p_threads p t = Live then Cancelled else p_threads p t) x = g x"
      if "p_threads p' = g" "signo = 2 \<or> signo = 3" for x g
      using 2(2) that by (cases x) (auto simp: pthread_cancel_def Let_def)
    then show ?case using 2 by (auto simp: pthread_cancel_def Let_def split: if_splits)
  qed simp
  then show "p_main p' = p_main p" "p_freed p' = p_freed p" "\<not> p_running p'"
    "p_threads p' = (\<lambda>t. if t = THREAD_SIGNAL then Ended else if p_threads p t = Live then Cancelled else p_threads p t)" by blast+
qed

lemma proc_step_rank: "proc_step p p' \<Longrightarrow> proc_rank p' < proc_rank p"
proof (induction rule: proc_step.induct)
  case (signal p i evs p')
  have r: "status_rank (if s = Live then Cancelled else s) \<le> status_rank s" for s by (cases s) simp_all
  show ?case
    using signal(1,2) stop_stack_handler_result [OF signal(3)] r [of "p_threads p THREAD_CORE"] r [of "p_threads p THREAD_TIMERS"]
      r [of "p_threads p THREAD_IPC"] by (simp add: proc_rank_def)
next
  case (cancelled p i t)
  then show ?case by (cases t) (simp_all add: proc_rank_def)
next
  case (join p i)
  then show ?case by (auto simp: proc_rank_def wait_for_threads_def split: if_splits tstatus.splits)
qed (auto simp: proc_rank_def)

lemma proc_steps_bound: "(proc_step ^^ n) p q \<Longrightarrow> n + proc_rank q \<le> proc_rank p"
proof (induction n arbitrary: q)
  case (Suc n)
  then obtain r where r: "(proc_step ^^ n) p r" "proc_step r q" by auto
  show ?case using Suc.IH [OF r(1)] proc_step_rank [OF r(2)] by simp
qed simp

definition proc_inv :: "proc \<Rightarrow> bool" where
  "proc_inv p \<longleftrightarrow>
    (case p_main p of
       Joining i \<Rightarrow> \<not> p_freed p \<and> (\<forall>j < min i 3. p_threads p (thread_at j) = Ended)
     | Exited c \<Rightarrow> p_freed p \<longrightarrow> (\<forall>j < 3. p_threads p (thread_at j) = Ended)) \<and>
    (\<not> p_running p \<longrightarrow> (\<forall>t. t \<noteq> THREAD_SIGNAL \<longrightarrow> p_threads p t \<noteq> Live))"

lemma thread_at_signal [simp]: "thread_at j \<noteq> THREAD_SIGNAL" "THREAD_SIGNAL \<noteq> thread_at j"
  by (simp_all add: thread_at_def)

lemma proc_step_inv: "proc_step p p' \<Longrightarrow> proc_inv p \<Longrightarrow> proc_inv p'"
proof (induction rule: proc_step.induct)
  case (signal p i evs p')
  then show ?case using stop_stack_handler_result [OF signal(3)] by (auto simp: proc_inv_def)
next
  case (join p i)
  then show ?case
    by (auto simp: proc_inv_def wait_for_threads_def less_Suc_eq min_def split: if_splits tstatus.splits)
qed (auto simp: proc_inv_def)

lemma proc_steps_inv: "proc_step\<^sup>*\<^sup>* p q \<Longrightarrow> proc_inv p \<Longrightarrow> proc_inv q"
  by (induction rule: rtranclp_induct) (auto intro: proc_step_inv)

lemma main_start_inv:
  assumes "main_start argv e = Inr (tap, p0)"
  shows "proc_inv p0" "proc_rank p0 \<le> 12"
  using assms
  by (auto simp: main_start_def proc_inv_def proc_rank_def run_threads_def create_thread_def split: sum.splits option.splits if_splits)

text \<open>Stopped and waiting, the process can go on.\<close>

lemma proc_progress:
  assumes "proc_inv p" and "\<not> p_running p" and "p_main p = Joining i"
  shows "\<exists>q. proc_step p q"
proof (cases "wait_for_threads p = p")
  case True
  then have i: "i < 3" "p_threads p (thread_at i) \<in> {Live, Cancelled}"
    using assms(3) by (auto simp: wait_for_threads_def split: if_splits tstatus.splits dest: arg_cong [of _ p p_main])
  then have "p_threads p (thread_at i) = Cancelled" using assms(1,2) by (auto simp: proc_inv_def)
  then show ?thesis using proc_step.cancelled [OF assms(3)] by blast
next
  case False
  then show ?thesis using proc_step.join [OF assms(3)] by blast
qed



end
