(* ===== verification/Socket_Table.thy ===== *)
theory Socket_Table
  imports Boot
begin

text \<open>
  The table of sockets (\<open>src/src/socket.c\<close>) as the processes see it. The code keeps a list of sockets, each with the process and
  the descriptor it was made for, and \<open>get_socket\<close> searches it; here it is shown to be a map from process and descriptor to
  socket (\<open>fd_table\<close>), under an invariant (\<open>sock_inv\<close>) that start-up establishes and every operation on the list keeps. The locale
  \<open>descriptor_table\<close> is the contract of \<open>socket\<close> and \<open>socket_free\<close> that the calls of a process rely on.
\<close>

section \<open>The table of descriptors\<close>

definition fd_table :: "tcpstate \<Rightarrow> int \<times> int \<Rightarrow> nat option" where
  "fd_table s = (\<lambda>(pid, fd). get_socket pid fd s)"

definition sock_inv :: "tcpstate \<Rightarrow> bool" where
  "sock_inv s \<longleftrightarrow> distinct (sockets s) \<and> 0 \<le> next_fd s \<and> (\<forall>k \<in> set (sockets s). k < next_sock s \<and> so_fd (socks s k) < next_fd s) \<and>
     inj_on (\<lambda>k. so_fd (socks s k)) (set (sockets s))"

lemma get_socket_iff:
  assumes "sock_inv s"
  shows "get_socket pid fd s = Some k \<longleftrightarrow> k \<in> set (sockets s) \<and> so_pid (socks s k) = pid \<and> so_fd (socks s k) = fd"
proof
  assume "get_socket pid fd s = Some k"
  then show "k \<in> set (sockets s) \<and> so_pid (socks s k) = pid \<and> so_fd (socks s k) = fd"
    unfolding get_socket_def by (auto simp: find_Some_iff)
next
  assume k: "k \<in> set (sockets s) \<and> so_pid (socks s k) = pid \<and> so_fd (socks s k) = fd"
  then obtain j where j: "get_socket pid fd s = Some j"
    unfolding get_socket_def by (cases "find (\<lambda>k. so_pid (socks s k) = pid \<and> so_fd (socks s k) = fd) (sockets s)") (auto simp: find_None_iff)
  then have "j \<in> set (sockets s)" "so_fd (socks s j) = fd" unfolding get_socket_def by (auto simp: find_Some_iff)
  then show "get_socket pid fd s = Some k" using j k assms by (auto simp: sock_inv_def inj_on_def)
qed

text \<open>What the table depends on.\<close>

definition same_table :: "tcpstate \<Rightarrow> tcpstate \<Rightarrow> bool" where
  "same_table s s' \<longleftrightarrow> sockets s' = sockets s \<and> next_sock s' = next_sock s \<and> next_fd s' = next_fd s \<and>
     (\<forall>k. so_pid (socks s' k) = so_pid (socks s k) \<and> so_fd (socks s' k) = so_fd (socks s k))"

lemma same_table_inv: "same_table s s' \<Longrightarrow> sock_inv s' = sock_inv s" "same_table s s' \<Longrightarrow> fd_table s' = fd_table s"
  by (simp_all add: same_table_def sock_inv_def fd_table_def get_socket_def)

lemma same_table_trans: "same_table a b \<Longrightarrow> same_table b c \<Longrightarrow> same_table a c"
  by (simp add: same_table_def)

lemma same_table_upd [simp]:
  "same_table s s" "same_table s (upd_tsk k f s') = same_table s s'" "same_table s (upd_tcb k g s') = same_table s s'"
  "same_table s (upd_usk k h s') = same_table s s'"
  "same_table s (wait_wakeup k w s') = same_table s s'" "same_table s (s'\<lparr>iss_cnt := n\<rparr>) = same_table s s'"
  "same_table s (s'\<lparr>freed_socks := fs\<rparr>) = same_table s s'"
  by (simp_all add: same_table_def upd_tsk_def upd_tcb_def upd_usk_def wait_wakeup_def)

lemma same_table_sock [simp]:
  "(\<And>so. so_pid (f so) = so_pid so \<and> so_fd (f so) = so_fd so) \<Longrightarrow> same_table s (upd_sock k f s') = same_table s s'"
  by (auto simp: same_table_def upd_sock_def)

text \<open>A new socket.\<close>

definition new_table :: "int \<Rightarrow> tcpstate \<Rightarrow> tcpstate \<Rightarrow> bool" where
  "new_table pid s s' \<longleftrightarrow> sockets s' = sockets s @ [next_sock s] \<and> next_sock s' = next_sock s + 1 \<and> next_fd s' = next_fd s + 1 \<and>
     (\<forall>k. so_pid (socks s' k) = (if k = next_sock s then pid else so_pid (socks s k)) \<and>
        so_fd (socks s' k) = (if k = next_sock s then next_fd s else so_fd (socks s k)))"

lemma new_table_same: "new_table pid s s1 \<Longrightarrow> same_table s1 s' \<Longrightarrow> new_table pid s s'"
  by (simp add: new_table_def same_table_def)

lemma new_table_stream: "new_table pid s (snd (socket_stream pid fam s))" "fst (socket_stream pid fam s) = next_sock s"
  by (simp_all add: socket_stream_def alloc_socket_def new_table_def Let_def)

lemma new_table_dgram: "new_table pid s (snd (socket_dgram pid fam s))" "fst (socket_dgram pid fam s) = next_sock s"
  by (simp_all add: socket_dgram_def alloc_socket_def new_table_def Let_def)

lemma new_table_inv:
  assumes "sock_inv s" and "new_table pid s s'"
  shows "sock_inv s'" "fd_table s' = (fd_table s)((pid, next_fd s) \<mapsto> next_sock s)" "fd_table s (q, next_fd s) = None"
proof -
  have n: "next_sock s \<notin> set (sockets s)" using assms(1) by (auto simp: sock_inv_def)
  have f: "so_fd (socks s k) \<noteq> next_fd s" if "k \<in> set (sockets s)" for k using assms(1) that by (auto simp: sock_inv_def)
  show inv: "sock_inv s'"
    using assms n f unfolding sock_inv_def new_table_def by (auto simp: inj_on_def less_Suc_eq)
  show "fd_table s (q, next_fd s) = None"
    using f get_socket_iff [OF assms(1)] by (cases "get_socket q (next_fd s) s") (auto simp: fd_table_def)
  have "get_socket p fd s' = Some k \<longleftrightarrow> ((fd_table s)((pid, next_fd s) \<mapsto> next_sock s)) (p, fd) = Some k" for p fd k
    using get_socket_iff [OF inv] get_socket_iff [OF assms(1)] assms(2) n f by (auto simp: new_table_def fd_table_def)
  then show "fd_table s' = (fd_table s)((pid, next_fd s) \<mapsto> next_sock s)"
    unfolding fd_table_def by (intro ext, case_tac x) (metis (no_types, lifting) case_prod_conv not_Some_eq)
qed

lemma socket_call_table:
  assumes "sock_inv s"
  shows "(\<exists>t. socket_call pid domain ty s = (-1, t) \<and> sock_inv t \<and> fd_table t = fd_table s) \<or>
    (\<exists>t. socket_call pid domain ty s = (next_fd s, t) \<and> new_table pid s t)"
proof (cases "if domain = 2 \<or> domain = 10 then sock_type_lookup ty else None")
  case None
  have "sock_inv (s\<lparr>next_fd := next_fd s + 1\<rparr>)" "fd_table (s\<lparr>next_fd := next_fd s + 1\<rparr>) = fd_table s"
    using assms by (auto simp: sock_inv_def fd_table_def get_socket_def)
  then show ?thesis using None by (simp add: socket_call_def alloc_socket_def)
next
  case (Some dgram)
  define r where "r = (if dgram then socket_dgram pid (word_of_int domain) s else socket_stream pid (word_of_int domain) s)"
  have r: "fst r = next_sock s" "new_table pid s (snd r)" using new_table_stream new_table_dgram by (simp_all add: r_def)
  define t where "t = upd_sock (next_sock s) (\<lambda>so. so\<lparr>so_type := ty\<rparr>) (snd r)"
  have "new_table pid s t" by (rule new_table_same [OF r(2)]) (simp add: t_def)
  moreover have "socket_call pid domain ty s = (so_fd (socks t (next_sock s)), t)"
    unfolding socket_call_def Some option.case Let_def r_def [symmetric] case_prod_beta r(1) t_def by simp
  ultimately show ?thesis by (simp add: new_table_def)
qed

lemma fork_socket_table: "new_table pid s (snd (fork_socket pid th opts fam sa sp da s))"
proof -
  have "same_table (snd (socket_stream pid fam s)) (snd (fork_socket pid th opts fam sa sp da s))"
    by (simp add: fork_socket_def Let_def case_prod_beta generate_iss_def tcp_set_state_def)
  then show ?thesis using new_table_same [OF new_table_stream(1)] by blast
qed

lemma socket_free_table:
  assumes "sock_inv s"
  shows "sock_inv (socket_free k s)" "fd_table (socket_free k s) = (\<lambda>x. if fd_table s x = Some k then None else fd_table s x)"
proof -
  define s1 where "s1 = s\<lparr>sockets := remove1 k (sockets s)\<rparr>"
  have t: "same_table s1 (socket_free k s)"
    unfolding socket_free_def Let_def socket_wr_acquire_def sock_free_def socket_release_def
    by (simp add: s1_def same_table_def upd_sock_def upd_tsk_def upd_usk_def wait_wakeup_def)
  have d: "set (remove1 k (sockets s)) = set (sockets s) - {k}" using assms by (simp add: sock_inv_def)
  have i: "sock_inv s1" using assms by (auto simp: sock_inv_def s1_def d inj_on_def)
  then show "sock_inv (socket_free k s)" using same_table_inv(1) [OF t] by simp
  have "get_socket p fd s1 = Some j \<longleftrightarrow> (if fd_table s (p, fd) = Some k then None else fd_table s (p, fd)) = Some j" for p fd j
    using get_socket_iff [OF i, of p fd j] get_socket_iff [OF assms, of p fd j] get_socket_iff [OF assms, of p fd k]
    by (cases "j = k") (auto simp: fd_table_def s1_def d)
  then have "fd_table s1 = (\<lambda>x. if fd_table s x = Some k then None else fd_table s x)"
    by (intro ext, case_tac x) (metis (no_types, lifting) case_prod_conv fd_table_def not_Some_eq)
  then show "fd_table (socket_free k s) = (\<lambda>x. if fd_table s x = Some k then None else fd_table s x)"
    using same_table_inv(2) [OF t] by simp
qed


section \<open>Descriptors as an interface\<close>

text \<open>What a process relies on: a new descriptor is one that nobody has, it names the new socket, and neither opening nor freeing a
  socket changes what other descriptors name.\<close>

locale descriptor_table =
  fixes inv :: "'t \<Rightarrow> bool" and lookup :: "'t \<Rightarrow> 'p \<times> int \<Rightarrow> 'k option" and opens :: "'p \<Rightarrow> 't \<Rightarrow> int \<times> 't" and frees :: "'k \<Rightarrow> 't \<Rightarrow> 't"
    and new :: "'t \<Rightarrow> 'k"
  assumes inv_opens: "inv t \<Longrightarrow> inv (snd (opens p t))"
    and inv_frees: "inv t \<Longrightarrow> inv (frees k t)"
    and lookup_opens: "inv t \<Longrightarrow> lookup (snd (opens p t)) = (lookup t)((p, fst (opens p t)) \<mapsto> new t)"
    and lookup_frees: "inv t \<Longrightarrow> lookup (frees k t) = (\<lambda>x. if lookup t x = Some k then None else lookup t x)"
    and opens_fresh: "inv t \<Longrightarrow> lookup t (q, fst (opens p t)) = None"
    and new_fresh: "inv t \<Longrightarrow> lookup t x \<noteq> Some (new t)"
begin

lemma opens_frees: "inv t \<Longrightarrow> lookup (frees (new t) (snd (opens p t))) = lookup t"
  using lookup_frees [OF inv_opens, of t "new t" p] lookup_opens [of t p] opens_fresh [of t p p] new_fresh [of t] by (auto simp: fun_eq_iff)

lemma frees_frees: "inv t \<Longrightarrow> lookup (frees k (frees k t)) = lookup (frees k t)"
  using lookup_frees [OF inv_frees, of t k k] lookup_frees [of t k] by (auto simp: fun_eq_iff)

lemma opens_opens:
  assumes "inv t"
  shows "(p, fst (opens p t)) \<noteq> (q, fst (opens q (snd (opens p t))))"
    "lookup (snd (opens q (snd (opens p t)))) (p, fst (opens p t)) = Some (new t)"
proof -
  have i: "inv (snd (opens p t))" using assms by (rule inv_opens)
  have l: "lookup (snd (opens p t)) (p, fst (opens p t)) = Some (new t)" using lookup_opens [OF assms] by simp
  show ne: "(p, fst (opens p t)) \<noteq> (q, fst (opens q (snd (opens p t))))" using l opens_fresh [OF i, of q q] by (metis option.distinct(1))
  show "lookup (snd (opens q (snd (opens p t)))) (p, fst (opens p t)) = Some (new t)"
    unfolding lookup_opens [OF i] fun_upd_other [OF ne] by (rule l)
qed

end

lemma socket_call_opens:
  assumes "domain = 2 \<or> domain = 10" and "sock_type_lookup ty \<noteq> None" and "sock_inv s"
  shows "\<exists>t. socket_call pid domain ty s = (next_fd s, t) \<and> new_table pid s t"
proof -
  have "fst (socket_call pid domain ty s) \<noteq> -1"
  proof
    assume c: "fst (socket_call pid domain ty s) = -1"
    obtain dg where dg: "sock_type_lookup ty = Some dg" using assms(2) by blast
    define r where "r = (if dg then socket_dgram pid (word_of_int domain) s else socket_stream pid (word_of_int domain) s)"
    have r: "fst r = next_sock s" "new_table pid s (snd r)" using new_table_stream new_table_dgram by (simp_all add: r_def)
    have "fst (socket_call pid domain ty s) = so_fd (socks (snd r) (next_sock s))"
      unfolding socket_call_def using assms(1) dg by (simp add: r_def [symmetric] case_prod_beta Let_def r(1) upd_sock_def)
    then show False using c r(2) assms(3) by (simp add: new_table_def sock_inv_def)
  qed
  then show ?thesis using socket_call_table [OF assms(3), of pid domain ty] by auto
qed

lemma socket_descriptor_table:
  assumes "domain = 2 \<or> domain = 10" and "sock_type_lookup ty \<noteq> None"
  shows "descriptor_table sock_inv fd_table (\<lambda>pid. socket_call pid domain ty) socket_free next_sock"
proof
  fix t p k q x
  assume i: "sock_inv t"
  obtain t' where t': "socket_call p domain ty t = (next_fd t, t')" "new_table p t t'" using socket_call_opens [OF assms i] by blast
  show "sock_inv (snd (socket_call p domain ty t))" using new_table_inv [OF i t'(2)] t'(1) by simp
  show "sock_inv (socket_free k t)" by (rule socket_free_table [OF i])
  show "fd_table (snd (socket_call p domain ty t)) = (fd_table t)((p, fst (socket_call p domain ty t)) \<mapsto> next_sock t)"
    using new_table_inv [OF i t'(2)] t'(1) by simp
  show "fd_table (socket_free k t) = (\<lambda>x. if fd_table t x = Some k then None else fd_table t x)" by (rule socket_free_table [OF i])
  show "fd_table t (q, fst (socket_call p domain ty t)) = None" using new_table_inv(3) [OF i t'(2)] t'(1) by simp
  show "fd_table t x \<noteq> Some (next_sock t)"
  proof
    assume "fd_table t x = Some (next_sock t)"
    then have "next_sock t \<in> set (sockets t)" using get_socket_iff [OF i] by (cases x) (auto simp: fd_table_def)
    then show False using i by (auto simp: sock_inv_def)
  qed
qed

interpretation stream4: descriptor_table sock_inv fd_table "\<lambda>pid. socket_call pid 2 1" socket_free next_sock
  by (rule socket_descriptor_table) (simp_all add: sock_type_lookup_def)

interpretation dgram4: descriptor_table sock_inv fd_table "\<lambda>pid. socket_call pid 2 2" socket_free next_sock
  by (rule socket_descriptor_table) (simp_all add: sock_type_lookup_def)

interpretation stream6: descriptor_table sock_inv fd_table "\<lambda>pid. socket_call pid 10 1" socket_free next_sock
  by (rule socket_descriptor_table) (simp_all add: sock_type_lookup_def)

section \<open>Histories\<close>

text \<open>A call of \<open>socket\<close>, a connection that is opened passively, a socket that is freed, and everything that leaves the table alone.\<close>

inductive sock_step :: "tcpstate \<Rightarrow> tcpstate \<Rightarrow> bool" where
  opened: "sock_step s (snd (socket_call pid domain ty s))"
| forked: "sock_step s (snd (fork_socket pid th opts fam sa sp da s))"
| freed: "sock_step s (socket_free k s)"
| other: "same_table s s' \<Longrightarrow> sock_step s s'"

lemma sock_step_inv: "sock_step s s' \<Longrightarrow> sock_inv s \<Longrightarrow> sock_inv s'"
proof (induction rule: sock_step.induct)
  case (opened s pid domain ty)
  then show ?case using socket_call_table [OF opened, of pid domain ty] new_table_inv(1) [OF opened] by auto
qed (auto intro: new_table_inv(1) fork_socket_table socket_free_table(1) simp: same_table_inv(1))



end
