(* ===== verification/Sha256.thy ===== *)
theory Sha256
  imports Prelude "HOL-Library.Monad_Syntax"
begin

text \<open>
  The SHA-256 of \<open>apps/curl-verify/sha256.c\<close>: the block transformation, the buffering of \<open>sha256_update\<close> and the padding of
  \<open>sha256_final\<close>, against the hash as FIPS 180-4 defines it. The update loop makes no progress on a full block, so it is a
  partial function; the lemmas show that it returns in every state the interface can reach.
\<close>

section \<open>The code\<close>

definition sha256_k :: "u32 list" where
  "sha256_k = concat
    [[0x428a2f98, 0x71374491, 0xb5c0fbcf, 0xe9b5dba5],
     [0x3956c25b, 0x59f111f1, 0x923f82a4, 0xab1c5ed5],
     [0xd807aa98, 0x12835b01, 0x243185be, 0x550c7dc3],
     [0x72be5d74, 0x80deb1fe, 0x9bdc06a7, 0xc19bf174],
     [0xe49b69c1, 0xefbe4786, 0x0fc19dc6, 0x240ca1cc],
     [0x2de92c6f, 0x4a7484aa, 0x5cb0a9dc, 0x76f988da],
     [0x983e5152, 0xa831c66d, 0xb00327c8, 0xbf597fc7],
     [0xc6e00bf3, 0xd5a79147, 0x06ca6351, 0x14292967],
     [0x27b70a85, 0x2e1b2138, 0x4d2c6dfc, 0x53380d13],
     [0x650a7354, 0x766a0abb, 0x81c2c92e, 0x92722c85],
     [0xa2bfe8a1, 0xa81a664b, 0xc24b8b70, 0xc76c51a3],
     [0xd192e819, 0xd6990624, 0xf40e3585, 0x106aa070],
     [0x19a4c116, 0x1e376c08, 0x2748774c, 0x34b0bcb5],
     [0x391c0cb3, 0x4ed8aa4a, 0x5b9cca4f, 0x682e6ff3],
     [0x748f82ee, 0x78a5636f, 0x84c87814, 0x8cc70208],
     [0x90befffa, 0xa4506ceb, 0xbef9a3f7, 0xc67178f2]]"

definition ROTR :: "u32 \<Rightarrow> nat \<Rightarrow> u32" where
  "ROTR x n = drop_bit n x OR push_bit (32 - n) x"

record sha256_ctx =
  sha_state :: "u32 list"
  sha_bitlen :: u64
  sha_block :: bytes
  sha_blocklen :: nat

text \<open>The two loops that fill \<open>w\<close>, the loop over the 64 rounds.\<close>

definition sha_load :: "bytes \<Rightarrow> nat \<Rightarrow> u32 list \<Rightarrow> u32 list" where
  "sha_load block i w = w[i := push_bit 24 (ucast (block ! (i * 4))) OR push_bit 16 (ucast (block ! (i * 4 + 1))) OR
     push_bit 8 (ucast (block ! (i * 4 + 2))) OR ucast (block ! (i * 4 + 3))]"

definition sha_extend :: "nat \<Rightarrow> u32 list \<Rightarrow> u32 list" where
  "sha_extend i w =
    (let t1 = ROTR (w ! (i - 15)) 7 XOR ROTR (w ! (i - 15)) 18 XOR drop_bit 3 (w ! (i - 15));
         t2 = ROTR (w ! (i - 2)) 17 XOR ROTR (w ! (i - 2)) 19 XOR drop_bit 10 (w ! (i - 2))
     in w[i := w ! (i - 16) + t1 + w ! (i - 7) + t2])"

type_synonym sha_regs = "u32 \<times> u32 \<times> u32 \<times> u32 \<times> u32 \<times> u32 \<times> u32 \<times> u32"

fun sha_round :: "u32 list \<Rightarrow> nat \<Rightarrow> sha_regs \<Rightarrow> sha_regs" where
  "sha_round w i (a, b, c, d, e, f, g, h) =
    (let t1 = h + (ROTR e 6 XOR ROTR e 11 XOR ROTR e 25) + ((e AND f) XOR (NOT e AND g)) + sha256_k ! i + w ! i;
         t2 = (ROTR a 2 XOR ROTR a 13 XOR ROTR a 22) + ((a AND b) XOR (a AND c) XOR (b AND c))
     in (t1 + t2, a, b, c, d + t1, e, f, g))"

definition sha256_transform :: "bytes \<Rightarrow> sha256_ctx \<Rightarrow> sha256_ctx" where
  "sha256_transform block ctx =
    (let w = fold (sha_load block) [0..<16] (replicate 64 0);
         w = fold sha_extend [16..<64] w;
         st = sha_state ctx
     in case fold (sha_round w) [0..<64] (st ! 0, st ! 1, st ! 2, st ! 3, st ! 4, st ! 5, st ! 6, st ! 7) of
          (a, b, c, d, e, f, g, h) \<Rightarrow>
            ctx\<lparr>sha_state := [st ! 0 + a, st ! 1 + b, st ! 2 + c, st ! 3 + d, st ! 4 + e, st ! 5 + f, st ! 6 + g, st ! 7 + h]\<rparr>)"

definition sha256_init :: "sha256_ctx \<Rightarrow> sha256_ctx" where
  "sha256_init ctx = ctx\<lparr>sha_state := [0x6a09e667, 0xbb67ae85, 0x3c6ef372, 0xa54ff53a, 0x510e527f, 0x9b05688c, 0x1f83d9ab, 0x5be0cd19],
     sha_bitlen := 0, sha_blocklen := 0\<rparr>"

text \<open>\<open>data\<close> holds exactly the \<open>len\<close> bytes still to be consumed.\<close>

partial_function (option) sha256_update_loop :: "bytes \<Rightarrow> sha256_ctx \<Rightarrow> sha256_ctx option" where
  "sha256_update_loop data ctx =
    (if 0 < length data then
       (let fill = 64 - sha_blocklen ctx;
            fill = (if fill > length data then length data else fill);
            ctx = ctx\<lparr>sha_block := put_bytes (sha_blocklen ctx) (take fill data) (sha_block ctx),
                      sha_blocklen := sha_blocklen ctx + fill\<rparr>;
            ctx = (if sha_blocklen ctx = 64 then (sha256_transform (sha_block ctx) ctx)\<lparr>sha_blocklen := 0\<rparr> else ctx)
        in sha256_update_loop (drop fill data) ctx)
     else Some ctx)"

definition sha256_update :: "bytes \<Rightarrow> sha256_ctx \<Rightarrow> sha256_ctx option" where
  "sha256_update data ctx =
    sha256_update_loop data (ctx\<lparr>sha_bitlen := sha_bitlen ctx + of_nat (length data) * 8\<rparr>)"

definition sha256_final :: "sha256_ctx \<Rightarrow> (sha256_ctx \<times> bytes) option" where
  "sha256_final ctx =
    (let bitlen = sha_bitlen ctx in
     do {
       ctx \<leftarrow> sha256_update [0x80] ctx;
       let padlen = (if sha_blocklen ctx > 56 then 120 - sha_blocklen ctx else 56 - sha_blocklen ctx);
       ctx \<leftarrow> (if padlen > 0 then sha256_update (take padlen (replicate 64 0)) ctx else Some ctx);
       ctx \<leftarrow> sha256_update (map (\<lambda>i. ucast (drop_bit (56 - i * 8) bitlen)) [0..<8]) ctx;
       Some (ctx, concat (map (\<lambda>i. [ucast (drop_bit 24 (sha_state ctx ! i)), ucast (drop_bit 16 (sha_state ctx ! i)),
         ucast (drop_bit 8 (sha_state ctx ! i)), ucast (sha_state ctx ! i)]) [0..<8]))
     })"

definition hexchars :: bytes where
  "hexchars = map (of_nat \<circ> of_char) ''0123456789abcdef''"

definition sha256_hex :: "bytes \<Rightarrow> bytes" where
  "sha256_hex hash = concat (map (\<lambda>b. [hexchars ! unat (drop_bit 4 b), hexchars ! unat (b AND 0x0f)]) hash) @ [0]"

section \<open>The hash of FIPS 180-4\<close>

definition fips_Ch :: "u32 \<Rightarrow> u32 \<Rightarrow> u32 \<Rightarrow> u32" where
  "fips_Ch x y z = (x AND y) XOR (NOT x AND z)"

definition fips_Maj :: "u32 \<Rightarrow> u32 \<Rightarrow> u32 \<Rightarrow> u32" where
  "fips_Maj x y z = (x AND y) XOR (x AND z) XOR (y AND z)"

definition fips_Sum0 :: "u32 \<Rightarrow> u32" where
  "fips_Sum0 x = word_rotr 2 x XOR word_rotr 13 x XOR word_rotr 22 x"

definition fips_Sum1 :: "u32 \<Rightarrow> u32" where
  "fips_Sum1 x = word_rotr 6 x XOR word_rotr 11 x XOR word_rotr 25 x"

definition fips_sig0 :: "u32 \<Rightarrow> u32" where
  "fips_sig0 x = word_rotr 7 x XOR word_rotr 18 x XOR drop_bit 3 x"

definition fips_sig1 :: "u32 \<Rightarrow> u32" where
  "fips_sig1 x = word_rotr 17 x XOR word_rotr 19 x XOR drop_bit 10 x"

text \<open>Message schedule of a block, by recursion on the round.\<close>

definition be32 :: "u32 \<Rightarrow> bytes" where
  "be32 w = rev (le32 w)"

fun fips_W :: "bytes \<Rightarrow> nat \<Rightarrow> u32" where
  "fips_W m t = (if t < 16 then htonl (get32 m (4 * t))
     else fips_sig1 (fips_W m (t - 2)) + fips_W m (t - 7) + fips_sig0 (fips_W m (t - 15)) + fips_W m (t - 16))"

declare fips_W.simps [simp del]

fun fips_step :: "bytes \<Rightarrow> nat \<Rightarrow> sha_regs \<Rightarrow> sha_regs" where
  "fips_step m t (a, b, c, d, e, f, g, h) =
    (let T1 = h + fips_Sum1 e + fips_Ch e f g + sha256_k ! t + fips_W m t;
         T2 = fips_Sum0 a + fips_Maj a b c
     in (T1 + T2, a, b, c, d + T1, e, f, g))"

definition fips_regs :: "u32 list \<Rightarrow> sha_regs" where
  "fips_regs H = (H ! 0, H ! 1, H ! 2, H ! 3, H ! 4, H ! 5, H ! 6, H ! 7)"

fun fips_add :: "u32 list \<Rightarrow> sha_regs \<Rightarrow> u32 list" where
  "fips_add H (a, b, c, d, e, f, g, h) = map2 (+) H [a, b, c, d, e, f, g, h]"

definition fips_compress :: "u32 list \<Rightarrow> bytes \<Rightarrow> u32 list" where
  "fips_compress H m = fips_add H (fold (fips_step m) [0..<64] (fips_regs H))"

definition fips_H0 :: "u32 list" where
  "fips_H0 = [0x6a09e667, 0xbb67ae85, 0x3c6ef372, 0xa54ff53a, 0x510e527f, 0x9b05688c, 0x1f83d9ab, 0x5be0cd19]"

text \<open>The message, a one bit, zeros up to 56 modulo 64 bytes, the length in bits as 64 bits, highest byte first.\<close>

definition be64 :: "u64 \<Rightarrow> bytes" where
  "be64 w = be32 (ucast (drop_bit 32 w)) @ be32 (ucast w)"

definition fips_pad :: "bytes \<Rightarrow> bytes" where
  "fips_pad m = m @ [0x80] @ replicate ((119 - length m mod 64) mod 64) 0 @ be64 (of_nat (8 * length m))"

function fips_blocks :: "bytes \<Rightarrow> bytes list" where
  "fips_blocks m = (if length m < 64 then [] else take 64 m # fips_blocks (drop 64 m))"
  by pat_completeness auto
termination by (relation "measure length") auto

declare fips_blocks.simps [simp del]

definition fips_state :: "bytes \<Rightarrow> u32 list" where
  "fips_state m = foldl fips_compress fips_H0 (fips_blocks m)"

definition fips_sha256 :: "bytes \<Rightarrow> bytes" where
  "fips_sha256 m = concat (map be32 (fips_state (fips_pad m)))"

section \<open>The transformation\<close>

lemma ROTR_rotr:
  assumes "0 < n" and "n < 32"
  shows "ROTR x n = word_rotr n x"
proof (rule bit_word_eqI)
  fix i assume i: "i < LENGTH(32)"
  have m: "(i + n) mod 32 = (if i + n < 32 then i + n else i + n - 32)"
    using i assms by (simp add: mod_if)
  have "bit (ROTR x n) i \<longleftrightarrow> bit x (n + i) \<or> 32 - n \<le> i \<and> bit x (i - (32 - n))"
    using i by (auto simp: ROTR_def bit_or_iff bit_drop_bit_eq bit_push_bit_iff)
  moreover have "bit (word_rotr n x) i \<longleftrightarrow> bit x (if i + n < 32 then i + n else i + n - 32)"
    using i m assms by (simp add: bit_word_rotr_iff ac_simps)
  moreover have "\<not> bit x (n + i)" if "32 \<le> i + n"
    using that bit_imp_le_length [of x "n + i"] by auto
  ultimately show "bit (ROTR x n) i = bit (word_rotr n x) i"
    using assms by (auto simp: ac_simps)
qed

lemmas sha_functions = fips_Ch_def fips_Maj_def fips_Sum0_def fips_Sum1_def fips_sig0_def fips_sig1_def ROTR_rotr

lemma sha_load_word:
  "sha_load m i w = w[i := htonl (get32 m (4 * i))]"
  unfolding sha_load_def htonl_def get32_def ucast_w32 unfolding w32_def by (simp add: ac_simps)

lemma sha_load_loop:
  assumes "n \<le> 16" and "w = fold (sha_load m) [0..<n] (replicate 64 0)"
  shows "length w = 64 \<and> (\<forall>t < n. w ! t = fips_W m t)"
  using assms(1) unfolding assms(2)
proof (induction n)
  case (Suc n)
  then show ?case
    by (auto simp: sha_load_word nth_list_update less_Suc_eq fips_W.simps [of m n])
qed simp

lemma sha_extend_loop:
  assumes w: "length w = 64" "\<forall>t < 16. w ! t = fips_W m t" and "n \<le> 48" and "v = fold sha_extend [16..<16 + n] w"
  shows "length v = 64 \<and> (\<forall>t < 16 + n. v ! t = fips_W m t)"
  using assms(3) unfolding assms(4)
proof (induction n)
  case 0
  then show ?case using w by simp
next
  case (Suc n)
  define v where "v = fold sha_extend [16..<16 + n] w"
  have v: "length v = 64" "\<And>t. t < 16 + n \<Longrightarrow> v ! t = fips_W m t"
    using Suc by (auto simp: v_def)
  have "sha_extend (16 + n) v = v[16 + n := fips_W m (16 + n)]"
    by (simp add: sha_extend_def v sha_functions fips_W.simps [of m "n + 16"] ac_simps Let_def)
  moreover have "fold sha_extend [16..<16 + Suc n] w = sha_extend (16 + n) v"
    unfolding add_Suc_right v_def by (subst upt_Suc_append) simp_all
  ultimately show ?case
    using v Suc.prems by (auto simp: nth_list_update less_Suc_eq)
qed

lemma sha_rounds:
  assumes "\<forall>t < 64. w ! t = fips_W m t" and "n \<le> 64"
  shows "fold (sha_round w) [0..<n] r = fold (fips_step m) [0..<n] r"
  using assms(2)
proof (induction n)
  case (Suc n)
  obtain a b c d e f g h where "fold (fips_step m) [0..<n] r = (a, b, c, d, e, f, g, h)"
    by (metis surj_pair)
  then show ?case using Suc assms(1) by (simp add: sha_functions Let_def)
qed simp

lemma sha256_transform_fips:
  assumes "length (sha_state ctx) = 8"
  shows "sha256_transform m ctx = ctx\<lparr>sha_state := fips_compress (sha_state ctx) m\<rparr>"
proof -
  define w where "w = fold sha_extend [16..<64] (fold (sha_load m) [0..<16] (replicate 64 0))"
  have w: "\<forall>t < 64. w ! t = fips_W m t"
    using sha_load_loop [OF _ refl, of 16 m] sha_extend_loop [OF _ _ _ refl, of _ m 48] by (simp add: w_def)
  obtain s0 s1 s2 s3 s4 s5 s6 s7 where s: "sha_state ctx = [s0, s1, s2, s3, s4, s5, s6, s7]"
    using assms by (auto simp: length_Suc_conv eval_nat_numeral)
  define r where "r = fold (fips_step m) [0..<64] (fips_regs (sha_state ctx))"
  obtain a b c d e f g h where r: "r = (a, b, c, d, e, f, g, h)" by (metis surj_pair)
  have "sha256_transform m ctx = ctx\<lparr>sha_state := [s0 + a, s1 + b, s2 + c, s3 + d, s4 + e, s5 + f, s6 + g, s7 + h]\<rparr>"
    unfolding sha256_transform_def w_def [symmetric] Let_def sha_rounds [OF w order_refl] fips_regs_def [symmetric] r_def [symmetric]
    by (simp add: r s)
  then show ?thesis
    unfolding fips_compress_def r_def [symmetric] by (simp add: r s)
qed

lemma length_fips_compress [simp]: "length H = 8 \<Longrightarrow> length (fips_compress H m) = 8"
  unfolding fips_compress_def by (cases "(H, fold (fips_step m) [0..<64] (fips_regs H))" rule: fips_add.cases) simp_all

section \<open>The buffer\<close>

lemma fips_blocks_append: "64 dvd length p \<Longrightarrow> fips_blocks (p @ m) = fips_blocks p @ fips_blocks m"
proof (induction p rule: fips_blocks.induct)
  case (1 p)
  show ?case
  proof (cases "length p < 64")
    case True
    then have "p = []" using 1(2) by (auto dest: dvd_imp_le)
    then show ?thesis by (simp add: fips_blocks.simps [of "[]"])
  next
    case False
    then show ?thesis
      using 1 by (simp add: fips_blocks.simps [of "p @ m"] fips_blocks.simps [of p] dvd_diff_nat)
  qed
qed

lemma fips_state_append: "64 dvd length p \<Longrightarrow> fips_state (p @ m) = foldl fips_compress (fips_state p) (fips_blocks m)"
  by (simp add: fips_state_def fips_blocks_append)

lemma fips_state_short: "64 dvd length p \<Longrightarrow> length m < 64 \<Longrightarrow> fips_state (p @ m) = fips_state p"
  by (simp add: fips_state_append fips_blocks.simps [of m])

lemma fips_state_block: "64 dvd length p \<Longrightarrow> length m = 64 \<Longrightarrow> fips_state (p @ m) = fips_compress (fips_state p) m"
  by (simp add: fips_state_append fips_blocks.simps [of m] fips_blocks.simps [of "[]"])

lemma length_fips_state [simp]: "length (fips_state m) = 8"
proof -
  have "length (foldl fips_compress H bs) = 8" if "length H = 8" for H bs
    using that by (induction bs arbitrary: H) simp_all
  then show ?thesis by (simp add: fips_state_def fips_H0_def)
qed

text \<open>The context holds message \<open>m\<close>: the state covers its whole blocks and the buffer the rest.\<close>

definition sha_holds :: "bytes \<Rightarrow> sha256_ctx \<Rightarrow> bool" where
  "sha_holds m ctx \<longleftrightarrow> length (sha_block ctx) = 64 \<and> sha_blocklen ctx = length m mod 64 \<and>
     take (sha_blocklen ctx) (sha_block ctx) = drop (64 * (length m div 64)) m \<and> sha_state ctx = fips_state m"

lemma sha_holds_split:
  assumes "64 dvd length p" and "length r < 64"
  shows "sha_holds (p @ r) ctx \<longleftrightarrow> length (sha_block ctx) = 64 \<and> sha_blocklen ctx = length r \<and>
     take (length r) (sha_block ctx) = r \<and> sha_state ctx = fips_state p"
proof -
  have "length (p @ r) mod 64 = length r" "64 * (length (p @ r) div 64) = length p"
    using assms by (auto elim!: dvdE)
  then show ?thesis
    by (auto simp: sha_holds_def fips_state_short [OF assms])
qed

lemma sha_split:
  obtains p r where "m = p @ r" and "64 dvd length p" and "length (r :: bytes) < 64"
proof (rule that [of "take (64 * (length m div 64)) m" "drop (64 * (length m div 64)) m"])
  have "64 * (length m div 64) \<le> length m" by simp
  then show "64 dvd length (take (64 * (length m div 64)) m)" by (simp add: min.absorb2)
qed (simp_all add: minus_mult_div_eq_mod)

text \<open>The loop returns and the context holds the longer message.\<close>

lemma sha256_update_loop_holds:
  assumes "sha_holds m ctx"
  shows "\<exists>ctx'. sha256_update_loop d ctx = Some ctx' \<and> sha_holds (m @ d) ctx' \<and> sha_bitlen ctx' = sha_bitlen ctx"
  using assms
proof (induction d arbitrary: m ctx rule: length_induct)
  case (1 d)
  show ?case
  proof (cases "d = []")
    case True
    then show ?thesis using 1(2) by (simp add: sha256_update_loop.simps [of "[]"])
  next
    case False
    obtain p r where m: "m = p @ r" and p: "64 dvd length p" and r: "length r < 64" by (rule sha_split)
    have h: "length (sha_block ctx) = 64" "sha_blocklen ctx = length r" "take (length r) (sha_block ctx) = r" "sha_state ctx = fips_state p"
      using 1(2) by (simp_all add: m sha_holds_split [OF p r])
    define n where "n = min (64 - length r) (length d)"
    have n: "0 < n" "n \<le> length d" "length r + n \<le> 64" using False r by (auto simp: n_def)
    define c where "c = ctx\<lparr>sha_block := put_bytes (length r) (take n d) (sha_block ctx), sha_blocklen := length r + n\<rparr>"
    define c' where "c' = (if sha_blocklen c = 64 then (sha256_transform (sha_block c) c)\<lparr>sha_blocklen := 0\<rparr> else c)"
    have step: "sha256_update_loop d ctx = sha256_update_loop (drop n d) c'"
    proof -
      have "(if 64 - length r > length d then length d else 64 - length r) = n" by (simp add: n_def min_def)
      then show ?thesis
        unfolding sha256_update_loop.simps [of d ctx] Let_def h(2) c'_def c_def using False by simp
    qed
    have blk: "take (length r + n) (sha_block c) = r @ take n d" "length (sha_block c) = 64"
      using n h by (simp_all add: c_def put_bytes_def)
    have c': "sha_holds (m @ take n d) c' \<and> sha_bitlen c' = sha_bitlen ctx"
    proof (cases "length r + n = 64")
      case True
      then have "c' = c\<lparr>sha_state := fips_compress (fips_state p) (r @ take n d), sha_blocklen := 0\<rparr>"
        using blk by (simp add: c'_def sha256_transform_fips h c_def)
      moreover have "fips_state (p @ r @ take n d) = fips_compress (fips_state p) (r @ take n d)"
        by (rule fips_state_block [OF p]) (use True n in simp)
      ultimately show ?thesis
        using sha_holds_split [of "p @ r @ take n d" "[]" c'] p n True blk by (simp add: m c_def dvd_add_right_iff)
    next
      case neq: False
      then have "length (r @ take n d) < 64" using n by simp
      from sha_holds_split [OF p this] show ?thesis
        using neq blk n by (simp add: m c'_def c_def h)
    qed
    from 1(1) [rule_format, of "drop n d" "m @ take n d" c'] show ?thesis
      unfolding step using c' n by auto
  qed
qed

lemma sha256_update_holds:
  assumes "sha_holds m ctx" and "sha_bitlen ctx = b"
  shows "\<exists>ctx'. sha256_update d ctx = Some ctx' \<and> sha_holds (m @ d) ctx' \<and> sha_bitlen ctx' = b + of_nat (8 * length d)"
proof -
  define c where "c = ctx\<lparr>sha_bitlen := b + of_nat (length d) * 8\<rparr>"
  have "sha_holds m c" using assms(1) by (auto simp add: c_def sha_holds_def)
  from sha256_update_loop_holds [OF this, of d] show ?thesis
    unfolding sha256_update_def assms(2) c_def [symmetric] by (simp add: c_def ac_simps)
qed

text \<open>Padding and output.\<close>

lemma sha_length_bytes: "map (\<lambda>i. ucast (drop_bit (56 - i * 8) bl)) [0..<8] = be64 bl"
proof -
  have "ucast (drop_bit k (ucast w :: u32)) = (ucast (drop_bit k w) :: u8)" if "k \<le> 24" for k and w :: u64
    using that by (intro bit_word_eqI) (auto simp: bit_simps)
  note this [of _ bl] this [of 0 bl] this [of _ "drop_bit 32 bl"] this [of 0 "drop_bit 32 bl"]
  then show ?thesis by (simp add: be64_def be32_def le32_def upt_rec drop_bit_drop_bit)
qed

lemma sha_digest_bytes:
  assumes "length st = 8"
  shows "concat (map (\<lambda>i. [ucast (drop_bit 24 (st ! i)), ucast (drop_bit 16 (st ! i)), ucast (drop_bit 8 (st ! i)), ucast (st ! i)]) [0..<8])
    = concat (map be32 st)"
proof -
  have "map be32 (map ((!) st) [0..<8]) = map be32 st"
    using map_nth [of st] unfolding assms by (simp only:)
  then have "concat (map be32 st) = concat (map (\<lambda>i. be32 (st ! i)) [0..<8])"
    unfolding map_map comp_def by (simp only:)
  then show ?thesis unfolding be32_def le32_def by (simp only: rev.simps append.simps)
qed

lemma sha256_final_holds:
  assumes "sha_holds m ctx" and "sha_bitlen ctx = of_nat (8 * length m)"
  shows "\<exists>ctx'. sha256_final ctx = Some (ctx', fips_sha256 m)"
proof -
  obtain c1 where c1: "sha256_update [0x80] ctx = Some c1" "sha_holds (m @ [0x80]) c1"
    using sha256_update_holds [OF assms(1) refl] by blast
  define k where "k = (if sha_blocklen c1 > 56 then 120 - sha_blocklen c1 else 56 - sha_blocklen c1)"
  have b: "sha_blocklen c1 = (length m + 1) mod 64" using c1(2) by (simp add: sha_holds_def)
  have k: "k = (119 - length m mod 64) mod 64"
  proof (cases "length m mod 64 = 63")
    case True
    then have "(length m + 1) mod 64 = 0" by (simp add: mod_Suc)
    then show ?thesis by (simp add: k_def b True)
  next
    case False
    have "length m mod 64 < 64" by simp
    moreover have "(length m + 1) mod 64 = length m mod 64 + 1" using False by (simp add: mod_Suc)
    moreover have "(119 - x) mod 64 = (if x > 55 then 119 - x else 55 - x)" if "x < 63" for x :: nat
      using that by (simp add: mod_if)
    ultimately show ?thesis using False by (simp add: k_def b)
  qed
  have "k < 64" unfolding k by simp
  then have z: "take k (replicate 64 (0 :: u8)) = replicate k 0" by (simp add: min_def)
  obtain c2 where c2: "(if k > 0 then sha256_update (take k (replicate 64 0)) c1 else Some c1) = Some c2"
    "sha_holds (m @ [0x80] @ replicate k 0) c2"
    using sha256_update_holds [OF c1(2) refl, of "replicate k 0"] c1(2) unfolding z by (cases "k = 0") auto
  obtain c3 where c3: "sha256_update (be64 (of_nat (8 * length m))) c2 = Some c3" "sha_holds (fips_pad m) c3"
    using sha256_update_holds [OF c2(2) refl] by (force simp: fips_pad_def k)
  have "sha_state c3 = fips_state (fips_pad m)" using c3(2) by (simp add: sha_holds_def)
  then have "sha256_final ctx = Some (c3, fips_sha256 m)"
    unfolding sha256_final_def Let_def c1(1) bind.simps k_def [symmetric] c2(1) sha_length_bytes assms(2) c3(1)
    by (simp add: sha_digest_bytes fips_sha256_def)
  then show ?thesis by blast
qed

section \<open>The interface\<close>

text \<open>\<open>sha256_ctx ctx = {0}; sha256_init(&ctx);\<close>, the updates of the caller, \<open>sha256_final\<close>.\<close>

definition sha256_zero :: sha256_ctx where
  "sha256_zero = \<lparr>sha_state = replicate 8 0, sha_bitlen = 0, sha_block = replicate 64 0, sha_blocklen = 0\<rparr>"

fun sha256_updates :: "bytes list \<Rightarrow> sha256_ctx \<Rightarrow> sha256_ctx option" where
  "sha256_updates [] ctx = Some ctx"
| "sha256_updates (d # ds) ctx = sha256_update d ctx \<bind> sha256_updates ds"

lemma sha256_init_holds: "sha_holds [] (sha256_init sha256_zero)" "sha_bitlen (sha256_init sha256_zero) = 0"
  by (simp_all add: sha_holds_def sha256_init_def sha256_zero_def fips_state_def fips_blocks.simps [of "[]"] fips_H0_def)

lemma sha256_updates_hold:
  assumes "sha_holds m ctx" and "sha_bitlen ctx = of_nat (8 * length m)"
  shows "\<exists>ctx'. sha256_updates ds ctx = Some ctx' \<and> sha_holds (m @ concat ds) ctx' \<and>
    sha_bitlen ctx' = of_nat (8 * length (m @ concat ds))"
  using assms
proof (induction ds arbitrary: m ctx)
  case (Cons d ds)
  obtain c where c: "sha256_update d ctx = Some c" "sha_holds (m @ d) c" "sha_bitlen c = of_nat (8 * length (m @ d))"
    using sha256_update_holds [OF Cons.prems] by (auto simp: distrib_left)
  from Cons.IH [OF c(2,3)] show ?case by (simp add: c(1))
qed simp

lemma sha256_interface:
  "\<exists>ctx ctx'. sha256_updates ds (sha256_init sha256_zero) = Some ctx \<and> sha256_final ctx = Some (ctx', fips_sha256 (concat ds))"
  using sha256_updates_hold [OF sha256_init_holds(1), of ds] sha256_init_holds(2)
  by (force dest: sha256_final_holds)


text \<open>The first example of the standard, through the code's own transformation.\<close>

lemma sha256_abc_block:
  "sha_state (sha256_transform (fips_pad [0x61, 0x62, 0x63]) (sha256_init sha256_zero)) =
    [0xba7816bf, 0x8f01cfea, 0x414140de, 0x5dae2223, 0xb00361a3, 0x96177a9c, 0xb410ff61, 0xf20015ad]"
  by code_simp

lemma sha256_abc:
  "fips_sha256 [0x61, 0x62, 0x63] = concat (map be32
    [0xba7816bf, 0x8f01cfea, 0x414140de, 0x5dae2223, 0xb00361a3, 0x96177a9c, 0xb410ff61, 0xf20015ad])"
proof -
  have "length (fips_pad [0x61, 0x62, 0x63]) = 64" by (simp add: fips_pad_def be64_def be32_def)
  then have "fips_state (fips_pad [0x61, 0x62, 0x63]) = sha_state (sha256_transform (fips_pad [0x61, 0x62, 0x63]) (sha256_init sha256_zero))"
    using fips_state_block [of "[]"] sha256_init_holds(1) by (simp add: sha256_transform_fips sha_holds_def)
  then show ?thesis unfolding fips_sha256_def sha256_abc_block by (rule arg_cong)
qed

end
