(* ===== verification/Curl_Verify.thy ===== *)
theory Curl_Verify
  imports Sha256
begin

text \<open>
  The test client \<open>apps/curl-verify/curl-verify.c\<close>: download and upload of a file with a check of its length and its SHA-256.
  What the operating system answers is the environment of the model: the result of \<open>getaddrinfo\<close> and \<open>connect\<close>, the results of
  the successive \<open>write\<close> and \<open>read\<close> calls on the socket, of \<open>fopen\<close>, \<open>fread\<close> and \<open>fwrite\<close>. A schedule that runs out before the
  program has its answer leaves it blocked, the value \<open>None\<close>. What is printed is not modelled.
\<close>

section \<open>C strings\<close>

text \<open>The string at the start of a memory area; the library functions below take strings without their terminator.\<close>

definition cstr :: "bytes \<Rightarrow> bytes" where
  "cstr b = takeWhile (\<lambda>c. c \<noteq> 0) b"

definition lit :: "string \<Rightarrow> bytes" where
  "lit s = map (of_nat \<circ> of_char) s"

definition tolower :: "u8 \<Rightarrow> u8" where
  "tolower c = (if 0x41 \<le> c \<and> c \<le> 0x5a then c + 0x20 else c)"

definition strnlen :: "bytes \<Rightarrow> nat \<Rightarrow> nat" where
  "strnlen s n = min n (length s)"

text \<open>The comparisons, true where the C functions return 0.\<close>

definition strncmp_eq :: "bytes \<Rightarrow> bytes \<Rightarrow> nat \<Rightarrow> bool" where
  "strncmp_eq a b n \<longleftrightarrow> take n a = take n b"

definition strncasecmp_eq :: "bytes \<Rightarrow> bytes \<Rightarrow> nat \<Rightarrow> bool" where
  "strncasecmp_eq a b n \<longleftrightarrow> map tolower (take n a) = map tolower (take n b)"

definition strcasecmp_eq :: "bytes \<Rightarrow> bytes \<Rightarrow> bool" where
  "strcasecmp_eq a b \<longleftrightarrow> map tolower a = map tolower b"

text \<open>Offset of the first occurrence.\<close>

fun strstr :: "bytes \<Rightarrow> bytes \<Rightarrow> nat option" where
  "strstr [] pat = (if pat = [] then Some 0 else None)"
| "strstr (c # s) pat = (if take (length pat) (c # s) = pat then Some 0 else map_option Suc (strstr s pat))"

definition isspace :: "u8 \<Rightarrow> bool" where
  "isspace c \<longleftrightarrow> c = 0x20 \<or> 9 \<le> c \<and> c \<le> 13"

definition isdigit :: "u8 \<Rightarrow> bool" where
  "isdigit c \<longleftrightarrow> 0x30 \<le> c \<and> c \<le> 0x39"

definition dec_val :: "bytes \<Rightarrow> int" where
  "dec_val ds = foldl (\<lambda>n d. 10 * n + uint (d - 0x30)) 0 ds"

text \<open>\<open>strtol(s, NULL, 10)\<close> with its clamping to the range of a 64-bit \<open>long\<close>.\<close>

definition strtol :: "bytes \<Rightarrow> int" where
  "strtol s =
    (let s = dropWhile isspace s;
         neg = (s \<noteq> [] \<and> hd s = 0x2d);
         s = (if s \<noteq> [] \<and> (hd s = 0x2d \<or> hd s = 0x2b) then tl s else s);
         n = dec_val (takeWhile isdigit s)
     in max (- (2 ^ 63)) (min (2 ^ 63 - 1) (if neg then - n else n)))"

text \<open>\<open>%ld\<close>.\<close>

fun dec_digits :: "nat \<Rightarrow> bytes" where
  "dec_digits n = (if n < 10 then [0x30 + of_nat n] else dec_digits (n div 10) @ [0x30 + of_nat (n mod 10)])"

declare dec_digits.simps [simp del]

definition fmt_ld :: "int \<Rightarrow> bytes" where
  "fmt_ld i = (if i < 0 then 0x2d # dec_digits (nat (- i)) else dec_digits (nat i))"

abbreviation CRLF :: bytes where "CRLF \<equiv> [0x0d, 0x0a]"
abbreviation CRLF2 :: bytes where "CRLF2 \<equiv> [0x0d, 0x0a, 0x0d, 0x0a]"

section \<open>Helpers\<close>

text \<open>\<open>s\<close> and \<open>result\<close> are what \<open>getaddrinfo\<close> delivers; \<open>Inl\<close> is \<open>exit\<close>.\<close>

fun get_address :: "int \<times> 'a list \<Rightarrow> int + (int \<times> 'a option)" where
  "get_address (s, result) =
    (if s \<noteq> 0 then Inl 1
     else case result of rp # _ \<Rightarrow> Inr (0, Some rp) | [] \<Rightarrow> Inr (1, None))"

text \<open>\<open>write_all\<close>: result, what went out, results left for later writes. The second argument is \<open>data + off\<close> with \<open>len - off\<close> bytes.\<close>

fun write_all :: "int list \<Rightarrow> bytes \<Rightarrow> (int \<times> bytes \<times> int list) option" where
  "write_all ws [] = Some (0, [], ws)"
| "write_all [] (_ # _) = None"
| "write_all (n # ws) (c # data) =
    (if n \<le> 0 then Some (-1, [], ws)
     else map_option (\<lambda>(r, out, ws). (r, take (nat n) (c # data) @ out, ws)) (write_all ws (drop (nat n) (c # data))))"

definition CONTENT_LENGTH :: bytes where
  "CONTENT_LENGTH = lit ''Content-Length:''"

text \<open>The loop over the lines, \<open>p\<close> and \<open>split\<close> as offsets into \<open>hdrbuf\<close>.\<close>

function http_header_loop :: "bytes \<Rightarrow> nat \<Rightarrow> nat \<Rightarrow> int \<Rightarrow> int" where
  "http_header_loop hdrbuf split p content_length =
    (if p < split then
       (let content_length = (if strncasecmp_eq (drop p hdrbuf) CONTENT_LENGTH 15 then strtol (drop (p + 15) hdrbuf)
                              else content_length)
        in case strstr (drop p hdrbuf) CRLF of
             None \<Rightarrow> content_length
           | Some q \<Rightarrow> http_header_loop hdrbuf split (p + q + 2) content_length)
     else content_length)"
  by pat_completeness auto
termination by (relation "measure (\<lambda>(_, split, p, _). split - p)") auto

declare http_header_loop.simps [simp del]

definition http_parse_header :: "bytes \<Rightarrow> int \<Rightarrow> int \<times> int" where
  "http_parse_header hdrbuf content_length =
    (case strstr hdrbuf CRLF2 of
       None \<Rightarrow> (-1, content_length)
     | Some split \<Rightarrow> (int split + 4, http_header_loop hdrbuf split 0 (-1)))"

text \<open>The file written so far with the environment's \<open>fwrite\<close>: number of bytes it reports and the file after it.\<close>

type_synonym fwrite = "bytes \<Rightarrow> bytes \<Rightarrow> nat \<times> bytes"

definition write_body :: "fwrite \<Rightarrow> bytes \<Rightarrow> bytes \<times> sha256_ctx \<times> int \<Rightarrow> (int \<times> bytes \<times> sha256_ctx \<times> int) option" where
  "write_body fwr data st =
    (case st of (fp, ctx, tot) \<Rightarrow>
       if length data = 0 then Some (0, fp, ctx, tot)
       else case fwr fp data of (n, fp) \<Rightarrow>
         if n \<noteq> length data then Some (-1, fp, ctx, tot)
         else map_option (\<lambda>ctx. (0, fp, ctx, tot + int (length data))) (sha256_update data ctx))"

definition verify_result :: "int \<Rightarrow> int \<Rightarrow> bytes \<Rightarrow> bytes \<Rightarrow> int" where
  "verify_result tot content_length hex expected =
    (if 0 \<le> content_length \<and> tot \<noteq> content_length then 1
     else if expected \<noteq> [] \<and> \<not> strcasecmp_eq hex expected then 1
     else 0)"

section \<open>Download and upload\<close>

record 'a app_env =
  env_getaddrinfo :: "bytes \<Rightarrow> bytes \<Rightarrow> int \<times> 'a list"
  env_connect :: "'a \<Rightarrow> int"
  env_writes :: "int list"
  env_reads :: "bytes option list"
  env_fopen :: bool
  env_fwrite :: fwrite
  env_fsize :: int
  env_freads :: "bytes list"

text \<open>What the run leaves behind: bytes sent, file written, descriptors still open.\<close>

record app_out =
  out_sent :: bytes
  out_file :: bytes
  out_sock :: bool
  out_fp :: bool

definition app_start :: app_out where
  "app_start = \<lparr>out_sent = [], out_file = [], out_sock = False, out_fp = False\<rparr>"

text \<open>The receive loop; \<open>hdrbuf\<close> holds the \<open>hlen\<close> bytes in front of its terminator. A read of \<open>None\<close> is \<open>-1\<close>, the result \<open>Inl 1\<close> a return
  from within the loop and \<open>Inr rlen\<close> its end.\<close>

record dl =
  dl_hdrbuf :: bytes
  dl_header_done :: bool
  dl_content_length :: int
  dl_body :: "bytes \<times> sha256_ctx \<times> int"

fun download_loop :: "fwrite \<Rightarrow> bytes option list \<Rightarrow> dl \<Rightarrow> ((int + int) \<times> dl) option" where
  "download_loop fwr [] d = None"
| "download_loop fwr (None # rs) d = Some (Inr (-1), d)"
| "download_loop fwr (Some [] # rs) d = Some (Inr 0, d)"
| "download_loop fwr (Some (c # buf) # rs) d =
    (if \<not> dl_header_done d then
       if 5120 \<le> length (dl_hdrbuf d) + length (c # buf) then Some (Inl 1, d)
       else
         (let d = d\<lparr>dl_hdrbuf := dl_hdrbuf d @ c # buf\<rparr> in
          case http_parse_header (cstr (dl_hdrbuf d)) (dl_content_length d) of (body_off, content_length) \<Rightarrow>
            (let d = d\<lparr>dl_content_length := content_length\<rparr> in
             if body_off < 0 then download_loop fwr rs d
             else
               do {
                 (r, body) \<leftarrow> write_body fwr (drop (nat body_off) (dl_hdrbuf d)) (dl_body d);
                 let d = d\<lparr>dl_header_done := True, dl_body := body\<rparr>;
                 if r \<noteq> 0 then Some (Inl 1, d) else download_loop fwr rs d
               }))
     else
       do {
         (r, body) \<leftarrow> write_body fwr (c # buf) (dl_body d);
         let d = d\<lparr>dl_body := body\<rparr>;
         if r \<noteq> 0 then Some (Inl 1, d) else download_loop fwr rs d
       })"

definition http_request :: "bytes \<Rightarrow> bytes \<Rightarrow> bytes" where
  "http_request host port = take 511 (lit ''GET / HTTP/1.1'' @ CRLF @ lit ''Host: '' @ host @ lit '':'' @ port @ CRLF @
     lit ''Connection: close'' @ CRLF @ CRLF)"

definition run_download :: "'a app_env \<Rightarrow> bytes list \<Rightarrow> (int \<times> app_out) option" where
  "run_download env argv =
    (let o0 = app_start in
     if strnlen (argv ! 1) 50 = 50 \<or> strnlen (argv ! 2) 6 = 6 then Some (1, o0)
     else case get_address (env_getaddrinfo env (argv ! 1) (argv ! 2)) of
       Inl code \<Rightarrow> Some (code, o0)
     | Inr (_, None) \<Rightarrow> Some (1, o0)
     | Inr (_, Some addr) \<Rightarrow>
         (let o1 = o0\<lparr>out_sock := True\<rparr> in
          if env_connect env addr = -1 then Some (1, o1)
          else do {
            (r, sent, ws) \<leftarrow> write_all (env_writes env) (http_request (argv ! 1) (argv ! 2));
            let o1 = o1\<lparr>out_sent := sent\<rparr>;
            if r \<noteq> 0 \<or> \<not> env_fopen env then Some (1, o1\<lparr>out_sock := False\<rparr>)
            else do {
              (r, d) \<leftarrow> download_loop (env_fwrite env) (env_reads env)
                \<lparr>dl_hdrbuf = [], dl_header_done = False, dl_content_length = -1, dl_body = ([], sha256_init sha256_zero, 0)\<rparr>;
              let o1 = o1\<lparr>out_file := fst (dl_body d), out_sock := False\<rparr>;
              (case r of
                 Inl code \<Rightarrow> Some (code, o1)
               | Inr rlen \<Rightarrow>
                   if rlen = -1 then Some (1, o1)
                   else do {
                     (ctx, hash) \<leftarrow> sha256_final (fst (snd (dl_body d)));
                     let hex = sha256_hex hash;
                     let expected = (if length argv = 4 then take 64 (argv ! 3) else []);
                     Some (verify_result (snd (snd (dl_body d))) (dl_content_length d) (cstr hex) expected, o1)
                   })
            }
          }))"

fun upload_loop :: "bytes list \<Rightarrow> int list \<Rightarrow> sha256_ctx \<Rightarrow> int \<Rightarrow> (int \<times> bytes \<times> sha256_ctx \<times> int) option" where
  "upload_loop [] ws ctx tot = Some (0, [], ctx, tot)"
| "upload_loop (buf # fs) ws ctx tot =
    (if buf = [] then Some (0, [], ctx, tot)
     else do {
       (r, out, ws) \<leftarrow> write_all ws buf;
       if r \<noteq> 0 then Some (1, out, ctx, tot)
       else do {
         ctx \<leftarrow> sha256_update buf ctx;
         (r, out', ctx, tot) \<leftarrow> upload_loop fs ws ctx (tot + int (length buf));
         Some (r, out @ out', ctx, tot)
       }
     })"

definition run_upload :: "'a app_env \<Rightarrow> bytes \<Rightarrow> bytes \<Rightarrow> (int \<times> app_out) option" where
  "run_upload env host port =
    (let o0 = app_start in
     if strnlen host 50 = 50 \<or> strnlen port 6 = 6 then Some (1, o0)
     else if \<not> env_fopen env then Some (1, o0)
     else case get_address (env_getaddrinfo env host port) of
       Inl code \<Rightarrow> Some (code, o0\<lparr>out_fp := True\<rparr>)
     | Inr (_, None) \<Rightarrow> Some (1, o0)
     | Inr (_, Some addr) \<Rightarrow>
         (let o1 = o0\<lparr>out_sock := True\<rparr> in
          if env_connect env addr = -1 then Some (1, o1)
          else do {
            (r, sent, ws) \<leftarrow> write_all (env_writes env) (take 63 (lit ''PUT '' @ fmt_ld (env_fsize env) @ [0x0a]));
            let o1 = o1\<lparr>out_sent := sent, out_sock := False\<rparr>;
            if r \<noteq> 0 then Some (1, o1)
            else do {
              (r, out, ctx, tot) \<leftarrow> upload_loop (env_freads env) ws (sha256_init sha256_zero) 0;
              let o1 = o1\<lparr>out_sent := sent @ out\<rparr>;
              if r \<noteq> 0 then Some (1, o1)
              else if tot \<noteq> env_fsize env then Some (1, o1)
              else do {
                (ctx, hash) \<leftarrow> sha256_final ctx;
                let hex = cstr (sha256_hex hash);
                (case env_reads env of
                   [] \<Rightarrow> None
                 | None # _ \<Rightarrow> Some (1, o1)
                 | Some reply # _ \<Rightarrow>
                     if reply = [] then Some (1, o1)
                     else if \<not> strncmp_eq (cstr reply) (lit ''OK '') 3 \<or>
                             \<not> strncasecmp_eq (drop 3 (cstr reply)) hex 64 then Some (1, o1)
                     else Some (0, o1))
              }
            }
          }))"

definition curl_verify_main :: "'a app_env \<Rightarrow> bytes list \<Rightarrow> (int \<times> app_out) option" where
  "curl_verify_main env argv =
    (if length argv = 5 \<and> argv ! 1 = lit ''-u'' then run_upload env (argv ! 2) (argv ! 3)
     else if length argv = 3 \<or> length argv = 4 then run_download env argv
     else Some (1, app_start))"

section \<open>Strings\<close>

lemma strstr_Some: "strstr s pat = Some q \<Longrightarrow> q + length pat \<le> length s \<and> take (length pat) (drop q s) = pat"
proof (induction s arbitrary: q)
  case (Cons c s)
  show ?case
  proof (cases "take (length pat) (c # s) = pat")
    case True
    then have "length pat \<le> length (c # s)" by (metis length_take min.cobounded1)
    then show ?thesis using Cons.prems True by (auto split: if_splits)
  next
    case False
    then show ?thesis using Cons by (auto split: if_splits)
  qed
qed (auto split: if_splits)

lemma strstr_append: "strstr s pat = Some q \<Longrightarrow> strstr (s @ z) pat = Some q"
proof (induction s arbitrary: q)
  case Nil
  then show ?case by (cases z) (auto split: if_splits)
next
  case (Cons c s)
  have "length pat \<le> length (c # s)" using strstr_Some [OF Cons.prems] by simp
  then have "take (length pat) (c # s @ z) = take (length pat) (c # s)"
    by (metis append_Cons take_append diff_is_0_eq' take0 append_Nil2)
  then show ?case using Cons by (auto split: if_splits)
qed

lemma strstr_occurs: "take (length pat) (drop i s) = pat \<Longrightarrow> i \<le> length s \<Longrightarrow> \<exists>q \<le> i. strstr s pat = Some q"
proof (induction s arbitrary: i)
  case (Cons c s)
  then show ?case by (cases i) (fastforce split: if_splits)+
qed auto

lemma cstr_append: "0 \<notin> set h \<Longrightarrow> cstr (h @ z) = h @ cstr z"
  unfolding cstr_def by (rule takeWhile_append2) auto

lemma cstr_id: "0 \<notin> set h \<Longrightarrow> cstr h = h"
  using cstr_append [of h "[]"] by (simp add: cstr_def)

lemma hexchars_nonzero: "i < 16 \<Longrightarrow> hexchars ! i \<noteq> 0"
proof -
  have "list_all (\<lambda>c. c \<noteq> 0) hexchars" "length hexchars = 16" by code_simp+
  then show "i < 16 \<Longrightarrow> hexchars ! i \<noteq> 0" by (simp add: list_all_length)
qed

lemma nibble_less: "unat (drop_bit 4 b) < 16" "unat (b AND 0x0f) < 16" for b :: u8
proof -
  show "unat (drop_bit 4 b) < 16" using u8_less [of b] by (simp add: drop_bit_eq_div unat_div)
  have "b AND 0x0f = take_bit 4 b" by (simp add: take_bit_eq_mask mask_eq_exp_minus_1)
  then show "unat (b AND 0x0f) < 16" by (simp add: take_bit_eq_mod unat_mod_distrib)
qed

lemma cstr_hex: "cstr (sha256_hex hash) = butlast (sha256_hex hash)"
proof -
  have "0 \<notin> set (concat (map (\<lambda>b. [hexchars ! unat (drop_bit 4 b), hexchars ! unat (b AND 0x0f)]) hash))"
    using hexchars_nonzero nibble_less by (fastforce simp: eq_commute [of 0])
  from cstr_append [OF this, of "[0]"] show ?thesis unfolding sha256_hex_def by (simp add: cstr_def)
qed

text \<open>A number that ends inside the header is read the same whatever follows.\<close>

lemma strtol_append:
  assumes "\<exists>c \<in> set s. \<not> isspace c" and "s \<noteq> []" and "last s = 0x0a"
  shows "strtol (s @ z) = strtol s"
proof -
  define t where "t = dropWhile isspace s"
  have t: "dropWhile isspace (s @ z) = t @ z" "t \<noteq> []"
    using assms(1) unfolding t_def dropWhile_eq_Nil_conv by (auto intro: dropWhile_append1)
  have "last (takeWhile isspace s @ t) = 0x0a" unfolding t_def takeWhile_dropWhile_id by (rule assms(3))
  then have l: "last t = 0x0a" using t(2) by simp
  have n: "takeWhile isdigit (u @ z) = takeWhile isdigit u" if "u \<noteq> []" "last u = 0x0a" for u
  proof -
    have "last u \<in> set u" "\<not> isdigit (last u)" using that(1) by (rule last_in_set) (simp add: that(2) isdigit_def)
    then show ?thesis by (simp add: takeWhile_append1)
  qed
  have "tl t \<noteq> []" if "hd t \<noteq> 0x0a" using t(2) l that by (cases t) (auto split: if_splits)
  then have u: "tl t \<noteq> []" "last (tl t) = 0x0a" if "hd t = 0x2d \<or> hd t = 0x2b"
    using that l by (auto simp: last_tl)
  define v where "v = (if hd t = 0x2d \<or> hd t = 0x2b then tl t else t)"
  have v: "(if t \<noteq> [] \<and> (hd t = 0x2d \<or> hd t = 0x2b) then tl t else t) = v"
    "(if t @ z \<noteq> [] \<and> (hd (t @ z) = 0x2d \<or> hd (t @ z) = 0x2b) then tl (t @ z) else t @ z) = v @ z"
    using t(2) by (auto simp: v_def)
  have "takeWhile isdigit (v @ z) = takeWhile isdigit v"
    using n t(2) l u by (auto simp: v_def)
  then show ?thesis
    unfolding strtol_def Let_def t(1) t_def [symmetric] v using t(2) by simp
qed

section \<open>The response header\<close>

text \<open>A complete header: its end is the first blank line, it holds no NUL, and no field \<open>Content-Length\<close> has only white space up to
  the end of the header.\<close>

definition header_ok :: "bytes \<Rightarrow> bool" where
  "header_ok hdr \<longleftrightarrow> strstr hdr CRLF2 = Some (length hdr - 4) \<and> 0 \<notin> set hdr \<and>
     (\<forall>p < length hdr. strncasecmp_eq (drop p hdr) CONTENT_LENGTH 15 \<longrightarrow> (\<exists>c \<in> set (drop (p + 15) hdr). \<not> isspace c))"

definition header_length :: "bytes \<Rightarrow> int" where
  "header_length hdr = snd (http_parse_header hdr (-1))"

lemma header_ok_end:
  assumes "strstr hdr CRLF2 = Some (length hdr - 4)"
  shows "4 \<le> length hdr" and "drop (length hdr - 4) hdr = CRLF2"
  using strstr_Some [OF assms] by auto

lemma content_length_chars: "length CONTENT_LENGTH = 15" "0x0d \<notin> set (map tolower CONTENT_LENGTH)"
  by code_simp+

text \<open>The field name cannot reach over the end of a line.\<close>

lemma field_inside:
  assumes "strncasecmp_eq (drop p s) CONTENT_LENGTH 15" and "p \<le> e" and "e < length s" and "s ! e = 0x0d"
  shows "p + 15 \<le> e"
proof (rule ccontr)
  assume "\<not> p + 15 \<le> e"
  then have "s ! e \<in> set (take 15 (drop p s))"
    using assms by (auto simp: in_set_conv_nth intro!: exI [of _ "e - p"])
  then have "tolower (s ! e) \<in> set (map tolower (take 15 (drop p s)))" by simp
  moreover have "map tolower (take 15 (drop p s)) = map tolower CONTENT_LENGTH"
    using assms(1) content_length_chars(1) by (simp add: strncasecmp_eq_def)
  moreover have "tolower (s ! e) = 0x0d" by (simp add: assms(4) tolower_def)
  ultimately have "0x0d \<in> set (map tolower CONTENT_LENGTH)" by (simp only:)
  then show False using content_length_chars(2) by simp
qed

lemma http_header_loop_append:
  assumes "header_ok hdr" and "e = length hdr - 4"
  shows "http_header_loop (hdr @ z) e p cl = http_header_loop hdr e p cl"
  using assms
proof (induction hdr e p cl rule: http_header_loop.induct)
  case (1 hdr e p cl)
  show ?case
  proof (cases "p < e")
    case False
    then show ?thesis by (simp add: http_header_loop.simps)
  next
    case True
    have h: "strstr hdr CRLF2 = Some (length hdr - 4)" using 1(2) by (simp add: header_ok_def)
    note len = header_ok_end [OF h]
    have d: "drop e hdr = CRLF2" using len(2) by (simp add: 1(3))
    have "e + 4 = length hdr" "hdr ! e = 0x0d" using nth_drop [of e hdr 0] len 1(3) by (simp_all add: d)
    then have e: "hdr ! e = 0x0d" "(hdr @ z) ! e = 0x0d" "e + 4 = length hdr" by (simp_all add: nth_append)
    have pz: "drop p (hdr @ z) = drop p hdr @ z" using True e(3) by simp
    have m: "strncasecmp_eq (drop p (hdr @ z)) CONTENT_LENGTH 15 \<longleftrightarrow> strncasecmp_eq (drop p hdr) CONTENT_LENGTH 15"
    proof (cases "p + 15 \<le> e")
      case True
      then have "take 15 (drop p (hdr @ z)) = take 15 (drop p hdr)" using e(3) by simp
      then show ?thesis by (simp only: strncasecmp_eq_def)
    next
      case False
      then show ?thesis
        using field_inside [of p "hdr @ z" e] field_inside [of p hdr e] e True by auto
    qed
    have t: "strtol (drop (p + 15) (hdr @ z)) = strtol (drop (p + 15) hdr)" if "strncasecmp_eq (drop p hdr) CONTENT_LENGTH 15"
    proof -
      have i: "p + 15 \<le> e" using field_inside [OF that, of e] e True by simp
      have "\<exists>c \<in> set (drop (p + 15) hdr). \<not> isspace c"
        using 1(2) that True e(3) by (simp add: header_ok_def)
      moreover have "last hdr = last (drop e hdr)" using e(3) by simp
      then have "last (drop (p + 15) hdr) = 0x0a" "drop (p + 15) hdr \<noteq> []" using d i e(3) by auto
      ultimately have "strtol (drop (p + 15) hdr @ z) = strtol (drop (p + 15) hdr)" by (intro strtol_append)
      then show ?thesis using i e(3) by simp
    qed
    have "take (length CRLF) (drop (e - p) (drop p hdr)) = CRLF" using True by (simp add: d)
    moreover have "e - p \<le> length (drop p hdr)" using e(3) True by simp
    ultimately obtain q where q: "strstr (drop p hdr) CRLF = Some q" using strstr_occurs by blast
    define cl' where "cl' = (if strncasecmp_eq (drop p hdr) CONTENT_LENGTH 15 then strtol (drop (p + 15) hdr) else cl)"
    have "(if strncasecmp_eq (drop p (hdr @ z)) CONTENT_LENGTH 15 then strtol (drop (p + 15) (hdr @ z)) else cl) = cl'"
      using m t by (simp only: cl'_def split: if_split) blast
    then have "http_header_loop (hdr @ z) e p cl = http_header_loop (hdr @ z) e (p + q + 2) cl'"
      using True strstr_append [OF q, of z] http_header_loop.simps [of "hdr @ z" e p cl] unfolding pz [symmetric] Let_def by (simp only: if_True option.case)
    moreover have "http_header_loop hdr e p cl = http_header_loop hdr e (p + q + 2) cl'"
      using True q http_header_loop.simps [of hdr e p cl] unfolding Let_def cl'_def [symmetric] by (simp only: if_True option.case)
    ultimately show ?thesis using 1(1) [OF True cl'_def q 1(2,3)] by (simp only:)
  qed
qed

lemma http_parse_header_complete:
  assumes "header_ok hdr"
  shows "http_parse_header (cstr (hdr @ z)) cl = (int (length hdr), header_length hdr)"
proof -
  have h: "strstr hdr CRLF2 = Some (length hdr - 4)" "0 \<notin> set hdr" using assms by (simp_all add: header_ok_def)
  have "4 \<le> length hdr" using header_ok_end(1) [OF h(1)] .
  then show ?thesis
    unfolding header_length_def http_parse_header_def cstr_append [OF h(2)] strstr_append [OF h(1)] h(1)
    using http_header_loop_append [OF assms refl] by simp
qed

lemma http_parse_header_partial:
  assumes "header_ok hdr" and "hdr = h @ y" and "y \<noteq> []"
  shows "http_parse_header (cstr h) cl = (-1, cl)"
proof -
  have h: "strstr hdr CRLF2 = Some (length hdr - 4)" "0 \<notin> set h" using assms by (auto simp: header_ok_def)
  have "strstr h CRLF2 = None"
  proof (rule ccontr)
    assume "strstr h CRLF2 \<noteq> None"
    then obtain q where q: "strstr h CRLF2 = Some q" by blast
    have "q = length hdr - 4" using strstr_append [OF q, of y] h(1) assms(2) by simp
    moreover have "q + 4 \<le> length h" using strstr_Some [OF q] by simp
    moreover have "length h < length hdr" using assms(2,3) by simp
    ultimately show False using header_ok_end(1) [OF h(1)] by linarith
  qed
  then show ?thesis by (simp add: http_parse_header_def cstr_id [OF h(2)])
qed

section \<open>Sending and storing\<close>

text \<open>Whatever parts the socket takes, all bytes go out once.\<close>

lemma write_all_sends:
  assumes "\<forall>n \<in> set ws. 0 < n" and "length data \<le> length ws"
  shows "\<exists>ws'. write_all ws data = Some (0, data, ws') \<and> set ws' \<subseteq> set ws \<and> length ws \<le> length ws' + length data"
  using assms
proof (induction ws data rule: write_all.induct)
  case (3 n ws c data)
  have "length (drop (nat n) (c # data)) \<le> length ws" "0 < nat n" using 3(2,3) by auto
  then obtain ws' where "write_all ws (drop (nat n) (c # data)) = Some (0, drop (nat n) (c # data), ws')" "set ws' \<subseteq> set ws"
    "length ws \<le> length ws' + length (drop (nat n) (c # data))"
    using 3(1) 3(2) by auto
  then show ?case using 3(2) \<open>0 < nat n\<close> by auto
qed auto

definition body_holds :: "bytes \<Rightarrow> bytes \<times> sha256_ctx \<times> int \<Rightarrow> bool" where
  "body_holds m b \<longleftrightarrow> fst b = m \<and> sha_holds m (fst (snd b)) \<and> sha_bitlen (fst (snd b)) = of_nat (8 * length m) \<and>
     snd (snd b) = int (length m)"

lemma body_holds_start: "body_holds [] ([], sha256_init sha256_zero, 0)"
  using sha256_init_holds by (simp add: body_holds_def)

lemma write_body_holds:
  assumes "\<forall>f x. fwr f x = (length x, f @ x)" and "body_holds m b"
  shows "\<exists>b'. write_body fwr x b = Some (0, b') \<and> body_holds (m @ x) b'"
proof (cases "x = []")
  case True
  then show ?thesis using assms(2) by (auto simp: write_body_def split: prod.splits)
next
  case False
  obtain f c t where b: "b = (f, c, t)" by (cases b)
  have h: "sha_holds m c" "sha_bitlen c = of_nat (8 * length m)" using assms(2) by (simp_all add: b body_holds_def)
  obtain c' where "sha256_update x c = Some c'" "sha_holds (m @ x) c'" "sha_bitlen c' = of_nat (8 * length m) + of_nat (8 * length x)"
    using sha256_update_holds [OF h] by blast
  then show ?thesis
    using assms False by (simp add: write_body_def b body_holds_def distrib_left)
qed

section \<open>The receive loop\<close>

lemma download_body:
  assumes "\<forall>f x. fwr f x = (length x, f @ x)" and "body_holds m (dl_body d)" and "dl_header_done d" and "\<forall>x \<in> set ps. x \<noteq> []"
  shows "\<exists>d'. download_loop fwr (map Some ps @ [Some []]) d = Some (Inr 0, d') \<and> body_holds (m @ concat ps) (dl_body d') \<and>
    dl_content_length d' = dl_content_length d"
  using assms(2-)
proof (induction ps arbitrary: m d)
  case (Cons x ps)
  obtain c buf where x: "x = c # buf" using Cons.prems by (cases x) auto
  obtain b where b: "write_body fwr x (dl_body d) = Some (0, b)" "body_holds (m @ x) b"
    using write_body_holds [OF assms(1) Cons.prems(1)] by blast
  then have "body_holds (m @ x) (dl_body (d\<lparr>dl_body := b\<rparr>))" by simp
  from Cons.IH [OF this] Cons.prems(2,3) show ?case
    using b(1) by (simp add: x)
qed simp

lemma download_header:
  assumes "\<forall>f x. fwr f x = (length x, f @ x)" and "header_ok hdr" and "length hdr \<le> 1024"
    and "hdr @ body = dl_hdrbuf d @ concat ps" and "length (dl_hdrbuf d) < length hdr"
    and "\<forall>x \<in> set ps. x \<noteq> [] \<and> length x \<le> 4096" and "\<not> dl_header_done d" and "body_holds [] (dl_body d)"
  shows "\<exists>d'. download_loop fwr (map Some ps @ [Some []]) d = Some (Inr 0, d') \<and> body_holds body (dl_body d') \<and>
    dl_content_length d' = header_length hdr"
  using assms(4-)
proof (induction ps arbitrary: d)
  case Nil
  then have "length hdr \<le> length (dl_hdrbuf d)" by (metis append_Nil2 concat.simps(1) length_append le_add1)
  then show ?case using Nil(2) by simp
next
  case (Cons x ps)
  define h where "h = dl_hdrbuf d @ x"
  obtain c buf where x: "x = c # buf" using Cons.prems by (cases x) auto
  have small: "\<not> 5120 \<le> length (dl_hdrbuf d) + length (c # buf)"
    using Cons.prems(2,3) assms(3) x by auto
  have eq: "hdr @ body = h @ concat ps" using Cons.prems(1) by (simp add: h_def)
  show ?case
  proof (cases "length h < length hdr")
    case True
    then obtain y where y: "hdr = h @ y" "y \<noteq> []"
      using eq by (auto simp: append_eq_append_conv2)
    have "download_loop fwr (map Some (x # ps) @ [Some []]) d = download_loop fwr (map Some ps @ [Some []]) (d\<lparr>dl_hdrbuf := h\<rparr>)"
      using http_parse_header_partial [OF assms(2) y] small Cons.prems(4) by (simp add: x h_def Let_def)
    then show ?thesis
      using Cons.IH [of "d\<lparr>dl_hdrbuf := h\<rparr>"] eq True Cons.prems by simp
  next
    case False
    then obtain b1 where b1: "h = hdr @ b1" "body = b1 @ concat ps"
      using eq by (auto simp: append_eq_append_conv2)
    obtain b where b: "write_body fwr b1 (dl_body d) = Some (0, b)" "body_holds b1 b"
      using write_body_holds [OF assms(1) Cons.prems(5), of b1] by auto
    define d' where "d' = d\<lparr>dl_hdrbuf := h, dl_content_length := header_length hdr, dl_header_done := True, dl_body := b\<rparr>"
    have "download_loop fwr (map Some (x # ps) @ [Some []]) d = download_loop fwr (map Some ps @ [Some []]) d'"
      using http_parse_header_complete [OF assms(2), of b1, folded b1(1)] small Cons.prems(4) b(1)
        arg_cong [OF b1(1), of "drop (length hdr)"]
      by (simp add: x h_def Let_def d'_def)
    moreover have "body_holds b1 (dl_body d')" "dl_header_done d'" "dl_content_length d' = header_length hdr"
      using b(2) by (simp_all add: d'_def)
    ultimately show ?thesis
      using download_body [OF assms(1), of b1 d' ps] Cons.prems(3) b1(2) by simp
  qed
qed

definition hexdigest :: "bytes \<Rightarrow> bytes" where
  "hexdigest m = butlast (sha256_hex (fips_sha256 m))"

lemma body_final:
  assumes "body_holds m b"
  shows "\<exists>ctx. sha256_final (fst (snd b)) = Some (ctx, fips_sha256 m)" and "fst b = m" and "snd (snd b) = int (length m)"
  using sha256_final_holds [of m "fst (snd b)"] assms by (simp_all add: body_holds_def)

text \<open>
  Property C8. A download whose header is complete and at most 1024 bytes long ends with a verdict that does not depend on how the
  network cuts the response into reads: the file holds exactly the body, the request went out whole however the socket split it, and
  the exit code compares the length of the body with the \<open>Content-Length\<close> of the header and its FIPS 180-4 digest with the expected
  one. The environment behaves as documented: every write takes at least a byte, \<open>fwrite\<close> appends, reads deliver 1 to 4096 bytes.
\<close>

theorem download_any_cut:
  assumes argv: "length argv \<in> {3, 4}" "length (argv ! 1) < 50" "length (argv ! 2) < 6"
    and net: "env_getaddrinfo env (argv ! 1) (argv ! 2) = (0, addr # rest)" "env_connect env addr \<noteq> -1"
    and wr: "\<forall>n \<in> set (env_writes env). 0 < n" "length (http_request (argv ! 1) (argv ! 2)) \<le> length (env_writes env)"
    and disk: "env_fopen env" "\<forall>f x. env_fwrite env f x = (length x, f @ x)"
    and rd: "env_reads env = map Some ps @ [Some []]" "\<forall>x \<in> set ps. x \<noteq> [] \<and> length x \<le> 4096" "concat ps = hdr @ body"
    and hdr: "header_ok hdr" "length hdr \<le> 1024"
  shows "run_download env argv = Some (verify_result (int (length body)) (header_length hdr) (hexdigest body)
      (if length argv = 4 then take 64 (argv ! 3) else []),
    \<lparr>out_sent = http_request (argv ! 1) (argv ! 2), out_file = body, out_sock = False, out_fp = False\<rparr>)"
proof -
  define d0 where "d0 = \<lparr>dl_hdrbuf = [], dl_header_done = False, dl_content_length = -1, dl_body = ([], sha256_init sha256_zero, 0)\<rparr>"
  have "hdr \<noteq> []" using hdr(1) header_ok_end(1) by (force simp: header_ok_def)
  then obtain d where d: "download_loop (env_fwrite env) (map Some ps @ [Some []]) d0 = Some (Inr 0, d)" "body_holds body (dl_body d)"
    "dl_content_length d = header_length hdr"
    using download_header [OF disk(2) hdr, of body d0 ps] rd body_holds_start by (auto simp: d0_def)
  obtain ws' where w: "write_all (env_writes env) (http_request (argv ! 1) (argv ! 2)) = Some (0, http_request (argv ! 1) (argv ! 2), ws')"
    using write_all_sends [OF wr] by blast
  obtain c where f: "sha256_final (fst (snd (dl_body d))) = Some (c, fips_sha256 body)" using body_final(1) [OF d(2)] by blast
  show ?thesis
    unfolding run_download_def Let_def net(1) rd(1) d0_def [symmetric] w d(1)
    using argv(2,3) net(2) disk(1) f d(3) body_final(2,3) [OF d(2)]
    by (simp add: strnlen_def w d(1) app_start_def cstr_hex hexdigest_def)
qed

text \<open>A header in two reads: what is left of the buffer decides, although the header itself may be far smaller than the buffer.\<close>

lemma download_header_limit:
  assumes "strstr (cstr x) CRLF2 = None" and "x \<noteq> []" and "length x < 5120" and "y \<noteq> []" and "5120 \<le> length x + length y"
    and "\<not> dl_header_done d" and "dl_hdrbuf d = []"
  shows "\<exists>d'. download_loop fwr (Some x # Some y # rs) d = Some (Inl 1, d')"
  using assms by (cases x; cases y) (auto simp: Let_def http_parse_header_def)

section \<open>Upload\<close>

lemma dec_digits_length: "n < 10 ^ k \<Longrightarrow> 0 < k \<Longrightarrow> length (dec_digits n) \<le> k"
proof (induction k arbitrary: n)
  case (Suc k)
  show ?case
  proof (cases "n < 10")
    case False
    have "n < 10 ^ k * 10" using Suc.prems(1) by (simp add: ac_simps)
    then have "n div 10 < 10 ^ k" "0 < k" using False by (simp add: less_mult_imp_div_less, cases k) simp_all
    then show ?thesis using Suc.IH False by (simp add: dec_digits.simps [of n])
  qed (simp add: dec_digits.simps)
qed simp

lemma dec_digit: "n < 10 \<Longrightarrow> isdigit (0x30 + of_nat n) \<and> uint ((0x30 + of_nat n :: u8) - 0x30) = int n"
proof -
  assume "n < 10"
  then have "n \<in> set [0..<10]" by simp
  moreover have "list_all (\<lambda>n. isdigit (0x30 + of_nat n) \<and> uint ((0x30 + of_nat n :: u8) - 0x30) = int n) [0..<10]" by code_simp
  ultimately show ?thesis unfolding list_all_iff by blast
qed

lemma dec_digits_val: "list_all isdigit (dec_digits n) \<and> dec_digits n \<noteq> [] \<and> dec_val (dec_digits n) = int n"
proof (induction n rule: dec_digits.induct)
  case (1 n)
  have "10 * int (n div 10) + int (n mod 10) = int n" by presburger
  with 1 show ?case
    using dec_digit [of "n mod 10"] dec_digit [of n]
    by (auto simp: dec_digits.simps [of n] dec_val_def)
qed

text \<open>The size in the request line is the number \<open>strtol\<close> reads there.\<close>

lemma strtol_fmt_ld:
  assumes "0 \<le> i" and "i < 2 ^ 63"
  shows "strtol (fmt_ld i @ [0x0a]) = i"
proof -
  define ds where "ds = dec_digits (nat i)"
  have d: "list_all isdigit ds" "ds \<noteq> []" "dec_val ds = i" using dec_digits_val [of "nat i"] assms(1) by (simp_all add: ds_def)
  obtain c cs where c: "ds = c # cs" "isdigit c" using d(1,2) by (cases ds) auto
  have "\<not> isspace c" "c \<noteq> 0x2d" "c \<noteq> 0x2b" using c(2) by (auto simp: isspace_def isdigit_def word_le_nat_alt word_less_nat_alt)
  then have s: "dropWhile isspace (ds @ [0x0a]) = ds @ [0x0a]" "hd (ds @ [0x0a]) \<noteq> 0x2d" "hd (ds @ [0x0a]) \<noteq> 0x2b"
    by (simp_all add: c(1))
  have "takeWhile isdigit (ds @ [0x0a]) = ds" using d(1) by (simp add: list_all_iff isdigit_def takeWhile_append)
  then show ?thesis
    unfolding fmt_ld_def ds_def [symmetric] strtol_def Let_def using s d(3) assms by (simp add: ds_def [symmetric])
qed

lemma upload_loop_sends:
  assumes "\<forall>n \<in> set ws. 0 < n" and "length (concat fs) \<le> length ws" and "\<forall>f \<in> set fs. f \<noteq> []"
    and "sha_holds m ctx" and "sha_bitlen ctx = of_nat (8 * length m)"
  shows "\<exists>ctx'. upload_loop fs ws ctx t = Some (0, concat fs, ctx', t + int (length (concat fs))) \<and>
    sha_holds (m @ concat fs) ctx' \<and> sha_bitlen ctx' = of_nat (8 * length (m @ concat fs))"
  using assms
proof (induction fs arbitrary: ws m ctx t)
  case (Cons f fs)
  obtain ws' where w: "write_all ws f = Some (0, f, ws')" "set ws' \<subseteq> set ws" "length ws \<le> length ws' + length f"
    using write_all_sends [OF Cons.prems(1), of f] Cons.prems(2) by auto
  obtain c where c: "sha256_update f ctx = Some c" "sha_holds (m @ f) c" "sha_bitlen c = of_nat (8 * length (m @ f))"
    using sha256_update_holds [OF Cons.prems(4,5)] by (auto simp: distrib_left)
  have "\<forall>n \<in> set ws'. 0 < n" "length (concat fs) \<le> length ws'" "\<forall>f \<in> set fs. f \<noteq> []"
    using w Cons.prems by auto
  from Cons.IH [OF this c(2,3), of "t + int (length f)"] show ?case
    using w(1) c(1) Cons.prems(3) by auto
qed simp

text \<open>The reply the client accepts: \<open>OK\<close>, the digest of what was sent in either case of letters, and anything after it.\<close>

definition upload_accepts :: "bytes \<Rightarrow> bytes \<Rightarrow> bool" where
  "upload_accepts file reply \<longleftrightarrow> take 3 (cstr reply) = lit ''OK '' \<and> map tolower (take 64 (drop 3 (cstr reply))) = hexdigest file"

lemma length_fips_sha256: "length (fips_sha256 m) = 32"
proof -
  have "length (concat (map be32 ws)) = 4 * length ws" for ws by (induction ws) (simp_all add: be32_def)
  then show ?thesis by (simp add: fips_sha256_def)
qed

lemma hexdigest_chars: "length (hexdigest m) = 64" "map tolower (hexdigest m) = hexdigest m"
proof -
  have "length (concat (map (\<lambda>b. [hexchars ! unat (drop_bit 4 b), hexchars ! unat (b AND 0x0f)]) hs)) = 2 * length hs" for hs :: bytes
    by (induction hs) simp_all
  then show "length (hexdigest m) = 64" 
    by (simp del: length_concat add: hexdigest_def sha256_hex_def length_fips_sha256)
  have "list_all (\<lambda>c. tolower c = c) hexchars" "length hexchars = 16" by code_simp+
  then have "tolower (hexchars ! i) = hexchars ! i" if "i < 16" for i using that by (simp add: list_all_length)
  then show "map tolower (hexdigest m) = hexdigest m"
    by (auto simp: hexdigest_def sha256_hex_def map_concat comp_def nibble_less cong: map_cong)
qed

text \<open>
  Property C15. An upload sends \<open>PUT\<close>, the size of the file in decimal and the bytes of the file, once and in order whatever parts the
  socket takes, and exits with 0 exactly when the reply is \<open>OK\<close> followed by the FIPS 180-4 digest of the file.
\<close>

theorem upload_verdict:
  assumes host: "length host < 50" "length port < 6" 
    and net: "env_getaddrinfo env host port = (0, addr # rest)" "env_connect env addr \<noteq> -1"
    and disk: "env_fopen env" "env_fsize env = int (length content)" "length content < 2 ^ 63"
      "env_freads env = ps" "concat ps = content" "\<forall>x \<in> set ps. x \<noteq> []"
    and wr: "\<forall>n \<in> set (env_writes env). 0 < n" "24 + length content \<le> length (env_writes env)"
    and rd: "env_reads env = Some reply # rs"
  shows "run_upload env host port = Some (if upload_accepts content reply then 0 else 1,
    \<lparr>out_sent = lit ''PUT '' @ fmt_ld (int (length content)) @ [0x0a] @ content, out_file = [], out_sock = False, out_fp = False\<rparr>)"
proof -
  define hd where "hd = lit ''PUT '' @ fmt_ld (int (length content)) @ [0x0a]"
  have "length (dec_digits (length content)) \<le> 19" using disk(3) by (intro dec_digits_length) simp_all
  then have hl: "length hd \<le> 24" by (simp add: hd_def fmt_ld_def lit_def)
  then have h: "take 63 hd = hd" by simp
  obtain ws' where w: "write_all (env_writes env) hd = Some (0, hd, ws')" "set ws' \<subseteq> set (env_writes env)"
    "length (env_writes env) \<le> length ws' + length hd"
    using write_all_sends [OF wr(1), of hd] wr(2) hl by auto
  have u: "\<forall>n \<in> set ws'. 0 < n" "length (concat ps) \<le> length ws'" using w wr hl disk(5) by auto
  obtain c where c: "upload_loop ps ws' (sha256_init sha256_zero) 0 = Some (0, content, c, int (length content))"
    "sha_holds content c" "sha_bitlen c = of_nat (8 * length content)"
    using upload_loop_sends [OF u disk(6) sha256_init_holds(1), of 0] sha256_init_holds(2) disk(5) by auto
  obtain c' where f: "sha256_final c = Some (c', fips_sha256 content)" using sha256_final_holds [OF c(2,3)] by blast
  have hex: "cstr (sha256_hex (fips_sha256 content)) = hexdigest content" by (simp add: cstr_hex hexdigest_def)
  have acc: "strncmp_eq (cstr reply) (lit ''OK '') 3 \<and> strncasecmp_eq (drop 3 (cstr reply)) (hexdigest content) 64 \<longleftrightarrow> upload_accepts content reply"
    using hexdigest_chars [of content] by (simp add: upload_accepts_def strncmp_eq_def strncasecmp_eq_def lit_def)
  have "reply = [] \<Longrightarrow> \<not> upload_accepts content reply" by (simp add: upload_accepts_def cstr_def lit_def)
  then show ?thesis
    unfolding run_upload_def Let_def net(1) disk(2,4) hd_def [symmetric] h
    using host net(2) disk(1) w(1) c(1) f rd acc
    by (auto simp: strnlen_def app_start_def hex hd_def)
qed

section \<open>Examples\<close>

definition curl_demo_header :: bytes where
  "curl_demo_header = lit ''HTTP/1.1 200 OK'' @ CRLF @ lit ''content-length: 3'' @ CRLF2"

definition curl_demo_digest :: bytes where
  "curl_demo_digest = lit ''BA7816BF8F01CFEA414140DE5DAE2223B00361A396177A9CB410FF61F20015AD''"

definition curl_demo_env :: "bytes option list \<Rightarrow> unit app_env" where
  "curl_demo_env rs = \<lparr>env_getaddrinfo = (\<lambda>_ _. (0, [()])), env_connect = (\<lambda>_. 0), env_writes = replicate 80 1, env_reads = rs,
     env_fopen = True, env_fwrite = (\<lambda>f x. (length x, f @ x)), env_fsize = 3, env_freads = [[0x61], [0x62, 0x63]]\<rparr>"

lemma curl_demo_hex: "map tolower curl_demo_digest = hexdigest [0x61, 0x62, 0x63]"
  unfolding hexdigest_def sha256_abc by code_simp

lemma curl_demo_header_fields:
  "list_all (\<lambda>p. strncasecmp_eq (drop p curl_demo_header) CONTENT_LENGTH 15 \<longrightarrow>
     list_ex (\<lambda>c. \<not> isspace c) (drop (p + 15) curl_demo_header)) [0..<38]"
  by code_simp

lemma curl_demo_header_parse: "length curl_demo_header = 38" "strstr curl_demo_header CRLF2 = Some 34"
  "list_all (\<lambda>c. c \<noteq> 0) curl_demo_header" "header_length curl_demo_header = 3" "curl_demo_header \<noteq> []"
  by code_simp+

lemma curl_demo_header_ok: "header_ok curl_demo_header"
  using curl_demo_header_fields curl_demo_header_parse unfolding header_ok_def list_all_iff list_ex_iff by auto

theorem download_any_cut_witness:
  "run_download (curl_demo_env (map Some [take 30 curl_demo_header, drop 30 curl_demo_header @ [0x61], [0x62, 0x63]] @ [Some []]))
     [lit ''curl-verify'', lit ''h'', lit ''80'', curl_demo_digest] =
   Some (0, \<lparr>out_sent = http_request (lit ''h'') (lit ''80''), out_file = [0x61, 0x62, 0x63], out_sock = False, out_fp = False\<rparr>)"
proof -
  define rs where "rs = [take 30 curl_demo_header, drop 30 curl_demo_header @ [0x61], [0x62, 0x63]]"
  have l: "length (http_request (lit ''h'') (lit ''80'')) \<le> 80" "length curl_demo_digest = 64" by code_simp+
  have d: "map tolower (hexdigest [0x61, 0x62, 0x63]) = map tolower curl_demo_digest"
    using hexdigest_chars(2) curl_demo_hex by simp
  show ?thesis
    using download_any_cut [of "[lit ''curl-verify'', lit ''h'', lit ''80'', curl_demo_digest]" "curl_demo_env (map Some rs @ [Some []])"
      "()" "[]" rs curl_demo_header "[0x61, 0x62, 0x63]"] l d curl_demo_header_ok curl_demo_header_parse
    by (simp add: curl_demo_env_def rs_def lit_def verify_result_def strcasecmp_eq_def)
qed

theorem upload_verdict_witness:
  "run_upload (curl_demo_env [Some (lit ''OK '' @ curl_demo_digest @ [0x0a])]) (lit ''h'') (lit ''80'') =
   Some (0, \<lparr>out_sent = lit ''PUT 3'' @ [0x0a, 0x61, 0x62, 0x63], out_file = [], out_sock = False, out_fp = False\<rparr>)"
proof -
  have r: "take 3 (cstr (lit ''OK '' @ curl_demo_digest @ [0x0a])) = lit ''OK ''"
    "take 64 (drop 3 (cstr (lit ''OK '' @ curl_demo_digest @ [0x0a]))) = curl_demo_digest" by code_simp+
  have "upload_accepts [0x61, 0x62, 0x63] (lit ''OK '' @ curl_demo_digest @ [0x0a])"
    unfolding upload_accepts_def r curl_demo_hex by simp
  then show ?thesis
    using upload_verdict [of "lit ''h''" "lit ''80''" "curl_demo_env [Some (lit ''OK '' @ curl_demo_digest @ [0x0a])]" "()" "[]"
      "[0x61, 0x62, 0x63]" "[[0x61], [0x62, 0x63]]" "lit ''OK '' @ curl_demo_digest @ [0x0a]" "[]"]
    by (simp add: curl_demo_env_def lit_def fmt_ld_def dec_digits.simps)
qed

end
