(* ===== verification/Test_Apps.thy ===== *)
theory Test_Apps
  imports Curl_Verify
begin

text \<open>
  The other test programs under \<open>apps/\<close>: the forking echo server of \<open>apps/tcp\<close> with its dump file, the two servers that echo one
  connection, the UDP echo server and the plain HTTP clients. As in the client with verification, the answers of the operating
  system are the environment: schedules of results for \<open>read\<close>, \<open>write\<close>, \<open>accept\<close>, \<open>recvfrom\<close> and \<open>poll\<close>, where a schedule that runs out
  leaves the program blocked (\<open>None\<close>).
\<close>

section \<open>Echo servers\<close>

text \<open>The loop that writes back a buffer; unlike \<open>write_all\<close> only a negative result is an error, and a write of nothing is repeated.\<close>

fun echo_write :: "int list \<Rightarrow> bytes \<Rightarrow> (int \<times> bytes \<times> int list) option" where
  "echo_write ws [] = Some (0, [], ws)"
| "echo_write [] (_ # _) = None"
| "echo_write (n # ws) (c # data) =
    (if n < 0 then Some (-1, [], ws)
     else map_option (\<lambda>(r, out, ws). (r, take (nat n) (c # data) @ out, ws)) (echo_write ws (drop (nat n) (c # data))))"

definition dump_recv_data :: "int \<Rightarrow> int list \<Rightarrow> bytes \<Rightarrow> (int \<times> bytes \<times> int list) option" where
  "dump_recv_data dump_fd ws buf = (if dump_fd < 0 then Some (0, [], ws) else echo_write ws buf)"

text \<open>Bytes echoed, bytes dumped, whether the dump file and the connection are still open.\<close>

record echo_out =
  eo_sent :: bytes
  eo_dump :: bytes
  eo_dump_open :: bool
  eo_open :: bool

text \<open>\<open>Inl\<close> is a return of \<open>echo_task\<close>, \<open>Inr\<close> an \<open>exit\<close>.\<close>

fun echo_task_loop :: "int \<Rightarrow> bytes option list \<Rightarrow> int list \<Rightarrow> int list \<Rightarrow> echo_out \<Rightarrow> ((int + int) \<times> echo_out) option" where
  "echo_task_loop dump_fd [] ws ds o0 = None"
| "echo_task_loop dump_fd (None # rs) ws ds o0 = Some (Inr 0, o0\<lparr>eo_dump_open := False, eo_open := False\<rparr>)"
| "echo_task_loop dump_fd (Some buf # rs) ws ds o0 =
    (if buf = [] then Some (Inr 0, o0\<lparr>eo_dump_open := False, eo_open := False\<rparr>)
     else do {
       (_, dumped, ds) \<leftarrow> dump_recv_data dump_fd ds buf;
       (r, out, ws) \<leftarrow> echo_write ws buf;
       let o0 = o0\<lparr>eo_sent := eo_sent o0 @ out, eo_dump := eo_dump o0 @ dumped\<rparr>;
       if r < 0 then Some (Inl (-1), o0\<lparr>eo_dump_open := False, eo_open := False\<rparr>)
       else echo_task_loop dump_fd rs ws ds o0
     })"

text \<open>\<open>dump_fd\<close> is what \<open>open("test.txt", ...)\<close> returned.\<close>

definition echo_task :: "int \<Rightarrow> bytes option list \<Rightarrow> int list \<Rightarrow> int list \<Rightarrow> ((int + int) \<times> echo_out) option" where
  "echo_task dump_fd rs ws ds =
    echo_task_loop dump_fd rs ws ds \<lparr>eo_sent = [], eo_dump = [], eo_dump_open = (0 \<le> dump_fd), eo_open = True\<rparr>"

text \<open>The accept loop as one process sees it: results of \<open>accept\<close> and \<open>fork\<close>, then what the connection does in a child. The result
  is the exit code and the connections this process served.\<close>

record conn_env =
  ce_dump_fd :: int
  ce_reads :: "bytes option list"
  ce_writes :: "int list"
  ce_dwrites :: "int list"

fun accept_loop :: "(int \<times> int \<times> conn_env) list \<Rightarrow> (int \<times> echo_out list) option" where
  "accept_loop [] = None"
| "accept_loop ((acceptFd, pid, ce) # evs) =
    (if acceptFd < 0 then Some (0, [])
     else if pid = 0 then
       (case echo_task (ce_dump_fd ce) (ce_reads ce) (ce_writes ce) (ce_dwrites ce) of
          None \<Rightarrow> None
        | Some (Inr code, o1) \<Rightarrow> Some (code, [o1])
        | Some (Inl _, o1) \<Rightarrow> map_option (\<lambda>(code, os). (code, o1 # os)) (accept_loop evs))
     else accept_loop evs)"

definition tcp_server_main ::
  "bytes list \<Rightarrow> int \<times> 'a list \<Rightarrow> int \<Rightarrow> int \<Rightarrow> (int \<times> int \<times> conn_env) list \<Rightarrow> (int \<times> echo_out list) option" where
  "tcp_server_main argv gai bind_ret listen_ret evs =
    (if length argv \<noteq> 3 \<or> strnlen (argv ! 1) 50 = 50 then Some (1, [])
     else if strnlen (argv ! 2) 6 = 6 then Some (1, [])
     else case get_address gai of
       Inl code \<Rightarrow> Some (code, [])
     | Inr (_, None) \<Rightarrow> Some (1, [])
     | Inr (_, Some _) \<Rightarrow>
         if bind_ret < 0 then Some (1, [])
         else if listen_ret < 0 then Some (1, [])
         else accept_loop evs)"

text \<open>The servers for one connection.\<close>

fun server_loop :: "bytes option list \<Rightarrow> int list \<Rightarrow> (int \<times> bytes) option" where
  "server_loop [] ws = None"
| "server_loop (None # rs) ws = Some (0, [])"
| "server_loop (Some buf # rs) ws =
    (if buf = [] then Some (0, [])
     else do {
       (r, out, ws) \<leftarrow> echo_write ws buf;
       if r < 0 then Some (1, out)
       else map_option (\<lambda>(code, out'). (code, out @ out')) (server_loop rs ws)
     })"

record server_env =
  se_gai :: int
  se_socket :: int
  se_bind :: int
  se_listen :: int
  se_accept :: int
  se_reads :: "bytes option list"
  se_writes :: "int list"

definition server_accept :: "server_env \<Rightarrow> (int \<times> bytes) option" where
  "server_accept e =
    (if se_bind e < 0 then Some (1, [])
     else if se_listen e < 0 then Some (1, [])
     else if se_accept e < 0 then Some (1, [])
     else server_loop (se_reads e) (se_writes e))"

definition server_main :: "bytes list \<Rightarrow> server_env \<Rightarrow> (int \<times> bytes) option" where
  "server_main argv e =
    (if length argv \<noteq> 3 then Some (1, [])
     else if se_gai e \<noteq> 0 then Some (1, [])
     else if se_socket e < 0 then Some (1, [])
     else server_accept e)"

text \<open>\<open>atoi(s)\<close> as \<open>(int) strtol(s, NULL, 10)\<close>.\<close>

definition atoi :: "bytes \<Rightarrow> int" where
  "atoi s = sint (word_of_int (strtol s) :: u32)"

definition server6_main :: "bytes list \<Rightarrow> server_env \<Rightarrow> (int \<times> bytes) option" where
  "server6_main argv e =
    (if length argv \<noteq> 2 then Some (1, [])
     else
       (let port = atoi (argv ! 1) in
        if port \<le> 0 \<or> 65535 < port then Some (1, [])
        else if se_socket e < 0 then Some (1, [])
        else server_accept e))"

text \<open>The UDP server: results of \<open>recvfrom\<close> with the sender, of \<open>sendto\<close>; what it sent and to whom.\<close>

fun udp_server_loop :: "(bytes \<times> 'a) option list \<Rightarrow> int list \<Rightarrow> (int \<times> (bytes \<times> 'a) list) option" where
  "udp_server_loop [] ws = None"
| "udp_server_loop (None # rs) ws = Some (0, [])"
| "udp_server_loop (Some (buf, src) # rs) ws =
    (if buf = [] then Some (0, [])
     else case ws of
       [] \<Rightarrow> None
     | n # ws \<Rightarrow>
         if n \<noteq> int (length buf) then Some (1, [])
         else map_option (\<lambda>(code, out). (code, (buf, src) # out)) (udp_server_loop rs ws))"

text \<open>\<open>junk\<close> is the exit code after the \<open>return;\<close> without a value on a failed \<open>bind\<close>.\<close>

definition udp_server_main ::
  "int \<Rightarrow> bytes list \<Rightarrow> int \<times> 'a list \<Rightarrow> int \<Rightarrow> (bytes \<times> 'a) option list \<Rightarrow> int list \<Rightarrow> (int \<times> (bytes \<times> 'a) list) option" where
  "udp_server_main junk argv gai bind_ret rs ws =
    (if length argv \<noteq> 3 \<or> strnlen (argv ! 1) 50 = 50 then Some (1, [])
     else if strnlen (argv ! 2) 6 = 6 then Some (1, [])
     else case get_address gai of
       Inl code \<Rightarrow> Some (code, [])
     | Inr (_, None) \<Rightarrow> Some (1, [])
     | Inr (_, Some _) \<Rightarrow> if bind_ret < 0 then Some (junk, []) else udp_server_loop rs ws)"

section \<open>Echo\<close>

lemma echo_write_all:
  assumes "\<forall>n \<in> set ws. 0 < n" and "length data \<le> length ws"
  shows "\<exists>ws'. echo_write ws data = Some (0, data, ws') \<and> set ws' \<subseteq> set ws \<and> length ws \<le> length ws' + length data"
proof -
  have "echo_write ws data = write_all ws data" using assms(1)
    by (induction ws data rule: write_all.induct) auto
  then show ?thesis using write_all_sends [OF assms] by simp
qed

lemma echo_task_loop_streams:
  assumes "\<forall>n \<in> set ws \<union> set ds. 0 < n" and "length (concat ps) \<le> length ws" and "length (concat ps) \<le> length ds"
    and "\<forall>x \<in> set ps. x \<noteq> []" and "0 \<le> dump_fd"
  shows "echo_task_loop dump_fd (map Some ps @ [Some []]) ws ds o0 =
    Some (Inr 0, o0\<lparr>eo_sent := eo_sent o0 @ concat ps, eo_dump := eo_dump o0 @ concat ps, eo_dump_open := False, eo_open := False\<rparr>)"
  using assms(1-4)
proof (induction ps arbitrary: ws ds o0)
  case (Cons x ps)
  obtain ws' where w: "echo_write ws x = Some (0, x, ws')" "set ws' \<subseteq> set ws" "length ws \<le> length ws' + length x"
    using echo_write_all [of ws x] Cons.prems by auto
  obtain ds' where d: "echo_write ds x = Some (0, x, ds')" "set ds' \<subseteq> set ds" "length ds \<le> length ds' + length x"
    using echo_write_all [of ds x] Cons.prems by auto
  have "\<forall>n \<in> set ws' \<union> set ds'. 0 < n" "length (concat ps) \<le> length ws'" "length (concat ps) \<le> length ds'" "\<forall>x \<in> set ps. x \<noteq> []"
    using w d Cons.prems by auto
  from Cons.IH [OF this] show ?case
    using w(1) d(1) Cons.prems(4) assms(5) by (simp add: dump_recv_data_def)
qed simp

text \<open>
  In a child of the echo server, however the stream is cut into reads and however little each write takes, every byte
  received is written back once and in order and the dump file holds the same stream; the child then exits with both descriptors
  closed.
\<close>

lemma echo_server_child:
  assumes "\<forall>n \<in> set (ce_writes ce) \<union> set (ce_dwrites ce). 0 < n" and "length data \<le> length (ce_writes ce)"
    and "length data \<le> length (ce_dwrites ce)" and "0 \<le> ce_dump_fd ce"
    and "ce_reads ce = map Some ps @ [Some []]" and "concat ps = data" and "\<forall>x \<in> set ps. x \<noteq> []" and "0 \<le> fd"
  shows "accept_loop ((fd, 0, ce) # evs) = Some (0, [\<lparr>eo_sent = data, eo_dump = data, eo_dump_open = False, eo_open = False\<rparr>])"
  using echo_task_loop_streams [OF assms(1) _ _ assms(7,4)] assms(2,3,5,6,8) by (simp add: echo_task_def)

lemma echo_server_child_example:
  "accept_loop [(5, 0, \<lparr>ce_dump_fd = 3, ce_reads = [Some [1, 2], Some [3], Some []], ce_writes = [1, 1, 1], ce_dwrites = [2, 7, 1]\<rparr>)] =
    Some (0, [\<lparr>eo_sent = [1, 2, 3], eo_dump = [1, 2, 3], eo_dump_open = False, eo_open = False\<rparr>])"
  using echo_server_child [of "\<lparr>ce_dump_fd = 3, ce_reads = [Some [1, 2], Some [3], Some []], ce_writes = [1, 1, 1], ce_dwrites = [2, 7, 1]\<rparr>"
    "[1, 2, 3]" "[[1, 2], [3]]" 5 "[]"] by simp

text \<open>A child whose write fails does not exit: it comes back to the accept loop beside its parent.\<close>

lemma echo_server_child_survives:
  assumes "echo_task (ce_dump_fd ce) (ce_reads ce) (ce_writes ce) (ce_dwrites ce) = Some (Inl r, o1)" and "0 \<le> fd"
  shows "accept_loop ((fd, 0, ce) # evs) = map_option (\<lambda>(code, os). (code, o1 # os)) (accept_loop evs)"
  using assms by simp

lemma server_loop_streams:
  assumes "\<forall>n \<in> set ws. 0 < n" and "length (concat ps) \<le> length ws" and "\<forall>x \<in> set ps. x \<noteq> []"
  shows "server_loop (map Some ps @ [Some []]) ws = Some (0, concat ps)"
  using assms
proof (induction ps arbitrary: ws)
  case (Cons x ps)
  obtain ws' where w: "echo_write ws x = Some (0, x, ws')" "set ws' \<subseteq> set ws" "length ws \<le> length ws' + length x"
    using echo_write_all [of ws x] Cons.prems by auto
  have "\<forall>n \<in> set ws'. 0 < n" "length (concat ps) \<le> length ws'" "\<forall>x \<in> set ps. x \<noteq> []"
    using w Cons.prems by auto
  from Cons.IH [OF this] show ?case using w(1) Cons.prems(3) by simp
qed simp

section \<open>HTTP clients\<close>

text \<open>\<open>read(sock, buf, RLEN)\<close> into a buffer that keeps what stood there, \<open>printf("%s", buf)\<close>. A string without terminator in the
  buffer is read past its end, which is recorded.\<close>

record curl_out =
  cu_sent :: bytes
  cu_printed :: bytes
  cu_overread :: bool

definition print_buf :: "bytes \<Rightarrow> curl_out \<Rightarrow> curl_out" where
  "print_buf buf o1 = o1\<lparr>cu_printed := cu_printed o1 @ cstr buf, cu_overread := cu_overread o1 \<or> 0 \<notin> set buf\<rparr>"

fun curl_loop :: "bytes option list \<Rightarrow> bytes \<Rightarrow> curl_out \<Rightarrow> (int \<times> curl_out) option" where
  "curl_loop [] buf o1 = None"
| "curl_loop (None # rs) buf o1 = Some (1, o1)"
| "curl_loop (Some x # rs) buf o1 =
    (if x = [] then Some (0, o1)
     else curl_loop rs (put_bytes 0 x buf) (print_buf (put_bytes 0 x buf) o1))"

definition curl_main :: "'a app_env \<Rightarrow> bytes list \<Rightarrow> (int \<times> curl_out) option" where
  "curl_main env argv =
    (let o0 = \<lparr>cu_sent = [], cu_printed = [], cu_overread = False\<rparr> in
     if length argv \<noteq> 3 \<or> strnlen (argv ! 1) 50 = 50 then Some (1, o0)
     else if strnlen (argv ! 2) 6 = 6 then Some (1, o0)
     else case get_address (env_getaddrinfo env (argv ! 1) (argv ! 2)) of
       Inl code \<Rightarrow> Some (code, o0)
     | Inr (_, None) \<Rightarrow> Some (1, o0)
     | Inr (_, Some addr) \<Rightarrow>
         if env_connect env addr = -1 then Some (1, o0)
         else
           (let str = http_request (argv ! 1) (argv ! 2) in
            case env_writes env of
              [] \<Rightarrow> None
            | n # _ \<Rightarrow>
                (let o0 = o0\<lparr>cu_sent := take (nat n) str\<rparr> in
                 if n \<noteq> int (length str) then Some (1, o0)
                 else curl_loop (env_reads env) (replicate 4096 0) o0)))"

text \<open>\<open>apps/curl-v6\<close> tries every address and clears the buffer after each read.\<close>

fun curl6_loop :: "bytes option list \<Rightarrow> curl_out \<Rightarrow> (int \<times> curl_out) option" where
  "curl6_loop [] o1 = None"
| "curl6_loop (None # rs) o1 = Some (0, o1)"
| "curl6_loop (Some x # rs) o1 =
    (if x = [] then Some (0, o1)
     else curl6_loop rs (print_buf (put_bytes 0 x (replicate 4096 0)) o1))"

fun curl6_connect :: "('a \<Rightarrow> int) \<Rightarrow> ('a \<Rightarrow> int) \<Rightarrow> 'a list \<Rightarrow> int" where
  "curl6_connect sk cn [] = -1"
| "curl6_connect sk cn (rp # rps) =
    (if sk rp = -1 then curl6_connect sk cn rps
     else if cn rp = 0 then sk rp
     else curl6_connect sk cn rps)"

definition http_request6 :: "bytes \<Rightarrow> bytes \<Rightarrow> bytes" where
  "http_request6 host port = take 511 (lit ''GET / HTTP/1.1'' @ CRLF @ lit ''Host: ['' @ host @ lit '']:'' @ port @ CRLF @
     lit ''Connection: close'' @ CRLF @ CRLF)"

definition curl6_main :: "'a app_env \<Rightarrow> ('a \<Rightarrow> int) \<Rightarrow> bytes list \<Rightarrow> (int \<times> curl_out) option" where
  "curl6_main env sk argv =
    (let o0 = \<lparr>cu_sent = [], cu_printed = [], cu_overread = False\<rparr> in
     if length argv \<noteq> 3 \<or> strnlen (argv ! 1) 50 = 50 then Some (1, o0)
     else if strnlen (argv ! 2) 6 = 6 then Some (1, o0)
     else case env_getaddrinfo env (argv ! 1) (argv ! 2) of (s, result) \<Rightarrow>
       if s \<noteq> 0 then Some (1, o0)
       else if curl6_connect sk (env_connect env) result < 0 then Some (1, o0)
       else
         (let str = http_request6 (argv ! 1) (argv ! 2) in
          case env_writes env of
            [] \<Rightarrow> None
          | n # _ \<Rightarrow>
              (let o0 = o0\<lparr>cu_sent := take (nat n) str\<rparr> in
               if n \<noteq> int (length str) then Some (1, o0) else curl6_loop (env_reads env) o0)))"

text \<open>\<open>apps/curl-poll\<close>: each round has the result of \<open>poll\<close>, \<open>revents\<close> and what a read then delivers; the buffer is fresh.\<close>

fun curl_poll_loop :: "(int \<times> u16 \<times> bytes option) list \<Rightarrow> curl_out \<Rightarrow> (int \<times> curl_out) option" where
  "curl_poll_loop [] o1 = None"
| "curl_poll_loop ((ret, revents, rd) # evs) o1 =
    (if ret < 0 then Some (1, o1)
     else
       (let hup = (revents AND 0x18 \<noteq> 0) in
        if revents AND 1 \<noteq> 0 then
          (case rd of
             None \<Rightarrow> Some (1, o1)
           | Some x \<Rightarrow>
               if x = [] then Some (0, o1)
               else
                 (let o1 = print_buf (put_bytes 0 x (replicate 4096 0)) o1 in
                  if hup then Some (0, o1) else curl_poll_loop evs o1))
        else if hup then Some (0, o1)
        else curl_poll_loop evs o1))"

text \<open>\<open>sk_errno\<close> is \<open>errno\<close> after \<open>connect\<close>; a failed \<open>assert\<close> aborts, with the exit status 134 of the signal.\<close>

definition curl_poll_main ::
  "'a app_env \<Rightarrow> int \<Rightarrow> int \<Rightarrow> int \<times> u16 \<Rightarrow> (int \<times> u16 \<times> bytes option) list \<Rightarrow> bytes list \<Rightarrow> (int \<times> curl_out) option" where
  "curl_poll_main env fcntl_ret sk_errno pollout evs argv =
    (let o0 = \<lparr>cu_sent = [], cu_printed = [], cu_overread = False\<rparr> in
     if length argv \<noteq> 3 \<or> strnlen (argv ! 1) 50 = 50 then Some (1, o0)
     else if strnlen (argv ! 2) 6 = 6 then Some (1, o0)
     else case get_address (env_getaddrinfo env (argv ! 1) (argv ! 2)) of
       Inl code \<Rightarrow> Some (code, o0)
     | Inr (_, None) \<Rightarrow> Some (1, o0)
     | Inr (_, Some addr) \<Rightarrow>
         if fcntl_ret = -1 then Some (1, o0)
         else if env_connect env addr = -1 \<and> sk_errno \<noteq> EINPROGRESS then Some (1, o0)
         else if fst pollout < 1 then Some (1, o0)
         else if snd pollout AND 4 = 0 then Some (134, o0)
         else
           (let str = http_request (argv ! 1) (argv ! 2) in
            case env_writes env of
              [] \<Rightarrow> None
            | n # _ \<Rightarrow>
                (let o0 = o0\<lparr>cu_sent := take (nat n) str\<rparr> in
                 if n \<noteq> int (length str) then Some (1, o0) else curl_poll_loop evs o0)))"

text \<open>The clients print what stands in the buffer, not what was read.\<close>

lemma curl_prints_stale:
  assumes "x \<noteq> []" and "y \<noteq> []" and "length y < length x" and "length x < 4096" and "0 \<notin> set x" and "0 \<notin> set y"
  shows "\<exists>o2. curl_loop [Some x, Some y, Some []] (replicate 4096 0) o1 = Some (0, o2) \<and>
    cu_printed o2 = cu_printed o1 @ x @ y @ drop (length y) x"
proof -
  define z where "z = replicate (4096 - length x) (0 :: u8)"
  have a: "put_bytes 0 x (replicate 4096 0) = x @ z" by (simp add: put_bytes_def z_def)
  have b: "put_bytes 0 y (x @ z) = (y @ drop (length y) x) @ z" using assms(3) by (simp add: put_bytes_def)
  have z: "cstr z = []" using assms(4) by (auto simp: z_def cstr_def takeWhile_eq_Nil_iff hd_replicate)
  have "0 \<notin> set (y @ drop (length y) x)" using assms(5,6) by (auto dest: in_set_dropD)
  then have "cstr ((y @ drop (length y) x) @ z) = y @ drop (length y) x" "cstr (x @ z) = x"
    by (simp_all only: cstr_append assms(5) z not_False_eq_True append_Nil2)
  then show ?thesis using assms(1,2) by (simp add: a b [simplified] print_buf_def)
qed

end
