(* ===== verification/Spec2Isabelle.thy ===== *)
theory Spec2Isabelle
  imports Icmpv6_Error Ipv6_Addr Tcp_Checksum Ndp_Delivery Client_Poll App_Delivery Tcp_Open Process Socket_Table Test_Apps
begin

text \<open>
  A verification of level-ip, a TCP/IP stack in user space: ARP, IPv4, IPv6 with neighbour discovery and address
  configuration, ICMP, UDP and TCP on a tap device, with a library that redirects the socket calls of other
  programs to the stack. Paths are relative to the root of the repository's sources.

  \<^bold>\<open>The program.\<close> One thread reads frames from the tap device (\<open>netdev_rx_loop\<close>) and hands each up through ARP,
  IPv4 or IPv6 to ICMP, UDP or TCP. A second thread (\<open>timers_start\<close>) runs the timer list every 10 ms and starts a
  thread for each expired timer. A third accepts clients on a Unix socket, and one thread per client
  (\<open>socket_ipc_open\<close>) reads a request, makes the socket call and sends the answer. Output goes from TCP or UDP to
  \<open>ip_output\<close> or \<open>ipv6_output\<close>, through the routing table to the neighbour caches, and to the device, or waits in a
  queue until the neighbour is resolved.

  \<^bold>\<open>Conventions.\<close> Unsigned C integers are words of their width, signed ones are \<open>int\<close>. A buffer is a list of bytes
  with the positions of \<open>data\<close> and \<open>payload\<close>; packed structs are records with an encoder and a decoder that obey the
  laws of the locale \<open>packed_struct\<close>, and are read and written in the buffer. A write outside a buffer sets
  \<open>skb_oob\<close> or \<open>stack_oob\<close>, a null pointer access \<open>null_deref\<close>. The state grows along the dependencies as one
  extensible record: devices and frames sent, routes, ARP cache, neighbour cache, timers and address
  configuration, sockets. Critical sections are atomic. A call that sleeps takes from a schedule, a list of what
  other threads do to the state meanwhile; its result is \<open>None\<close> when the schedule is used up before it is
  woken. Results of the tap device, random sequence numbers and unknown memory are parameters. Memory allocation
  does not fail.

  \<^bold>\<open>Theories.\<close>
  \<^item> \<open>Prelude\<close>: words in byte order, byte memory, the locale of packed structs. \<open>Utils\<close> (\<open>src/utils.c\<close>): the
    Internet checksum and the hex dump; \<open>checksum_verifies\<close> shows that a stored checksum makes the buffer sum to zero.
  \<^item> \<open>List_Head\<close> (\<open>include/list.h\<close>): the circular list on an explicit store, refining operations on sequences.
    \<open>Skbuff\<close> (\<open>src/skbuff.c\<close>, \<open>include/skbuff.h\<close>): buffers and their queues; freeing a queue frees each buffer once.
  \<^item> \<open>Timer\<close> (\<open>src/timer.c\<close>): the timer list and its thread as a step relation; each handler starts at most once,
    never after it was cancelled, and exactly the expired timers fire in a round.
  \<^item> \<open>Net_Types\<close>, \<open>Netdev\<close> (\<open>src/netdev.c\<close>, \<open>src/tuntap_if.c\<close>), \<open>Route\<close> (\<open>src/route.c\<close>): devices, frames, the routing table;
    after start-up every IPv4 destination has a route, and IPv6 lookup is longest prefix match.
  \<^item> \<open>Arp\<close> (\<open>src/arp.c\<close>): an ARP packet leaves one resolved entry for its sender, and a request is answered.
  \<^item> \<open>Ip_Output\<close> (\<open>src/ip_output.c\<close>, \<open>src/dst.c\<close>): the frame that \<open>ip_output\<close> sends.
  \<^item> \<open>Ipv6_Types\<close>, \<open>Ipv6_Exthdr\<close>, \<open>Ipv6_Addr\<close> (\<open>include/ipv6.h\<close>, \<open>src/ipv6_exthdr.c\<close>, \<open>src/ipv6.c\<close>): the walk over extension
    headers decodes every chain of up to seven and stays inside the packet; printing and parsing of addresses.
  \<^item> \<open>Ndp_Msg\<close>, \<open>Ndp\<close>, \<open>Ndp_Input\<close>, \<open>Addrconf\<close> (\<open>include/ndp.h\<close>, \<open>include/icmpv6.h\<close>, \<open>src/ndp.c\<close>, \<open>src/ipv6_addrconf.c\<close>): messages
    and their layout, neighbour cache, duplicate address detection and lifetimes. \<open>Neighbour\<close>: the invariant of the cache, and that
    resolution sends what waited. \<open>Dad\<close>: detection completes from start-up, and is overtaken by an advertised prefix.
    \<open>Ndp_Delivery\<close>: two stacks, frame by frame; an unknown neighbour is found, and a conflict of addresses is not noticed.
  \<^item> \<open>Tcp_Types\<close>, \<open>Tcp_Timers\<close>, \<open>Tcp_Output\<close>, \<open>Tcp_Data\<close>, \<open>Tcp_Input\<close>, \<open>Tcp\<close> (\<open>include/tcp.h\<close>, \<open>src/tcp.c\<close>,
    \<open>src/tcp_output.c\<close>, \<open>src/tcp_data.c\<close>, \<open>src/tcp_input.c\<close>): the connection, its timers, output with options and
    retransmission, the receive and out-of-order queues, the processing of an arriving segment stage by stage, and the user's calls.
  \<^item> \<open>Tcp_Stream\<close>: reading refines reading from a byte stream, and a segment in order extends that
    stream. \<open>Tcp_Frame\<close>: what output leaves unchanged. \<open>Tcp_States\<close>: every transition by an arriving segment is an
    edge of RFC 793 or one of three abort edges. \<open>Tcp_Send\<close>: the invariant of the retransmission queue, what an
    acknowledgement removes, and that \<open>tcp_send\<close> returns. \<open>Tcp_Cong\<close>: bounds of the estimates and windows,
    options, stale timers. \<open>Tcp_Checksum\<close>: the checksum in two parts. \<open>Tcp_Open\<close>: opening a connection from both sides.
  \<^item> \<open>Socket\<close>, \<open>Inet\<close>, \<open>Udp\<close> (\<open>src/socket.c\<close>, \<open>src/sock.c\<close>, \<open>src/inet.c\<close>, \<open>src/inet6.c\<close>, \<open>src/udp*.c\<close>): sockets, their lookup,
    references and every socket call, and which datagrams overrun the hex dump. \<open>Socket_Table\<close>: in every reachable state the list of
    sockets is a map from process and descriptor, with the locale \<open>descriptor_table\<close> as its contract. \<open>Input\<close> (\<open>src/ip_input.c\<close>, \<open>src/ipv6_input.c\<close>,
    \<open>src/icmpv4.c\<close>, \<open>src/icmpv6.c\<close>, \<open>netdev_receive\<close>): the way of a frame upwards. \<open>Icmpv6_Error\<close>: where error messages are written.
  \<^item> \<open>Ip_Delivery\<close>, \<open>Udp_Delivery\<close>, \<open>Tcp_Receive\<close>, \<open>Tcp_Delivery\<close>, \<open>Tcp_Reorder\<close>: two stacks and the frames between them. A datagram
    arrives as it was sent; the text of \<open>tcp_send\<close> extends the stream of the receiver, whatever frames arrive in whatever order and
    however often by a prefix, and by all of it once every frame has arrived.
  \<^item> \<open>Ipc_Types\<close>, \<open>Ipc\<close> (\<open>include/ipc.h\<close>, \<open>src/ipc.c\<close>): messages and handlers. \<open>Liblevelip\<close>, \<open>Client_Poll\<close>
    (\<open>tools/liblevelip.c\<close>): the client's calls. The contract between them is the locale
    \<open>stack_exchange\<close>. Every request is answered; connect, write and read through messages are those of the stack.
    \<open>App_Delivery\<close>: from \<open>write\<close> in one application over messages, stacks and wire to \<open>read\<close> in another.
  \<^item> \<open>Boot\<close>, \<open>Process\<close> (\<open>src/main.c\<close>, \<open>src/cli.c\<close>, \<open>src/tuntap_if.c\<close>): start-up and shutdown of the stack, and of the process with
    its command line, tap device, threads and signals; after a stop signal it ends, and frees the stack only when three threads ended.
  \<^item> \<open>Sha256\<close>, \<open>Curl_Verify\<close>, \<open>Test_Apps\<close> (\<open>apps/\<close>): the client that checks downloads and uploads with its hash function, which
    refines FIPS 180-4, and the small servers and clients.

  \<^bold>\<open>Loops.\<close> Loops over lists are structural or have a measure. The walk over extension headers has the
  source's own limit of eight rounds. The loop of \<open>tcp_send\<close>, which runs forever when the segment size is 0, and that of the
  client's \<open>poll\<close> are partial functions; \<open>tcp_send_terminates\<close> shows that the first returns otherwise. A loop over events from outside
  (frames, clients, signals, reads) takes a list of them.

  \<^bold>\<open>Not modelled.\<close> Results of system calls and of libc are parameters; nothing is assumed of them but what a statement says. Output for
  debugging and error messages has no effect on the state. Locks are represented by atomicity, so that deadlocks, and threads that end
  while they hold a lock, are not expressed. Failure of memory allocation is not modelled. The order of the bytes of an integer is that
  of a little-endian machine. The lookups by \<open>dlsym\<close> of the client library only bind names.

  \<^bold>\<open>Limits.\<close> The deliveries over TCP are for IPv4 and for a window that is open during the call; retransmission after a loss is covered by
  the arrival of frames in any number and order, not by a run of both timers. Sequence numbers are taken not to wrap around within
  the text of one call, as the code compares them as plain numbers. Reference counts are part of the model, but that each socket is freed
  once is not stated.
\<close>

end
